(* ===== verification/Prelude.thy ===== *)
theory Prelude
  imports Main "HOL-Library.Char_ord" "HOL-Library.List_Lexorder" "HOL-Library.Product_Lexorder"
begin

text \<open>
  The part of the development every component shares: the collections of facts the
  component proofs run on, Go's fixed-width integers, the library functions of Go's
  \<open>strconv\<close>, \<open>fmt\<close> and \<open>strings\<close> packages the program calls, and
  a few facts on lists, maps and the option type.

  Go strings are byte sequences; the model's \<open>string\<close> is a list of 8-bit characters, and
  the order on it (\<open>Char_ord\<close>, \<open>List_Lexorder\<close>) is the byte-wise lexicographic order of
  Go's \<open><\<close> on strings and of Redis sorted-set members.
\<close>

named_theorems step_simps \<open>symbolic execution of the scripts: the monad and the command rules\<close>
named_theorems inv_intros \<open>preservation of the queue invariants\<close>

section \<open>Machine integers\<close>

text \<open>
  Go's \<open>int64\<close>, \<open>int\<close> (64 bits on the platforms the project builds for) and
  \<open>time.Duration\<close> are two's complement values. The model keeps them as \<open>int\<close> and
  writes the wrap-around of an operation out with \<open>i64\<close> where the code computes.
\<close>

definition i64 :: "int \<Rightarrow> int" where
  "i64 x = (x + 2 ^ 63) mod 2 ^ 64 - 2 ^ 63"

definition in_i64 :: "int \<Rightarrow> bool" where
  "in_i64 x \<longleftrightarrow> - (2 ^ 63) \<le> x \<and> x < 2 ^ 63"

lemma i64_in_range [simp]: "in_i64 (i64 x)"
  unfolding in_i64_def i64_def
  using pos_mod_bound [of "2 ^ 64 :: int" "x + 2 ^ 63"] pos_mod_sign [of "2 ^ 64 :: int" "x + 2 ^ 63"]
  by (simp del: pos_mod_bound pos_mod_sign)

lemma i64_id: "in_i64 x \<Longrightarrow> i64 x = x"
  unfolding in_i64_def i64_def by (simp add: mod_pos_pos_trivial)

lemma in_i64_small: "- (2 ^ 62) \<le> x \<Longrightarrow> x \<le> 2 ^ 62 \<Longrightarrow> in_i64 x"
  unfolding in_i64_def by simp

text \<open>Go's integer division and remainder truncate towards zero.\<close>

definition go_div :: "int \<Rightarrow> int \<Rightarrow> int" where
  "go_div a b = sgn a * sgn b * (\<bar>a\<bar> div \<bar>b\<bar>)"

definition go_mod :: "int \<Rightarrow> int \<Rightarrow> int" where
  "go_mod a b = a - b * go_div a b"

lemma go_div_nonneg: "0 \<le> a \<Longrightarrow> 0 < b \<Longrightarrow> go_div a b = a div b"
  by (cases "a = 0") (auto simp: go_div_def)

lemma go_mod_nonneg: "0 \<le> a \<Longrightarrow> 0 < b \<Longrightarrow> go_mod a b = a mod b"
  by (simp add: go_mod_def go_div_nonneg minus_mult_div_eq_mod)

section \<open>Decimal numerals\<close>

text \<open>\<open>fmt.Sprintf\<close> with \<open>%d\<close>: the decimal digits, a minus sign in front of a negative number.\<close>

fun digits_nat :: "nat \<Rightarrow> string" where
  "digits_nat n = (if n < 10 then [char_of (48 + n)] else digits_nat (n div 10) @ [char_of (48 + n mod 10)])"

declare digits_nat.simps [simp del]

definition show_int :: "int \<Rightarrow> string" where
  "show_int i = (if i < 0 then ''-'' @ digits_nat (nat (- i)) else digits_nat (nat i))"

text \<open>
  \<open>%0wd\<close>: zero-padded to \<open>w\<close> characters, the sign counted and kept in front of the padding.
\<close>

definition pad0 :: "nat \<Rightarrow> string \<Rightarrow> string" where
  "pad0 w s = replicate (w - length s) (CHR ''0'') @ s"

definition show_pad :: "nat \<Rightarrow> int \<Rightarrow> string" where
  "show_pad w i =
     (if i < 0 then ''-'' @ pad0 (w - 1) (digits_nat (nat (- i))) else pad0 w (digits_nat (nat i)))"

lemma digits_nat_nonempty [simp]: "digits_nat n \<noteq> []"
  by (subst digits_nat.simps) simp

lemma of_char_digit: "d < 10 \<Longrightarrow> of_char (char_of (48 + d)) = (48 + d :: nat)"
  by (simp add: of_char_of)

lemma digits_nat_range: "c \<in> set (digits_nat n) \<Longrightarrow> 48 \<le> (of_char c :: nat) \<and> (of_char c :: nat) < 58"
proof (induction n rule: digits_nat.induct)
  case (1 n)
  show ?case
  proof (cases "n < 10")
    case True
    with 1 show ?thesis by (subst (asm) digits_nat.simps) (auto simp: of_char_digit simp del: of_char_of)
  next
    case False
    have "n mod 10 < 10" by simp
    then have last: "of_char (char_of (48 + n mod 10)) = (48 + n mod 10 :: nat)" by (rule of_char_digit)
    from False 1(2) have "c \<in> set (digits_nat (n div 10)) \<or> c = char_of (48 + n mod 10)"
      by (subst (asm) digits_nat.simps) auto
    then show ?thesis
    proof
      assume "c \<in> set (digits_nat (n div 10))"
      with False 1(1) show ?thesis by simp
    next
      assume "c = char_of (48 + n mod 10)"
      with last \<open>n mod 10 < 10\<close> show ?thesis by (simp del: of_char_of)
    qed
  qed
qed

lemma bar_notin_digits [simp]: "CHR ''|'' \<notin> set (digits_nat n)"
  using digits_nat_range [of "CHR ''|''" n] by auto

lemma bar_notin_pad0 [simp]: "CHR ''|'' \<notin> set (pad0 w (digits_nat n))"
  by (simp add: pad0_def)

lemma bar_notin_show_pad [simp]: "CHR ''|'' \<notin> set (show_pad w i)"
  by (simp add: show_pad_def)

lemma bar_notin_show_int [simp]: "CHR ''|'' \<notin> set (show_int i)"
  by (simp add: show_int_def)

text \<open>
  \<open>strconv.ParseInt(s, 10, 64)\<close>: the value and whether the parse succeeded. On a syntax error the
  value is 0, out of range it is the nearest bound.
\<close>

definition is_digit :: "char \<Rightarrow> bool" where
  "is_digit c \<longleftrightarrow> 48 \<le> (of_char c :: nat) \<and> (of_char c :: nat) < 58"

definition digits_val :: "string \<Rightarrow> nat" where
  "digits_val s = foldl (\<lambda>v c. 10 * v + (of_char c - 48)) 0 s"

definition go_parse_int :: "string \<Rightarrow> int \<times> bool" where
  "go_parse_int s =
     (let neg = (case s of c # _ \<Rightarrow> c = CHR ''-'' | [] \<Rightarrow> False);
          ds = (case s of c # cs \<Rightarrow> if c = CHR ''-'' \<or> c = CHR ''+'' then cs else s | [] \<Rightarrow> []) in
      if ds = [] \<or> \<not> list_all is_digit ds then (0, False)
      else let v = (if neg then - int (digits_val ds) else int (digits_val ds)) in
        if v < - (2 ^ 63) then (- (2 ^ 63), False)
        else if 2 ^ 63 \<le> v then (2 ^ 63 - 1, False)
        else (v, True))"

lemma digits_val_snoc: "digits_val (s @ [c]) = 10 * digits_val s + (of_char c - 48)"
  by (simp add: digits_val_def)

lemma digits_val_nat [simp]: "digits_val (digits_nat n) = n"
proof (induction n rule: digits_nat.induct)
  case (1 n)
  show ?case
  proof (cases "n < 10")
    case True
    then show ?thesis by (subst digits_nat.simps) (simp add: digits_val_def of_char_digit del: of_char_of)
  next
    case False
    have "of_char (char_of (48 + n mod 10)) = (48 + n mod 10 :: nat)"
      by (rule of_char_digit) simp
    then show ?thesis using False 1 by (subst digits_nat.simps) (simp add: digits_val_snoc del: of_char_of)
  qed
qed

lemma digits_nat_digits [simp]: "list_all is_digit (digits_nat n)"
  using digits_nat_range by (auto simp: list_all_iff is_digit_def)

lemma digits_nat_no_sign: "digits_nat n = c # cs \<Longrightarrow> c \<noteq> CHR ''-'' \<and> c \<noteq> CHR ''+''"
  using digits_nat_digits [of n] by (auto simp: is_digit_def)

lemma parse_show_int: "in_i64 i \<Longrightarrow> go_parse_int (show_int i) = (i, True)"
proof -
  assume i: "in_i64 i"
  obtain c cs where "digits_nat (nat i) = c # cs"
    by (cases "digits_nat (nat i)") auto
  then show ?thesis
    using i digits_nat_no_sign [of "nat i" c cs] digits_nat_digits [of "nat i"] digits_val_nat [of "nat i"]
    by (auto simp: go_parse_int_def show_int_def in_i64_def Let_def)
qed

section \<open>Strings\<close>

text \<open>
  \<open>string.find(s, sep, 1, true)\<close> followed by \<open>string.sub\<close> in Lua, and the byte loop of Go:
  the part of \<open>s\<close> after the first occurrence of a byte.
\<close>

fun after_first :: "char \<Rightarrow> string \<Rightarrow> string option" where
  "after_first c [] = None"
| "after_first c (x # xs) = (if x = c then Some xs else after_first c xs)"

lemma after_first_append [simp]: "c \<notin> set p \<Longrightarrow> after_first c (p @ c # s) = Some s"
  by (induction p) auto

lemma after_first_None: "after_first c s = None \<longleftrightarrow> c \<notin> set s"
  by (induction s) auto

lemma after_first_Some: "after_first c s = Some t \<Longrightarrow> \<exists>p. s = p @ c # t \<and> c \<notin> set p"
proof (induction s)
  case (Cons x xs)
  show ?case
  proof (cases "x = c")
    case True
    with Cons.prems show ?thesis by (auto intro!: exI [of _ "[]"])
  next
    case False
    with Cons obtain p where "xs = p @ c # t" "c \<notin> set p" by auto
    with False show ?thesis by (auto intro!: exI [of _ "x # p"])
  qed
qed simp

fun has_prefix :: "string \<Rightarrow> string \<Rightarrow> bool" where
  "has_prefix s [] = True"
| "has_prefix [] (p # ps) = False"
| "has_prefix (x # s) (p # ps) = (x = p \<and> has_prefix s ps)"

definition trim_prefix :: "string \<Rightarrow> string \<Rightarrow> string" where
  "trim_prefix s p = (if has_prefix s p then drop (length p) s else s)"

lemma has_prefix_append [simp]: "has_prefix (p @ s) p"
  by (induction p) auto

lemma has_prefix_iff: "has_prefix s p \<longleftrightarrow> (\<exists>t. s = p @ t)"
proof (induction p arbitrary: s)
  case (Cons a p)
  then show ?case by (cases s) auto
qed simp

lemma trim_prefix_append [simp]: "trim_prefix (p @ s) p = s"
  by (simp add: trim_prefix_def)

section \<open>Lists and maps\<close>

lemma card_dom_upd: "finite (dom m) \<Longrightarrow> card (dom (m(k \<mapsto> v))) = (if k \<in> dom m then card (dom m) else Suc (card (dom m)))"
  by (auto simp: insert_absorb)

lemma card_dom_del: "finite (dom m) \<Longrightarrow> k \<in> dom m \<Longrightarrow> Suc (card (dom (m(k := None)))) = card (dom m)"
  using card_gt_0_iff [of "dom m"] by auto

lemma sorted_append_last: "sorted xs \<Longrightarrow> (\<forall>x \<in> set xs. x \<le> y) \<Longrightarrow> sorted (xs @ [y])"
  by (simp add: sorted_append)

end
