(* ===== verification/Float64.thy ===== *)
theory Float64
  imports Complex_Main Prelude
begin

text \<open>
  Go's \<open>float64\<close> and Lua's numbers: IEEE 754 binary64 with round-to-nearest, ties to even. A
  finite value is the rational it denotes, the infinities and NaN are constructors, and
  each operation computes the exact rational result and rounds it. The sign of zero is not kept: the
  program divides by no value that can be a zero, so it cannot be observed.

  The lemmas are the three facts the policies rest on: rounding is monotone, it
  is the identity on every value with a 53-bit significand (all integers up to \<open>2 ^ 53\<close>), and it
  commutes with negation.
\<close>

section \<open>Rounding a rational to 53 significant bits\<close>

text \<open>The nearest integer, a tie going to the even neighbour.\<close>

definition rne :: "rat \<Rightarrow> int" where
  "rne x = (let f = \<lfloor>x\<rfloor>; d = x - of_int f in
     if d < 1/2 then f else if 1/2 < d then f + 1 else if even f then f else f + 1)"

lemma rne_of_int [simp]: "rne (of_int n) = n"
  by (simp add: rne_def)

lemma rne_floor: "rne x = \<lfloor>x\<rfloor> \<or> rne x = \<lfloor>x\<rfloor> + 1"
  by (auto simp: rne_def Let_def)

lemma rne_mono:
  assumes "x \<le> y"
  shows "rne x \<le> rne y"
proof (cases "\<lfloor>x\<rfloor> = \<lfloor>y\<rfloor>")
  case True
  with assms show ?thesis by (auto simp: rne_def Let_def)
next
  case False
  with assms have "\<lfloor>x\<rfloor> + 1 \<le> \<lfloor>y\<rfloor>" using floor_mono by fastforce
  with rne_floor [of x] rne_floor [of y] show ?thesis by auto
qed

lemma rne_minus: "rne (- x) = - rne x"
proof (cases "x \<in> \<int>")
  case True
  then obtain n where "x = of_int n" by (auto elim: Ints_cases)
  then show ?thesis using rne_of_int [of "- n"] by simp
next
  case False
  then have c: "\<lfloor>- x\<rfloor> = - \<lfloor>x\<rfloor> - 1"
    by (simp add: floor_minus ceiling_altdef) (metis Ints_of_int)
  show ?thesis unfolding rne_def Let_def c by auto
qed

lemma rne_le_int: "x \<le> of_int n \<Longrightarrow> rne x \<le> n"
  using rne_mono [of x "of_int n"] by simp

lemma rne_ge_int: "of_int n \<le> x \<Longrightarrow> n \<le> rne x"
  using rne_mono [of "of_int n" x] by simp

text \<open>The binary exponent of a positive rational: \<open>2 powi ilog2 x \<le> x < 2 powi (ilog2 x + 1)\<close>.\<close>

fun nlog2 :: "nat \<Rightarrow> nat" where
  "nlog2 n = (if n < 2 then 0 else Suc (nlog2 (n div 2)))"

declare nlog2.simps [simp del]

lemma nlog2_bounds: "0 < n \<Longrightarrow> 2 ^ nlog2 n \<le> n \<and> n < 2 ^ Suc (nlog2 n)"
proof (induction n rule: nlog2.induct)
  case (1 n)
  show ?case
  proof (cases "n < 2")
    case True
    with 1 show ?thesis by (subst (1 2) nlog2.simps) simp
  next
    case False
    with 1 have "2 ^ nlog2 (n div 2) \<le> n div 2" "n div 2 < 2 ^ Suc (nlog2 (n div 2))" by auto
    then have "2 * 2 ^ nlog2 (n div 2) \<le> n" "n < 2 * 2 ^ Suc (nlog2 (n div 2))" by linarith+
    with False show ?thesis by (subst (1 2) nlog2.simps) simp
  qed
qed

definition ilog2 :: "rat \<Rightarrow> int" where
  "ilog2 x = (if 1 \<le> x then int (nlog2 (nat \<lfloor>x\<rfloor>)) else - int (Suc (nlog2 (nat (\<lceil>1 / x\<rceil> - 1)))))"

lemma ilog2_ge1:
  assumes "1 \<le> x"
  shows "2 powi ilog2 x \<le> x \<and> x < 2 powi (ilog2 x + 1)"
proof -
  let ?n = "nat \<lfloor>x\<rfloor>"
  have pos: "0 < ?n" using assms by simp
  have e: "ilog2 x = int (nlog2 ?n)" using assms by (simp add: ilog2_def)
  have b: "2 ^ nlog2 ?n \<le> ?n" "?n < 2 ^ Suc (nlog2 ?n)" using nlog2_bounds [OF pos] by auto
  have n: "of_nat ?n = (of_int \<lfloor>x\<rfloor> :: rat)" using assms by simp
  have "(2::rat) ^ nlog2 ?n \<le> of_nat ?n" using b(1) by (metis of_nat_le_iff of_nat_numeral of_nat_power)
  also have "\<dots> \<le> x" unfolding n by simp
  finally have lo: "(2::rat) ^ nlog2 ?n \<le> x" .
  have "of_nat (Suc ?n) \<le> (2::rat) ^ Suc (nlog2 ?n)"
    using b(2) by (metis Suc_leI of_nat_le_iff of_nat_numeral of_nat_power)
  moreover have "x < of_nat (Suc ?n)" using n floor_correct [of x] by simp
  ultimately have hi: "x < (2::rat) ^ Suc (nlog2 ?n)" by linarith
  have "2 powi (ilog2 x + 1) = (2::rat) ^ Suc (nlog2 ?n)"
    unfolding e by (metis of_nat_Suc add.commute power_int_of_nat)
  with lo hi show ?thesis unfolding e by simp
qed

lemma ilog2_lt1:
  assumes "0 < x" "x < 1"
  shows "2 powi ilog2 x \<le> x \<and> x < 2 powi (ilog2 x + 1)"
proof -
  let ?y = "1 / x" and ?m = "nat (\<lceil>1 / x\<rceil> - 1)"
  have y: "1 < ?y" using assms by simp
  have c: "2 \<le> \<lceil>?y\<rceil>" using y by linarith
  have pos: "0 < ?m" using c by simp
  have e: "ilog2 x = - int (Suc (nlog2 ?m))" using assms by (simp add: ilog2_def)
  have b: "2 ^ nlog2 ?m \<le> ?m" "?m < 2 ^ Suc (nlog2 ?m)" using nlog2_bounds [OF pos] by auto
  have m: "of_nat ?m = (of_int \<lceil>?y\<rceil> - 1 :: rat)" using c by (subst of_nat_nat) linarith+
  have "of_nat (Suc ?m) \<le> (2::rat) ^ Suc (nlog2 ?m)"
    using b(2) by (metis Suc_leI of_nat_le_iff of_nat_numeral of_nat_power)
  moreover have "?y \<le> of_nat (Suc ?m)" using m le_of_int_ceiling [of ?y] by simp
  ultimately have hi: "?y \<le> (2::rat) ^ Suc (nlog2 ?m)" by linarith
  have "(2::rat) ^ nlog2 ?m \<le> of_nat ?m" using b(1) by (metis of_nat_le_iff of_nat_numeral of_nat_power)
  also have "\<dots> < ?y" unfolding m by linarith
  finally have lo: "(2::rat) ^ nlog2 ?m < ?y" .
  have p1: "2 powi ilog2 x = 1 / (2::rat) ^ Suc (nlog2 ?m)"
    unfolding e power_int_minus power_int_of_nat by (simp add: field_simps)
  have "ilog2 x + 1 = - int (nlog2 ?m)" unfolding e by simp
  then have p2: "2 powi (ilog2 x + 1) = 1 / (2::rat) ^ nlog2 ?m"
    by (simp add: power_int_minus field_simps)
  show ?thesis unfolding p1 p2 using hi lo assms by (simp add: field_simps)
qed

lemma ilog2_bounds: "0 < x \<Longrightarrow> 2 powi ilog2 x \<le> x \<and> x < 2 powi (ilog2 x + 1)"
  using ilog2_ge1 ilog2_lt1 by (cases "1 \<le> x") auto

lemma powi2_le_iff [simp]: "((2::rat) powi a \<le> 2 powi b) = (a \<le> b)"
proof
  assume "(2::rat) powi a \<le> 2 powi b"
  then show "a \<le> b" using power_int_strict_increasing [of b a "2::rat"] by (auto simp: not_le [symmetric])
next
  assume "a \<le> b"
  then show "(2::rat) powi a \<le> 2 powi b" by (simp add: power_int_increasing)
qed

lemma powi2_less_iff [simp]: "((2::rat) powi a < 2 powi b) = (a < b)"
  using powi2_le_iff [of b a] by (auto simp: not_le [symmetric])

lemma ilog2_mono: "0 < x \<Longrightarrow> x \<le> y \<Longrightarrow> ilog2 x \<le> ilog2 y"
proof -
  assume a: "0 < x" "x \<le> y"
  then have "2 powi ilog2 x < (2::rat) powi (ilog2 y + 1)"
    using ilog2_bounds [of x] ilog2_bounds [of y] by linarith
  then show ?thesis by simp
qed

lemma ilog2_less: "0 < x \<Longrightarrow> x < 2 powi k \<Longrightarrow> ilog2 x < k"
  using ilog2_bounds [of x] by (meson le_less_trans powi2_less_iff)

text \<open>The exponent of the last place: 52 below the leading bit, and never below that of the subnormals.\<close>

definition ulp_exp :: "rat \<Rightarrow> int" where
  "ulp_exp x = max (ilog2 \<bar>x\<bar> - 52) (- 1074)"

definition rnd :: "rat \<Rightarrow> rat" where
  "rnd x = (if x = 0 then 0 else of_int (rne (x / 2 powi ulp_exp x)) * 2 powi ulp_exp x)"


lemma powi2_pos [simp]: "(0::rat) < 2 powi k"
  by (simp add: zero_less_power_int)

lemma powi2_int: "0 \<le> k \<Longrightarrow> \<exists>n::int. (2::rat) powi k = of_int n"
  by (rule exI [of _ "2 ^ nat k"]) (simp add: power_int_def)

lemma powi2_mult_int: "(m::int) \<le> k \<Longrightarrow> \<exists>n::int. (2::rat) powi k = of_int n * 2 powi m"
proof -
  assume "m \<le> k"
  then obtain n :: int where n: "(2::rat) powi (k - m) = of_int n" using powi2_int [of "k - m"] by auto
  have "(2::rat) powi k = 2 powi (k - m) * 2 powi m" by (simp add: power_int_add [symmetric])
  with n show ?thesis by metis
qed

lemma ulp_exp_mono: "0 < x \<Longrightarrow> x \<le> y \<Longrightarrow> ulp_exp x \<le> ulp_exp y"
  using ilog2_mono [of x y] by (simp add: ulp_exp_def)

lemma ulp_exp_minus [simp]: "ulp_exp (- x) = ulp_exp x"
  by (simp add: ulp_exp_def)

lemma rnd_0 [simp]: "rnd 0 = 0"
  by (simp add: rnd_def)

lemma rnd_minus [simp]: "rnd (- x) = - rnd x"
  by (simp add: rnd_def rne_minus)

text \<open>A value with at most 53 significant bits at its own last place is not changed.\<close>

lemma rnd_exact:
  assumes x: "x = of_int m * 2 powi k" and k: "ulp_exp x \<le> k"
  shows "rnd x = x"
proof -
  obtain n :: int where n: "(2::rat) powi k = of_int n * 2 powi ulp_exp x" using powi2_mult_int [OF k] by auto
  have eq: "x = of_int (m * n) * 2 powi ulp_exp x" by (subst x) (simp add: n)
  then have "x / 2 powi ulp_exp x = of_int (m * n)" by (simp add: field_simps)
  then have "rne (x / 2 powi ulp_exp x) = m * n" by (simp only: rne_of_int)
  with eq show ?thesis unfolding rnd_def by simp
qed

lemma rnd_le_powi:
  assumes x: "0 < x" "x \<le> 2 powi k" and k: "ulp_exp x \<le> k"
  shows "rnd x \<le> 2 powi k"
proof -
  obtain n :: int where n: "(2::rat) powi k = of_int n * 2 powi ulp_exp x" using powi2_mult_int [OF k] by auto
  have "x / 2 powi ulp_exp x \<le> of_int n" using x n by (simp add: divide_le_eq)
  then have "rne (x / 2 powi ulp_exp x) \<le> n" by (rule rne_le_int)
  then have "of_int (rne (x / 2 powi ulp_exp x)) \<le> (of_int n :: rat)" by simp
  then show ?thesis unfolding rnd_def n using x by (simp add: mult_right_mono)
qed

lemma rnd_ge_powi:
  assumes x: "2 powi k \<le> x" and k: "ulp_exp x \<le> k"
  shows "2 powi k \<le> rnd x"
proof -
  have pos: "0 < x" using x powi2_pos [of k] by linarith
  obtain n :: int where n: "(2::rat) powi k = of_int n * 2 powi ulp_exp x" using powi2_mult_int [OF k] by auto
  have "of_int n \<le> x / 2 powi ulp_exp x" using x n by (simp add: le_divide_eq)
  then have "n \<le> rne (x / 2 powi ulp_exp x)" by (rule rne_ge_int)
  then have "(of_int n :: rat) \<le> of_int (rne (x / 2 powi ulp_exp x))" by simp
  then show ?thesis unfolding rnd_def n using pos by (simp add: mult_right_mono)
qed

lemma rnd_nonneg: "0 \<le> x \<Longrightarrow> 0 \<le> rnd x"
proof -
  assume "0 \<le> x"
  then have "0 \<le> rne (x / 2 powi ulp_exp x)" by (intro rne_ge_int) simp
  then show ?thesis by (simp add: rnd_def)
qed

lemma rnd_mono_pos:
  assumes x: "0 < x" and le: "x \<le> y"
  shows "rnd x \<le> rnd y"
proof (cases "ulp_exp x = ulp_exp y")
  case True
  have "x / 2 powi ulp_exp x \<le> y / 2 powi ulp_exp x" using le by (simp add: divide_right_mono)
  then have "rne (x / 2 powi ulp_exp x) \<le> rne (y / 2 powi ulp_exp x)" by (rule rne_mono)
  with x le True show ?thesis by (simp add: rnd_def mult_right_mono)
next
  case False
  with ulp_exp_mono [OF x le] have lt: "ulp_exp x < ulp_exp y" by simp
  let ?k = "max (ilog2 x + 1) (ulp_exp x)"
  have y: "0 < y" using x le by simp
  have qy: "ulp_exp y = ilog2 y - 52" and qx: "ulp_exp x = max (ilog2 x - 52) (- 1074)"
    using lt x y by (auto simp: ulp_exp_def)
  have "2 powi (ilog2 x + 1) \<le> (2::rat) powi ?k" by simp
  then have "x \<le> 2 powi ?k" using ilog2_bounds [OF x] by linarith
  then have "rnd x \<le> 2 powi ?k" using x by (intro rnd_le_powi) auto
  also have "\<dots> \<le> 2 powi ilog2 y" using lt qx qy by simp
  also have "\<dots> \<le> rnd y" using ilog2_bounds [OF y] qy by (intro rnd_ge_powi) auto
  finally show ?thesis .
qed

lemma rnd_mono: "x \<le> y \<Longrightarrow> rnd x \<le> rnd y"
proof -
  assume le: "x \<le> y"
  consider "0 < x" | "x \<le> 0" "0 \<le> y" | "y < 0" by linarith
  then show ?thesis
  proof cases
    case 1
    then show ?thesis using le by (rule rnd_mono_pos)
  next
    case 2
    then show ?thesis using rnd_nonneg [of "- x"] rnd_nonneg [of y] by simp
  next
    case 3
    then have "rnd (- y) \<le> rnd (- x)" using le by (intro rnd_mono_pos) auto
    then show ?thesis by simp
  qed
qed

lemma rnd_int_pos:
  assumes "0 < n" "n \<le> 2 ^ 53"
  shows "rnd (of_int n) = of_int n"
proof (cases "n = 2 ^ 53")
  case True
  have e: "ilog2 (2 ^ 53) < 54" by (rule ilog2_less) (simp_all add: power_int_def)
  then have "ulp_exp (2 ^ 53) \<le> 53" by (simp add: ulp_exp_def)
  then have "rnd (of_int 1 * 2 powi 53) = of_int 1 * 2 powi 53"
    by (intro rnd_exact [where m = 1 and k = 53]) (simp_all add: power_int_def)
  with True show ?thesis by (simp add: power_int_def)
next
  case False
  with assms have "n < 2 ^ 53" by simp
  then have "(of_int n :: rat) < of_int (2 ^ 53)" by (simp only: of_int_less_iff)
  then have "(of_int n :: rat) < 2 powi 53" by (simp add: power_int_def)
  then have "ilog2 (of_int n) < 53" using assms by (intro ilog2_less) simp_all
  then have "ulp_exp (of_int n) \<le> 0" using assms by (simp add: ulp_exp_def)
  then show ?thesis by (intro rnd_exact [where m = n and k = 0]) simp_all
qed

lemma rnd_int:
  assumes "\<bar>n\<bar> \<le> 2 ^ 53"
  shows "rnd (of_int n) = of_int n"
proof -
  consider "0 < n" | "n = 0" | "n < 0" by linarith
  then show ?thesis
  proof cases
    case 3
    then have "rnd (of_int (- n)) = of_int (- n)" using assms by (intro rnd_int_pos) auto
    then show ?thesis by simp
  qed (use assms rnd_int_pos in auto)
qed

section \<open>The values and operations\<close>

datatype f64 = Fin rat | PInf | NInf | NaN

definition f64_round :: "rat \<Rightarrow> f64" where
  "f64_round x = (let r = rnd x in if 2 ^ 1024 \<le> r then PInf else if r \<le> - (2 ^ 1024) then NInf else Fin r)"

definition f64_of_int :: "int \<Rightarrow> f64" where
  "f64_of_int n = f64_round (of_int n)"

fun fadd :: "f64 \<Rightarrow> f64 \<Rightarrow> f64" where
  "fadd (Fin a) (Fin b) = f64_round (a + b)"
| "fadd NaN _ = NaN"
| "fadd _ NaN = NaN"
| "fadd PInf NInf = NaN"
| "fadd NInf PInf = NaN"
| "fadd PInf _ = PInf"
| "fadd _ PInf = PInf"
| "fadd NInf _ = NInf"
| "fadd _ NInf = NInf"

fun fneg :: "f64 \<Rightarrow> f64" where
  "fneg (Fin a) = Fin (- a)"
| "fneg PInf = NInf"
| "fneg NInf = PInf"
| "fneg NaN = NaN"

definition fsub :: "f64 \<Rightarrow> f64 \<Rightarrow> f64" where
  "fsub a b = fadd a (fneg b)"

fun fmul :: "f64 \<Rightarrow> f64 \<Rightarrow> f64" where
  "fmul (Fin a) (Fin b) = f64_round (a * b)"
| "fmul NaN _ = NaN"
| "fmul _ NaN = NaN"
| "fmul (Fin a) x = (if a = 0 then NaN else if 0 < a then x else fneg x)"
| "fmul x (Fin a) = (if a = 0 then NaN else if 0 < a then x else fneg x)"
| "fmul PInf x = x"
| "fmul NInf x = fneg x"

fun fdiv :: "f64 \<Rightarrow> f64 \<Rightarrow> f64" where
  "fdiv (Fin a) (Fin b) = (if b = 0 then (if a = 0 then NaN else if 0 < a then PInf else NInf) else f64_round (a / b))"
| "fdiv NaN _ = NaN"
| "fdiv _ NaN = NaN"
| "fdiv (Fin a) _ = Fin 0"
| "fdiv x (Fin b) = (if 0 \<le> b then x else fneg x)"
| "fdiv _ _ = NaN"

text \<open>Every comparison with NaN is false.\<close>

fun flt :: "f64 \<Rightarrow> f64 \<Rightarrow> bool" where
  "flt (Fin a) (Fin b) = (a < b)"
| "flt (Fin a) PInf = True"
| "flt NInf (Fin b) = True"
| "flt NInf PInf = True"
| "flt _ _ = False"

definition feq :: "f64 \<Rightarrow> f64 \<Rightarrow> bool" where
  "feq a b \<longleftrightarrow> a = b \<and> a \<noteq> NaN"

definition fle :: "f64 \<Rightarrow> f64 \<Rightarrow> bool" where
  "fle a b \<longleftrightarrow> flt a b \<or> feq a b"

abbreviation fgt :: "f64 \<Rightarrow> f64 \<Rightarrow> bool" where
  "fgt a b \<equiv> flt b a"


text \<open>Without NaN the comparison is a linear order.\<close>

lemma flt_irrefl [simp]: "\<not> flt a a"
  by (cases a) auto

lemma flt_trans: "flt a b \<Longrightarrow> flt b c \<Longrightarrow> flt a c"
  by (cases a; cases b; cases c) auto

lemma flt_asym: "flt a b \<Longrightarrow> \<not> flt b a"
  by (cases a; cases b) auto

lemma flt_total: "a \<noteq> NaN \<Longrightarrow> b \<noteq> NaN \<Longrightarrow> flt a b \<or> a = b \<or> flt b a"
  by (cases a; cases b) auto

lemma flt_not_NaN: "flt a b \<Longrightarrow> a \<noteq> NaN \<and> b \<noteq> NaN"
  by (cases a; cases b) auto

lemma flt_NaN [simp]: "\<not> flt NaN x" "\<not> flt x NaN"
  by (cases x; simp)+

lemma feq_refl [simp]: "feq a a = (a \<noteq> NaN)"
  by (simp add: feq_def)

lemma feq_Fin [simp]: "feq (Fin a) x = (x = Fin a)"
  by (auto simp: feq_def)

lemma fle_refl [simp]: "fle a a = (a \<noteq> NaN)"
  by (simp add: fle_def)

lemma fle_trans: "fle a b \<Longrightarrow> fle b c \<Longrightarrow> fle a c"
  by (auto simp: fle_def feq_def dest: flt_trans)

lemma fle_Fin [simp]: "fle (Fin a) (Fin b) = (a \<le> b)"
  by (auto simp: fle_def)

lemma fle_not_NaN: "fle a b \<Longrightarrow> a \<noteq> NaN \<and> b \<noteq> NaN"
  by (auto simp: fle_def feq_def dest: flt_not_NaN)

lemma not_flt: "a \<noteq> NaN \<Longrightarrow> b \<noteq> NaN \<Longrightarrow> (\<not> flt a b) = fle b a"
  by (auto simp: fle_def feq_def dest: flt_asym flt_total)

lemma fle_PInf [simp]: "fle x PInf = (x \<noteq> NaN)"
  by (cases x) (auto simp: fle_def feq_def)

text \<open>Exact and monotone conversions and sums.\<close>

lemma f64_round_not_NaN [simp]: "f64_round x \<noteq> NaN"
  by (simp add: f64_round_def Let_def)

lemma f64_round_mono: "x \<le> y \<Longrightarrow> fle (f64_round x) (f64_round y)"
  using rnd_mono [of x y] by (auto simp: f64_round_def Let_def fle_def feq_def)

lemma f64_of_int_exact: "\<bar>n\<bar> \<le> 2 ^ 53 \<Longrightarrow> f64_of_int n = Fin (of_int n)"
proof -
  assume n: "\<bar>n\<bar> \<le> 2 ^ 53"
  have "\<bar>of_int n :: rat\<bar> \<le> of_int (2 ^ 53)" using n by (metis of_int_abs of_int_le_iff)
  also have "\<dots> < 2 ^ 1024" by simp
  finally show ?thesis using rnd_int [OF n] by (auto simp: f64_of_int_def f64_round_def Let_def abs_less_iff)
qed

lemma f64_of_int_mono: "m \<le> n \<Longrightarrow> fle (f64_of_int m) (f64_of_int n)"
  by (simp add: f64_of_int_def f64_round_mono)

lemma f64_of_int_not_NaN [simp]: "f64_of_int n \<noteq> NaN"
  by (simp add: f64_of_int_def)

text \<open>
  A finite value the arithmetic can produce is its own rounding; the values of the model that come
  from outside (configured weights, persisted state) are assumed to be of this kind
  where a property needs it.
\<close>

definition f64_ok :: "f64 \<Rightarrow> bool" where
  "f64_ok x = (case x of Fin a \<Rightarrow> rnd a = a \<and> \<bar>a\<bar> < 2 ^ 1024 | _ \<Rightarrow> True)"

lemma rnd_idem [simp]: "rnd (rnd x) = rnd x"
proof (cases "x = 0")
  case False
  have pos_case: "rnd (rnd y) = rnd y" if y: "0 < y" for y :: rat
  proof -
    let ?q = "ulp_exp y" and ?m = "rne (y / 2 powi ulp_exp y)"
    have r: "rnd y = of_int ?m * 2 powi ?q" using y by (simp add: rnd_def)
    have nn: "0 \<le> rnd y" using y by (simp add: rnd_nonneg)
    consider "rnd y = 0" | "0 < rnd y" "rnd y < 2 powi (ilog2 y + 1)"
      | "0 < rnd y" "2 powi (ilog2 y + 1) \<le> rnd y" using nn by linarith
    then show ?thesis
    proof cases
      case 2
      then have "ilog2 (rnd y) < ilog2 y + 1" by (intro ilog2_less) auto
      with 2 y have "ulp_exp (rnd y) \<le> ?q" by (simp add: ulp_exp_def)
      then show ?thesis using r by (intro rnd_exact [where m = ?m and k = ?q]) auto
    next
      case 3
      have up: "y \<le> 2 powi (max (ilog2 y + 1) ?q)"
        using ilog2_bounds [OF y] powi2_le_iff [of "ilog2 y + 1" "max (ilog2 y + 1) ?q"] by linarith
      then have le: "rnd y \<le> 2 powi (max (ilog2 y + 1) ?q)" using y by (intro rnd_le_powi) auto
      show ?thesis
      proof (cases "ilog2 y + 1 < ?q")
        case True
        have "?m \<le> 1" using le True r by (simp add: max_def mult_le_cancel_right1)
        moreover have "0 < ?m" using 3(1) r powi2_pos [of ?q] by (metis of_int_0_less_iff zero_less_mult_pos2)
        ultimately have m1: "rnd y = of_int 1 * 2 powi ?q" using r by simp
        have "ilog2 (rnd y) < ?q + 1" using m1 3 by (intro ilog2_less) simp_all
        moreover have "?q = - 1074" using True y by (auto simp: ulp_exp_def)
        ultimately have "ulp_exp (rnd y) \<le> ?q" using 3 by (simp add: ulp_exp_def)
        with m1 show ?thesis by (intro rnd_exact [where m = 1 and k = ?q]) auto
      next
        case False
        with le 3 have eq: "rnd y = of_int 1 * 2 powi (ilog2 y + 1)" by (simp add: max_def)
        have "ilog2 (rnd y) < ilog2 y + 2" using eq 3 by (intro ilog2_less) simp_all
        with False y 3 have "ulp_exp (rnd y) \<le> ilog2 y + 1" by (auto simp: ulp_exp_def)
        with eq show ?thesis by (intro rnd_exact [where m = 1 and k = "ilog2 y + 1"]) auto
      qed
    qed simp
  qed
  show ?thesis
  proof (cases "0 < x")
    case False
    with \<open>x \<noteq> 0\<close> have "rnd (rnd (- x)) = rnd (- x)" by (intro pos_case) simp
    then show ?thesis by simp
  qed (rule pos_case)
qed simp

lemma f64_round_ok [simp]: "f64_ok (f64_round x)"
  by (auto simp: f64_ok_def f64_round_def Let_def abs_less_iff)

lemma f64_ok_inf [simp]: "f64_ok PInf" "f64_ok NInf" "f64_ok NaN"
  by (simp_all add: f64_ok_def)

lemma f64_of_int_ok [simp]: "f64_ok (f64_of_int n)"
  by (simp add: f64_of_int_def)

lemma fadd_ok [simp]: "f64_ok a \<Longrightarrow> f64_ok b \<Longrightarrow> f64_ok (fadd a b)"
  by (cases a; cases b) auto

lemma f64_round_id: "f64_ok (Fin a) \<Longrightarrow> f64_round a = Fin a"
  by (auto simp: f64_ok_def f64_round_def Let_def)

text \<open>Adding something non-negative never goes down, whatever is rounded away.\<close>

lemma fadd_ge_left: "f64_ok a \<Longrightarrow> a \<noteq> NaN \<Longrightarrow> fle (Fin 0) b \<Longrightarrow> fle a (fadd a b) \<or> a = NInf \<and> b = PInf"
proof (cases a; cases b)
  fix x y assume h: "f64_ok a" "fle (Fin 0) b" "a = Fin x" "b = Fin y"
  then have "fle (f64_round x) (f64_round (x + y))" by (intro f64_round_mono) simp
  with h show ?thesis by (simp add: f64_round_id)
qed (auto simp: fle_def feq_def)

lemma fdiv_nonneg: "fle (Fin 0) a \<Longrightarrow> flt (Fin 0) b \<Longrightarrow> fle (Fin 0) (fdiv a b) \<or> fdiv a b = NaN"
proof (cases a; cases b)
  fix x y assume h: "fle (Fin 0) a" "flt (Fin 0) b" "a = Fin x" "b = Fin y"
  then have "fle (f64_round 0) (f64_round (x / y))" by (intro f64_round_mono) simp
  moreover have "f64_round 0 = Fin 0" by (simp add: f64_round_def)
  ultimately show ?thesis using h by simp
qed (auto simp: fle_def feq_def)

text \<open>Converting a 64-bit integer gives a finite value.\<close>

lemma f64_of_int_finite: "in_i64 n \<Longrightarrow> \<exists>x. f64_of_int n = Fin x"
proof -
  assume n: "in_i64 n"
  have e: "ilog2 (2 ^ 63) < 64" by (rule ilog2_less) (simp_all add: power_int_def)
  then have "ulp_exp (2 ^ 63) \<le> 63" by (simp add: ulp_exp_def)
  then have r: "rnd (2 ^ 63) = 2 ^ 63"
    using rnd_exact [of "2 ^ 63" 1 63] by (simp add: power_int_def)
  have "(of_int n :: rat) \<le> of_int (2 ^ 63)" "of_int (- (2 ^ 63)) \<le> (of_int n :: rat)"
    using n unfolding in_i64_def of_int_le_iff by linarith+
  then have "rnd (of_int n) \<le> 2 ^ 63" "- (2 ^ 63) \<le> rnd (of_int n)"
    using rnd_mono [of "of_int n" "2 ^ 63"] rnd_mono [of "- (2 ^ 63)" "of_int n"] r by simp_all
  moreover have "(2::rat) ^ 63 < 2 ^ 1024" by simp
  ultimately show ?thesis by (auto simp: f64_of_int_def f64_round_def Let_def)
qed

section \<open>Evaluation\<close>

text \<open>Code equations on binary integers, with a short cut for the integers every operation leaves exact.\<close>

function zlog2 :: "int \<Rightarrow> int" where
  "zlog2 n = (if n < 2 then 0 else 1 + zlog2 (n div 2))"
  by auto
termination by (relation "measure nat") auto

declare zlog2.simps [simp del]

lemma zlog2_nlog2: "zlog2 n = int (nlog2 (nat n))"
proof (induction n rule: zlog2.induct)
  case (1 n)
  then show ?case
    by (subst zlog2.simps, subst nlog2.simps) (auto simp: nat_div_distrib)
qed

lemma ilog2_code [code]: "ilog2 x = (if 1 \<le> x then zlog2 \<lfloor>x\<rfloor> else - (1 + zlog2 (\<lceil>1 / x\<rceil> - 1)))"
  by (simp add: ilog2_def zlog2_nlog2)

lemma powi2_cases: "(2::rat) powi e = (if 0 \<le> e then of_int (2 ^ nat e) else 1 / of_int (2 ^ nat (- e)))"
  by (simp add: power_int_def power_one_over inverse_eq_divide)

lemma rnd_code [code]:
  "rnd x = (if x = 0 then 0 else let e = ulp_exp x in
     if 0 \<le> e then of_int (rne (x / of_int (2 ^ nat e)) * 2 ^ nat e)
     else of_int (rne (x * of_int (2 ^ nat (- e)))) / of_int (2 ^ nat (- e)))"
  by (simp add: rnd_def Let_def powi2_cases)

lemma f64_round_code [code]:
  "f64_round x =
     (if snd (quotient_of x) = 1 \<and> \<bar>x\<bar> \<le> 9007199254740992 then Fin x
      else let r = rnd x in
        if \<bar>r\<bar> \<le> 1000000000000000000000000000000 then Fin r
        else if 2 ^ 1024 \<le> r then PInf else if r \<le> - (2 ^ 1024) then NInf else Fin r)"
proof (cases "snd (quotient_of x) = 1 \<and> \<bar>x\<bar> \<le> 9007199254740992")
  case True
  then obtain n where "quotient_of x = (n, 1)"
    by (metis prod.collapse)
  from quotient_of_div [OF this] have x: "x = of_int n"
    by simp
  have "\<bar>n\<bar> \<le> 2 ^ 53"
    using True of_int_le_iff [of "\<bar>n\<bar>" "2 ^ 53", where 'a = rat] unfolding x by simp
  from f64_of_int_exact [OF this] show ?thesis
    using True by (simp add: f64_of_int_def x)
next
  case False
  have "(1000000000000000000000000000000 :: rat) < 2 ^ 1024"
    by simp
  then show ?thesis
    using False unfolding f64_round_def Let_def by auto
qed

end
