(* ===== verification/Domain.thy ===== *)
theory Domain
  imports Float64
begin

text \<open>
  The data of \<open>internal/domain\<close>: tasks, results and dead letters, their validation and their
  serialisation, with the parts of Go's \<open>time\<close> package they use.

  A \<open>time.Time\<close> is the number of nanoseconds since the Unix epoch; a \<open>time.Duration\<close> is
  a number of nanoseconds. Fields of type \<open>int\<close> and \<open>int64\<close> hold values of that width.
\<close>

section \<open>Time\<close>

type_synonym time = int
type_synonym duration = int

text \<open>The zero \<open>time.Time\<close> is the first instant of year 1.\<close>

definition zero_time :: time where
  "zero_time = - 62135596800 * 10 ^ 9"

definition is_zero_time :: "time \<Rightarrow> bool" where
  "is_zero_time t \<longleftrightarrow> t = zero_time"

definition millisecond :: duration where
  "millisecond = 10 ^ 6"

definition second :: duration where
  "second = 10 ^ 9"

text \<open>\<open>Time.UnixMilli\<close> rounds down; \<open>time.UnixMilli\<close> is its inverse on whole milliseconds.\<close>

definition unix_milli :: "time \<Rightarrow> int" where
  "unix_milli t = i64 (t div 10 ^ 6)"

definition from_unix_milli :: "int \<Rightarrow> time" where
  "from_unix_milli ms = ms * 10 ^ 6"

text \<open>\<open>Time.Sub\<close> saturates at the ends of the \<open>Duration\<close> range.\<close>

definition time_sub :: "time \<Rightarrow> time \<Rightarrow> duration" where
  "time_sub t u = max (- (2 ^ 63)) (min (2 ^ 63 - 1) (t - u))"

definition dur_millis :: "duration \<Rightarrow> int" where
  "dur_millis d = go_div d (10 ^ 6)"

text \<open>\<open>Duration.Seconds\<close>: the whole seconds plus the fraction, each converted on its own.\<close>

definition dur_seconds :: "duration \<Rightarrow> f64" where
  "dur_seconds d = fadd (f64_of_int (go_div d (10 ^ 9))) (fdiv (f64_of_int (go_mod d (10 ^ 9))) (f64_of_int (10 ^ 9)))"

lemma unix_milli_from: "in_i64 ms \<Longrightarrow> unix_milli (from_unix_milli ms) = ms"
  by (simp add: unix_milli_def from_unix_milli_def i64_id)

section \<open>Tasks\<close>

record task =
  t_id :: string
  t_tenant :: string
  t_submitted :: time
  t_exec_ms :: int
  t_priority :: int
  t_deadline :: time
  t_retry :: int
  t_max_retries :: int
  t_attempt :: string

definition max_priority :: int where
  "max_priority = 255"

datatype task_error =
    EmptyId
  | EmptyTenant string
  | ZeroSubmitted string
  | NegativeExec string
  | PriorityRange string int
  | NegativeMaxRetries string
  | NegativeRetry string

definition validate_task :: "task \<Rightarrow> task_error option" where
  "validate_task t =
     (if t_id t = [] then Some EmptyId
      else if t_tenant t = [] then Some (EmptyTenant (t_id t))
      else if is_zero_time (t_submitted t) then Some (ZeroSubmitted (t_id t))
      else if t_exec_ms t < 0 then Some (NegativeExec (t_id t))
      else if t_priority t < 0 \<or> max_priority < t_priority t then Some (PriorityRange (t_id t) (t_priority t))
      else if t_max_retries t < 0 then Some (NegativeMaxRetries (t_id t))
      else if t_retry t < 0 then Some (NegativeRetry (t_id t))
      else None)"

text \<open>\<open>time.Duration(t.ExecMillis) * time.Millisecond\<close> is a 64-bit product.\<close>

definition exec_duration :: "task \<Rightarrow> duration" where
  "exec_duration t = i64 (t_exec_ms t * millisecond)"

definition submitted_ms :: "task \<Rightarrow> int" where
  "submitted_ms t = unix_milli (t_submitted t)"

definition deadline_ms :: "task \<Rightarrow> int" where
  "deadline_ms t = (if is_zero_time (t_deadline t) then 0 else unix_milli (t_deadline t))"

section \<open>Results and dead letters\<close>

datatype outcome = OutcomeCompleted | OutcomeFailed | OutcomeDeadLettered

record result =
  r_task_id :: string
  r_attempt :: string
  r_tenant :: string
  r_outcome :: outcome
  r_priority :: int
  r_submitted :: time
  r_dispatched :: time
  r_started :: time
  r_finished :: time
  r_deadline :: time
  r_exec_ms :: int
  r_actual_ms :: int
  r_retry :: int
  r_worker :: string
  r_error :: string

definition queue_wait :: "result \<Rightarrow> duration" where
  "queue_wait r = time_sub (r_started r) (r_submitted r)"

definition latency :: "result \<Rightarrow> duration" where
  "latency r = time_sub (r_finished r) (r_submitted r)"

definition missed_deadline :: "result \<Rightarrow> bool" where
  "missed_deadline r = (if is_zero_time (r_deadline r) then False else r_deadline r < r_finished r)"

record dead_letter =
  d_task :: task
  d_reason :: string
  d_attempts :: int
  d_last_attempt :: string
  d_failed_at :: time

section \<open>Serialisation\<close>

text \<open>
  What Redis stores is bytes. The model names each stored text by the value it is the
  serialisation of: a plain string, a decimal integer, a formatted float, or the JSON
  object of a task, a result or a dead letter. \<open>encoding/json\<close> writes every field of these structs
  and reads it back, so parsing the text of a value is that value, and parsing
  any other text is an error. Marshalling fails exactly where \<open>Time.MarshalJSON\<close> does: on a
  year outside 0 to 9999 (taken in UTC).
\<close>

datatype rtext =
    TStr string
  | TNum int
  | TFlt f64
  | TTask task
  | TResult result
  | TDead dead_letter

definition json_time_ok :: "time \<Rightarrow> bool" where
  "json_time_ok t \<longleftrightarrow> - 62167219200 * 10 ^ 9 \<le> t \<and> t < 253402300800 * 10 ^ 9"

datatype json_error = TimeRange | BadJson rtext

definition task_times_ok :: "task \<Rightarrow> bool" where
  "task_times_ok t \<longleftrightarrow> json_time_ok (t_submitted t) \<and> json_time_ok (t_deadline t)"

definition marshal_task :: "task \<Rightarrow> json_error + rtext" where
  "marshal_task t = (if task_times_ok t then Inr (TTask t) else Inl TimeRange)"

definition unmarshal_task :: "rtext \<Rightarrow> json_error + task" where
  "unmarshal_task p = (case p of TTask t \<Rightarrow> Inr t | _ \<Rightarrow> Inl (BadJson p))"

definition marshal_result :: "result \<Rightarrow> json_error + rtext" where
  "marshal_result r =
     (if json_time_ok (r_submitted r) \<and> json_time_ok (r_dispatched r) \<and> json_time_ok (r_started r)
         \<and> json_time_ok (r_finished r) \<and> json_time_ok (r_deadline r)
      then Inr (TResult r) else Inl TimeRange)"

definition unmarshal_result :: "rtext \<Rightarrow> json_error + result" where
  "unmarshal_result p = (case p of TResult r \<Rightarrow> Inr r | _ \<Rightarrow> Inl (BadJson p))"

definition marshal_dead :: "dead_letter \<Rightarrow> json_error + rtext" where
  "marshal_dead d =
     (if task_times_ok (d_task d) \<and> json_time_ok (d_failed_at d) then Inr (TDead d) else Inl TimeRange)"

definition unmarshal_dead :: "rtext \<Rightarrow> json_error + dead_letter" where
  "unmarshal_dead p = (case p of TDead d \<Rightarrow> Inr d | _ \<Rightarrow> Inl (BadJson p))"

lemma unmarshal_marshal_task: "marshal_task t = Inr p \<Longrightarrow> unmarshal_task p = Inr t"
  by (auto simp: marshal_task_def unmarshal_task_def split: if_splits)

lemma marshal_task_text: "marshal_task t = Inr p \<Longrightarrow> p = TTask t"
  by (auto simp: marshal_task_def split: if_splits)

lemma unmarshal_taskD: "unmarshal_task p = Inr t \<Longrightarrow> p = TTask t"
  by (auto simp: unmarshal_task_def split: rtext.splits)

lemma unmarshal_TTask [simp]: "unmarshal_task (TTask t) = Inr t"
  by (simp add: unmarshal_task_def)

lemma unmarshal_TResult [simp]: "unmarshal_result (TResult r) = Inr r"
  by (simp add: unmarshal_result_def)

lemma unmarshal_TDead [simp]: "unmarshal_dead (TDead d) = Inr d"
  by (simp add: unmarshal_dead_def)

text \<open>What a task that passes validation satisfies, and the cases in which validation refuses one.\<close>

lemma validate_task_None:
  "validate_task t = None \<longleftrightarrow>
     t_id t \<noteq> [] \<and> t_tenant t \<noteq> [] \<and> \<not> is_zero_time (t_submitted t) \<and> 0 \<le> t_exec_ms t \<and>
     0 \<le> t_priority t \<and> t_priority t \<le> max_priority \<and> 0 \<le> t_max_retries t \<and> 0 \<le> t_retry t"
  by (auto simp: validate_task_def)

lemma exec_duration_exact: "0 \<le> t_exec_ms t \<Longrightarrow> t_exec_ms t \<le> 9223372036854 \<Longrightarrow> exec_duration t = t_exec_ms t * millisecond"
  unfolding exec_duration_def millisecond_def by (rule i64_id) (simp add: in_i64_def)

end
