(* ===== verification/Redis.thy ===== *)
theory Redis
  imports Domain
begin

text \<open>
  The interface to the Redis server. The server is not part of the repository: it is a parameter, a
  function \<open>call\<close> from a command and the server's state to a reply and the next state, and
  the locale \<open>redis\<close> states what the program relies on: each command has its documented effect
  on what a client can observe, the key space (\<open>view\<close>). The documentation leaves
  some results open (the id of a new stream entry, how much an approximate trim removes, which pending
  entries are idle, replication and time to live); there the hypothesis leaves them open too. It says nothing
  about a command on a key of another type, and the theorems never need it to.

  Counters are unbounded here; Redis refuses an increment past 63 bits, which takes
  more operations than a deployment can issue.

  A Lua script is a computation in a state and error monad: an error reply ends
  the script and what it has written stays written, as in Redis.
\<close>

section \<open>What a client observes\<close>

type_synonym rkey = string

text \<open>A stream id is its millisecond part and its sequence number, compared lexicographically.\<close>

type_synonym sid = "nat \<times> nat"

record stream_entry =
  se_id :: sid
  se_fields :: "(string \<times> rtext) list"

text \<open>A consumer group: the last id it delivered and its pending entries list.\<close>

record group =
  g_last :: sid
  g_pel :: "sid set"

record stream =
  st_entries :: "stream_entry list"
  st_last :: sid
  st_groups :: "string \<rightharpoonup> group"

datatype rvalue = VStr rtext | VHash "string \<rightharpoonup> rtext" | VZSet "string \<rightharpoonup> f64" | VStream stream

type_synonym rdb = "rkey \<rightharpoonup> rvalue"

definition empty_stream :: stream where
  "empty_stream = \<lparr>st_entries = [], st_last = (0, 0), st_groups = Map.empty\<rparr>"

definition empty_group :: group where
  "empty_group = \<lparr>g_last = (0, 0), g_pel = {}\<rparr>"

definition is_str :: "rdb \<Rightarrow> rkey \<Rightarrow> bool" where
  "is_str d k = (case d k of None \<Rightarrow> True | Some (VStr _) \<Rightarrow> True | _ \<Rightarrow> False)"

definition is_hash :: "rdb \<Rightarrow> rkey \<Rightarrow> bool" where
  "is_hash d k = (case d k of None \<Rightarrow> True | Some (VHash _) \<Rightarrow> True | _ \<Rightarrow> False)"

definition is_zset :: "rdb \<Rightarrow> rkey \<Rightarrow> bool" where
  "is_zset d k = (case d k of None \<Rightarrow> True | Some (VZSet z) \<Rightarrow> finite (dom z) \<and> NaN \<notin> ran z | _ \<Rightarrow> False)"

definition is_stream :: "rdb \<Rightarrow> rkey \<Rightarrow> bool" where
  "is_stream d k = (case d k of None \<Rightarrow> True | Some (VStream _) \<Rightarrow> True | _ \<Rightarrow> False)"

definition str_at :: "rdb \<Rightarrow> rkey \<Rightarrow> rtext option" where
  "str_at d k = (case d k of Some (VStr t) \<Rightarrow> Some t | _ \<Rightarrow> None)"

definition hash_at :: "rdb \<Rightarrow> rkey \<Rightarrow> (string \<rightharpoonup> rtext)" where
  "hash_at d k = (case d k of Some (VHash h) \<Rightarrow> h | _ \<Rightarrow> Map.empty)"

definition zset_at :: "rdb \<Rightarrow> rkey \<Rightarrow> (string \<rightharpoonup> f64)" where
  "zset_at d k = (case d k of Some (VZSet z) \<Rightarrow> z | _ \<Rightarrow> Map.empty)"

definition stream_at :: "rdb \<Rightarrow> rkey \<Rightarrow> stream" where
  "stream_at d k = (case d k of Some (VStream s) \<Rightarrow> s | _ \<Rightarrow> empty_stream)"

text \<open>An aggregate that becomes empty is removed with its key; a stream stays.\<close>

definition put_hash :: "rdb \<Rightarrow> rkey \<Rightarrow> (string \<rightharpoonup> rtext) \<Rightarrow> rdb" where
  "put_hash d k h = d(k := if h = Map.empty then None else Some (VHash h))"

definition put_zset :: "rdb \<Rightarrow> rkey \<Rightarrow> (string \<rightharpoonup> f64) \<Rightarrow> rdb" where
  "put_zset d k z = d(k := if z = Map.empty then None else Some (VZSet z))"

definition put_stream :: "rdb \<Rightarrow> rkey \<Rightarrow> stream \<Rightarrow> rdb" where
  "put_stream d k s = d(k \<mapsto> VStream s)"

definition put_str :: "rdb \<Rightarrow> rkey \<Rightarrow> rtext \<Rightarrow> rdb" where
  "put_str d k t = d(k \<mapsto> VStr t)"

text \<open>An absent counter counts from zero.\<close>

definition int_text :: "rtext option \<Rightarrow> int option" where
  "int_text v = (case v of None \<Rightarrow> Some 0 | Some (TNum n) \<Rightarrow> Some n | _ \<Rightarrow> None)"

definition num_text :: "rtext option \<Rightarrow> int" where
  "num_text v = (case v of Some (TNum n) \<Rightarrow> n | _ \<Rightarrow> 0)"

section \<open>Commands and replies\<close>

datatype bound = BMin | BFrom sid | BAfter sid

datatype cmd =
    PING
  | GET rkey | SET rkey rtext | SETPX rkey rtext int | INCR rkey | DECR rkey
  | EXISTS rkey | DEL "rkey list" | PEXPIRE rkey int | PTTL rkey | WAIT int int
  | HEXISTS rkey string | HGET rkey string | HSET rkey string rtext | HSETNX rkey string rtext
  | HDEL rkey string | HINCRBY rkey string int | HGETALL rkey | HMGET rkey "string list"
  | ZADD rkey rtext string | ZREM rkey string | ZPOPMIN rkey | ZCARD rkey | ZFIRST rkey
  | XADD rkey "int option" "(string \<times> rtext) list" | XACK rkey string "sid list" | XGROUP_CREATE rkey string
  | XREADGROUP rkey string string int | XAUTOCLAIM rkey string string int sid int
  | XRANGE rkey bound int | XLEN rkey | XPENDING rkey string | XINFO_GROUPS rkey

datatype reply =
    RNil | ROk | RInt int | RText rtext | RId sid | RTexts "rtext option list" | RFields "(string \<times> rtext) list"
  | RScored "(string \<times> f64) list" | REntries "stream_entry list" | RClaim sid "stream_entry list"
  | RGroups "(string \<times> sid \<times> nat) list" | RErr string

section \<open>The documented behaviour\<close>

definition score_text :: "rtext \<Rightarrow> f64 option" where
  "score_text t = (case t of TFlt NaN \<Rightarrow> None | TFlt f \<Rightarrow> Some f | TNum n \<Rightarrow> Some (f64_of_int n) | _ \<Rightarrow> None)"

lemma score_text_not_NaN: "score_text t = Some f \<Longrightarrow> f \<noteq> NaN"
  by (auto simp: score_text_def split: rtext.splits f64.splits)

text \<open>Sorted sets order by score and then by member, bytewise.\<close>

definition zmin :: "(string \<rightharpoonup> f64) \<Rightarrow> string \<Rightarrow> f64 \<Rightarrow> bool" where
  "zmin z m f \<longleftrightarrow> z m = Some f \<and> (\<forall>m' f'. z m' = Some f' \<longrightarrow> flt f f' \<or> f = f' \<and> m \<le> m')"

definition add_entry :: "stream \<Rightarrow> nat \<Rightarrow> stream_entry \<Rightarrow> stream" where
  "add_entry st dropped e = st\<lparr>st_entries := drop dropped (st_entries st @ [e]), st_last := se_id e\<rparr>"

definition trim_allowed :: "int option \<Rightarrow> stream \<Rightarrow> nat \<Rightarrow> bool" where
  "trim_allowed maxlen st dropped \<longleftrightarrow>
     (case maxlen of None \<Rightarrow> dropped = 0 | Some n \<Rightarrow> dropped \<le> Suc (length (st_entries st)) - nat n)"

definition unread :: "stream \<Rightarrow> sid \<Rightarrow> stream_entry list" where
  "unread st after = filter (\<lambda>e. after < se_id e) (st_entries st)"

definition deliver :: "stream \<Rightarrow> string \<Rightarrow> group \<Rightarrow> stream_entry list \<Rightarrow> stream" where
  "deliver st gn g es =
     (if es = [] then st
      else st\<lparr>st_groups := (st_groups st)(gn \<mapsto> g\<lparr>g_last := se_id (last es), g_pel := g_pel g \<union> se_id ` set es\<rparr>)\<rparr>)"

definition set_pel :: "stream \<Rightarrow> string \<Rightarrow> group \<Rightarrow> sid set \<Rightarrow> stream" where
  "set_pel st gn g pel = st\<lparr>st_groups := (st_groups st)(gn \<mapsto> g\<lparr>g_pel := pel\<rparr>)\<rparr>"

definition in_bound :: "bound \<Rightarrow> sid \<Rightarrow> bool" where
  "in_bound b i = (case b of BMin \<Rightarrow> True | BFrom j \<Rightarrow> j \<le> i | BAfter j \<Rightarrow> j < i)"

text \<open>The effect of an acknowledgement on the key space; a group or stream that is not there acknowledges nothing.\<close>

definition acked :: "rdb \<Rightarrow> rkey \<Rightarrow> string \<Rightarrow> sid list \<Rightarrow> rdb" where
  "acked d k gn ids =
     (case st_groups (stream_at d k) gn of
        None \<Rightarrow> d
      | Some g \<Rightarrow> put_stream d k (set_pel (stream_at d k) gn g (g_pel g - set ids)))"

fun redis_doc :: "cmd \<Rightarrow> rdb \<Rightarrow> reply \<Rightarrow> rdb \<Rightarrow> bool" where
  "redis_doc PING d r d' = (d' = d)"
| "redis_doc (GET k) d r d' = (is_str d k \<longrightarrow> d' = d \<and> r = (case str_at d k of None \<Rightarrow> RNil | Some t \<Rightarrow> RText t))"
| "redis_doc (SET k t) d r d' = (r = ROk \<and> d' = put_str d k t)"
| "redis_doc (SETPX k t ms) d r d' = (if 0 < ms then r = ROk \<and> d' = put_str d k t else (\<exists>e. r = RErr e) \<and> d' = d)"
| "redis_doc (INCR k) d r d' = (\<forall>n. is_str d k \<longrightarrow> int_text (str_at d k) = Some n \<longrightarrow> r = RInt (n + 1) \<and> d' = put_str d k (TNum (n + 1)))"
| "redis_doc (DECR k) d r d' = (\<forall>n. is_str d k \<longrightarrow> int_text (str_at d k) = Some n \<longrightarrow> r = RInt (n - 1) \<and> d' = put_str d k (TNum (n - 1)))"
| "redis_doc (EXISTS k) d r d' = (d' = d \<and> r = RInt (if d k = None then 0 else 1))"
| "redis_doc (DEL ks) d r d' = (d' = (\<lambda>k. if k \<in> set ks then None else d k) \<and> (\<exists>n. r = RInt n))"
| "redis_doc (PEXPIRE k ms) d r d' = (0 < ms \<longrightarrow> d' = d \<and> r = RInt (if d k = None then 0 else 1))"
| "redis_doc (PTTL k) d r d' = (d' = d \<and> (\<exists>n. r = RInt n))"
| "redis_doc (WAIT n ms) d r d' = (d' = d \<and> (\<exists>m \<ge> 0. r = RInt m))"
| "redis_doc (HEXISTS k f) d r d' = (is_hash d k \<longrightarrow> d' = d \<and> r = RInt (if hash_at d k f = None then 0 else 1))"
| "redis_doc (HGET k f) d r d' = (is_hash d k \<longrightarrow> d' = d \<and> r = (case hash_at d k f of None \<Rightarrow> RNil | Some t \<Rightarrow> RText t))"
| "redis_doc (HSET k f t) d r d' =
     (is_hash d k \<longrightarrow> d' = put_hash d k ((hash_at d k)(f \<mapsto> t)) \<and> r = RInt (if hash_at d k f = None then 1 else 0))"
| "redis_doc (HSETNX k f t) d r d' =
     (is_hash d k \<longrightarrow> (if hash_at d k f = None then d' = put_hash d k ((hash_at d k)(f \<mapsto> t)) \<and> r = RInt 1 else d' = d \<and> r = RInt 0))"
| "redis_doc (HDEL k f) d r d' =
     (is_hash d k \<longrightarrow> d' = put_hash d k ((hash_at d k)(f := None)) \<and> r = RInt (if hash_at d k f = None then 0 else 1))"
| "redis_doc (HINCRBY k f i) d r d' =
     (\<forall>n. is_hash d k \<longrightarrow> int_text (hash_at d k f) = Some n \<longrightarrow>
        d' = put_hash d k ((hash_at d k)(f \<mapsto> TNum (n + i))) \<and> r = RInt (n + i))"
| "redis_doc (HGETALL k) d r d' =
     (is_hash d k \<longrightarrow> d' = d \<and> (\<exists>xs. r = RFields xs \<and> distinct (map fst xs) \<and> map_of xs = hash_at d k))"
| "redis_doc (HMGET k fs) d r d' = (is_hash d k \<longrightarrow> d' = d \<and> r = RTexts (map (hash_at d k) fs))"
| "redis_doc (ZADD k t m) d r d' =
     (is_zset d k \<longrightarrow>
        (case score_text t of
           None \<Rightarrow> (\<exists>e. r = RErr e) \<and> d' = d
         | Some f \<Rightarrow> d' = put_zset d k ((zset_at d k)(m \<mapsto> f)) \<and> r = RInt (if zset_at d k m = None then 1 else 0)))"
| "redis_doc (ZREM k m) d r d' =
     (is_zset d k \<longrightarrow> d' = put_zset d k ((zset_at d k)(m := None)) \<and> r = RInt (if zset_at d k m = None then 0 else 1))"
| "redis_doc (ZPOPMIN k) d r d' =
     (is_zset d k \<longrightarrow>
        (if zset_at d k = Map.empty then d' = d \<and> r = RScored []
         else \<exists>m f. zmin (zset_at d k) m f \<and> d' = put_zset d k ((zset_at d k)(m := None)) \<and> r = RScored [(m, f)]))"
| "redis_doc (ZCARD k) d r d' = (is_zset d k \<longrightarrow> d' = d \<and> r = RInt (int (card (dom (zset_at d k)))))"
| "redis_doc (ZFIRST k) d r d' =
     (is_zset d k \<longrightarrow> d' = d \<and>
        (if zset_at d k = Map.empty then r = RScored [] else \<exists>m f. zmin (zset_at d k) m f \<and> r = RScored [(m, f)]))"
| "redis_doc (XADD k maxlen fs) d r d' =
     (is_stream d k \<longrightarrow>
        (\<exists>i dropped. st_last (stream_at d k) < i \<and> trim_allowed maxlen (stream_at d k) dropped \<and> r = RId i \<and>
           d' = put_stream d k (add_entry (stream_at d k) dropped \<lparr>se_id = i, se_fields = fs\<rparr>)))"
| "redis_doc (XACK k gn ids) d r d' = (is_stream d k \<longrightarrow> (\<exists>n. r = RInt n) \<and> d' = acked d k gn ids)"
| "redis_doc (XGROUP_CREATE k gn) d r d' =
     (is_stream d k \<longrightarrow>
        (if st_groups (stream_at d k) gn \<noteq> None then r = RErr ''BUSYGROUP Consumer Group name already exists'' \<and> d' = d
         else r = ROk \<and>
           d' = put_stream d k ((stream_at d k)\<lparr>st_groups := (st_groups (stream_at d k))(gn \<mapsto> empty_group)\<rparr>)))"
| "redis_doc (XREADGROUP k gn c n) d r d' =
     (is_stream d k \<longrightarrow> 0 < n \<longrightarrow>
        (case st_groups (stream_at d k) gn of
           None \<Rightarrow> (\<exists>e. r = RErr e) \<and> d' = d
         | Some g \<Rightarrow>
             (let es = take (nat n) (unread (stream_at d k) (g_last g)) in
              d' = (if es = [] then d else put_stream d k (deliver (stream_at d k) gn g es)) \<and>
              r = (if es = [] then RNil else REntries es))))"
| "redis_doc (XAUTOCLAIM k gn c idle start n) d r d' =
     (is_stream d k \<longrightarrow> 0 < n \<longrightarrow>
        (case st_groups (stream_at d k) gn of
           None \<Rightarrow> (\<exists>e. r = RErr e) \<and> d' = d
         | Some g \<Rightarrow>
             \<exists>next gone claimed.
               gone \<subseteq> g_pel g - se_id ` set (st_entries (stream_at d k)) \<and>
               claimed \<subseteq> g_pel g \<inter> {i. start \<le> i} \<and>
               r = RClaim next (filter (\<lambda>e. se_id e \<in> claimed) (st_entries (stream_at d k))) \<and>
               d' = (if gone = {} then d else put_stream d k (set_pel (stream_at d k) gn g (g_pel g - gone)))))"
| "redis_doc (XRANGE k b n) d r d' =
     (is_stream d k \<longrightarrow> d' = d \<and> r = REntries (take (nat n) (filter (\<lambda>e. in_bound b (se_id e)) (st_entries (stream_at d k)))))"
| "redis_doc (XLEN k) d r d' = (is_stream d k \<longrightarrow> d' = d \<and> r = RInt (int (length (st_entries (stream_at d k)))))"
| "redis_doc (XPENDING k gn) d r d' =
     (is_stream d k \<longrightarrow> d' = d \<and>
        (case st_groups (stream_at d k) gn of None \<Rightarrow> \<exists>e. r = RErr e | Some g \<Rightarrow> r = RInt (int (card (g_pel g)))))"
| "redis_doc (XINFO_GROUPS k) d r d' =
     (is_stream d k \<longrightarrow> d' = d \<and>
        (\<exists>xs. r = RGroups xs \<and> distinct (map fst xs) \<and>
           map_of xs = (\<lambda>gn. map_option (\<lambda>g. (g_last g, card (g_pel g))) (st_groups (stream_at d k) gn))))"

locale redis =
  fixes call :: "cmd \<Rightarrow> 's \<Rightarrow> reply \<times> 's" and view :: "'s \<Rightarrow> rdb"
  assumes doc: "redis_doc c (view s) (fst (call c s)) (view (snd (call c s)))"

section \<open>Scripts\<close>

type_synonym ('s, 'a) lua = "'s \<Rightarrow> (string + 'a) \<times> 's"

definition lreturn :: "'a \<Rightarrow> ('s, 'a) lua" where
  "lreturn a = (\<lambda>s. (Inr a, s))"

definition lfail :: "string \<Rightarrow> ('s, 'a) lua" where
  "lfail e = (\<lambda>s. (Inl e, s))"

definition lbind :: "('s, 'a) lua \<Rightarrow> ('a \<Rightarrow> ('s, 'b) lua) \<Rightarrow> ('s, 'b) lua" where
  "lbind m f = (\<lambda>s. case m s of (Inl e, s') \<Rightarrow> (Inl e, s') | (Inr a, s') \<Rightarrow> f a s')"

definition lthen :: "('s, 'a) lua \<Rightarrow> ('s, 'b) lua \<Rightarrow> ('s, 'b) lua" where
  "lthen m n = lbind m (\<lambda>_. n)"

definition rcall :: "(cmd \<Rightarrow> 's \<Rightarrow> reply \<times> 's) \<Rightarrow> cmd \<Rightarrow> ('s, reply) lua" where
  "rcall call c = (\<lambda>s. case call c s of (RErr e, s') \<Rightarrow> (Inl e, s') | (r, s') \<Rightarrow> (Inr r, s'))"

text \<open>Lua's numbers are doubles: \<open>tonumber\<close> of a decimal integer is the nearest one.\<close>

definition lua_number :: "int \<Rightarrow> int" where
  "lua_number n = \<lfloor>rnd (of_int n)\<rfloor>"

definition lua_tonumber :: "rtext \<Rightarrow> int option" where
  "lua_tonumber t = (case t of TNum n \<Rightarrow> Some (lua_number n) | _ \<Rightarrow> None)"

text \<open>\<open>tonumber(redis.call('GET', k) or '0')\<close>\<close>

definition reply_number :: "reply \<Rightarrow> int option" where
  "reply_number r = (case r of RText t \<Rightarrow> lua_tonumber t | RNil \<Rightarrow> Some 0 | _ \<Rightarrow> None)"

lemma lua_number_exact: "\<bar>n\<bar> \<le> 2 ^ 53 \<Longrightarrow> lua_number n = n"
  by (simp add: lua_number_def rnd_int)

lemma lua_number_mono: "m \<le> n \<Longrightarrow> lua_number m \<le> lua_number n"
  by (simp add: lua_number_def rnd_mono floor_mono)

lemma rnd_int_is_int: "\<exists>m::int. rnd (of_int n) = of_int m"
proof (cases "\<bar>n\<bar> \<le> 2 ^ 53")
  case True
  then show ?thesis by (auto simp: rnd_int)
next
  case False
  have "0 \<le> ulp_exp (of_int n :: rat)"
  proof (rule ccontr)
    assume "\<not> 0 \<le> ulp_exp (of_int n :: rat)"
    then have "ilog2 \<bar>of_int n :: rat\<bar> < 52"
      by (simp add: ulp_exp_def)
    then have "ilog2 \<bar>of_int n :: rat\<bar> + 1 \<le> 53"
      by simp
    moreover have "\<bar>of_int n :: rat\<bar> < 2 powi (ilog2 \<bar>of_int n :: rat\<bar> + 1)"
      using ilog2_bounds [of "\<bar>of_int n :: rat\<bar>"] False by auto
    ultimately have "\<bar>of_int n :: rat\<bar> < 2 powi 53"
      using powi2_le_iff by (meson less_le_trans)
    then have "\<bar>of_int n :: rat\<bar> < of_int (2 ^ 53)"
      by (simp add: power_int_def)
    then have "\<bar>n\<bar> < 2 ^ 53"
      by linarith
    then show False using False by simp
  qed
  then obtain k :: int where "2 powi ulp_exp (of_int n :: rat) = (of_int k :: rat)"
    using powi2_int by blast
  then show ?thesis
    unfolding rnd_def by (metis of_int_mult of_int_0)
qed

lemma lua_number_idem [simp]: "lua_number (lua_number n) = lua_number n"
proof -
  obtain m :: int where "rnd (of_int n) = of_int m"
    using rnd_int_is_int by blast
  then show ?thesis
    unfolding lua_number_def by (metis floor_of_int rnd_idem)
qed

lemma lua_number_0 [simp]: "lua_number 0 = 0"
  by (simp add: lua_number_def)

lemma lua_number_pos: "0 < n \<Longrightarrow> 0 < lua_number n"
  using lua_number_mono [of 1 n] lua_number_exact [of 1] by simp

lemma lua_number_nonpos: "n \<le> 0 \<Longrightarrow> lua_number n \<le> 0"
  using lua_number_mono [of n 0] by simp

lemma lua_number_pos_iff: "0 < lua_number n \<longleftrightarrow> 0 < n"
  using lua_number_pos lua_number_nonpos by (meson leD not_le)

lemma lreturn_apply [simp]: "lreturn a s = (Inr a, s)"
  by (simp add: lreturn_def)

lemma lfail_apply [simp]: "lfail e s = (Inl e, s)"
  by (simp add: lfail_def)

lemma lbind_Inr: "m s = (Inr a, s') \<Longrightarrow> lbind m f s = f a s'"
  by (simp add: lbind_def)

lemma lbind_Inl: "m s = (Inl e, s') \<Longrightarrow> lbind m f s = (Inl e, s')"
  by (simp add: lbind_def)

lemma lthen_Inr: "m s = (Inr a, s') \<Longrightarrow> lthen m n s = n s'"
  by (simp add: lthen_def lbind_def)

lemma lthen_Inl: "m s = (Inl e, s') \<Longrightarrow> lthen m n s = (Inl e, s')"
  by (simp add: lthen_def lbind_def)

section \<open>Views after a write\<close>

lemma put_same [simp]:
  "is_hash (put_hash d k h) k" "hash_at (put_hash d k h) k = h"
  "finite (dom z) \<Longrightarrow> NaN \<notin> ran z \<Longrightarrow> is_zset (put_zset d k z) k" "zset_at (put_zset d k z) k = z"
  "is_stream (put_stream d k st) k" "stream_at (put_stream d k st) k = st"
  "is_str (put_str d k t) k" "str_at (put_str d k t) k = Some t"
  by (auto simp: is_hash_def hash_at_def is_zset_def zset_at_def is_stream_def stream_at_def is_str_def str_at_def
      put_hash_def put_zset_def put_stream_def put_str_def)

lemma put_other_at:
  assumes "k' \<noteq> k"
  shows "put_hash d k h k' = d k'" "put_zset d k z k' = d k'" "put_stream d k st k' = d k'" "put_str d k t k' = d k'"
  using assms by (simp_all add: put_hash_def put_zset_def put_stream_def put_str_def)

lemmas is_defs = is_str_def is_hash_def is_zset_def is_stream_def str_at_def hash_at_def zset_at_def stream_at_def

lemma put_other [simp]:
  assumes "k' \<noteq> k"
  shows
  "is_str (put_hash d k h) k' = is_str d k'" "is_hash (put_hash d k h) k' = is_hash d k'"
  "is_zset (put_hash d k h) k' = is_zset d k'" "is_stream (put_hash d k h) k' = is_stream d k'"
  "str_at (put_hash d k h) k' = str_at d k'" "hash_at (put_hash d k h) k' = hash_at d k'"
  "zset_at (put_hash d k h) k' = zset_at d k'" "stream_at (put_hash d k h) k' = stream_at d k'"
  "is_str (put_zset d k z) k' = is_str d k'" "is_hash (put_zset d k z) k' = is_hash d k'"
  "is_zset (put_zset d k z) k' = is_zset d k'" "is_stream (put_zset d k z) k' = is_stream d k'"
  "str_at (put_zset d k z) k' = str_at d k'" "hash_at (put_zset d k z) k' = hash_at d k'"
  "zset_at (put_zset d k z) k' = zset_at d k'" "stream_at (put_zset d k z) k' = stream_at d k'"
  "is_str (put_stream d k st) k' = is_str d k'" "is_hash (put_stream d k st) k' = is_hash d k'"
  "is_zset (put_stream d k st) k' = is_zset d k'" "is_stream (put_stream d k st) k' = is_stream d k'"
  "str_at (put_stream d k st) k' = str_at d k'" "hash_at (put_stream d k st) k' = hash_at d k'"
  "zset_at (put_stream d k st) k' = zset_at d k'" "stream_at (put_stream d k st) k' = stream_at d k'"
  "is_str (put_str d k t) k' = is_str d k'" "is_hash (put_str d k t) k' = is_hash d k'"
  "is_zset (put_str d k t) k' = is_zset d k'" "is_stream (put_str d k t) k' = is_stream d k'"
  "str_at (put_str d k t) k' = str_at d k'" "hash_at (put_str d k t) k' = hash_at d k'"
  "zset_at (put_str d k t) k' = zset_at d k'" "stream_at (put_str d k t) k' = stream_at d k'"
  by (simp_all add: is_defs put_other_at [OF assms])

lemma num_text_simps [simp]: "num_text None = 0" "num_text (Some (TNum n)) = n"
  by (simp_all add: num_text_def)

lemma int_text_simps [simp]: "int_text None = Some 0" "int_text (Some (TNum n)) = Some n"
  by (simp_all add: int_text_def)

lemma zset_finite: "is_zset d k \<Longrightarrow> finite (dom (zset_at d k))"
  by (auto simp: is_zset_def zset_at_def split: option.splits rvalue.splits)

lemma zset_no_NaN: "is_zset d k \<Longrightarrow> NaN \<notin> ran (zset_at d k)"
  by (auto simp: is_zset_def zset_at_def split: option.splits rvalue.splits)

lemma is_zset_put_zset [simp]:
  assumes "is_zset d k"
  shows "f \<noteq> NaN \<Longrightarrow> is_zset (put_zset d k ((zset_at d k)(m \<mapsto> f))) k"
    "is_zset (put_zset d k ((zset_at d k)(m := None))) k"
  using zset_finite [OF assms] zset_no_NaN [OF assms]
  by (auto simp: ran_def intro!: put_same)

lemma is_stream_acked [simp]: "is_stream d k \<Longrightarrow> is_stream (acked d k gn ids) k"
  by (auto simp: acked_def split: option.splits)

lemma acked_other [simp]:
  assumes "k' \<noteq> k"
  shows "is_str (acked d k gn ids) k' = is_str d k'" "is_hash (acked d k gn ids) k' = is_hash d k'"
  "is_zset (acked d k gn ids) k' = is_zset d k'" "is_stream (acked d k gn ids) k' = is_stream d k'"
  "str_at (acked d k gn ids) k' = str_at d k'" "hash_at (acked d k gn ids) k' = hash_at d k'"
  "zset_at (acked d k gn ids) k' = zset_at d k'" "stream_at (acked d k gn ids) k' = stream_at d k'"
  using assms by (auto simp: acked_def split: option.splits)

end
