(* ===== verification/Keys.thy ===== *)
theory Keys
  imports Redis
begin

text \<open>
  The Redis key names (\<open>internal/broker/keys.go\<close>). The fields of the \<open>Keys\<close> struct that name a
  Redis key are the values of \<open>key_field\<close>, and the struct is the function from field to name.

  The lemmas: the names are pairwise different when the configured stream names are,
  and a reset never deletes the two monotonic counters.
\<close>

record streams_cfg =
  s_namespace :: string
  s_ingress :: string
  s_exec :: string
  s_results :: string
  s_dead :: string
  s_sched_group :: string
  s_worker_group :: string
  s_max_len :: int

datatype key_field =
    Ingress | Exec | Results | DeadLetter
  | Pending | PendingAge | Payloads | Done | SchedState
  | Leader | LeaderEpoch | Fence
  | Stats | TenantService | TenantCount | InFlight

record keys =
  k_namespace :: string
  k_name :: "key_field \<Rightarrow> rkey"
  k_sched_group :: string
  k_worker_group :: string

fun key_path :: "string \<Rightarrow> string list \<Rightarrow> rkey" where
  "key_path out [] = out"
| "key_path out (part # parts) = key_path (out @ '':'' @ part) parts"

definition new_keys :: "streams_cfg \<Rightarrow> keys" where
  "new_keys s =
     (let p = key_path (s_namespace s) in
      \<lparr>k_namespace = s_namespace s,
       k_name = (\<lambda>f. case f of
           Ingress \<Rightarrow> p [''stream'', s_ingress s]
         | Exec \<Rightarrow> p [''stream'', s_exec s]
         | Results \<Rightarrow> p [''stream'', s_results s]
         | DeadLetter \<Rightarrow> p [''stream'', s_dead s]
         | Pending \<Rightarrow> p [''pending'']
         | PendingAge \<Rightarrow> p [''pending_age'']
         | Payloads \<Rightarrow> p [''payloads'']
         | Done \<Rightarrow> p [''done'']
         | SchedState \<Rightarrow> p [''sched_state'']
         | Leader \<Rightarrow> p [''leader'']
         | LeaderEpoch \<Rightarrow> p [''leader_epoch'']
         | Fence \<Rightarrow> p [''fence'']
         | Stats \<Rightarrow> p [''stats'']
         | TenantService \<Rightarrow> p [''tenant_service'']
         | TenantCount \<Rightarrow> p [''tenant_count'']
         | InFlight \<Rightarrow> p [''inflight'']),
       k_sched_group = s_sched_group s,
       k_worker_group = s_worker_group s\<rparr>)"

definition reset_fields :: "key_field list" where
  "reset_fields =
     [Ingress, Exec, Results, DeadLetter, Pending, PendingAge, Payloads, Done, SchedState,
      Stats, TenantService, TenantCount, InFlight, Leader]"

definition all_keys :: "keys \<Rightarrow> rkey list" where
  "all_keys k = map (k_name k) reset_fields"

text \<open>Different fields, different names: what every component that uses several keys relies on.\<close>

definition keys_ok :: "keys \<Rightarrow> bool" where
  "keys_ok k \<longleftrightarrow> inj (k_name k)"

lemma k_name_eq: "keys_ok k \<Longrightarrow> (k_name k a = k_name k b) = (a = b)"
  by (simp add: keys_ok_def inj_eq)

text \<open>The name of a field after the namespace.\<close>

definition key_suffix :: "streams_cfg \<Rightarrow> key_field \<Rightarrow> string" where
  "key_suffix s f = drop (length (s_namespace s)) (k_name (new_keys s) f)"

lemma k_name_suffix: "k_name (new_keys s) f = s_namespace s @ key_suffix s f"
  by (cases f) (simp_all add: new_keys_def key_suffix_def)

lemma key_suffix_simps:
  "key_suffix s Ingress = '':stream:'' @ s_ingress s" "key_suffix s Exec = '':stream:'' @ s_exec s"
  "key_suffix s Results = '':stream:'' @ s_results s" "key_suffix s DeadLetter = '':stream:'' @ s_dead s"
  "key_suffix s Pending = '':pending''" "key_suffix s PendingAge = '':pending_age''" "key_suffix s Payloads = '':payloads''"
  "key_suffix s Done = '':done''" "key_suffix s SchedState = '':sched_state''" "key_suffix s Leader = '':leader''"
  "key_suffix s LeaderEpoch = '':leader_epoch''" "key_suffix s Fence = '':fence''" "key_suffix s Stats = '':stats''"
  "key_suffix s TenantService = '':tenant_service''" "key_suffix s TenantCount = '':tenant_count''" "key_suffix s InFlight = '':inflight''"
  by (simp_all add: new_keys_def key_suffix_def)

definition stream_names_distinct :: "streams_cfg \<Rightarrow> bool" where
  "stream_names_distinct s \<longleftrightarrow> distinct [s_ingress s, s_exec s, s_results s, s_dead s]"

lemma new_keys_ok: "stream_names_distinct s \<Longrightarrow> keys_ok (new_keys s)"
proof -
  assume d: "stream_names_distinct s"
  have "a = b" if "key_suffix s a = key_suffix s b" for a b
    using that d by (cases a; cases b; simp add: key_suffix_simps stream_names_distinct_def)
  then show ?thesis by (simp add: keys_ok_def inj_def k_name_suffix)
qed

lemma reset_fields_spec: "f \<in> set reset_fields \<longleftrightarrow> f \<noteq> LeaderEpoch \<and> f \<noteq> Fence"
  by (cases f) (simp_all add: reset_fields_def)

lemma all_keys_spec: "keys_ok k \<Longrightarrow> k_name k f \<in> set (all_keys k) \<longleftrightarrow> f \<noteq> LeaderEpoch \<and> f \<noteq> Fence"
  by (simp add: all_keys_def keys_ok_def inj_image_mem_iff reset_fields_spec)

end
