(* ===== verification/GoHeap.thy ===== *)
theory GoHeap
  imports Main "HOL-Library.Multiset"
begin

text \<open>
  Go's \<open>container/heap\<close> as the in-memory queue uses it: a binary heap in a slice, with \<open>up\<close> and
  \<open>down\<close> moving one element by swaps. The slice is a list; the indices the
  algorithm touches are always in range.

  The locale \<open>heap_order\<close> is what \<open>container/heap\<close> asks of the element type's \<open>Less\<close>:
  on the elements in use it is a strict weak order. Under it every operation keeps the heap
  shape, keeps the elements, and \<open>heap_pop\<close> yields a least one.
\<close>

definition swap :: "'a list \<Rightarrow> nat \<Rightarrow> nat \<Rightarrow> 'a list" where
  "swap h a b = h[a := h ! b, b := h ! a]"

function heap_up :: "('a \<Rightarrow> 'a \<Rightarrow> bool) \<Rightarrow> 'a list \<Rightarrow> nat \<Rightarrow> 'a list" where
  "heap_up lt xs j =
     (if j = 0 \<or> \<not> lt (xs ! j) (xs ! ((j - 1) div 2)) then xs
      else heap_up lt (swap xs ((j - 1) div 2) j) ((j - 1) div 2))"
  by pat_completeness auto
termination by (relation "measure (\<lambda>(lt, xs, j). j)") auto

definition min_child :: "('a \<Rightarrow> 'a \<Rightarrow> bool) \<Rightarrow> 'a list \<Rightarrow> nat \<Rightarrow> nat \<Rightarrow> nat" where
  "min_child lt xs i n =
     (if 2 * i + 2 < n \<and> lt (xs ! (2 * i + 2)) (xs ! (2 * i + 1)) then 2 * i + 2 else 2 * i + 1)"

function heap_down :: "('a \<Rightarrow> 'a \<Rightarrow> bool) \<Rightarrow> 'a list \<Rightarrow> nat \<Rightarrow> nat \<Rightarrow> 'a list" where
  "heap_down lt xs i n =
     (if 2 * i + 1 < n \<and> lt (xs ! min_child lt xs i n) (xs ! i)
      then heap_down lt (swap xs i (min_child lt xs i n)) (min_child lt xs i n) n
      else xs)"
  by pat_completeness auto
termination by (relation "measure (\<lambda>(lt, xs, i, n). n - i)") (auto simp: min_child_def)

declare heap_up.simps [simp del] heap_down.simps [simp del]

definition heap_push :: "('a \<Rightarrow> 'a \<Rightarrow> bool) \<Rightarrow> 'a list \<Rightarrow> 'a \<Rightarrow> 'a list" where
  "heap_push lt xs x = heap_up lt (xs @ [x]) (length xs)"

definition heap_pop :: "('a \<Rightarrow> 'a \<Rightarrow> bool) \<Rightarrow> 'a list \<Rightarrow> 'a \<times> 'a list" where
  "heap_pop lt xs =
     (let n = length xs - 1; ys = heap_down lt (swap xs 0 n) 0 n in (last ys, butlast ys))"

lemma nth_swap:
  assumes "a < length h" "b < length h"
  shows "swap h a b ! k = (if k = a then h ! b else if k = b then h ! a else h ! k)"
  using assms unfolding swap_def by (cases "k < length h") (auto simp: nth_list_update)

lemma mset_swap_idx:
  assumes "a < length h" "b < length h"
  shows "mset (swap h a b) = mset h"
  unfolding swap_def by (rule mset_swap [OF assms(2,1)])

lemma length_swap [simp]: "length (swap h a b) = length h"
  unfolding swap_def by simp


lemma min_child_range: "2 * i + 1 < n \<Longrightarrow> min_child lt xs i n < n \<and> i < min_child lt xs i n \<and> (min_child lt xs i n - 1) div 2 = i"
  by (auto simp: min_child_def)

section \<open>Shape and elements\<close>

lemma length_heap_up [simp]: "length (heap_up lt xs j) = length xs"
  by (induction lt xs j rule: heap_up.induct) (subst heap_up.simps, simp)

lemma mset_heap_up: "j < length xs \<Longrightarrow> mset (heap_up lt xs j) = mset xs"
proof (induction lt xs j rule: heap_up.induct)
  case (1 lt xs j)
  have "(j - 1) div 2 < length xs" using 1(2) by auto
  with 1 show ?case by (subst heap_up.simps) (simp add: mset_swap_idx)
qed

lemma length_heap_down [simp]: "length (heap_down lt xs i n) = length xs"
  by (induction lt xs i n rule: heap_down.induct) (subst heap_down.simps, simp)

lemma mset_heap_down: "n \<le> length xs \<Longrightarrow> mset (heap_down lt xs i n) = mset xs"
proof (induction lt xs i n rule: heap_down.induct)
  case (1 lt xs i n)
  have "2 * i + 1 < n \<Longrightarrow> min_child lt xs i n < length xs \<and> i < length xs"
    using 1(2) min_child_range [of i n lt xs] by auto
  with 1 show ?case by (subst heap_down.simps) (simp add: mset_swap_idx)
qed

lemma heap_down_outside: "n \<le> k \<Longrightarrow> k < length xs \<Longrightarrow> heap_down lt xs i n ! k = xs ! k"
proof (induction lt xs i n rule: heap_down.induct)
  case (1 lt xs i n)
  show ?case
  proof (cases "2 * i + 1 < n \<and> lt (xs ! min_child lt xs i n) (xs ! i)")
    case True
    then have r: "min_child lt xs i n < n" "i < min_child lt xs i n" using min_child_range [of i n lt xs] by auto
    with 1(2,3) have "swap xs i (min_child lt xs i n) ! k = xs ! k" by (subst nth_swap) auto
    with True 1 show ?thesis by (subst heap_down.simps) simp
  next
    case False
    then show ?thesis by (subst heap_down.simps) auto
  qed
qed

section \<open>The heap property under a strict weak order\<close>

definition heap_upto :: "('a \<Rightarrow> 'a \<Rightarrow> bool) \<Rightarrow> 'a list \<Rightarrow> nat \<Rightarrow> bool" where
  "heap_upto lt xs n \<longleftrightarrow> (\<forall>k. 0 < k \<longrightarrow> k < n \<longrightarrow> \<not> lt (xs ! k) (xs ! ((k - 1) div 2)))"

abbreviation is_heap :: "('a \<Rightarrow> 'a \<Rightarrow> bool) \<Rightarrow> 'a list \<Rightarrow> bool" where
  "is_heap lt xs \<equiv> heap_upto lt xs (length xs)"

definition up_inv :: "('a \<Rightarrow> 'a \<Rightarrow> bool) \<Rightarrow> 'a list \<Rightarrow> nat \<Rightarrow> bool" where
  "up_inv lt xs j \<longleftrightarrow>
     (\<forall>k. 0 < k \<longrightarrow> k < length xs \<longrightarrow> k \<noteq> j \<longrightarrow> \<not> lt (xs ! k) (xs ! ((k - 1) div 2))) \<and>
     (\<forall>c. 0 < j \<longrightarrow> 0 < c \<longrightarrow> c < length xs \<longrightarrow> (c - 1) div 2 = j \<longrightarrow> \<not> lt (xs ! c) (xs ! ((j - 1) div 2)))"

definition down_inv :: "('a \<Rightarrow> 'a \<Rightarrow> bool) \<Rightarrow> 'a list \<Rightarrow> nat \<Rightarrow> nat \<Rightarrow> bool" where
  "down_inv lt xs i n \<longleftrightarrow>
     (\<forall>k. 0 < k \<longrightarrow> k < n \<longrightarrow> (k - 1) div 2 \<noteq> i \<longrightarrow> \<not> lt (xs ! k) (xs ! ((k - 1) div 2))) \<and>
     (\<forall>c. 0 < i \<longrightarrow> 0 < c \<longrightarrow> c < n \<longrightarrow> (c - 1) div 2 = i \<longrightarrow> \<not> lt (xs ! c) (xs ! ((i - 1) div 2)))"

locale heap_order =
  fixes lt :: "'a \<Rightarrow> 'a \<Rightarrow> bool" and ok :: "'a \<Rightarrow> bool"
  assumes irrefl: "ok a \<Longrightarrow> \<not> lt a a"
    and asym: "ok a \<Longrightarrow> ok b \<Longrightarrow> lt a b \<Longrightarrow> \<not> lt b a"
    and le_trans: "ok a \<Longrightarrow> ok b \<Longrightarrow> ok c \<Longrightarrow> \<not> lt b a \<Longrightarrow> \<not> lt c b \<Longrightarrow> \<not> lt c a"
begin

abbreviation all_ok :: "'a list \<Rightarrow> bool" where
  "all_ok xs \<equiv> \<forall>x \<in> set xs. ok x"

lemma set_swap_idx: "i < length xs \<Longrightarrow> j < length xs \<Longrightarrow> set (swap xs i j) = set xs"
  by (metis mset_swap_idx mset_eq_setD)

lemma up_inv_step:
  assumes ok: "all_ok xs" and j: "0 < j" "j < length xs"
    and lt: "lt (xs ! j) (xs ! ((j - 1) div 2))" and inv: "up_inv lt xs j"
  shows "up_inv lt (swap xs ((j - 1) div 2) j) ((j - 1) div 2)"
proof -
  define p where "p = (j - 1) div 2"
  have p: "p < j" "p < length xs" using j by (auto simp: p_def)
  have oks: "\<And>k. k < length xs \<Longrightarrow> ok (xs ! k)" using ok by simp
  have nlt: "\<not> lt (xs ! p) (xs ! j)" using asym [OF oks oks lt] p j by (simp add: p_def)
  have I1: "\<And>k. 0 < k \<Longrightarrow> k < length xs \<Longrightarrow> k \<noteq> j \<Longrightarrow> \<not> lt (xs ! k) (xs ! ((k - 1) div 2))"
    and I2: "\<And>c. 0 < c \<Longrightarrow> c < length xs \<Longrightarrow> (c - 1) div 2 = j \<Longrightarrow> \<not> lt (xs ! c) (xs ! p)"
    using inv j by (auto simp: up_inv_def p_def)
  have n: "\<And>k. swap xs p j ! k = (if k = p then xs ! j else if k = j then xs ! p else xs ! k)"
    using p j by (simp add: nth_swap)
  have A: "\<not> lt (swap xs p j ! k) (swap xs p j ! ((k - 1) div 2))"
    if k: "0 < k" "k < length xs" "k \<noteq> p" for k
  proof -
    consider "k = j" | "k \<noteq> j" "(k - 1) div 2 = p" | "(k - 1) div 2 = j" | "k \<noteq> j" "(k - 1) div 2 \<noteq> p" "(k - 1) div 2 \<noteq> j"
      by blast
    then show ?thesis
    proof cases
      case 1
      moreover have "(j - Suc 0) div 2 = p" by (simp add: p_def)
      ultimately show ?thesis using nlt p by (simp add: n)
    next
      case 2
      then have "\<not> lt (xs ! k) (xs ! p)" using I1 k by metis
      then have "\<not> lt (xs ! k) (xs ! j)" using le_trans [OF oks oks oks nlt] p j k by blast
      with 2 k show ?thesis by (simp add: n)
    next
      case 3 then show ?thesis using I2 k p by (simp add: n)
    next
      case 4 then show ?thesis using I1 k by (simp add: n)
    qed
  qed
  have B: "\<not> lt (swap xs p j ! c) (swap xs p j ! ((p - 1) div 2))"
    if c: "0 < p" "0 < c" "c < length xs" "(c - 1) div 2 = p" for c
  proof -
    have pp: "(p - 1) div 2 < p" using c by auto
    have up: "\<not> lt (xs ! p) (xs ! ((p - 1) div 2))" using I1 c p by simp
    show ?thesis
    proof (cases "c = j")
      case True then show ?thesis using up pp p by (simp add: n)
    next
      case False
      then have "\<not> lt (xs ! c) (xs ! p)" using I1 c by metis
      then have "\<not> lt (xs ! c) (xs ! ((p - 1) div 2))" using le_trans [OF oks oks oks up] p pp c by force
      moreover have "p < c" using c by auto
      ultimately show ?thesis using False pp p by (simp add: n)
    qed
  qed
  show ?thesis unfolding up_inv_def p_def [symmetric] using A B by simp
qed

lemma heap_up_heap: "all_ok xs \<Longrightarrow> j < length xs \<Longrightarrow> up_inv lt xs j \<Longrightarrow> is_heap lt (heap_up lt xs j)"
proof (induction j arbitrary: xs rule: less_induct)
  case (less j)
  show ?case
  proof (cases "j = 0 \<or> \<not> lt (xs ! j) (xs ! ((j - 1) div 2))")
    case True
    with less.prems show ?thesis by (subst heap_up.simps) (auto simp: up_inv_def heap_upto_def)
  next
    case False
    let ?p = "(j - 1) div 2"
    have p: "?p < j" "?p < length xs" using False less.prems by auto
    have "is_heap lt (heap_up lt (swap xs ?p j) ?p)"
      using less.prems False p by (intro less.IH up_inv_step) (auto simp: set_swap_idx)
    with False show ?thesis by (subst heap_up.simps) simp
  qed
qed

lemma heap_push_heap: "all_ok xs \<Longrightarrow> ok x \<Longrightarrow> is_heap lt xs \<Longrightarrow> is_heap lt (heap_push lt xs x)"
proof -
  assume h: "all_ok xs" "ok x" "is_heap lt xs"
  have "(length xs - Suc 0) div 2 \<noteq> length xs \<or> xs = []" by (cases xs) auto
  with h(3) have "up_inv lt (xs @ [x]) (length xs)"
    unfolding up_inv_def heap_upto_def by (auto simp: nth_append less_Suc_eq)
  with h show ?thesis unfolding heap_push_def by (intro heap_up_heap) auto
qed

lemma min_child_least:
  assumes ok: "all_ok xs" and n: "n \<le> length xs" and k: "0 < k" "k < n" "(k - 1) div 2 = i"
  shows "\<not> lt (xs ! k) (xs ! min_child lt xs i n)"
proof -
  have oks: "\<And>k. k < n \<Longrightarrow> ok (xs ! k)" using ok n by simp
  have "k = 2 * i + 1 \<or> k = 2 * i + 2" using k by presburger
  moreover have "\<not> lt (xs ! k) (xs ! k)" using irrefl oks k by blast
  moreover have "k = 2 * i + 1 \<Longrightarrow> 2 * i + 2 < n \<Longrightarrow> lt (xs ! (2 * i + 2)) (xs ! (2 * i + 1)) \<Longrightarrow> \<not> lt (xs ! k) (xs ! (2 * i + 2))"
    using asym oks k by blast
  ultimately show ?thesis using k unfolding min_child_def by auto
qed

lemma down_inv_step:
  assumes ok: "all_ok xs" and n: "n \<le> length xs" and c: "2 * i + 1 < n"
    and lt: "lt (xs ! min_child lt xs i n) (xs ! i)" and inv: "down_inv lt xs i n"
  shows "down_inv lt (swap xs i (min_child lt xs i n)) (min_child lt xs i n) n"
proof -
  define m where "m = min_child lt xs i n"
  have m: "m < n" "i < m" "(m - 1) div 2 = i" using min_child_range [OF c, of lt xs] by (auto simp: m_def)
  have oks: "\<And>k. k < n \<Longrightarrow> ok (xs ! k)" using ok n by simp
  have mi: "lt (xs ! m) (xs ! i)" using lt by (simp add: m_def)
  have least: "\<not> lt (xs ! k) (xs ! m)" if "0 < k" "k < n" "(k - 1) div 2 = i" for k
    unfolding m_def using min_child_least [OF ok n that] .
  have I1: "\<And>k. 0 < k \<Longrightarrow> k < n \<Longrightarrow> (k - 1) div 2 \<noteq> i \<Longrightarrow> \<not> lt (xs ! k) (xs ! ((k - 1) div 2))"
    and I2: "\<And>k. 0 < i \<Longrightarrow> 0 < k \<Longrightarrow> k < n \<Longrightarrow> (k - 1) div 2 = i \<Longrightarrow> \<not> lt (xs ! k) (xs ! ((i - 1) div 2))"
    using inv by (auto simp: down_inv_def)
  have s: "\<And>k. swap xs i m ! k = (if k = i then xs ! m else if k = m then xs ! i else xs ! k)"
    using m n by (simp add: nth_swap)
  have A: "\<not> lt (swap xs i m ! k) (swap xs i m ! ((k - 1) div 2))"
    if k: "0 < k" "k < n" "(k - 1) div 2 \<noteq> m" for k
  proof -
    consider "k = m" | "k \<noteq> m" "(k - 1) div 2 = i" | "k = i" | "k \<noteq> i" "k \<noteq> m" "(k - 1) div 2 \<noteq> i" by blast
    then show ?thesis
    proof cases
      case 1
      have "\<not> lt (xs ! i) (xs ! m)" using asym [OF oks oks mi] m by simp
      with 1 m show ?thesis by (simp add: s)
    next
      case 2
      then have "k \<noteq> i" using k by auto
      with 2 k least m show ?thesis by (simp add: s)
    next
      case 3
      have "\<not> lt (xs ! m) (xs ! ((i - 1) div 2))" using I2 [of m] 3 k m by simp
      moreover have "(i - 1) div 2 < i" using 3 k by auto
      ultimately show ?thesis using 3 m by (simp add: s)
    next
      case 4 then show ?thesis using I1 k by (simp add: s)
    qed
  qed
  have B: "\<not> lt (swap xs i m ! k) (swap xs i m ! ((m - 1) div 2))"
    if k: "0 < k" "k < n" "(k - 1) div 2 = m" for k
  proof -
    have "m < k" using k by auto
    moreover have "\<not> lt (xs ! k) (xs ! m)" using I1 [of k] k m by simp
    ultimately show ?thesis using m by (simp add: s)
  qed
  show ?thesis unfolding down_inv_def m_def [symmetric] using A B by simp
qed

lemma down_inv_done:
  assumes ok: "all_ok xs" and n: "n \<le> length xs"
    and stop: "\<not> (2 * i + 1 < n \<and> lt (xs ! min_child lt xs i n) (xs ! i))" and inv: "down_inv lt xs i n"
  shows "heap_upto lt xs n"
  unfolding heap_upto_def
proof (intro allI impI)
  fix k assume k: "0 < k" "k < n"
  have oks: "\<And>k. k < n \<Longrightarrow> ok (xs ! k)" using ok n by simp
  show "\<not> lt (xs ! k) (xs ! ((k - 1) div 2))"
  proof (cases "(k - 1) div 2 = i")
    case True
    then have kc: "k = 2 * i + 1 \<or> k = 2 * i + 2" using k by presburger
    with k have c: "2 * i + 1 < n" by auto
    define m where "m = min_child lt xs i n"
    have m: "m < n" "i < n" using min_child_range [OF c, of lt xs] by (auto simp: m_def)
    have "\<not> lt (xs ! m) (xs ! i)" using stop c by (simp add: m_def)
    moreover have "\<not> lt (xs ! k) (xs ! m)" unfolding m_def using min_child_least [OF ok n k True] .
    ultimately show ?thesis using le_trans [of "xs ! i" "xs ! m" "xs ! k"] oks m k True by auto
  next
    case False
    with inv k show ?thesis by (simp add: down_inv_def)
  qed
qed

lemma heap_down_heap:
  "all_ok xs \<Longrightarrow> n \<le> length xs \<Longrightarrow> down_inv lt xs i n \<Longrightarrow> heap_upto lt (heap_down lt xs i n) n"
proof (induction "n - i" arbitrary: xs i rule: less_induct)
  case less
  show ?case
  proof (cases "2 * i + 1 < n \<and> lt (xs ! min_child lt xs i n) (xs ! i)")
    case True
    let ?m = "min_child lt xs i n"
    have m: "i < ?m" "?m < n" using min_child_range [of i n lt xs] True by auto
    have "heap_upto lt (heap_down lt (swap xs i ?m) ?m n) n"
      using less.prems True m by (intro less.hyps down_inv_step) (auto simp: set_swap_idx)
    with True show ?thesis by (subst heap_down.simps) simp
  next
    case False
    with less.prems down_inv_done [of xs n i] show ?thesis by (subst heap_down.simps) auto
  qed
qed

lemma heap_root_least: "all_ok xs \<Longrightarrow> is_heap lt xs \<Longrightarrow> k < length xs \<Longrightarrow> \<not> lt (xs ! k) (xs ! 0)"
proof (induction k rule: less_induct)
  case (less k)
  have oks: "\<And>k. k < length xs \<Longrightarrow> ok (xs ! k)" using less.prems by simp
  show ?case
  proof (cases "k = 0")
    case False
    then have p: "(k - 1) div 2 < k" by auto
    then have a: "\<not> lt (xs ! ((k - 1) div 2)) (xs ! 0)" using less by auto
    have b: "\<not> lt (xs ! k) (xs ! ((k - 1) div 2))" using less.prems False by (simp add: heap_upto_def)
    have "0 < length xs" "(k - 1) div 2 < length xs" using less.prems p by auto
    then show ?thesis using le_trans [OF oks oks oks a b] less.prems by blast
  qed (use irrefl oks less.prems in auto)
qed

text \<open>Popping a non-empty heap yields its root, which nothing in the heap is less than, and leaves a heap of the rest.\<close>

lemma heap_pop_correct:
  assumes ok: "all_ok xs" and heap: "is_heap lt xs" and ne: "xs \<noteq> []" and pop: "heap_pop lt xs = (x, ys)"
  shows "mset xs = add_mset x (mset ys)" and "is_heap lt ys" and "\<forall>y \<in> set xs. \<not> lt y x"
proof -
  let ?n = "length xs - 1"
  define zs where "zs = swap xs 0 ?n"
  define ws where "ws = heap_down lt zs 0 ?n"
  have len: "length ws = length xs" "ws \<noteq> []" using ne by (auto simp: ws_def zs_def simp flip: length_greater_0_conv)
  have xy: "x = last ws" "ys = butlast ws" using pop by (auto simp: heap_pop_def Let_def ws_def zs_def)
  have ms: "mset ws = mset xs" using ne by (simp add: ws_def mset_heap_down zs_def mset_swap_idx)
  have "ws = ys @ [x]" using len xy by simp
  then show "mset xs = add_mset x (mset ys)" using ms by simp
  have zok: "all_ok zs" using ok ne by (simp add: zs_def set_swap_idx)
  have "down_inv lt zs 0 ?n"
    using heap ne by (auto simp: down_inv_def heap_upto_def zs_def nth_swap)
  then have "heap_upto lt ws ?n" unfolding ws_def using zok by (intro heap_down_heap) (auto simp: zs_def)
  then show "is_heap lt ys" using len xy by (auto simp: heap_upto_def nth_butlast)
  have "last ws = zs ! ?n" using len ne by (simp add: last_conv_nth ws_def heap_down_outside zs_def)
  then have "x = xs ! 0" using xy ne by (simp add: zs_def nth_swap)
  then show "\<forall>y \<in> set xs. \<not> lt y x" using heap_root_least [OF ok heap] by (auto simp: in_set_conv_nth)
qed

lemma heap_push_mset: "mset (heap_push lt xs x) = add_mset x (mset xs)"
  by (simp add: heap_push_def mset_heap_up)

end

end
