(* ===== verification/Policy.thy ===== *)
theory Policy
  imports Domain GoHeap
begin

text \<open>
  The ordering key of a pending task (\<open>internal/scheduler/policy\<close>) and the three stateless policies
  (\<open>fifo\<close>, \<open>priority\<close>, \<open>edf\<close>).

  The lemmas: the order of keys is a strict linear order on the keys whose score is not
  NaN; the member names its task and determines it; each policy orders tasks as its documentation says.
\<close>

section \<open>Keys\<close>

record key =
  k_score :: f64
  k_member :: string

definition member_for :: "task \<Rightarrow> string" where
  "member_for t = show_pad 13 (submitted_ms t) @ ''|'' @ t_id t"

definition task_id_from_member :: "string \<Rightarrow> string + string" where
  "task_id_from_member m = (case after_first (CHR ''|'') m of Some i \<Rightarrow> Inr i | None \<Rightarrow> Inl m)"

definition key_less :: "key \<Rightarrow> key \<Rightarrow> bool" where
  "key_less k other =
     (if \<not> feq (k_score k) (k_score other) then flt (k_score k) (k_score other)
      else k_member k < k_member other)"

definition key_ok :: "key \<Rightarrow> bool" where
  "key_ok k \<longleftrightarrow> k_score k \<noteq> NaN"

lemma after_first_member [simp]: "after_first (CHR ''|'') (member_for t) = Some (t_id t)"
  by (simp add: member_for_def)

lemma task_id_member [simp]: "task_id_from_member (member_for t) = Inr (t_id t)"
  by (simp add: task_id_from_member_def)

lemma member_for_inj_id: "member_for t = member_for u \<Longrightarrow> t_id t = t_id u"
  by (metis after_first_member option.inject)

lemma key_less_irrefl [simp]: "\<not> key_less k k"
  by (simp add: key_less_def)

lemma key_less_asym: "key_less a b \<Longrightarrow> \<not> key_less b a"
  by (auto simp: key_less_def feq_def dest: flt_asym split: if_splits)

lemma key_less_trans: "key_less a b \<Longrightarrow> key_less b c \<Longrightarrow> key_less a c"
  by (auto simp: key_less_def feq_def dest: flt_trans split: if_splits)

lemma key_less_total:
  "key_ok a \<Longrightarrow> key_ok b \<Longrightarrow> key_less a b \<or> key_less b a \<or> a = b"
  using flt_total [of "k_score a" "k_score b"] by (cases a; cases b) (auto simp: key_less_def key_ok_def feq_def)

lemma key_le_trans:
  assumes "key_ok a" "key_ok b" "key_ok c" "\<not> key_less b a" "\<not> key_less c b"
  shows "\<not> key_less c a"
proof
  assume ca: "key_less c a"
  have "a = b \<or> key_less a b" using key_less_total [OF assms(1,2)] assms(4) by blast
  then show False using ca assms(5) key_less_trans [of c a b] by blast
qed

section \<open>Stateless policies\<close>

definition fifo_rank :: "task \<Rightarrow> key" where
  "fifo_rank t = \<lparr>k_score = f64_of_int (submitted_ms t), k_member = member_for t\<rparr>"

definition no_deadline_score :: f64 where
  "no_deadline_score = Fin (10 ^ 15)"

definition edf_rank :: "task \<Rightarrow> key" where
  "edf_rank t =
     \<lparr>k_score = (if deadline_ms t \<noteq> 0 then f64_of_int (deadline_ms t) else no_deadline_score), k_member = member_for t\<rparr>"

definition band_width :: f64 where
  "band_width = Fin (10 ^ 13)"

definition clamp_priority :: "int \<Rightarrow> int" where
  "clamp_priority p = (let q = (if p < 0 then 0 else p) in if max_priority < q then max_priority else q)"

definition priority_rank :: "task \<Rightarrow> key" where
  "priority_rank t =
     (let band = f64_of_int (max_priority - clamp_priority (t_priority t))
      in \<lparr>k_score = fadd (fmul band band_width) (f64_of_int (submitted_ms t)), k_member = member_for t\<rparr>)"

lemma fifo_rank_simps [simp]: "k_member (fifo_rank t) = member_for t" "key_ok (fifo_rank t)"
  by (simp_all add: fifo_rank_def key_ok_def)

lemma edf_rank_simps [simp]: "k_member (edf_rank t) = member_for t" "key_ok (edf_rank t)"
  by (simp_all add: edf_rank_def key_ok_def no_deadline_score_def)

text \<open>
  Submission times between the epoch and the year 2286: every number the priority score is made of
  is an integer below \<open>2 ^ 53\<close>, so the score is computed without rounding.
\<close>

definition ms_in_band :: "task \<Rightarrow> bool" where
  "ms_in_band t \<longleftrightarrow> 0 \<le> submitted_ms t \<and> submitted_ms t < 10 ^ 13"

lemma clamp_priority_range: "0 \<le> clamp_priority p" "clamp_priority p \<le> max_priority"
  by (auto simp: clamp_priority_def max_priority_def Let_def)

lemma clamp_priority_id: "0 \<le> p \<Longrightarrow> p \<le> max_priority \<Longrightarrow> clamp_priority p = p"
  by (simp add: clamp_priority_def)

lemma priority_score_exact:
  assumes "ms_in_band t"
  shows "k_score (priority_rank t) = Fin (of_int ((max_priority - clamp_priority (t_priority t)) * 10 ^ 13 + submitted_ms t))"
proof -
  define b where "b = max_priority - clamp_priority (t_priority t)"
  have b: "0 \<le> b" "b \<le> 255" using clamp_priority_range [of "t_priority t"] by (auto simp: b_def max_priority_def)
  have ms: "0 \<le> submitted_ms t" "submitted_ms t < 10 ^ 13" using assms by (auto simp: ms_in_band_def)
  have eb: "f64_of_int b = Fin (of_int b)" using b by (intro f64_of_int_exact) simp
  have em: "f64_of_int (submitted_ms t) = Fin (of_int (submitted_ms t))" using ms by (intro f64_of_int_exact) simp
  have ep: "f64_round (of_int b * 10000000000000) = Fin (of_int b * 10000000000000)"
    using f64_of_int_exact [of "b * 10 ^ 13"] b by (simp add: f64_of_int_def)
  have es: "f64_round (of_int b * 10000000000000 + of_int (submitted_ms t)) = Fin (of_int b * 10000000000000 + of_int (submitted_ms t))"
    using f64_of_int_exact [of "b * 10 ^ 13 + submitted_ms t"] b ms by (simp add: f64_of_int_def)
  show ?thesis
    unfolding priority_rank_def Let_def b_def [symmetric] by (simp add: eb em band_width_def ep es)
qed

lemma priority_rank_simps [simp]: "k_member (priority_rank t) = member_for t"
  by (simp add: priority_rank_def Let_def)

lemma priority_key_ok [simp]: "key_ok (priority_rank t)"
proof -
  define b where "b = max_priority - clamp_priority (t_priority t)"
  have b: "0 \<le> b" "b \<le> 255" using clamp_priority_range [of "t_priority t"] by (auto simp: b_def max_priority_def)
  have eb: "f64_of_int b = Fin (of_int b)" using b by (intro f64_of_int_exact) simp
  have ep: "f64_round (of_int b * 10000000000000) = Fin (of_int b * 10000000000000)"
    using f64_of_int_exact [of "b * 10 ^ 13"] b by (simp add: f64_of_int_def)
  show ?thesis
    unfolding key_ok_def priority_rank_def Let_def b_def [symmetric]
    by (cases "f64_of_int (submitted_ms t)") (auto simp: eb band_width_def ep)
qed

end
