(* ===== verification/Wfq.thy ===== *)
theory Wfq
  imports Policy "HOL-Library.AList"
begin

text \<open>
  Weighted fair queuing (\<open>internal/scheduler/wfq\<close>): the virtual clock, the finish tags and their
  persistence. Go maps are association lists with distinct keys.

  The lemmas: tags and clock never go back, whatever the rounding; a task never
  starts before the virtual clock; state that was saved is restored exactly; a rejected weight is
  an error, and what the check does not reject.
\<close>

type_synonym 'a go_map = "(string \<times> 'a) list"

record wfq =
  w_weights :: "f64 go_map"
  w_default :: f64
  w_vtime :: f64
  w_last :: "f64 go_map"

datatype wfq_error = BadDefaultWeight f64 | BadWeight string f64

fun check_weights :: "f64 go_map \<Rightarrow> wfq_error option" where
  "check_weights [] = None"
| "check_weights ((tenant, w) # ws) = (if fle w (Fin 0) then Some (BadWeight tenant w) else check_weights ws)"

definition wfq_new :: "f64 go_map \<Rightarrow> f64 \<Rightarrow> wfq_error + wfq" where
  "wfq_new weights default_weight =
     (let def = (if feq default_weight (Fin 0) then Fin 1 else default_weight) in
      if fle def (Fin 0) then Inl (BadDefaultWeight def)
      else case check_weights weights of
        Some e \<Rightarrow> Inl e
      | None \<Rightarrow> Inr \<lparr>w_weights = weights, w_default = def, w_vtime = Fin 0, w_last = []\<rparr>)"

definition wfq_weight :: "wfq \<Rightarrow> string \<Rightarrow> f64" where
  "wfq_weight p tenant = (case map_of (w_weights p) tenant of Some w \<Rightarrow> w | None \<Rightarrow> w_default p)"

definition wfq_start :: "wfq \<Rightarrow> string \<Rightarrow> f64" where
  "wfq_start p tenant =
     (case map_of (w_last p) tenant of
        Some lf \<Rightarrow> if fgt lf (w_vtime p) then lf else w_vtime p
      | None \<Rightarrow> w_vtime p)"

definition wfq_cost :: "task \<Rightarrow> f64" where
  "wfq_cost t = (let cost = f64_of_int (t_exec_ms t) in if fle cost (Fin 0) then Fin 1 else cost)"

definition wfq_rank :: "wfq \<Rightarrow> task \<Rightarrow> key \<times> wfq" where
  "wfq_rank p t =
     (let finish = fadd (wfq_start p (t_tenant t)) (fdiv (wfq_cost t) (wfq_weight p (t_tenant t)))
      in (\<lparr>k_score = finish, k_member = member_for t\<rparr>,
          p\<lparr>w_last := AList.update (t_tenant t) finish (w_last p)\<rparr>))"

definition wfq_notify :: "wfq \<Rightarrow> key \<Rightarrow> wfq" where
  "wfq_notify p k = (if fgt (k_score k) (w_vtime p) then p\<lparr>w_vtime := k_score k\<rparr> else p)"

definition state_vtime :: string where
  "state_vtime = ''vtime''"

definition state_finish_pfx :: string where
  "state_finish_pfx = ''lf:''"

definition wfq_state :: "wfq \<Rightarrow> rtext go_map" where
  "wfq_state p = (state_vtime, TFlt (w_vtime p)) # map (\<lambda>(tenant, f). (state_finish_pfx @ tenant, TFlt f)) (w_last p)"

text \<open>\<open>strconv.ParseFloat\<close> on the stored text; \<open>FormatFloat\<close> with 17 digits names the value exactly.\<close>

definition parse_float :: "rtext \<Rightarrow> f64 option" where
  "parse_float v = (case v of TFlt f \<Rightarrow> Some f | TNum n \<Rightarrow> Some (f64_of_int n) | _ \<Rightarrow> None)"

datatype restore_error = BadStateValue string | UnknownStateKey string

fun restore_entries :: "rtext go_map \<Rightarrow> wfq \<Rightarrow> restore_error option \<times> wfq" where
  "restore_entries [] p = (None, p)"
| "restore_entries ((k, s) # es) p =
     (case parse_float s of
        None \<Rightarrow> (Some (BadStateValue k), p)
      | Some v \<Rightarrow>
          if k = state_vtime then restore_entries es (p\<lparr>w_vtime := v\<rparr>)
          else if has_prefix k state_finish_pfx
          then restore_entries es (p\<lparr>w_last := AList.update (trim_prefix k state_finish_pfx) v (w_last p)\<rparr>)
          else (Some (UnknownStateKey k), p))"

definition wfq_restore :: "rtext go_map \<Rightarrow> wfq \<Rightarrow> restore_error option \<times> wfq" where
  "wfq_restore state p = restore_entries (sort_key fst state) (p\<lparr>w_vtime := Fin 0, w_last := []\<rparr>)"

section \<open>The clock and the tags\<close>

text \<open>
  The invariant: weights are positive, the clock and the tags are non-negative values of the
  float format. \<open>wfq_new\<close> establishes all of it but one point: a NaN weight passes its check.
\<close>

definition pos_weight :: "f64 \<Rightarrow> bool" where
  "pos_weight w \<longleftrightarrow> flt (Fin 0) w"

definition tag_ok :: "f64 \<Rightarrow> bool" where
  "tag_ok f \<longleftrightarrow> fle (Fin 0) f \<and> f64_ok f"

definition wfq_inv :: "wfq \<Rightarrow> bool" where
  "wfq_inv p \<longleftrightarrow> tag_ok (w_vtime p) \<and> (\<forall>a f. map_of (w_last p) a = Some f \<longrightarrow> tag_ok f) \<and>
     pos_weight (w_default p) \<and> (\<forall>a w. map_of (w_weights p) a = Some w \<longrightarrow> pos_weight w)"

lemma tag_ok_not_NaN: "tag_ok f \<Longrightarrow> f \<noteq> NaN"
  by (auto simp: tag_ok_def dest: fle_not_NaN)

lemma wfq_weight_pos: "wfq_inv p \<Longrightarrow> pos_weight (wfq_weight p a)"
  by (auto simp: wfq_inv_def wfq_weight_def split: option.splits)

lemma wfq_start_tag: "wfq_inv p \<Longrightarrow> tag_ok (wfq_start p a)"
  by (auto simp: wfq_start_def wfq_inv_def split: option.splits)

lemma wfq_start_ge_vtime: "wfq_inv p \<Longrightarrow> fle (w_vtime p) (wfq_start p a)"
  by (auto simp: wfq_start_def wfq_inv_def fle_def dest: tag_ok_not_NaN split: option.splits)

lemma wfq_start_ge_last: "wfq_inv p \<Longrightarrow> map_of (w_last p) a = Some f \<Longrightarrow> fle f (wfq_start p a)"
  using not_flt [of "w_vtime p" f] by (auto simp: wfq_start_def wfq_inv_def dest: tag_ok_not_NaN)

lemma wfq_cost_pos: "in_i64 (t_exec_ms t) \<Longrightarrow> \<exists>x. wfq_cost t = Fin x \<and> 0 < x"
  using f64_of_int_finite [of "t_exec_ms t"] by (auto simp: wfq_cost_def Let_def)

lemma wfq_service_nonneg:
  assumes "wfq_inv p" "in_i64 (t_exec_ms t)"
  shows "fle (Fin 0) (fdiv (wfq_cost t) (wfq_weight p a))"
proof -
  obtain x where x: "wfq_cost t = Fin x" "0 < x" using wfq_cost_pos [OF assms(2)] by auto
  show ?thesis using wfq_weight_pos [OF assms(1), of a] fdiv_nonneg [of "wfq_cost t" "wfq_weight p a"] x
    by (cases "wfq_weight p a") (auto simp: pos_weight_def)
qed

text \<open>The finish tag of a task is at least its start, which is at least the clock and the tenant's last tag.\<close>

lemma wfq_finish_ge_start:
  assumes "wfq_inv p" "in_i64 (t_exec_ms t)"
  shows "fle (wfq_start p (t_tenant t)) (k_score (fst (wfq_rank p t)))"
    and "tag_ok (k_score (fst (wfq_rank p t)))"
proof -
  let ?s = "wfq_start p (t_tenant t)" and ?d = "fdiv (wfq_cost t) (wfq_weight p (t_tenant t))"
  have s: "tag_ok ?s" by (rule wfq_start_tag [OF assms(1)])
  have d: "fle (Fin 0) ?d" by (rule wfq_service_nonneg [OF assms])
  have dok: "f64_ok ?d"
    using wfq_cost_pos [OF assms(2)] by (cases "wfq_weight p (t_tenant t)") (auto simp: f64_ok_def [of "Fin 0"])
  have le: "fle ?s (fadd ?s ?d)"
    using fadd_ge_left [of ?s ?d] s d tag_ok_not_NaN [OF s] by (auto simp: tag_ok_def fle_def [of "Fin 0" NInf] feq_def)
  then show "fle ?s (k_score (fst (wfq_rank p t)))" by (simp add: wfq_rank_def Let_def)
  show "tag_ok (k_score (fst (wfq_rank p t)))"
    using le s dok fle_trans [of "Fin 0" ?s] by (simp add: wfq_rank_def Let_def tag_ok_def)
qed

lemma wfq_rank_member [simp]: "k_member (fst (wfq_rank p t)) = member_for t"
  by (simp add: wfq_rank_def Let_def)

lemma wfq_rank_state: "snd (wfq_rank p t) = p\<lparr>w_last := AList.update (t_tenant t) (k_score (fst (wfq_rank p t))) (w_last p)\<rparr>"
  by (simp add: wfq_rank_def Let_def)

lemma wfq_rank_last:
  "map_of (w_last (snd (wfq_rank p t))) a = (if a = t_tenant t then Some (k_score (fst (wfq_rank p t))) else map_of (w_last p) a)"
  by (simp add: wfq_rank_state update_conv')

lemma wfq_rank_inv: "wfq_inv p \<Longrightarrow> in_i64 (t_exec_ms t) \<Longrightarrow> wfq_inv (snd (wfq_rank p t))"
  using wfq_finish_ge_start(2) [of p t] by (auto simp: wfq_inv_def wfq_rank_state update_conv')

lemma wfq_notify_inv: "wfq_inv p \<Longrightarrow> f64_ok (k_score k) \<Longrightarrow> wfq_inv (wfq_notify p k)"
  by (auto simp: wfq_inv_def wfq_notify_def tag_ok_def fle_def feq_def dest: flt_trans)

lemma wfq_notify_mono: "wfq_inv p \<Longrightarrow> fle (w_vtime p) (w_vtime (wfq_notify p k))"
  by (auto simp: wfq_notify_def wfq_inv_def fle_def dest: tag_ok_not_NaN)

section \<open>Persistence\<close>

lemma map_of_sort_key:
  assumes "distinct (map fst xs)"
  shows "map_of (sort_key fst xs) = map_of xs"
proof -
  have "distinct (map fst (sort_key fst xs))"
    using assms by (simp add: distinct_map inj_on_def)
  then show ?thesis using assms by (intro map_of_eqI) (auto simp: map_of_eq_Some_iff)
qed

definition state_entry_ok :: "string \<times> rtext \<Rightarrow> bool" where
  "state_entry_ok e \<longleftrightarrow> (fst e = state_vtime \<or> has_prefix (fst e) state_finish_pfx) \<and> parse_float (snd e) \<noteq> None"

lemma vtime_no_prefix [simp]: "\<not> has_prefix state_vtime state_finish_pfx"
  by (simp add: state_vtime_def state_finish_pfx_def)

lemma finish_pfx_not_vtime [simp]: "state_finish_pfx @ a \<noteq> state_vtime" "state_vtime \<noteq> state_finish_pfx @ a"
  by (simp_all add: state_vtime_def state_finish_pfx_def)

lemma restore_entries_ok:
  assumes "distinct (map fst es)" "\<forall>e \<in> set es. state_entry_ok e"
  shows "\<exists>p'. restore_entries es p = (None, p') \<and> w_weights p' = w_weights p \<and> w_default p' = w_default p \<and>
    Some (w_vtime p') = (case map_of es state_vtime of Some v \<Rightarrow> parse_float v | None \<Rightarrow> Some (w_vtime p)) \<and>
    (\<forall>a. map_of (w_last p') a = (case map_of es (state_finish_pfx @ a) of Some v \<Rightarrow> parse_float v | None \<Rightarrow> map_of (w_last p) a))"
  using assms
proof (induction es arbitrary: p)
  case Nil
  then show ?case by simp
next
  case (Cons e es)
  obtain k s where e: "e = (k, s)" by (cases e)
  from Cons.prems(2) e obtain v where v: "parse_float s = Some v" by (auto simp: state_entry_ok_def)
  from Cons.prems have d: "distinct (map fst es)" "k \<notin> fst ` set es" and g: "\<forall>e \<in> set es. state_entry_ok e"
    using e by auto
  have nk: "map_of es k = None" using d(2) by (simp add: map_of_eq_None_iff)
  show ?case
  proof (cases "k = state_vtime")
    case True
    from Cons.IH [OF d(1) g, of "p\<lparr>w_vtime := v\<rparr>"] True v nk e show ?thesis by (auto cong: option.case_cong)
  next
    case False
    then have "has_prefix k state_finish_pfx" using Cons.prems(2) e by (auto simp: state_entry_ok_def)
    then obtain t where t: "k = state_finish_pfx @ t" by (auto simp: has_prefix_iff)
    from Cons.IH [OF d(1) g, of "p\<lparr>w_last := AList.update t v (w_last p)\<rparr>"] t v nk e False
    show ?thesis by (auto simp: update_conv' cong: option.case_cong)
  qed
qed

lemma wfq_state_entry_ok: "e \<in> set (wfq_state p) \<Longrightarrow> state_entry_ok e"
  by (auto simp: wfq_state_def state_entry_ok_def parse_float_def)

lemma wfq_state_distinct: "distinct (map fst (w_last p)) \<Longrightarrow> distinct (map fst (wfq_state p))"
  by (auto simp: wfq_state_def distinct_map inj_on_def split_def)

lemma map_of_map_pfx: "map_of (map (\<lambda>(t, f). (state_finish_pfx @ t, TFlt f)) xs) (state_finish_pfx @ a) = map_option TFlt (map_of xs a)"
  by (induction xs) auto

lemma map_of_wfq_state:
  "map_of (wfq_state p) state_vtime = Some (TFlt (w_vtime p))"
  "map_of (wfq_state p) (state_finish_pfx @ a) = map_option TFlt (map_of (w_last p) a)"
  by (simp_all add: wfq_state_def map_of_map_pfx)

lemma wfq_restore_state:
  assumes "distinct (map fst (w_last p))"
  shows "\<exists>q'. wfq_restore (wfq_state p) q = (None, q') \<and> w_vtime q' = w_vtime p \<and>
    map_of (w_last q') = map_of (w_last p) \<and> w_weights q' = w_weights q \<and> w_default q' = w_default q"
proof -
  let ?es = "sort_key fst (wfq_state p)" and ?q = "q\<lparr>w_vtime := Fin 0, w_last := []\<rparr>"
  have d: "distinct (map fst (wfq_state p))" by (rule wfq_state_distinct [OF assms])
  have "distinct (map fst ?es)" using d by (simp add: distinct_map inj_on_def)
  moreover have "\<forall>e \<in> set ?es. state_entry_ok e" by (simp add: wfq_state_entry_ok)
  ultimately obtain q' where r: "restore_entries ?es ?q = (None, q')" "w_weights q' = w_weights ?q" "w_default q' = w_default ?q"
    "Some (w_vtime q') = (case map_of ?es state_vtime of Some v \<Rightarrow> parse_float v | None \<Rightarrow> Some (w_vtime ?q))"
    "\<forall>a. map_of (w_last q') a = (case map_of ?es (state_finish_pfx @ a) of Some v \<Rightarrow> parse_float v | None \<Rightarrow> map_of (w_last ?q) a)"
    using restore_entries_ok [of ?es ?q] by auto
  have "w_vtime q' = w_vtime p" using r(4) by (simp add: map_of_sort_key [OF d] map_of_wfq_state parse_float_def)
  moreover have "map_of (w_last q') = map_of (w_last p)"
  proof
    fix a show "map_of (w_last q') a = map_of (w_last p) a"
      using r(5) by (cases "map_of (w_last p) a") (simp_all add: map_of_sort_key [OF d] map_of_wfq_state parse_float_def)
  qed
  ultimately show ?thesis using r by (auto simp: wfq_restore_def)
qed

section \<open>Construction\<close>

lemma check_weights_None: "check_weights ws = None \<longleftrightarrow> (\<forall>(a, w) \<in> set ws. \<not> fle w (Fin 0))"
  by (induction ws) (auto split: if_splits)

lemma not_fle_zero: "\<not> fle w (Fin 0) \<longleftrightarrow> pos_weight w \<or> w = NaN"
  by (cases w) (auto simp: pos_weight_def fle_def feq_def)

lemma wfq_new_inv:
  assumes "wfq_new ws d = Inr p" "d \<noteq> NaN" "\<forall>(a, w) \<in> set ws. w \<noteq> NaN"
  shows "wfq_inv p"
proof -
  have t0: "tag_ok (Fin 0)" by (simp add: tag_ok_def f64_ok_def)
  have "\<forall>a w. map_of ws a = Some w \<longrightarrow> pos_weight w"
    using assms by (auto simp: wfq_new_def Let_def check_weights_None not_fle_zero split: if_splits option.splits dest!: map_of_SomeD)
  moreover have "pos_weight (if feq d (Fin 0) then Fin 1 else d)"
    using assms by (auto simp: wfq_new_def Let_def not_fle_zero pos_weight_def split: if_splits option.splits)
  ultimately show ?thesis
    using assms t0 by (auto simp: wfq_new_def Let_def wfq_inv_def split: if_splits option.splits)
qed

end
