(* ===== verification/Queue.thy ===== *)
theory Queue
  imports Wfq
begin

text \<open>
  The policy interface, the choice of a policy by name (\<open>internal/scheduler\<close>) and the in-memory
  queue (\<open>policy/queue.go\<close>): a pending set driven by a policy, on Go's \<open>container/heap\<close>.

  The locale \<open>ranking\<close> is the interface \<open>policy.Policy\<close> promises its client; the queue's
  facts are proved in it once and every policy is an interpretation.
\<close>

section \<open>The configured policy\<close>

datatype policy = FifoP | PriorityP | EdfP | WfqP wfq

definition policy_names :: "string list" where
  "policy_names = sort [''fifo'', ''priority'', ''edf'', ''wfq'']"

definition valid_policy :: "string \<Rightarrow> bool" where
  "valid_policy name = list_ex (\<lambda>n. n = name) policy_names"

datatype new_policy_error = PolicyRequired | UnknownPolicy string | WfqRejected wfq_error

definition new_policy :: "string \<Rightarrow> f64 go_map \<Rightarrow> f64 \<Rightarrow> new_policy_error + policy" where
  "new_policy name weights default_weight =
     (if name = ''fifo'' then Inr FifoP
      else if name = ''priority'' then Inr PriorityP
      else if name = ''edf'' then Inr EdfP
      else if name = ''wfq'' then
        (case wfq_new weights default_weight of Inl e \<Rightarrow> Inl (WfqRejected e) | Inr p \<Rightarrow> Inr (WfqP p))
      else if name = [] then Inl PolicyRequired
      else Inl (UnknownPolicy name))"

fun pol_name :: "policy \<Rightarrow> string" where
  "pol_name FifoP = ''fifo''"
| "pol_name PriorityP = ''priority''"
| "pol_name EdfP = ''edf''"
| "pol_name (WfqP p) = ''wfq''"

fun pol_rank :: "policy \<Rightarrow> task \<Rightarrow> key \<times> policy" where
  "pol_rank FifoP t = (fifo_rank t, FifoP)"
| "pol_rank PriorityP t = (priority_rank t, PriorityP)"
| "pol_rank EdfP t = (edf_rank t, EdfP)"
| "pol_rank (WfqP p) t = (case wfq_rank p t of (k, p') \<Rightarrow> (k, WfqP p'))"

fun pol_notify :: "policy \<Rightarrow> key \<Rightarrow> policy" where
  "pol_notify (WfqP p) k = WfqP (wfq_notify p k)"
| "pol_notify p k = p"

text \<open>A stateless policy's \<open>State\<close> is nil, the map with no entry.\<close>

fun pol_state :: "policy \<Rightarrow> rtext go_map" where
  "pol_state (WfqP p) = wfq_state p"
| "pol_state p = []"

fun pol_restore :: "policy \<Rightarrow> rtext go_map \<Rightarrow> restore_error option \<times> policy" where
  "pol_restore (WfqP p) state = (case wfq_restore state p of (e, p') \<Rightarrow> (e, WfqP p'))"
| "pol_restore p state = (None, p)"

section \<open>The interface\<close>

text \<open>
  What a client of a policy relies on: a key carries the task's own member, its score is a
  number, and ranking and notification keep the policy's invariant. \<open>fit\<close> are the
  tasks of the code's field widths.
\<close>

definition task_fits :: "task \<Rightarrow> bool" where
  "task_fits t \<longleftrightarrow> in_i64 (t_exec_ms t)"

locale ranking =
  fixes rank :: "'p \<Rightarrow> task \<Rightarrow> key \<times> 'p" and notify :: "'p \<Rightarrow> key \<Rightarrow> 'p" and inv :: "'p \<Rightarrow> bool"
  assumes rank_member: "k_member (fst (rank p t)) = member_for t"
    and rank_ok: "inv p \<Longrightarrow> task_fits t \<Longrightarrow> key_ok (fst (rank p t)) \<and> f64_ok (k_score (fst (rank p t)))"
    and rank_inv: "inv p \<Longrightarrow> task_fits t \<Longrightarrow> inv (snd (rank p t))"
    and notify_inv: "inv p \<Longrightarrow> f64_ok (k_score k) \<Longrightarrow> inv (notify p k)"

fun pol_inv :: "policy \<Rightarrow> bool" where
  "pol_inv (WfqP p) = wfq_inv p"
| "pol_inv p = True"

lemma edf_score_ok [simp]: "f64_ok (k_score (edf_rank t))"
proof -
  have "f64_of_int (10 ^ 15) = no_deadline_score"
    using f64_of_int_exact [of "10 ^ 15"] by (simp add: no_deadline_score_def)
  then show ?thesis by (metis edf_rank_def f64_of_int_ok key.select_convs(1))
qed

lemma priority_score_ok [simp]: "f64_ok (k_score (priority_rank t))"
proof -
  define b where "b = max_priority - clamp_priority (t_priority t)"
  have b: "0 \<le> b" "b \<le> 255" using clamp_priority_range [of "t_priority t"] by (auto simp: b_def max_priority_def)
  have "f64_of_int b = Fin (of_int b)" using b by (intro f64_of_int_exact) simp
  then have "f64_ok (fmul (f64_of_int b) band_width)" by (simp add: band_width_def)
  then show ?thesis unfolding priority_rank_def Let_def b_def [symmetric] by simp
qed

lemma fifo_score_ok [simp]: "f64_ok (k_score (fifo_rank t))"
  by (simp add: fifo_rank_def)

lemma wfq_key_ok:
  "wfq_inv p \<Longrightarrow> task_fits t \<Longrightarrow> key_ok (fst (wfq_rank p t)) \<and> f64_ok (k_score (fst (wfq_rank p t)))"
  using wfq_finish_ge_start(2) [of p t] tag_ok_not_NaN by (auto simp: key_ok_def task_fits_def tag_ok_def)

interpretation pol: ranking pol_rank pol_notify pol_inv
proof
  fix p t k
  show "k_member (fst (pol_rank p t)) = member_for t" by (cases p) (auto simp: split_beta)
  show "pol_inv p \<Longrightarrow> task_fits t \<Longrightarrow> key_ok (fst (pol_rank p t)) \<and> f64_ok (k_score (fst (pol_rank p t)))"
    by (cases p) (auto simp: split_beta wfq_key_ok)
  show "pol_inv p \<Longrightarrow> task_fits t \<Longrightarrow> pol_inv (snd (pol_rank p t))"
    by (cases p) (auto simp: split_beta task_fits_def wfq_rank_inv)
  show "pol_inv p \<Longrightarrow> f64_ok (k_score k) \<Longrightarrow> pol_inv (pol_notify p k)"
    by (cases p) (auto simp: wfq_notify_inv)
qed

section \<open>The in-memory queue\<close>

record entry =
  e_key :: key
  e_task :: task

definition entry_less :: "entry \<Rightarrow> entry \<Rightarrow> bool" where
  "entry_less a b = key_less (e_key a) (e_key b)"

definition entry_ok :: "entry \<Rightarrow> bool" where
  "entry_ok e \<longleftrightarrow> key_ok (e_key e) \<and> f64_ok (k_score (e_key e))"

interpretation eh: heap_order entry_less entry_ok
  by unfold_locales (auto simp: entry_less_def entry_ok_def dest: key_less_asym key_le_trans)

record 'p queue =
  q_policy :: 'p
  q_heap :: "entry list"

definition new_queue :: "'p \<Rightarrow> 'p queue" where
  "new_queue p = \<lparr>q_policy = p, q_heap = []\<rparr>"

definition queue_admit :: "('p \<Rightarrow> task \<Rightarrow> key \<times> 'p) \<Rightarrow> 'p queue \<Rightarrow> task \<Rightarrow> key \<times> 'p queue" where
  "queue_admit rank q t =
     (case rank (q_policy q) t of
        (k, p') \<Rightarrow> (k, \<lparr>q_policy = p', q_heap = heap_push entry_less (q_heap q) \<lparr>e_key = k, e_task = t\<rparr>\<rparr>))"

definition queue_next :: "('p \<Rightarrow> key \<Rightarrow> 'p) \<Rightarrow> 'p queue \<Rightarrow> task option \<times> 'p queue" where
  "queue_next notify q =
     (if q_heap q = [] then (None, q)
      else case heap_pop entry_less (q_heap q) of
        (it, h) \<Rightarrow> (Some (e_task it), \<lparr>q_policy = notify (q_policy q) (e_key it), q_heap = h\<rparr>))"

definition queue_pending :: "'p queue \<Rightarrow> nat" where
  "queue_pending q = length (q_heap q)"

lemma length_heap_pop: "length (snd (heap_pop lt xs)) = length xs - 1"
  by (simp add: heap_pop_def Let_def)

lemma queue_next_pending: "queue_next notify q = (Some t, q') \<Longrightarrow> length (q_heap q') < length (q_heap q)"
  using length_heap_pop [of entry_less "q_heap q"]
  by (auto simp: queue_next_def split: if_splits prod.splits simp flip: length_greater_0_conv)

function queue_drain :: "('p \<Rightarrow> key \<Rightarrow> 'p) \<Rightarrow> 'p queue \<Rightarrow> task list" where
  "queue_drain notify q = (case queue_next notify q of (None, _) \<Rightarrow> [] | (Some t, q') \<Rightarrow> t # queue_drain notify q')"
  by pat_completeness auto
termination
  by (relation "measure (\<lambda>(notify, q). length (q_heap q))") (auto dest: queue_next_pending [OF sym])

declare queue_drain.simps [simp del]

fun admit_all :: "('p \<Rightarrow> task \<Rightarrow> key \<times> 'p) \<Rightarrow> 'p queue \<Rightarrow> task list \<Rightarrow> 'p queue" where
  "admit_all rank q [] = q"
| "admit_all rank q (t # ts) = admit_all rank (snd (queue_admit rank q t)) ts"

definition key_sorted :: "entry list \<Rightarrow> bool" where
  "key_sorted = sorted_wrt (\<lambda>a b. \<not> entry_less b a)"

context ranking begin

definition queue_inv :: "'p queue \<Rightarrow> bool" where
  "queue_inv q \<longleftrightarrow> inv (q_policy q) \<and> is_heap entry_less (q_heap q) \<and>
     (\<forall>e \<in> set (q_heap q). entry_ok e \<and> k_member (e_key e) = member_for (e_task e))"

lemma new_queue_inv: "inv p \<Longrightarrow> queue_inv (new_queue p)"
  by (simp add: queue_inv_def new_queue_def heap_upto_def)

lemma queue_admit_inv:
  assumes "queue_inv q" "task_fits t"
  shows "queue_inv (snd (queue_admit rank q t))"
proof -
  let ?e = "\<lparr>e_key = fst (rank (q_policy q) t), e_task = t\<rparr>"
  have ok: "entry_ok ?e" using assms rank_ok [of "q_policy q" t] by (auto simp: entry_ok_def queue_inv_def)
  have s: "set (heap_push entry_less (q_heap q) ?e) = insert ?e (set (q_heap q))"
    using eh.heap_push_mset [of "q_heap q" ?e] by (metis set_mset_add_mset_insert set_mset_mset)
  have h: "is_heap entry_less (heap_push entry_less (q_heap q) ?e)"
    using assms ok by (intro eh.heap_push_heap) (auto simp: queue_inv_def)
  show ?thesis using assms ok s h rank_inv
    by (auto simp: queue_inv_def queue_admit_def split_beta rank_member)
qed

lemma queue_admit_mset:
  "mset (q_heap (snd (queue_admit rank q t))) = add_mset \<lparr>e_key = fst (rank (q_policy q) t), e_task = t\<rparr> (mset (q_heap q))"
  by (simp add: queue_admit_def split_beta eh.heap_push_mset)

lemma admit_all_inv: "queue_inv q \<Longrightarrow> \<forall>t \<in> set ts. task_fits t \<Longrightarrow> queue_inv (admit_all rank q ts)"
  by (induction ts arbitrary: q) (auto simp: queue_admit_inv)

lemma admit_all_tasks: "mset (map e_task (q_heap (admit_all rank q ts))) = mset (map e_task (q_heap q)) + mset ts"
  by (induction ts arbitrary: q) (auto simp: queue_admit_mset)

text \<open>The next task is one whose key no pending key is less than.\<close>

lemma queue_next_least:
  assumes q: "queue_inv q" and nx: "queue_next notify q = (Some t, q')"
  shows "\<exists>e. e_task e = t \<and> mset (q_heap q) = add_mset e (mset (q_heap q')) \<and>
    (\<forall>e' \<in> set (q_heap q). \<not> entry_less e' e) \<and> queue_inv q'"
proof -
  obtain e h where pop: "heap_pop entry_less (q_heap q) = (e, h)" by (cases "heap_pop entry_less (q_heap q)")
  have ne: "q_heap q \<noteq> []" and t: "t = e_task e" and q': "q' = \<lparr>q_policy = notify (q_policy q) (e_key e), q_heap = h\<rparr>"
    using nx pop by (auto simp: queue_next_def split: if_splits)
  have ok: "\<forall>e \<in> set (q_heap q). entry_ok e" and hp: "is_heap entry_less (q_heap q)" using q by (auto simp: queue_inv_def)
  note c = eh.heap_pop_correct [OF ok hp ne pop]
  have "set (q_heap q) = insert e (set h)" using c(1) by (metis set_mset_add_mset_insert set_mset_mset)
  moreover have "inv (notify (q_policy q) (e_key e))"
    using q ok \<open>set (q_heap q) = insert e (set h)\<close> by (intro notify_inv) (auto simp: queue_inv_def entry_ok_def)
  ultimately have "queue_inv q'" using q c(2) q' by (auto simp: queue_inv_def)
  with c t q' show ?thesis by auto
qed

lemma queue_next_None: "queue_next notify q = (None, q') \<Longrightarrow> q_heap q = []"
  by (auto simp: queue_next_def split: if_splits prod.splits)

text \<open>Draining the queue yields exactly the pending tasks, in the order of their keys.\<close>

lemma queue_drain_sorted:
  "queue_inv q \<Longrightarrow> \<exists>es. mset es = mset (q_heap q) \<and> queue_drain notify q = map e_task es \<and> key_sorted es"
proof (induction "length (q_heap q)" arbitrary: q rule: less_induct)
  case less
  show ?case
  proof (cases "queue_next notify q")
    case (Pair r q')
    show ?thesis
    proof (cases r)
      case None
      with Pair have "q_heap q = []" by (auto dest: queue_next_None)
      then show ?thesis using Pair None by (subst queue_drain.simps) (auto simp: key_sorted_def)
    next
      case (Some t)
      from Pair Some have nx: "queue_next notify q = (Some t, q')" by simp
      obtain e where e: "e_task e = t" "mset (q_heap q) = add_mset e (mset (q_heap q'))"
        "\<forall>e' \<in> set (q_heap q). \<not> entry_less e' e" "queue_inv q'"
        using queue_next_least [OF less.prems nx] by auto
      obtain es where es: "mset es = mset (q_heap q')" "queue_drain notify q' = map e_task es" "key_sorted es"
        using less.hyps [OF queue_next_pending [OF nx] e(4)] by auto
      have "set es \<subseteq> set (q_heap q)" using e(2) es(1) by (metis set_mset_add_mset_insert set_mset_mset subset_insertI)
      then have "key_sorted (e # es)" using e(3) es(3) by (auto simp: key_sorted_def)
      moreover have "queue_drain notify q = map e_task (e # es)" using nx e(1) es(2) by (subst queue_drain.simps) simp
      ultimately show ?thesis using e(2) es(1) by (intro exI [of _ "e # es"]) simp
    qed
  qed
qed

end

end
