(* ===== verification/Config.thy ===== *)
theory Config
  imports Keys Queue
begin

text \<open>
  The configuration (\<open>internal/config\<close>): its sections, the built-in defaults, the defaults filled into a partial
  document, and the checks. A check's error is the name of the field it is about; \<open>errors.Join\<close> of them
  is their list, empty for none. Reading YAML is a library and is not modelled.
\<close>

section \<open>The sections\<close>

record sentinel_cfg =
  sn_enabled :: bool
  sn_master :: string
  sn_addrs :: "string list"
  sn_password :: string
  sn_wait :: int
  sn_wait_timeout :: duration

record redis_cfg =
  rc_addr :: string
  rc_password :: string
  rc_db :: int
  rc_dial :: duration
  rc_read :: duration
  rc_write :: duration
  rc_pool :: int
  rc_sentinel :: sentinel_cfg

record election_cfg =
  le_enabled :: bool
  le_ttl :: duration
  le_renew :: duration
  le_retry :: duration

record scheduler_cfg =
  sc_policy :: string
  sc_ingest_batch :: int
  sc_ingest_block :: duration
  sc_dispatch_batch :: int
  sc_idle_sleep :: duration
  sc_max_in_flight :: int
  sc_metrics_addr :: string
  sc_weights :: "f64 go_map"
  sc_default_weight :: f64
  sc_flush :: duration
  sc_election :: election_cfg
  sc_reclaim_interval :: duration
  sc_reclaim_idle :: duration

record worker_cfg =
  wk_name :: string
  wk_concurrency :: int
  wk_exec_mode :: string
  wk_block :: duration
  wk_metrics_addr :: string
  wk_abandon_rate :: f64
  wk_fail_rate :: f64
  wk_fail_seed :: int
  wk_grace :: duration

record recovery_cfg =
  rv_enabled :: bool
  rv_interval :: duration
  rv_min_idle :: duration
  rv_batch :: int
  rv_max_retries :: int

record log_cfg =
  lg_level :: string
  lg_format :: string

record exec_spec =
  ex_min :: int
  ex_max :: int

record deadline_spec =
  dl_base :: int
  dl_mult :: f64
  dl_jitter :: int

record tenant_share =
  ts_id :: string
  ts_share :: f64

record burst_spec =
  bu_base :: f64
  bu_rate :: f64
  bu_duration :: duration
  bu_period :: duration

record heavy_spec =
  ht_min :: int
  ht_max :: int
  ht_alpha :: f64

record workload_cfg =
  wl_type :: string
  wl_seed :: int
  wl_count :: int
  wl_prefix :: string
  wl_rate :: f64
  wl_max_retries :: int
  wl_exec :: exec_spec
  wl_weights :: "f64 list"
  wl_deadline :: deadline_spec
  wl_tenants :: "tenant_share list"
  wl_skew :: "tenant_share list"
  wl_burst :: burst_spec
  wl_heavy :: heavy_spec

record config =
  c_redis :: redis_cfg
  c_streams :: streams_cfg
  c_scheduler :: scheduler_cfg
  c_worker :: worker_cfg
  c_recovery :: recovery_cfg
  c_workload :: workload_cfg
  c_log :: log_cfg

section \<open>Names\<close>

definition exec_modes :: "string list" where
  "exec_modes = [''sleep'', ''cpu'']"

definition valid_exec_mode :: "string \<Rightarrow> bool" where
  "valid_exec_mode m \<longleftrightarrow> m = ''sleep'' \<or> m = ''cpu''"

definition workload_types :: "string list" where
  "workload_types = [''uniform'', ''bursty'', ''heavy_tailed'', ''multi_tenant'']"

definition valid_workload :: "string \<Rightarrow> bool" where
  "valid_workload name = list_ex (\<lambda>t. t = name) workload_types"

section \<open>Defaults\<close>

text \<open>A decimal literal of a float field is the nearest double.\<close>

definition lit :: "rat \<Rightarrow> f64" where
  "lit q = f64_round q"

definition share :: "string \<Rightarrow> rat \<Rightarrow> tenant_share" where
  "share i q = \<lparr>ts_id = i, ts_share = lit q\<rparr>"

definition default_config :: config where
  "default_config =
     \<lparr>c_redis =
        \<lparr>rc_addr = ''localhost:6379'', rc_password = [], rc_db = 0, rc_dial = 5 * second, rc_read = 3 * second, rc_write = 3 * second,
         rc_pool = 32,
         rc_sentinel = \<lparr>sn_enabled = False, sn_master = [], sn_addrs = [], sn_password = [], sn_wait = 0, sn_wait_timeout = 0\<rparr>\<rparr>,
      c_streams =
        \<lparr>s_namespace = ''tq'', s_ingress = ''ingress'', s_exec = ''exec'', s_results = ''results'', s_dead = ''dead'',
         s_sched_group = ''schedulers'', s_worker_group = ''workers'', s_max_len = 0\<rparr>,
      c_scheduler =
        \<lparr>sc_policy = ''fifo'', sc_ingest_batch = 256, sc_ingest_block = 200 * millisecond, sc_dispatch_batch = 32,
         sc_idle_sleep = 2 * millisecond, sc_max_in_flight = 64, sc_metrics_addr = '':9101'',
         sc_weights = [(''A'', lit 1), (''B'', lit 1), (''C'', lit 1), (''D'', lit 1), (''E'', lit 1)],
         sc_default_weight = lit 1, sc_flush = second,
         sc_election = \<lparr>le_enabled = True, le_ttl = 5 * second, le_renew = 1500 * millisecond, le_retry = 1 * second\<rparr>,
         sc_reclaim_interval = second, sc_reclaim_idle = 2 * second\<rparr>,
      c_worker =
        \<lparr>wk_name = [], wk_concurrency = 4, wk_exec_mode = ''sleep'', wk_block = 500 * millisecond, wk_metrics_addr = '':9102'',
         wk_abandon_rate = lit 0, wk_fail_rate = lit 0, wk_fail_seed = 0, wk_grace = 15 * second\<rparr>,
      c_recovery =
        \<lparr>rv_enabled = True, rv_interval = 500 * millisecond, rv_min_idle = 10 * second, rv_batch = 128, rv_max_retries = 3\<rparr>,
      c_workload =
        \<lparr>wl_type = ''uniform'', wl_seed = 42, wl_count = 500, wl_prefix = ''task'', wl_rate = lit 120, wl_max_retries = 3,
         wl_exec = \<lparr>ex_min = 40, ex_max = 60\<rparr>, wl_weights = [lit 40, lit 25, lit 20, lit 10, lit 5],
         wl_deadline = \<lparr>dl_base = 250, dl_mult = lit 3, dl_jitter = 250\<rparr>,
         wl_tenants = [share ''A'' (1/5), share ''B'' (1/5), share ''C'' (1/5), share ''D'' (1/5), share ''E'' (1/5)],
         wl_skew = [share ''A'' (9/10), share ''B'' (3/100), share ''C'' (3/100), share ''D'' (1/50), share ''E'' (1/50)],
         wl_burst = \<lparr>bu_base = lit 60, bu_rate = lit 600, bu_duration = 500 * millisecond, bu_period = 2 * second\<rparr>,
         wl_heavy = \<lparr>ht_min = 15, ht_max = 4000, ht_alpha = lit (13/10)\<rparr>\<rparr>,
      c_log = \<lparr>lg_level = ''info'', lg_format = ''text''\<rparr>\<rparr>"

text \<open>Fill a value left at its zero value.\<close>

definition or_default :: "'a \<Rightarrow> 'a \<Rightarrow> 'a \<Rightarrow> 'a" where
  "or_default zero d v = (if v = zero then d else v)"

text \<open>A float field is left at zero when it compares equal to 0, as -0 does.\<close>

definition or_default_f :: "f64 \<Rightarrow> f64 \<Rightarrow> f64" where
  "or_default_f d v = (if feq v (Fin 0) then d else v)"

definition default_redis :: "redis_cfg \<Rightarrow> redis_cfg" where
  "default_redis r = (let d = c_redis default_config in
     r\<lparr>rc_addr := or_default [] (rc_addr d) (rc_addr r), rc_dial := or_default 0 (rc_dial d) (rc_dial r),
       rc_read := or_default 0 (rc_read d) (rc_read r), rc_write := or_default 0 (rc_write d) (rc_write r),
       rc_pool := or_default 0 (rc_pool d) (rc_pool r)\<rparr>)"

definition default_streams :: "streams_cfg \<Rightarrow> streams_cfg" where
  "default_streams s = (let d = c_streams default_config in
     s\<lparr>s_namespace := or_default [] (s_namespace d) (s_namespace s), s_ingress := or_default [] (s_ingress d) (s_ingress s),
       s_exec := or_default [] (s_exec d) (s_exec s), s_results := or_default [] (s_results d) (s_results s),
       s_dead := or_default [] (s_dead d) (s_dead s), s_sched_group := or_default [] (s_sched_group d) (s_sched_group s),
       s_worker_group := or_default [] (s_worker_group d) (s_worker_group s)\<rparr>)"

definition default_election :: "election_cfg \<Rightarrow> election_cfg" where
  "default_election e = (let d = sc_election (c_scheduler default_config) in
     e\<lparr>le_ttl := or_default 0 (le_ttl d) (le_ttl e), le_renew := or_default 0 (le_renew d) (le_renew e),
       le_retry := or_default 0 (le_retry d) (le_retry e)\<rparr>)"

definition default_scheduler :: "scheduler_cfg \<Rightarrow> scheduler_cfg" where
  "default_scheduler s = (let d = c_scheduler default_config in
     s\<lparr>sc_policy := or_default [] (sc_policy d) (sc_policy s), sc_ingest_batch := or_default 0 (sc_ingest_batch d) (sc_ingest_batch s),
       sc_ingest_block := or_default 0 (sc_ingest_block d) (sc_ingest_block s),
       sc_dispatch_batch := or_default 0 (sc_dispatch_batch d) (sc_dispatch_batch s),
       sc_idle_sleep := or_default 0 (sc_idle_sleep d) (sc_idle_sleep s),
       sc_metrics_addr := or_default [] (sc_metrics_addr d) (sc_metrics_addr s),
       sc_default_weight := or_default_f (sc_default_weight d) (sc_default_weight s),
       sc_flush := or_default 0 (sc_flush d) (sc_flush s), sc_election := default_election (sc_election s),
       sc_reclaim_interval := or_default 0 (sc_reclaim_interval d) (sc_reclaim_interval s),
       sc_reclaim_idle := or_default 0 (sc_reclaim_idle d) (sc_reclaim_idle s)\<rparr>)"

definition default_worker :: "worker_cfg \<Rightarrow> worker_cfg" where
  "default_worker w = (let d = c_worker default_config in
     w\<lparr>wk_concurrency := or_default 0 (wk_concurrency d) (wk_concurrency w), wk_exec_mode := or_default [] (wk_exec_mode d) (wk_exec_mode w),
       wk_block := or_default 0 (wk_block d) (wk_block w), wk_metrics_addr := or_default [] (wk_metrics_addr d) (wk_metrics_addr w),
       wk_grace := or_default 0 (wk_grace d) (wk_grace w)\<rparr>)"

definition default_recovery :: "recovery_cfg \<Rightarrow> recovery_cfg" where
  "default_recovery r = (let d = c_recovery default_config in
     r\<lparr>rv_interval := or_default 0 (rv_interval d) (rv_interval r), rv_min_idle := or_default 0 (rv_min_idle d) (rv_min_idle r),
       rv_batch := or_default 0 (rv_batch d) (rv_batch r)\<rparr>)"

text \<open>A struct left at its zero value; its floats compare with \<open>==\<close>.\<close>

definition zero_deadline :: "deadline_spec \<Rightarrow> bool" where
  "zero_deadline d \<longleftrightarrow> dl_base d = 0 \<and> feq (dl_mult d) (Fin 0) \<and> dl_jitter d = 0"

definition zero_burst :: "burst_spec \<Rightarrow> bool" where
  "zero_burst b \<longleftrightarrow> feq (bu_base b) (Fin 0) \<and> feq (bu_rate b) (Fin 0) \<and> bu_duration b = 0 \<and> bu_period b = 0"

definition zero_heavy :: "heavy_spec \<Rightarrow> bool" where
  "zero_heavy h \<longleftrightarrow> ht_min h = 0 \<and> ht_max h = 0 \<and> feq (ht_alpha h) (Fin 0)"

definition default_workload :: "workload_cfg \<Rightarrow> workload_cfg" where
  "default_workload w = (let d = c_workload default_config in
     w\<lparr>wl_type := or_default [] (wl_type d) (wl_type w), wl_count := or_default 0 (wl_count d) (wl_count w),
       wl_prefix := or_default [] (wl_prefix d) (wl_prefix w), wl_rate := or_default_f (wl_rate d) (wl_rate w),
       wl_exec := (if ex_max (wl_exec w) = 0 then wl_exec d else wl_exec w),
       wl_weights := or_default [] (wl_weights d) (wl_weights w),
       wl_deadline := (if zero_deadline (wl_deadline w) then wl_deadline d else wl_deadline w),
       wl_tenants := or_default [] (wl_tenants d) (wl_tenants w), wl_skew := or_default [] (wl_skew d) (wl_skew w),
       wl_burst := (if zero_burst (wl_burst w) then wl_burst d else wl_burst w),
       wl_heavy := (if zero_heavy (wl_heavy w) then wl_heavy d else wl_heavy w)\<rparr>)"

definition default_log :: "log_cfg \<Rightarrow> log_cfg" where
  "default_log l = (let d = c_log default_config in
     l\<lparr>lg_level := or_default [] (lg_level d) (lg_level l), lg_format := or_default [] (lg_format d) (lg_format l)\<rparr>)"

definition apply_defaults :: "config \<Rightarrow> config" where
  "apply_defaults c =
     \<lparr>c_redis = default_redis (c_redis c), c_streams = default_streams (c_streams c), c_scheduler = default_scheduler (c_scheduler c),
      c_worker = default_worker (c_worker c), c_recovery = default_recovery (c_recovery c),
      c_workload = default_workload (c_workload c), c_log = default_log (c_log c)\<rparr>"

section \<open>Checks\<close>

type_synonym cerr = string

definition check :: "bool \<Rightarrow> cerr \<Rightarrow> cerr list" where
  "check bad e = (if bad then [e] else [])"

lemma check_Nil [simp]: "check bad e = [] \<longleftrightarrow> \<not> bad"
  by (simp add: check_def)

definition fabs :: "f64 \<Rightarrow> f64" where
  "fabs x = (if flt x (Fin 0) then fneg x else x)"

text \<open>\<open>seen\<close> are the ids before the current one.\<close>

fun check_shares :: "string \<Rightarrow> string list \<Rightarrow> tenant_share list \<Rightarrow> cerr list" where
  "check_shares field seen [] = []"
| "check_shares field seen (t # ts) =
     check (ts_id t = []) (field @ ''.id'') @
     check (list_ex (\<lambda>i. i = ts_id t) seen) (field @ '': duplicate id'') @
     check (fle (ts_share t) (Fin 0)) (field @ ''.share'') @
     check_shares field (ts_id t # seen) ts"

definition sum_f :: "f64 list \<Rightarrow> f64" where
  "sum_f xs = foldl fadd (Fin 0) xs"

definition validate_shares :: "string \<Rightarrow> tenant_share list \<Rightarrow> cerr list" where
  "validate_shares field ts =
     (if ts = [] then []
      else check_shares field [] ts @
        check (fgt (fabs (fsub (sum_f (map ts_share ts)) (Fin 1))) (lit (1 / 1000000))) (field @ '': sum''))"

definition validate_workload :: "workload_cfg \<Rightarrow> cerr list" where
  "validate_workload w =
     check (\<not> valid_workload (wl_type w)) ''workload.type'' @
     check (wl_count w \<le> 0) ''workload.count'' @
     check (wl_prefix w = []) ''workload.id_prefix'' @
     check (wl_max_retries w < 0) ''workload.max_retries'' @
     check (fle (wl_rate w) (Fin 0)) ''workload.arrival_rate_per_sec'' @
     check (ex_min (wl_exec w) < 0 \<or> ex_max (wl_exec w) < ex_min (wl_exec w)) ''workload.exec'' @
     check (ex_max (wl_exec w) = 0) ''workload.exec.max_ms'' @
     check (wl_weights w = []) ''workload.priority.weights'' @
     check (max_priority + 1 < int (length (wl_weights w))) ''workload.priority.weights: length'' @
     concat (map (\<lambda>v. check (flt v (Fin 0)) ''workload.priority.weights: negative'') (wl_weights w)) @
     check (fle (sum_f (wl_weights w)) (Fin 0)) ''workload.priority.weights: sum'' @
     check (dl_base (wl_deadline w) < 0) ''workload.deadline.base_ms'' @
     check (flt (dl_mult (wl_deadline w)) (Fin 0)) ''workload.deadline.exec_multiplier'' @
     check (dl_jitter (wl_deadline w) < 0) ''workload.deadline.jitter_ms'' @
     check (wl_tenants w = []) ''workload.tenants'' @
     validate_shares ''workload.tenants'' (wl_tenants w) @
     (if wl_type w = ''multi_tenant''
      then check (wl_skew w = []) ''workload.skew_tenants'' @ validate_shares ''workload.skew_tenants'' (wl_skew w)
      else []) @
     (if wl_type w = ''bursty''
      then
        check (fle (bu_base (wl_burst w)) (Fin 0)) ''workload.burst.base_rate_per_sec'' @
        check (fle (bu_rate (wl_burst w)) (Fin 0)) ''workload.burst.burst_rate_per_sec'' @
        check (bu_duration (wl_burst w) \<le> 0) ''workload.burst.burst_duration'' @
        check (bu_period (wl_burst w) \<le> bu_duration (wl_burst w)) ''workload.burst.burst_period''
      else []) @
     (if wl_type w = ''heavy_tailed''
      then
        check (ht_min (wl_heavy w) \<le> 0) ''workload.heavy_tail.min_ms'' @
        check (ht_max (wl_heavy w) < ht_min (wl_heavy w)) ''workload.heavy_tail.max_ms'' @
        check (fle (ht_alpha (wl_heavy w)) (Fin 0)) ''workload.heavy_tail.alpha''
      else [])"

definition has_space :: "string \<Rightarrow> bool" where
  "has_space s = list_ex (\<lambda>c. c = CHR '' '' \<or> c = CHR 0x09 \<or> c = CHR 0x0A) s"

definition validate_redis :: "redis_cfg \<Rightarrow> cerr list" where
  "validate_redis r =
     (if sn_enabled (rc_sentinel r)
      then
        check (sn_master (rc_sentinel r) = []) ''redis.sentinel.master_name'' @
        check (sn_addrs (rc_sentinel r) = []) ''redis.sentinel.addrs'' @
        check (sn_wait (rc_sentinel r) < 0) ''redis.sentinel.wait_for_replicas'' @
        check (0 < sn_wait (rc_sentinel r) \<and> sn_wait_timeout (rc_sentinel r) \<le> 0) ''redis.sentinel.wait_timeout''
      else check (rc_addr r = []) ''redis.addr'') @
     check (rc_db r < 0) ''redis.db'' @
     check (rc_pool r \<le> 0) ''redis.pool_size''"

text \<open>The six stream and group names are checked in the iteration order of a map; here in the order of the source.\<close>

definition validate_streams :: "streams_cfg \<Rightarrow> cerr list" where
  "validate_streams s =
     check (s_namespace s = []) ''streams.namespace'' @
     check (has_space (s_namespace s)) ''streams.namespace: whitespace'' @
     check (s_ingress s = []) ''streams.ingress_stream'' @
     check (s_exec s = []) ''streams.exec_stream'' @
     check (s_results s = []) ''streams.results_stream'' @
     check (s_dead s = []) ''streams.dead_letter_stream'' @
     check (s_sched_group s = []) ''streams.scheduler_group'' @
     check (s_worker_group s = []) ''streams.worker_group'' @
     check (s_max_len s < 0) ''streams.max_len''"

definition validate_election :: "election_cfg \<Rightarrow> cerr list" where
  "validate_election e =
     (if le_enabled e
      then
        (if le_ttl e \<le> 0 then [''scheduler.leader_election.ttl'']
         else if le_renew e \<le> 0 then [''scheduler.leader_election.renew_interval'']
         else if le_ttl e \<le> le_renew e then [''scheduler.leader_election.renew_interval: not shorter than ttl'']
         else []) @
        check (le_retry e \<le> 0) ''scheduler.leader_election.retry_interval''
      else [])"

definition validate :: "config \<Rightarrow> cerr list" where
  "validate c =
     (let s = c_scheduler c; w = c_worker c; r = c_recovery c in
      validate_redis (c_redis c) @ validate_streams (c_streams c) @
      check (\<not> valid_policy (sc_policy s)) ''scheduler.policy'' @
      check (sc_ingest_batch s \<le> 0) ''scheduler.ingest_batch'' @
      check (sc_dispatch_batch s \<le> 0) ''scheduler.dispatch_batch'' @
      check (sc_idle_sleep s \<le> 0) ''scheduler.idle_sleep'' @
      check (sc_max_in_flight s < 0) ''scheduler.max_in_flight'' @
      check (fle (sc_default_weight s) (Fin 0)) ''scheduler.default_tenant_weight'' @
      concat (map (\<lambda>(tenant, v). check (fle v (Fin 0)) (''scheduler.tenant_weights.'' @ tenant)) (sc_weights s)) @
      check (sc_flush s \<le> 0) ''scheduler.state_flush_interval'' @
      check (wk_concurrency w \<le> 0) ''worker.concurrency'' @
      check (\<not> valid_exec_mode (wk_exec_mode w)) ''worker.exec_mode'' @
      check (sc_reclaim_interval s \<le> 0) ''scheduler.ingest_reclaim_interval'' @
      check (sc_reclaim_idle s \<le> 0) ''scheduler.ingest_reclaim_min_idle'' @
      validate_election (sc_election s) @
      check (wk_block w \<le> 0) ''worker.block'' @
      check (flt (wk_abandon_rate w) (Fin 0) \<or> fgt (wk_abandon_rate w) (Fin 1)) ''worker.fail_before_ack_rate'' @
      check (flt (wk_fail_rate w) (Fin 0) \<or> fgt (wk_fail_rate w) (Fin 1)) ''worker.fail_rate'' @
      check (wk_grace w < 0) ''worker.shutdown_grace'' @
      (if rv_enabled r
       then
         check (rv_interval r \<le> 0) ''recovery.interval'' @
         check (rv_min_idle r \<le> 0) ''recovery.min_idle'' @
         check (rv_batch r \<le> 0) ''recovery.batch''
       else []) @
      check (rv_max_retries r < 0) ''recovery.max_retries'' @
      validate_workload (c_workload c) @
      check (\<not> list_ex (\<lambda>l. l = lg_level (c_log c)) [''debug'', ''info'', ''warn'', ''error'']) ''log.level'' @
      check (\<not> list_ex (\<lambda>l. l = lg_format (c_log c)) [''text'', ''json'']) ''log.format'')"

section \<open>The tenants of a workload\<close>

definition active_tenants :: "workload_cfg \<Rightarrow> tenant_share list" where
  "active_tenants w = (if wl_type w = ''multi_tenant'' \<and> wl_skew w \<noteq> [] then wl_skew w else wl_tenants w)"

definition tenant_ids :: "workload_cfg \<Rightarrow> string list" where
  "tenant_ids w = map ts_id (active_tenants w)"

end
