(* ===== verification/BenchStats.thy ===== *)
theory BenchStats
  imports Config
begin

text \<open>
  The statistics of the benchmark harness (\<open>internal/bench/{stats,tenant,summary}.go\<close>), in float64 arithmetic: percentiles, Jain's index,
  deadline misses, per-tenant figures and the summary of an experiment.
\<close>

section \<open>Samples\<close>

text \<open>\<open>sort.Float64s\<close>: NaN first, then by value.\<close>

definition float_before :: "f64 \<Rightarrow> f64 \<Rightarrow> bool" where
  "float_before x y \<longleftrightarrow> flt x y \<or> x = NaN \<and> y \<noteq> NaN"

fun put_float :: "f64 \<Rightarrow> f64 list \<Rightarrow> f64 list" where
  "put_float x [] = [x]"
| "put_float x (y # ys) = (if float_before y x then y # put_float x ys else x # y # ys)"

definition sort_floats :: "f64 list \<Rightarrow> f64 list" where
  "sort_floats xs = foldr put_float xs []"

definition min_of :: "f64 list \<Rightarrow> f64" where
  "min_of xs = foldl (\<lambda>m v. if flt v m then v else m) (hd xs) (tl xs)"

definition max_of :: "f64 list \<Rightarrow> f64" where
  "max_of xs = foldl (\<lambda>m v. if fgt v m then v else m) (hd xs) (tl xs)"

definition f64_floor :: "f64 \<Rightarrow> int" where
  "f64_floor x = (case x of Fin q \<Rightarrow> \<lfloor>q\<rfloor> | _ \<Rightarrow> 0)"

definition f64_ceil :: "f64 \<Rightarrow> int" where
  "f64_ceil x = (case x of Fin q \<Rightarrow> \<lceil>q\<rceil> | _ \<Rightarrow> 0)"

text \<open>The percentile and the slice as the call leaves it: sorted in place where it interpolates.\<close>

definition percentile :: "f64 list \<Rightarrow> f64 \<Rightarrow> f64 \<times> f64 list" where
  "percentile xs q =
     (if xs = [] then (NaN, xs)
      else if fle q (Fin 0) then (min_of xs, xs)
      else if fle (Fin 1) q then (max_of xs, xs)
      else
        let ys = sort_floats xs;
            pos = fmul q (f64_of_int (int (length ys) - 1));
            lo = f64_floor pos; hi = f64_ceil pos in
        if lo = hi then (ys ! nat lo, ys)
        else
          let frac = fsub pos (f64_of_int lo) in
          (fadd (fmul (ys ! nat lo) (fsub (Fin 1) frac)) (fmul (ys ! nat hi) frac), ys))"

definition jain_fairness :: "f64 list \<Rightarrow> f64" where
  "jain_fairness x =
     (if x = [] then NaN
      else
        case foldl (\<lambda>(s, sq) v. let v = (if flt v (Fin 0) then Fin 0 else v) in (fadd s v, fadd sq (fmul v v))) (Fin 0, Fin 0) x of
          (s, sq) \<Rightarrow> if feq sq (Fin 0) then Fin 1 else fdiv (fmul s s) (fmul (f64_of_int (int (length x))) sq))"

definition deadline_miss_count :: "result list \<Rightarrow> int" where
  "deadline_miss_count rs = foldl (\<lambda>n r. if missed_deadline r then n + 1 else n) 0 rs"

definition deadline_miss_rate :: "result list \<Rightarrow> f64" where
  "deadline_miss_rate rs =
     (if rs = [] then Fin 0 else fdiv (f64_of_int (deadline_miss_count rs)) (f64_of_int (int (length rs))))"

definition map_get :: "'a \<Rightarrow> 'a go_map \<Rightarrow> string \<Rightarrow> 'a" where
  "map_get d m k = (case map_of m k of Some v \<Rightarrow> v | None \<Rightarrow> d)"

definition service_of :: "result \<Rightarrow> f64" where
  "service_of r =
     (let s = f64_of_int (r_actual_ms r) in fdiv (if fle s (Fin 0) then f64_of_int (r_exec_ms r) else s) (Fin 1000))"

definition tenant_service_of :: "result list \<Rightarrow> string list \<Rightarrow> f64 go_map" where
  "tenant_service_of rs tenants =
     foldl (\<lambda>m r. AList.update (r_tenant r) (fadd (map_get (Fin 0) m (r_tenant r)) (service_of r)) m)
       (foldl (\<lambda>m t. AList.update t (Fin 0) m) [] tenants) rs"

definition tenant_counts :: "result list \<Rightarrow> string list \<Rightarrow> int go_map" where
  "tenant_counts rs tenants =
     foldl (\<lambda>m r. AList.update (r_tenant r) (map_get 0 m (r_tenant r) + 1) m)
       (foldl (\<lambda>m t. AList.update t 0 m) [] tenants) rs"

definition ordered_values :: "f64 go_map \<Rightarrow> string list \<Rightarrow> f64 list" where
  "ordered_values m ks = map (map_get (Fin 0) m) ks"

record latency_stats =
  la_count :: int
  la_mean :: f64
  la_p50 :: f64
  la_p95 :: f64
  la_p99 :: f64
  la_max :: f64

definition summarise_seconds :: "f64 list \<Rightarrow> latency_stats" where
  "summarise_seconds xs =
     (if xs = [] then \<lparr>la_count = 0, la_mean = Fin 0, la_p50 = Fin 0, la_p95 = Fin 0, la_p99 = Fin 0, la_max = Fin 0\<rparr>
      else
        let cp = sort_floats xs in
        \<lparr>la_count = int (length cp), la_mean = fdiv (sum_f xs) (f64_of_int (int (length cp))),
         la_p50 = fst (percentile cp (lit (1 / 2))), la_p95 = fst (percentile cp (lit (95 / 100))),
         la_p99 = fst (percentile cp (lit (99 / 100))), la_max = last cp\<rparr>)"

definition seconds_of :: "result list \<Rightarrow> (result \<Rightarrow> duration) \<Rightarrow> f64 list" where
  "seconds_of rs f = map (\<lambda>r. dur_seconds (f r)) rs"

section \<open>Tenants\<close>

record tenant_stat =
  tn_tenant :: string
  tn_completed :: int
  tn_service :: f64
  tn_share :: f64
  tn_latency :: latency_stats
  tn_wait :: latency_stats
  tn_missed :: int
  tn_miss_rate :: f64

definition tenant_service_ms :: "result \<Rightarrow> f64" where
  "tenant_service_ms r = fdiv (f64_of_int (if r_actual_ms r \<le> 0 then r_exec_ms r else r_actual_ms r)) (Fin 1000)"

definition stat_names :: "result list \<Rightarrow> string list \<Rightarrow> string list" where
  "stat_names rs tenants = sort (remdups (tenants @ map r_tenant rs))"

definition results_for :: "result list \<Rightarrow> string \<Rightarrow> result list" where
  "results_for rs t = filter (\<lambda>r. r_tenant r = t) rs"

definition tenant_stats :: "result list \<Rightarrow> string list \<Rightarrow> tenant_stat list" where
  "tenant_stats rs tenants =
     (let names = stat_names rs tenants;
          service = (\<lambda>t. sum_f (map tenant_service_ms (results_for rs t)));
          total = sum_f (map service names) in
      map (\<lambda>t. let own = results_for rs t in
        \<lparr>tn_tenant = t, tn_completed = int (length own), tn_service = service t,
         tn_share = (if fgt total (Fin 0) then fdiv (service t) total else Fin 0),
         tn_latency = summarise_seconds (seconds_of own latency), tn_wait = summarise_seconds (seconds_of own queue_wait),
         tn_missed = deadline_miss_count own, tn_miss_rate = (if own = [] then Fin 0 else deadline_miss_rate own)\<rparr>) names)"

record tenant_spread =
  sd_max_p99 :: f64
  sd_min_p99 :: f64
  sd_ratio :: f64
  sd_min_share :: f64
  sd_max_wait :: f64

definition max_wait :: "tenant_stat \<Rightarrow> f64" where
  "max_wait s = la_max (tn_wait s)"

text \<open>One turn of the loop; the flag is \<open>first\<close>.\<close>

definition spread_step :: "bool \<times> tenant_spread \<Rightarrow> tenant_stat \<Rightarrow> bool \<times> tenant_spread" where
  "spread_step x st =
     (case x of (is_first, s) \<Rightarrow>
        let s1 = (if fgt (max_wait st) (sd_max_wait s) then s\<lparr>sd_max_wait := max_wait st\<rparr> else s);
            s2 = (if sd_min_share s1 = NaN \<or> flt (tn_share st) (sd_min_share s1) then s1\<lparr>sd_min_share := tn_share st\<rparr> else s1);
            p = la_p99 (tn_latency st) in
        if tn_completed st = 0 then (is_first, s2)
        else if is_first then (False, s2\<lparr>sd_min_p99 := p, sd_max_p99 := p\<rparr>)
        else (False, s2\<lparr>sd_min_p99 := (if flt p (sd_min_p99 s2) then p else sd_min_p99 s2),
          sd_max_p99 := (if fgt p (sd_max_p99 s2) then p else sd_max_p99 s2)\<rparr>))"

definition spread :: "tenant_stat list \<Rightarrow> tenant_spread" where
  "spread stats =
     (case foldl spread_step (True, \<lparr>sd_max_p99 = NaN, sd_min_p99 = NaN, sd_ratio = Fin 0, sd_min_share = NaN, sd_max_wait = Fin 0\<rparr>) stats of
        (is_first, s) \<Rightarrow>
          if \<not> is_first \<and> fgt (sd_min_p99 s) (Fin 0) then s\<lparr>sd_ratio := fdiv (sd_max_p99 s) (sd_min_p99 s)\<rparr> else s)"

section \<open>The summary of an experiment\<close>

definition makespan :: "result list \<Rightarrow> duration" where
  "makespan rs =
     (if rs = [] then 0
      else
        let first = foldl (\<lambda>t r. if r_submitted r < t then r_submitted r else t) (r_submitted (hd rs)) (tl rs);
            final = foldl (\<lambda>t r. if t < r_finished r then r_finished r else t) (r_finished (hd rs)) (tl rs);
            d = time_sub final first in
        if d < 0 then 0 else d)"

record run_identity =
  id_run :: string
  id_scheduler :: string
  id_workload :: string
  id_repetition :: int
  id_seed :: int
  id_load :: f64

record summary_input =
  in_identity :: run_identity
  in_tenants :: "string list"
  in_results :: "result list"
  in_planned :: int
  in_submitted :: int
  in_dead :: int
  in_retried :: int
  in_failures :: int
  in_duplicates :: int
  in_timed_out :: bool
  in_processes :: int
  in_concurrency :: int
  in_max_in_flight :: int
  in_duration :: duration
  in_busy :: f64
  in_slot :: f64
  in_max_lag :: duration
  in_mean_lag :: duration
  in_rate :: f64
  in_exec_min :: int
  in_exec_max :: int
  in_load :: f64
  in_capacity :: f64
  in_mean_exec :: f64

text \<open>What the summary derives; its other fields are the input's, copied.\<close>

record summary =
  sm_input :: summary_input
  sm_timestamp :: time
  sm_completed :: int
  sm_slots :: int
  sm_makespan :: duration
  sm_throughput :: f64
  sm_latency :: latency_stats
  sm_wait :: latency_stats
  sm_exec :: latency_stats
  sm_missed :: int
  sm_miss_rate :: f64
  sm_utilization :: f64
  sm_jain_service :: f64
  sm_jain_count :: f64
  sm_tenant_count :: int
  sm_tenant_service :: "f64 go_map"
  sm_tenant_completed :: "int go_map"
  sm_tenants :: "tenant_stat list"
  sm_spread :: tenant_spread

definition exec_time :: "result \<Rightarrow> duration" where
  "exec_time r = i64 ((if 0 < r_actual_ms r then r_actual_ms r else r_exec_ms r) * millisecond)"

definition throughput :: "int \<Rightarrow> duration \<Rightarrow> duration \<Rightarrow> f64" where
  "throughput n width experiment =
     (let t = (if fgt (dur_seconds width) (Fin 0) then fdiv (f64_of_int n) (dur_seconds width)
               else if 0 < n \<and> 0 < experiment then fdiv (f64_of_int n) (dur_seconds experiment)
               else Fin 0) in
      case t of Fin _ \<Rightarrow> t | _ \<Rightarrow> Fin 0)"

definition summarise_run :: "time \<Rightarrow> summary_input \<Rightarrow> summary" where
  "summarise_run now i =
     (let rs = in_results i; service = tenant_service_of rs (in_tenants i); counts = tenant_counts rs (in_tenants i);
          stats = tenant_stats rs (in_tenants i); width = makespan rs in
      \<lparr>sm_input = i, sm_timestamp = now, sm_completed = int (length rs), sm_slots = i64 (in_processes i * in_concurrency i),
       sm_makespan = width, sm_throughput = throughput (int (length rs)) width (in_duration i),
       sm_latency = summarise_seconds (seconds_of rs latency), sm_wait = summarise_seconds (seconds_of rs queue_wait),
       sm_exec = summarise_seconds (seconds_of rs exec_time),
       sm_missed = deadline_miss_count rs, sm_miss_rate = deadline_miss_rate rs,
       sm_utilization = (if fgt (in_slot i) (Fin 0) then fdiv (in_busy i) (in_slot i) else Fin 0),
       sm_jain_service = jain_fairness (ordered_values service (in_tenants i)),
       sm_jain_count = jain_fairness (map (\<lambda>t. f64_of_int (map_get 0 counts t)) (in_tenants i)),
       sm_tenant_count = int (length (in_tenants i)), sm_tenant_service = service, sm_tenant_completed = counts,
       sm_tenants = stats, sm_spread = spread stats\<rparr>)"

section \<open>Nothing is lost between tenants\<close>

lemma miss_count_filter: "deadline_miss_count rs = int (length (filter missed_deadline rs))"
proof -
  have "foldl (\<lambda>n r. if missed_deadline r then n + 1 else n) k rs = k + int (length (filter missed_deadline rs))" for k :: int
    by (induction rs arbitrary: k) auto
  then show ?thesis by (simp add: deadline_miss_count_def)
qed

lemma length_by_tenant:
  "distinct ts \<Longrightarrow> r_tenant ` set rs \<subseteq> set ts \<Longrightarrow> (\<Sum>t\<leftarrow>ts. int (length (filter P (results_for rs t)))) = int (length (filter P rs))"
proof (induction rs)
  case Nil
  then show ?case by (simp add: results_for_def sum_list_triv)
next
  case (Cons r rs)
  have one: "(\<Sum>t\<leftarrow>ts. if r_tenant r = t \<and> P r then 1 else 0) = (if P r then 1 else (0 :: int))" if "distinct ts" "r_tenant r \<in> set ts"
    using that by (simp add: sum_list_distinct_conv_sum_set sum.If_cases)
  have "int (length (filter P (results_for (r # rs) t))) = int (length (filter P (results_for rs t))) + (if r_tenant r = t \<and> P r then 1 else 0)" for t
    by (simp add: results_for_def)
  then show ?case
    using Cons one by (simp add: sum_list_addf)
qed

text \<open>
  The tenant table accounts for every result: there is one row for each configured tenant and each tenant that has a result,
  in order of name, starved tenants included, and the rows' completed tasks and missed deadlines add up to the totals.
\<close>

theorem tenant_table_complete:
  "map tn_tenant (tenant_stats rs tenants) = stat_names rs tenants \<and> distinct (stat_names rs tenants) \<and> sorted (stat_names rs tenants) \<and>
   set (stat_names rs tenants) = set tenants \<union> r_tenant ` set rs \<and>
   (\<Sum>s\<leftarrow>tenant_stats rs tenants. tn_completed s) = int (length rs) \<and>
   (\<Sum>s\<leftarrow>tenant_stats rs tenants. tn_missed s) = deadline_miss_count rs"
proof -
  have names: "distinct (stat_names rs tenants)" "set (stat_names rs tenants) = set tenants \<union> r_tenant ` set rs" "sorted (stat_names rs tenants)"
    by (simp_all add: stat_names_def)
  have "map tn_completed (tenant_stats rs tenants) = map (\<lambda>t. int (length (filter (\<lambda>_. True) (results_for rs t)))) (stat_names rs tenants)"
    "map tn_missed (tenant_stats rs tenants) = map (\<lambda>t. int (length (filter missed_deadline (results_for rs t)))) (stat_names rs tenants)"
    "map tn_tenant (tenant_stats rs tenants) = stat_names rs tenants"
    by (simp_all add: tenant_stats_def Let_def comp_def miss_count_filter)
  then show ?thesis
    using names length_by_tenant [OF names(1), of rs "\<lambda>_. True"] length_by_tenant [OF names(1), of rs missed_deadline]
    by (simp add: miss_count_filter)
qed

end
