(* ===== verification/BenchCsv.thy ===== *)
theory BenchCsv
  imports BenchStats
begin

text \<open>
  The rows of the three result tables (\<open>internal/bench/csv.go\<close>). A field is kept as the value it formats: a text, an integer, a number to
  six places, a time in RFC 3339, a truth value. Quoting and writing are library code.
\<close>

datatype csv_field = CText string | CInt int | CF6 f64 | CTime time | CStamp time | CBool bool

text \<open>\<open>ts\<close>: the zero time is the empty text. \<open>CTime\<close> has nanoseconds, \<open>CStamp\<close> seconds.\<close>

definition ts :: "time \<Rightarrow> csv_field" where
  "ts t = (if is_zero_time t then CText [] else CTime t)"

definition outcome_name :: "outcome \<Rightarrow> string" where
  "outcome_name x = (case x of OutcomeCompleted \<Rightarrow> ''completed'' | OutcomeFailed \<Rightarrow> ''failed'' | OutcomeDeadLettered \<Rightarrow> ''dead_lettered'')"

definition raw_header :: "string list" where
  "raw_header =
     [''run_id'', ''scheduler'', ''workload'', ''repetition'', ''seed'', ''offered_load'',
      ''task_id'', ''tenant_id'', ''priority'', ''outcome'',
      ''submitted_at'', ''dispatched_at'', ''started_at'', ''finished_at'', ''deadline'',
      ''exec_ms'', ''actual_exec_ms'', ''retry_count'',
      ''queue_wait_s'', ''latency_s'', ''deadline_missed'', ''worker'']"

definition raw_row :: "run_identity \<Rightarrow> result \<Rightarrow> csv_field list" where
  "raw_row i r =
     [CText (id_run i), CText (id_scheduler i), CText (id_workload i), CInt (id_repetition i), CInt (id_seed i),
      CF6 (id_load i), CText (r_task_id r), CText (r_tenant r), CInt (r_priority r), CText (outcome_name (r_outcome r)),
      ts (r_submitted r), ts (r_dispatched r), ts (r_started r), ts (r_finished r), ts (r_deadline r),
      CInt (r_exec_ms r), CInt (r_actual_ms r), CInt (r_retry r),
      CF6 (dur_seconds (queue_wait r)), CF6 (dur_seconds (latency r)), CBool (missed_deadline r), CText (r_worker r)]"

text \<open>The rows in order of finishing; the order of equal times, which \<open>sort.Slice\<close> leaves open, is that of the stream.\<close>

definition raw_rows :: "run_identity \<Rightarrow> result list \<Rightarrow> csv_field list list" where
  "raw_rows i rs = map (raw_row i) (sort_key r_finished rs)"

definition aggregate_header :: "string list" where
  "aggregate_header =
     [''run_id'', ''timestamp_utc'', ''scheduler'', ''workload'', ''repetition'', ''seed'',
      ''offered_load'', ''capacity_tasks_per_s'', ''mean_exec_ms'',
      ''tasks_planned'', ''tasks_submitted'', ''tasks_completed'', ''tasks_dead_lettered'',
      ''tasks_retried'', ''task_failures'', ''duplicate_completions'', ''timed_out'',
      ''worker_processes'', ''worker_concurrency'', ''total_slots'', ''max_in_flight'',
      ''experiment_duration_s'', ''makespan_s'', ''throughput_tasks_per_s'',
      ''latency_mean_s'', ''latency_p50_s'', ''latency_p95_s'', ''latency_p99_s'', ''latency_max_s'',
      ''wait_mean_s'', ''wait_p50_s'', ''wait_p95_s'', ''wait_p99_s'', ''wait_max_s'',
      ''exec_mean_s'', ''exec_p99_s'',
      ''deadline_missed'', ''deadline_miss_rate'',
      ''worker_busy_s'', ''worker_slot_s'', ''worker_utilization'',
      ''jain_fairness_service'', ''jain_fairness_count'', ''tenant_count'',
      ''tenant_p99_max_s'', ''tenant_p99_min_s'', ''tenant_p99_ratio'', ''min_tenant_service_share'',
      ''producer_max_lag_s'', ''producer_mean_lag_s'',
      ''arrival_rate_per_sec'', ''exec_min_ms'', ''exec_max_ms'']"

definition aggregate_row :: "summary \<Rightarrow> csv_field list" where
  "aggregate_row s =
     (let i = sm_input s; d = in_identity i in
      [CText (id_run d), CStamp (sm_timestamp s), CText (id_scheduler d), CText (id_workload d), CInt (id_repetition d), CInt (id_seed d),
       CF6 (in_load i), CF6 (in_capacity i), CF6 (in_mean_exec i),
       CInt (in_planned i), CInt (in_submitted i), CInt (sm_completed s), CInt (in_dead i),
       CInt (in_retried i), CInt (in_failures i), CInt (in_duplicates i), CBool (in_timed_out i),
       CInt (in_processes i), CInt (in_concurrency i), CInt (sm_slots s), CInt (in_max_in_flight i),
       CF6 (dur_seconds (in_duration i)), CF6 (dur_seconds (sm_makespan s)), CF6 (sm_throughput s),
       CF6 (la_mean (sm_latency s)), CF6 (la_p50 (sm_latency s)), CF6 (la_p95 (sm_latency s)), CF6 (la_p99 (sm_latency s)), CF6 (la_max (sm_latency s)),
       CF6 (la_mean (sm_wait s)), CF6 (la_p50 (sm_wait s)), CF6 (la_p95 (sm_wait s)), CF6 (la_p99 (sm_wait s)), CF6 (la_max (sm_wait s)),
       CF6 (la_mean (sm_exec s)), CF6 (la_p99 (sm_exec s)),
       CInt (sm_missed s), CF6 (sm_miss_rate s),
       CF6 (in_busy i), CF6 (in_slot i), CF6 (sm_utilization s),
       CF6 (sm_jain_service s), CF6 (sm_jain_count s), CInt (sm_tenant_count s),
       CF6 (sd_max_p99 (sm_spread s)), CF6 (sd_min_p99 (sm_spread s)), CF6 (sd_ratio (sm_spread s)), CF6 (sd_min_share (sm_spread s)),
       CF6 (dur_seconds (in_max_lag i)), CF6 (dur_seconds (in_mean_lag i)),
       CF6 (in_rate i), CInt (in_exec_min i), CInt (in_exec_max i)])"

definition tenant_header :: "string list" where
  "tenant_header =
     [''run_id'', ''scheduler'', ''workload'', ''repetition'', ''seed'', ''offered_load'', ''tenant'',
      ''completed_tasks'', ''service_seconds'', ''service_share'',
      ''latency_mean_s'', ''latency_p50_s'', ''latency_p95_s'', ''latency_p99_s'', ''latency_max_s'',
      ''wait_p99_s'', ''wait_max_s'', ''deadline_missed'', ''deadline_miss_rate'']"

definition tenant_row :: "summary \<Rightarrow> tenant_stat \<Rightarrow> csv_field list" where
  "tenant_row s t =
     (let i = sm_input s; d = in_identity i in
      [CText (id_run d), CText (id_scheduler d), CText (id_workload d), CInt (id_repetition d), CInt (id_seed d),
       CF6 (in_load i), CText (tn_tenant t),
       CInt (tn_completed t), CF6 (tn_service t), CF6 (tn_share t),
       CF6 (la_mean (tn_latency t)), CF6 (la_p50 (tn_latency t)), CF6 (la_p95 (tn_latency t)), CF6 (la_p99 (tn_latency t)), CF6 (la_max (tn_latency t)),
       CF6 (la_p99 (tn_wait t)), CF6 (la_max (tn_wait t)), CInt (tn_missed t), CF6 (tn_miss_rate t)])"

definition tenant_rows :: "summary \<Rightarrow> csv_field list list" where
  "tenant_rows s = map (tenant_row s) (sm_tenants s)"

text \<open>The type of a column, by its name: what a reader of the tables relies on.\<close>

definition text_columns :: "string list" where
  "text_columns = [''run_id'', ''scheduler'', ''workload'', ''task_id'', ''tenant_id'', ''tenant'', ''outcome'', ''worker'']"

definition time_columns :: "string list" where
  "time_columns = [''submitted_at'', ''dispatched_at'', ''started_at'', ''finished_at'', ''deadline'']"

definition int_columns :: "string list" where
  "int_columns =
     [''repetition'', ''seed'', ''priority'', ''exec_ms'', ''actual_exec_ms'', ''retry_count'', ''tasks_planned'', ''tasks_submitted'',
      ''tasks_completed'', ''tasks_dead_lettered'', ''tasks_retried'', ''task_failures'', ''duplicate_completions'', ''worker_processes'',
      ''worker_concurrency'', ''total_slots'', ''max_in_flight'', ''tenant_count'', ''exec_min_ms'', ''exec_max_ms'', ''completed_tasks'']"

definition bool_columns :: "string list" where
  "bool_columns = [''timed_out'']"

end
