(* ===== verification/RedisRules.thy ===== *)
theory RedisRules
  imports Redis
begin

text \<open>
  Symbolic execution of commands under the documented behaviour: for each command, the reply a script
  sees and the key space it leaves, as conditional rewrite rules (\<open>step_simps\<close>). The state after a
  command is \<open>after call c s\<close>; the rules only speak of its view.
\<close>

definition after :: "(cmd \<Rightarrow> 's \<Rightarrow> reply \<times> 's) \<Rightarrow> cmd \<Rightarrow> 's \<Rightarrow> 's" where
  "after call c s = snd (call c s)"

text \<open>What the documentation leaves open of an \<open>XADD\<close>: the id it chose and how many entries it dropped.\<close>

definition new_id :: "(cmd \<Rightarrow> 's \<Rightarrow> reply \<times> 's) \<Rightarrow> cmd \<Rightarrow> 's \<Rightarrow> sid" where
  "new_id call c s = (case fst (call c s) of RId i \<Rightarrow> i | _ \<Rightarrow> (0, 0))"

definition trimmed :: "stream \<Rightarrow> stream \<Rightarrow> nat" where
  "trimmed st st' = Suc (length (st_entries st)) - length (st_entries st')"

lemma rcall_reply: "call c s = (r, s') \<Longrightarrow> (\<And>e. r \<noteq> RErr e) \<Longrightarrow> rcall call c s = (Inr r, s')"
  by (cases r) (auto simp: rcall_def)

lemma rcall_reply_fst: "fst (call c s) = r \<Longrightarrow> (\<And>e. r \<noteq> RErr e) \<Longrightarrow> rcall call c s = (Inr r, after call c s)"
  by (rule rcall_reply) (simp_all add: after_def prod_eq_iff)

lemma rcall_error: "fst (call c s) = RErr e \<Longrightarrow> rcall call c s = (Inl e, after call c s)"
  by (cases "call c s") (simp add: rcall_def after_def)

context redis
begin

lemma doc_after: "redis_doc c (view s) (fst (call c s)) (view (after call c s))"
  using doc by (simp add: after_def)

lemma run_GET:
  assumes "is_str (view s) k"
  shows "rcall call (GET k) s = (Inr (case str_at (view s) k of None \<Rightarrow> RNil | Some t \<Rightarrow> RText t), after call (GET k) s)"
    "view (after call (GET k) s) = view s"
  using doc_after [of "GET k" s] assms
  by (auto intro!: rcall_reply_fst split: option.splits)

lemma run_SET:
  "rcall call (SET k t) s = (Inr ROk, after call (SET k t) s)"
  "view (after call (SET k t) s) = put_str (view s) k t"
  using doc_after [of "SET k t" s] by (auto intro: rcall_reply_fst)

lemma run_SETPX:
  assumes "0 < ms"
  shows "rcall call (SETPX k t ms) s = (Inr ROk, after call (SETPX k t ms) s)"
    "view (after call (SETPX k t ms) s) = put_str (view s) k t"
  using doc_after [of "SETPX k t ms" s] assms by (auto intro: rcall_reply_fst)

lemma run_SETPX_refused:
  assumes "\<not> 0 < ms"
  shows "\<exists>e. rcall call (SETPX k t ms) s = (Inl e, after call (SETPX k t ms) s)"
    "view (after call (SETPX k t ms) s) = view s"
  using doc_after [of "SETPX k t ms" s] assms by (auto intro: rcall_error)

lemma run_INCR:
  assumes "is_str (view s) k" "int_text (str_at (view s) k) = Some n"
  shows "rcall call (INCR k) s = (Inr (RInt (n + 1)), after call (INCR k) s)"
    "view (after call (INCR k) s) = put_str (view s) k (TNum (n + 1))"
  using doc_after [of "INCR k" s] assms by (auto intro: rcall_reply_fst)

lemma run_DECR:
  assumes "is_str (view s) k" "int_text (str_at (view s) k) = Some n"
  shows "rcall call (DECR k) s = (Inr (RInt (n - 1)), after call (DECR k) s)"
    "view (after call (DECR k) s) = put_str (view s) k (TNum (n - 1))"
  using doc_after [of "DECR k" s] assms by (auto intro: rcall_reply_fst)

lemma run_EXISTS:
  "rcall call (EXISTS k) s = (Inr (RInt (if view s k = None then 0 else 1)), after call (EXISTS k) s)"
  "view (after call (EXISTS k) s) = view s"
  using doc_after [of "EXISTS k" s] by (auto intro!: rcall_reply_fst)

lemma run_DEL:
  "\<exists>n. rcall call (DEL ks) s = (Inr (RInt n), after call (DEL ks) s)"
  "view (after call (DEL ks) s) = (\<lambda>k. if k \<in> set ks then None else view s k)"
  using doc_after [of "DEL ks" s] by (auto intro: rcall_reply_fst)

lemma run_PEXPIRE:
  assumes "0 < ms"
  shows "rcall call (PEXPIRE k ms) s = (Inr (RInt (if view s k = None then 0 else 1)), after call (PEXPIRE k ms) s)"
    "view (after call (PEXPIRE k ms) s) = view s"
  using doc_after [of "PEXPIRE k ms" s] assms by (auto intro!: rcall_reply_fst)

lemma run_HEXISTS:
  assumes "is_hash (view s) k"
  shows "rcall call (HEXISTS k f) s = (Inr (RInt (if hash_at (view s) k f = None then 0 else 1)), after call (HEXISTS k f) s)"
    "view (after call (HEXISTS k f) s) = view s"
  using doc_after [of "HEXISTS k f" s] assms by (auto intro!: rcall_reply_fst)

lemma run_HGET:
  assumes "is_hash (view s) k"
  shows "rcall call (HGET k f) s =
      (Inr (case hash_at (view s) k f of None \<Rightarrow> RNil | Some t \<Rightarrow> RText t), after call (HGET k f) s)"
    "view (after call (HGET k f) s) = view s"
  using doc_after [of "HGET k f" s] assms by (auto intro!: rcall_reply_fst split: option.splits)

lemma run_HSET:
  assumes "is_hash (view s) k"
  shows "rcall call (HSET k f t) s = (Inr (RInt (if hash_at (view s) k f = None then 1 else 0)), after call (HSET k f t) s)"
    "view (after call (HSET k f t) s) = put_hash (view s) k ((hash_at (view s) k)(f \<mapsto> t))"
  using doc_after [of "HSET k f t" s] assms by (auto intro!: rcall_reply_fst)

lemma run_HSETNX:
  assumes "is_hash (view s) k"
  shows "rcall call (HSETNX k f t) s =
      (Inr (RInt (if hash_at (view s) k f = None then 1 else 0)), after call (HSETNX k f t) s)"
    "view (after call (HSETNX k f t) s) =
      (if hash_at (view s) k f = None then put_hash (view s) k ((hash_at (view s) k)(f \<mapsto> t)) else view s)"
  using doc_after [of "HSETNX k f t" s] assms by (auto intro!: rcall_reply_fst split: if_splits)

lemma run_HDEL:
  assumes "is_hash (view s) k"
  shows "rcall call (HDEL k f) s = (Inr (RInt (if hash_at (view s) k f = None then 0 else 1)), after call (HDEL k f) s)"
    "view (after call (HDEL k f) s) = put_hash (view s) k ((hash_at (view s) k)(f := None))"
  using doc_after [of "HDEL k f" s] assms by (auto intro!: rcall_reply_fst)

lemma run_HINCRBY:
  assumes "is_hash (view s) k" "int_text (hash_at (view s) k f) = Some n"
  shows "rcall call (HINCRBY k f i) s = (Inr (RInt (n + i)), after call (HINCRBY k f i) s)"
    "view (after call (HINCRBY k f i) s) = put_hash (view s) k ((hash_at (view s) k)(f \<mapsto> TNum (n + i)))"
  using doc_after [of "HINCRBY k f i" s] assms by (auto intro: rcall_reply_fst)

lemma run_ZADD:
  assumes "is_zset (view s) k" "score_text t = Some f"
  shows "rcall call (ZADD k t m) s = (Inr (RInt (if zset_at (view s) k m = None then 1 else 0)), after call (ZADD k t m) s)"
    "view (after call (ZADD k t m) s) = put_zset (view s) k ((zset_at (view s) k)(m \<mapsto> f))"
  using doc_after [of "ZADD k t m" s] assms by (auto intro!: rcall_reply_fst)

lemma run_ZADD_refused:
  assumes "is_zset (view s) k" "score_text t = None"
  shows "\<exists>e. rcall call (ZADD k t m) s = (Inl e, after call (ZADD k t m) s)"
    "view (after call (ZADD k t m) s) = view s"
  using doc_after [of "ZADD k t m" s] assms by (auto intro: rcall_error)

lemma run_ZREM:
  assumes "is_zset (view s) k"
  shows "rcall call (ZREM k m) s = (Inr (RInt (if zset_at (view s) k m = None then 0 else 1)), after call (ZREM k m) s)"
    "view (after call (ZREM k m) s) = put_zset (view s) k ((zset_at (view s) k)(m := None))"
  using doc_after [of "ZREM k m" s] assms by (auto intro!: rcall_reply_fst)

lemma run_ZPOPMIN_empty:
  assumes "is_zset (view s) k" "zset_at (view s) k = Map.empty"
  shows "rcall call (ZPOPMIN k) s = (Inr (RScored []), after call (ZPOPMIN k) s)"
    "view (after call (ZPOPMIN k) s) = view s"
  using doc_after [of "ZPOPMIN k" s] assms by (auto intro: rcall_reply_fst)

lemma zmin_unique:
  assumes "zmin z m f" "zmin z m' f'"
  shows "m = m' \<and> f = f'"
proof -
  have "flt f f' \<or> f = f' \<and> m \<le> m'" "flt f' f \<or> f' = f \<and> m' \<le> m"
    using assms by (simp_all add: zmin_def)
  then show ?thesis using flt_asym [of f f'] by (auto intro: order_antisym)
qed

lemma run_ZPOPMIN:
  assumes "is_zset (view s) k" "zmin (zset_at (view s) k) m f"
  shows "rcall call (ZPOPMIN k) s = (Inr (RScored [(m, f)]), after call (ZPOPMIN k) s)"
    "view (after call (ZPOPMIN k) s) = put_zset (view s) k ((zset_at (view s) k)(m := None))"
proof -
  have "zset_at (view s) k \<noteq> Map.empty"
    using assms(2) by (auto simp: zmin_def)
  then obtain m' f' where d: "zmin (zset_at (view s) k) m' f'"
      "view (after call (ZPOPMIN k) s) = put_zset (view s) k ((zset_at (view s) k)(m' := None))"
      "fst (call (ZPOPMIN k) s) = RScored [(m', f')]"
    using doc_after [of "ZPOPMIN k" s] assms(1) by auto
  then show "rcall call (ZPOPMIN k) s = (Inr (RScored [(m, f)]), after call (ZPOPMIN k) s)"
    "view (after call (ZPOPMIN k) s) = put_zset (view s) k ((zset_at (view s) k)(m := None))"
    using zmin_unique [OF assms(2) d(1)] by (auto intro: rcall_reply_fst)
qed

lemma run_ZCARD:
  assumes "is_zset (view s) k"
  shows "call (ZCARD k) s = (RInt (int (card (dom (zset_at (view s) k)))), after call (ZCARD k) s)"
    "view (after call (ZCARD k) s) = view s"
  using doc_after [of "ZCARD k" s] assms by (simp_all add: prod_eq_iff after_def)

lemma run_XADD:
  assumes "is_stream (view s) k"
  shows "rcall call (XADD k ml fs) s = (Inr (RId (new_id call (XADD k ml fs) s)), after call (XADD k ml fs) s)" (is ?reply)
    "view (after call (XADD k ml fs) s) =
       put_stream (view s) k (add_entry (stream_at (view s) k)
         (trimmed (stream_at (view s) k) (stream_at (view (after call (XADD k ml fs) s)) k))
         \<lparr>se_id = new_id call (XADD k ml fs) s, se_fields = fs\<rparr>)" (is ?view)
    "st_last (stream_at (view s) k) < new_id call (XADD k ml fs) s" (is ?last)
    "trim_allowed ml (stream_at (view s) k)
       (trimmed (stream_at (view s) k) (stream_at (view (after call (XADD k ml fs) s)) k))" (is ?trim)
proof -
  obtain i dropped where d: "st_last (stream_at (view s) k) < i" "trim_allowed ml (stream_at (view s) k) dropped"
      "fst (call (XADD k ml fs) s) = RId i"
      "view (after call (XADD k ml fs) s) =
         put_stream (view s) k (add_entry (stream_at (view s) k) dropped \<lparr>se_id = i, se_fields = fs\<rparr>)"
    using doc_after [of "XADD k ml fs" s] assms by auto
  have i: "new_id call (XADD k ml fs) s = i"
    using d(3) by (simp add: new_id_def)
  have n: "trimmed (stream_at (view s) k) (stream_at (view (after call (XADD k ml fs) s)) k) =
      min dropped (Suc (length (st_entries (stream_at (view s) k))))"
    by (auto simp: trimmed_def d(4) add_entry_def)
  show ?reply using d(3) i by (auto intro: rcall_reply_fst)
  show ?last using d(1) i by simp
  show ?trim using d(2) unfolding n by (auto simp: trim_allowed_def split: option.splits)
  have "drop (min dropped (Suc (length es))) (es @ [e]) = drop dropped (es @ [e])" for es :: "stream_entry list" and e
    by (cases "dropped \<le> Suc (length es)") (simp_all add: min_def)
  then show ?view unfolding n by (simp only: d(4) i add_entry_def)
qed

lemma run_XACK:
  assumes "is_stream (view s) k"
  shows "\<exists>n. rcall call (XACK k gn ids) s = (Inr (RInt n), after call (XACK k gn ids) s)"
    "view (after call (XACK k gn ids) s) = acked (view s) k gn ids"
  using doc_after [of "XACK k gn ids" s] assms by (auto intro: rcall_reply_fst)

end

end
