(* ===== verification/Scripts.thy ===== *)
theory Scripts
  imports Keys
begin

text \<open>
  The Lua scripts (\<open>internal/broker/scripts.go\<close>), one definition per script, its keys and arguments in
  the order of \<open>KEYS\<close> and \<open>ARGV\<close>. An empty message id is \<open>None\<close>.
\<close>

definition fenced_error :: string where
  "fenced_error = ''TQFENCED superseded scheduler epoch''"

text \<open>The guard prepended to every leader-only script.\<close>

definition fenced :: "(cmd \<Rightarrow> 's \<Rightarrow> reply \<times> 's) \<Rightarrow> rkey \<Rightarrow> rtext \<Rightarrow> ('s, bool) lua" where
  "fenced call fenceKey epoch =
     (case lua_tonumber epoch of
        None \<Rightarrow> lreturn False
      | Some e \<Rightarrow>
          if e \<le> 0 then lreturn False
          else lbind (rcall call (GET fenceKey)) (\<lambda>g.
            case reply_number g of
              None \<Rightarrow> lfail ''attempt to compare number with nil''
            | Some cur \<Rightarrow>
                if e < cur then lreturn True
                else if cur < e then lthen (rcall call (SET fenceKey (TNum e))) (lreturn False)
                else lreturn False))"

definition admit_script ::
  "(cmd \<Rightarrow> 's \<Rightarrow> reply \<times> 's) \<Rightarrow> rkey \<Rightarrow> rkey \<Rightarrow> rkey \<Rightarrow> rkey \<Rightarrow> rkey \<Rightarrow> rkey \<Rightarrow>
   string \<Rightarrow> string \<Rightarrow> rtext \<Rightarrow> rtext \<Rightarrow> rtext \<Rightarrow> rtext \<Rightarrow> ('s, int) lua" where
  "admit_script call payloads pending pendingAge done stats fence taskID member score submitted payload epoch =
     lbind (fenced call fence epoch) (\<lambda>f.
       if f then lfail fenced_error
       else
         lbind (rcall call (HEXISTS done taskID)) (\<lambda>r.
           if r = RInt 1 then lreturn 0
           else
             lbind (rcall call (HEXISTS payloads taskID)) (\<lambda>r.
               if r = RInt 1 then lreturn 0
               else
                 lthen (rcall call (HSET payloads taskID payload))
                 (lthen (rcall call (ZADD pending score member))
                 (lthen (rcall call (ZADD pendingAge submitted member))
                 (lthen (rcall call (HINCRBY stats ''admitted'' 1))
                 (lreturn 1)))))))"

type_synonym triple = "string \<times> f64 \<times> rtext"

text \<open>The two forms of \<open>XADD\<close> the scripts write, with and without an approximate trim.\<close>

definition xadd_maxlen :: "(cmd \<Rightarrow> 's \<Rightarrow> reply \<times> 's) \<Rightarrow> rkey \<Rightarrow> int \<Rightarrow> (string \<times> rtext) list \<Rightarrow> ('s, reply) lua" where
  "xadd_maxlen call k maxLen fs =
     (if 0 < maxLen then rcall call (XADD k (Some maxLen) fs) else rcall call (XADD k None fs))"

definition dispatch_one ::
  "(cmd \<Rightarrow> 's \<Rightarrow> reply \<times> 's) \<Rightarrow> rkey \<Rightarrow> rkey \<Rightarrow> rkey \<Rightarrow> rkey \<Rightarrow> rkey \<Rightarrow>
   rtext \<Rightarrow> int \<Rightarrow> rtext \<Rightarrow> string \<Rightarrow> f64 \<Rightarrow> triple list \<Rightarrow> ('s, triple list) lua" where
  "dispatch_one call pendingAge payloads execStream stats inflight nowMillis maxLen epoch member score out =
     lthen (rcall call (ZREM pendingAge member))
     (case after_first (CHR ''|'') member of
        None \<Rightarrow> lreturn out
      | Some taskID \<Rightarrow>
          lbind (rcall call (HGET payloads taskID)) (\<lambda>p.
            case p of
              RText payload \<Rightarrow>
                lthen (xadd_maxlen call execStream maxLen
                  [(''task'', payload), (''dispatched_at_ms'', nowMillis), (''epoch'', epoch)])
                (lthen (rcall call (HINCRBY stats ''dispatched'' 1))
                (lthen (rcall call (INCR inflight))
                (lreturn (out @ [(member, score, payload)]))))
            | _ \<Rightarrow> lreturn out))"

text \<open>The loop over \<open>maxCount\<close>; the accumulator is the flat reply, in triples.\<close>

definition at_capacity :: "(cmd \<Rightarrow> 's \<Rightarrow> reply \<times> 's) \<Rightarrow> rkey \<Rightarrow> int \<Rightarrow> ('s, bool) lua" where
  "at_capacity call inflight maxInFlight =
     (if 0 < maxInFlight
      then lbind (rcall call (GET inflight)) (\<lambda>g.
        case reply_number g of
          None \<Rightarrow> lfail ''attempt to compare number with nil''
        | Some cur \<Rightarrow> lreturn (maxInFlight \<le> cur))
      else lreturn False)"

primrec dispatch_loop ::
  "(cmd \<Rightarrow> 's \<Rightarrow> reply \<times> 's) \<Rightarrow> rkey \<Rightarrow> rkey \<Rightarrow> rkey \<Rightarrow> rkey \<Rightarrow> rkey \<Rightarrow> rkey \<Rightarrow>
   int \<Rightarrow> rtext \<Rightarrow> int \<Rightarrow> rtext \<Rightarrow> nat \<Rightarrow> triple list \<Rightarrow> ('s, triple list) lua" where
  "dispatch_loop call pending pendingAge payloads execStream stats inflight maxInFlight nowMillis maxLen epoch 0 out =
     lreturn out"
| "dispatch_loop call pending pendingAge payloads execStream stats inflight maxInFlight nowMillis maxLen epoch (Suc n) out =
     lbind (at_capacity call inflight maxInFlight) (\<lambda>full.
       if full then lreturn out
       else
         lbind (rcall call (ZPOPMIN pending)) (\<lambda>popped.
           case popped of
             RScored ((member, score) # _) \<Rightarrow>
               lbind (dispatch_one call pendingAge payloads execStream stats inflight nowMillis maxLen epoch member score out)
                 (\<lambda>out'. dispatch_loop call pending pendingAge payloads execStream stats inflight
                    maxInFlight nowMillis maxLen epoch n out')
           | _ \<Rightarrow> lreturn out))"

definition dispatch_script ::
  "(cmd \<Rightarrow> 's \<Rightarrow> reply \<times> 's) \<Rightarrow> rkey \<Rightarrow> rkey \<Rightarrow> rkey \<Rightarrow> rkey \<Rightarrow> rkey \<Rightarrow> rkey \<Rightarrow> rkey \<Rightarrow>
   int \<Rightarrow> int \<Rightarrow> rtext \<Rightarrow> int \<Rightarrow> rtext \<Rightarrow> ('s, triple list) lua" where
  "dispatch_script call pending pendingAge payloads execStream stats inflight fence
     maxCount maxInFlight nowMillis maxLen epoch =
     lbind (fenced call fence epoch) (\<lambda>f.
       if f then lfail fenced_error
       else dispatch_loop call pending pendingAge payloads execStream stats inflight
         maxInFlight nowMillis maxLen epoch (nat maxCount) [])"

definition xack_if :: "(cmd \<Rightarrow> 's \<Rightarrow> reply \<times> 's) \<Rightarrow> rkey \<Rightarrow> string \<Rightarrow> sid option \<Rightarrow> ('s, reply) lua" where
  "xack_if call execStream grp msgID =
     (case msgID of None \<Rightarrow> lreturn RNil | Some i \<Rightarrow> rcall call (XACK execStream grp [i]))"

definition complete_script ::
  "(cmd \<Rightarrow> 's \<Rightarrow> reply \<times> 's) \<Rightarrow> rkey \<Rightarrow> rkey \<Rightarrow> rkey \<Rightarrow> rkey \<Rightarrow> rkey \<Rightarrow> rkey \<Rightarrow> rkey \<Rightarrow> rkey \<Rightarrow>
   string \<Rightarrow> rtext \<Rightarrow> string \<Rightarrow> int \<Rightarrow> int \<Rightarrow> rtext \<Rightarrow> string \<Rightarrow> sid option \<Rightarrow> int \<Rightarrow> ('s, int) lua" where
  "complete_script call done payloads results stats tenantService tenantCount inflight execStream
     taskID resultJSON tenantID serviceMS missed nowMillis grp msgID maxLen =
     lbind (rcall call (HSETNX done taskID nowMillis)) (\<lambda>r.
       lbind
         (if r = RInt 1
          then
            lthen (rcall call (HDEL payloads taskID))
            (lthen (xadd_maxlen call results maxLen [(''result'', resultJSON)])
            (lthen (rcall call (HINCRBY stats ''completed'' 1))
            (lthen (if missed = 1 then rcall call (HINCRBY stats ''deadline_missed'' 1) else lreturn RNil)
            (lthen (rcall call (HINCRBY tenantService tenantID serviceMS))
            (lthen (rcall call (HINCRBY tenantCount tenantID 1))
            (lthen (rcall call (DECR inflight))
            (lreturn 1)))))))
          else lthen (rcall call (HINCRBY stats ''duplicate_completions'' 1)) (lreturn 0))
         (\<lambda>recorded. lthen (xack_if call execStream grp msgID) (lreturn recorded)))"

definition retry_script ::
  "(cmd \<Rightarrow> 's \<Rightarrow> reply \<times> 's) \<Rightarrow> rkey \<Rightarrow> rkey \<Rightarrow> rkey \<Rightarrow> rkey \<Rightarrow> rkey \<Rightarrow> rkey \<Rightarrow>
   string \<Rightarrow> rtext \<Rightarrow> rtext \<Rightarrow> int \<Rightarrow> rtext \<Rightarrow> string \<Rightarrow> sid option \<Rightarrow> int \<Rightarrow> ('s, int) lua" where
  "retry_script call done payloads execStream deadStream stats inflight
     taskID retryJSON deadJSON isDead nowMillis grp oldMsgID maxLen =
     lbind (rcall call (HEXISTS done taskID)) (\<lambda>r.
       if r = RInt 1 then lthen (xack_if call execStream grp oldMsgID) (lreturn 0)
       else if isDead = 1 then
         lthen (rcall call (XADD deadStream None [(''record'', deadJSON)]))
         (lthen (rcall call (HDEL payloads taskID))
         (lthen (rcall call (HSETNX done taskID nowMillis))
         (lthen (rcall call (HINCRBY stats ''dead_lettered'' 1))
         (lthen (rcall call (DECR inflight))
         (lthen (xack_if call execStream grp oldMsgID)
         (lreturn 2))))))
       else
         lthen (rcall call (HSET payloads taskID retryJSON))
         (lthen (xadd_maxlen call execStream maxLen [(''task'', retryJSON), (''dispatched_at_ms'', nowMillis)])
         (lthen (rcall call (HINCRBY stats ''retried'' 1))
         (lthen (xack_if call execStream grp oldMsgID)
         (lreturn 1)))))"

text \<open>\<open>ARGV\<close> after the epoch: field and value, alternating.\<close>

primrec write_fields :: "(cmd \<Rightarrow> 's \<Rightarrow> reply \<times> 's) \<Rightarrow> rkey \<Rightarrow> (string \<times> rtext) list \<Rightarrow> int \<Rightarrow> ('s, int) lua" where
  "write_fields call state [] written = lreturn written"
| "write_fields call state (fv # fvs) written =
     lthen (rcall call (HSET state (fst fv) (snd fv))) (write_fields call state fvs (written + 1))"

definition save_state_script :: "(cmd \<Rightarrow> 's \<Rightarrow> reply \<times> 's) \<Rightarrow> rkey \<Rightarrow> rkey \<Rightarrow> rtext \<Rightarrow> (string \<times> rtext) list \<Rightarrow> ('s, int) lua" where
  "save_state_script call state fence epoch fvs =
     lbind (fenced call fence epoch) (\<lambda>f.
       if f then lfail fenced_error
       else if fvs = [] then lreturn 0
       else lthen (rcall call (DEL [state])) (write_fields call state fvs 0))"

end
