(* ===== verification/QueueSpec.thy ===== *)
theory QueueSpec
  imports Keys RedisRules Scripts
begin

text \<open>
  The queue as one abstract state: what the keys of a namespace hold, read at the types the program
  gives them. \<open>typed\<close> says the key space can be read that way; \<open>qabs\<close> reads it. Each
  script is specified here as a relation on this state (\<open>q_admit\<close>, \<open>q_dispatch\<close>,
  \<open>q_complete\<close>, \<open>q_retry\<close>, \<open>q_save\<close>); that the scripts implement the
  specification is proved in \<open>QueueStore\<close>.
\<close>

record qstate =
  q_payloads :: "string \<rightharpoonup> rtext"
  q_pending :: "string \<rightharpoonup> f64"
  q_age :: "string \<rightharpoonup> f64"
  q_done :: "string \<rightharpoonup> rtext"
  q_sched :: "string \<rightharpoonup> rtext"
  q_stats :: "string \<Rightarrow> int"
  q_service :: "string \<Rightarrow> int"
  q_count :: "string \<Rightarrow> int"
  q_inflight :: int
  q_fence :: int
  q_epoch :: int
  q_holder :: "rtext option"
  q_ingress :: stream
  q_exec :: stream
  q_results :: stream
  q_dead :: stream

definition qabs :: "keys \<Rightarrow> rdb \<Rightarrow> qstate" where
  "qabs k d =
     \<lparr>q_payloads = hash_at d (k_name k Payloads), q_pending = zset_at d (k_name k Pending),
      q_age = zset_at d (k_name k PendingAge), q_done = hash_at d (k_name k Done),
      q_sched = hash_at d (k_name k SchedState),
      q_stats = num_text \<circ> hash_at d (k_name k Stats), q_service = num_text \<circ> hash_at d (k_name k TenantService),
      q_count = num_text \<circ> hash_at d (k_name k TenantCount),
      q_inflight = num_text (str_at d (k_name k InFlight)), q_fence = num_text (str_at d (k_name k Fence)),
      q_epoch = num_text (str_at d (k_name k LeaderEpoch)), q_holder = str_at d (k_name k Leader),
      q_ingress = stream_at d (k_name k Ingress), q_exec = stream_at d (k_name k Exec),
      q_results = stream_at d (k_name k Results), q_dead = stream_at d (k_name k DeadLetter)\<rparr>"

definition nums :: "(string \<rightharpoonup> rtext) \<Rightarrow> bool" where
  "nums h \<longleftrightarrow> (\<forall>f. int_text (h f) \<noteq> None)"

definition typed :: "keys \<Rightarrow> rdb \<Rightarrow> bool" where
  "typed k d \<longleftrightarrow>
     is_hash d (k_name k Payloads) \<and> is_hash d (k_name k Done) \<and> is_hash d (k_name k SchedState) \<and>
     is_zset d (k_name k Pending) \<and> is_zset d (k_name k PendingAge) \<and>
     is_hash d (k_name k Stats) \<and> nums (hash_at d (k_name k Stats)) \<and>
     is_hash d (k_name k TenantService) \<and> nums (hash_at d (k_name k TenantService)) \<and>
     is_hash d (k_name k TenantCount) \<and> nums (hash_at d (k_name k TenantCount)) \<and>
     is_str d (k_name k InFlight) \<and> int_text (str_at d (k_name k InFlight)) \<noteq> None \<and>
     is_str d (k_name k Fence) \<and> int_text (str_at d (k_name k Fence)) \<noteq> None \<and>
     is_str d (k_name k LeaderEpoch) \<and> int_text (str_at d (k_name k LeaderEpoch)) \<noteq> None \<and>
     is_str d (k_name k Leader) \<and>
     is_stream d (k_name k Ingress) \<and> is_stream d (k_name k Exec) \<and>
     is_stream d (k_name k Results) \<and> is_stream d (k_name k DeadLetter)"

lemma int_num_text: "int_text v \<noteq> None \<Longrightarrow> int_text v = Some (num_text v)"
  by (auto simp: int_text_def num_text_def split: option.splits rtext.splits)

lemma nums_upd [simp]: "nums h \<Longrightarrow> nums (h(f \<mapsto> TNum n))"
  by (simp add: nums_def)

lemma nums_at: "nums h \<Longrightarrow> int_text (h f) = Some (num_text (h f))"
  by (simp add: nums_def int_num_text)

lemma typed_empty: "typed k Map.empty"
  by (simp add: typed_def is_defs nums_def)

section \<open>One write, one field\<close>

lemma qabs_put:
  assumes "keys_ok k"
  shows
  "qabs k (put_hash d (k_name k Payloads) h) = (qabs k d)\<lparr>q_payloads := h\<rparr>"
  "qabs k (put_hash d (k_name k Done) h) = (qabs k d)\<lparr>q_done := h\<rparr>"
  "qabs k (put_hash d (k_name k SchedState) h) = (qabs k d)\<lparr>q_sched := h\<rparr>"
  "qabs k (put_zset d (k_name k Pending) z) = (qabs k d)\<lparr>q_pending := z\<rparr>"
  "qabs k (put_zset d (k_name k PendingAge) z) = (qabs k d)\<lparr>q_age := z\<rparr>"
  "qabs k (put_hash d (k_name k Stats) h) = (qabs k d)\<lparr>q_stats := num_text \<circ> h\<rparr>"
  "qabs k (put_hash d (k_name k TenantService) h) = (qabs k d)\<lparr>q_service := num_text \<circ> h\<rparr>"
  "qabs k (put_hash d (k_name k TenantCount) h) = (qabs k d)\<lparr>q_count := num_text \<circ> h\<rparr>"
  "qabs k (put_str d (k_name k InFlight) t) = (qabs k d)\<lparr>q_inflight := num_text (Some t)\<rparr>"
  "qabs k (put_str d (k_name k Fence) t) = (qabs k d)\<lparr>q_fence := num_text (Some t)\<rparr>"
  "qabs k (put_str d (k_name k LeaderEpoch) t) = (qabs k d)\<lparr>q_epoch := num_text (Some t)\<rparr>"
  "qabs k (put_str d (k_name k Leader) t) = (qabs k d)\<lparr>q_holder := Some t\<rparr>"
  "qabs k (put_stream d (k_name k Ingress) st) = (qabs k d)\<lparr>q_ingress := st\<rparr>"
  "qabs k (put_stream d (k_name k Exec) st) = (qabs k d)\<lparr>q_exec := st\<rparr>"
  "qabs k (put_stream d (k_name k Results) st) = (qabs k d)\<lparr>q_results := st\<rparr>"
  "qabs k (put_stream d (k_name k DeadLetter) st) = (qabs k d)\<lparr>q_dead := st\<rparr>"
  by (simp_all add: qabs_def k_name_eq [OF assms])

lemma typed_put:
  assumes "keys_ok k" "typed k d"
  shows
  "typed k (put_hash d (k_name k Payloads) h)" "typed k (put_hash d (k_name k Done) h)"
  "typed k (put_hash d (k_name k SchedState) h)"
  "f \<noteq> NaN \<Longrightarrow> typed k (put_zset d (k_name k Pending) ((zset_at d (k_name k Pending))(m \<mapsto> f)))"
  "typed k (put_zset d (k_name k Pending) ((zset_at d (k_name k Pending))(m := None)))"
  "f \<noteq> NaN \<Longrightarrow> typed k (put_zset d (k_name k PendingAge) ((zset_at d (k_name k PendingAge))(m \<mapsto> f)))"
  "typed k (put_zset d (k_name k PendingAge) ((zset_at d (k_name k PendingAge))(m := None)))"
  "nums h \<Longrightarrow> typed k (put_hash d (k_name k Stats) h)"
  "nums h \<Longrightarrow> typed k (put_hash d (k_name k TenantService) h)"
  "nums h \<Longrightarrow> typed k (put_hash d (k_name k TenantCount) h)"
  "typed k (put_str d (k_name k InFlight) (TNum n))" "typed k (put_str d (k_name k Fence) (TNum n))"
  "typed k (put_str d (k_name k LeaderEpoch) (TNum n))" "typed k (put_str d (k_name k Leader) t)"
  "typed k (put_stream d (k_name k Ingress) st)" "typed k (put_stream d (k_name k Exec) st)"
  "typed k (put_stream d (k_name k Results) st)" "typed k (put_stream d (k_name k DeadLetter) st)"
  using assms(2) by (simp_all add: typed_def k_name_eq [OF assms(1)])

definition st_ack :: "stream \<Rightarrow> string \<Rightarrow> sid list \<Rightarrow> stream" where
  "st_ack st gn ids = (case st_groups st gn of None \<Rightarrow> st | Some g \<Rightarrow> set_pel st gn g (g_pel g - set ids))"

lemma qabs_acked:
  assumes "keys_ok k"
  shows "qabs k (acked d (k_name k Exec) gn ids) = (qabs k d)\<lparr>q_exec := st_ack (q_exec (qabs k d)) gn ids\<rparr>"
    "qabs k (acked d (k_name k Ingress) gn ids) = (qabs k d)\<lparr>q_ingress := st_ack (q_ingress (qabs k d)) gn ids\<rparr>"
  by (auto simp: acked_def st_ack_def qabs_put [OF assms] split: option.splits) (simp_all add: qabs_def)

lemma typed_acked:
  assumes "keys_ok k" "typed k d"
  shows "typed k (acked d (k_name k Exec) gn ids)" "typed k (acked d (k_name k Ingress) gn ids)"
  using assms by (auto simp: acked_def typed_put split: option.splits)

section \<open>The scripts, specified\<close>

definition trim_arg :: "int \<Rightarrow> int option" where
  "trim_arg maxLen = (if 0 < maxLen then Some maxLen else None)"

text \<open>\<open>st'\<close> is \<open>st\<close> with one new entry, its id above every earlier one.\<close>

definition appended :: "int option \<Rightarrow> (string \<times> rtext) list \<Rightarrow> stream \<Rightarrow> stream \<Rightarrow> bool" where
  "appended ml fs st st' \<longleftrightarrow>
     (\<exists>i n. st_last st < i \<and> trim_allowed ml st n \<and> st' = add_entry st n \<lparr>se_id = i, se_fields = fs\<rparr>)"

text \<open>The fence: the epoch as the script compares it, and the state once it has passed.\<close>

definition refused :: "int \<Rightarrow> qstate \<Rightarrow> bool" where
  "refused e q \<longleftrightarrow> 0 < e \<and> lua_number e < lua_number (q_fence q)"

definition raised :: "int \<Rightarrow> qstate \<Rightarrow> qstate" where
  "raised e q = (if 0 < e \<and> lua_number (q_fence q) < lua_number e then q\<lparr>q_fence := lua_number e\<rparr> else q)"

definition bump :: "string \<Rightarrow> int \<Rightarrow> qstate \<Rightarrow> qstate" where
  "bump f n q = q\<lparr>q_stats := (q_stats q)(f := q_stats q f + n)\<rparr>"

definition q_known :: "string \<Rightarrow> qstate \<Rightarrow> bool" where
  "q_known i q \<longleftrightarrow> q_done q i \<noteq> None \<or> q_payloads q i \<noteq> None"

definition q_admit :: "string \<Rightarrow> string \<Rightarrow> f64 \<Rightarrow> f64 \<Rightarrow> rtext \<Rightarrow> qstate \<Rightarrow> qstate" where
  "q_admit i m f age p q =
     bump ''admitted'' 1
       (q\<lparr>q_payloads := (q_payloads q)(i \<mapsto> p), q_pending := (q_pending q)(m \<mapsto> f), q_age := (q_age q)(m \<mapsto> age)\<rparr>)"

definition q_unpend :: "string \<Rightarrow> qstate \<Rightarrow> qstate" where
  "q_unpend m q = q\<lparr>q_pending := (q_pending q)(m := None), q_age := (q_age q)(m := None)\<rparr>"

text \<open>A popped member with a payload becomes one execution entry; one without leaves nothing.\<close>

inductive q_launch :: "rtext \<Rightarrow> int \<Rightarrow> rtext \<Rightarrow> string \<Rightarrow> f64 \<Rightarrow> qstate \<Rightarrow> triple list \<Rightarrow> qstate \<Rightarrow> bool" where
  launch: "\<lbrakk>after_first (CHR ''|'') m = Some i; q_payloads q i = Some p;
    appended (trim_arg maxLen) [(''task'', p), (''dispatched_at_ms'', now), (''epoch'', e)] (q_exec q) st'\<rbrakk>
   \<Longrightarrow> q_launch now maxLen e m f q [(m, f, p)]
        ((bump ''dispatched'' 1 (q_unpend m q))\<lparr>q_exec := st', q_inflight := q_inflight q + 1\<rparr>)"
| no_task: "\<lbrakk>after_first (CHR ''|'') m = None\<rbrakk> \<Longrightarrow> q_launch now maxLen e m f q [] (q_unpend m q)"
| no_payload: "\<lbrakk>after_first (CHR ''|'') m = Some i; q_payloads q i = None\<rbrakk> \<Longrightarrow> q_launch now maxLen e m f q [] (q_unpend m q)"

definition q_full :: "int \<Rightarrow> qstate \<Rightarrow> bool" where
  "q_full cap q \<longleftrightarrow> 0 < cap \<and> cap \<le> lua_number (q_inflight q)"

inductive q_dispatch :: "int \<Rightarrow> rtext \<Rightarrow> int \<Rightarrow> rtext \<Rightarrow> nat \<Rightarrow> qstate \<Rightarrow> triple list \<Rightarrow> qstate \<Rightarrow> bool" where
  stop: "q_dispatch cap now maxLen e 0 q [] q"
| full: "q_full cap q \<Longrightarrow> q_dispatch cap now maxLen e (Suc n) q [] q"
| idle: "q_pending q = Map.empty \<Longrightarrow> q_dispatch cap now maxLen e (Suc n) q [] q"
| pop: "\<lbrakk>\<not> q_full cap q; zmin (q_pending q) m f; q_launch now maxLen e m f q ts q1;
    q_dispatch cap now maxLen e n q1 out q2\<rbrakk>
   \<Longrightarrow> q_dispatch cap now maxLen e (Suc n) q (ts @ out) q2"

definition q_ack :: "string \<Rightarrow> sid option \<Rightarrow> qstate \<Rightarrow> qstate" where
  "q_ack gn i q = (case i of None \<Rightarrow> q | Some j \<Rightarrow> q\<lparr>q_exec := st_ack (q_exec q) gn [j]\<rparr>)"

definition q_complete ::
  "int \<Rightarrow> string \<Rightarrow> rtext \<Rightarrow> string \<Rightarrow> int \<Rightarrow> bool \<Rightarrow> rtext \<Rightarrow> string \<Rightarrow> sid option \<Rightarrow> qstate \<Rightarrow> bool \<Rightarrow> qstate \<Rightarrow> bool" where
  "q_complete maxLen i res tenant ms missed now gn msg q recorded q' \<longleftrightarrow>
     recorded = (q_done q i = None) \<and>
     (if recorded then
        \<exists>st'. appended (trim_arg maxLen) [(''result'', res)] (q_results q) st' \<and>
          q' = q_ack gn msg (bump ''completed'' 1 (if missed then bump ''deadline_missed'' 1 q else q)
            \<lparr>q_done := (q_done q)(i \<mapsto> now), q_payloads := (q_payloads q)(i := None), q_results := st',
             q_service := (q_service q)(tenant := q_service q tenant + ms),
             q_count := (q_count q)(tenant := q_count q tenant + 1), q_inflight := q_inflight q - 1\<rparr>)
      else q' = q_ack gn msg (bump ''duplicate_completions'' 1 q))"

definition q_retire :: "string \<Rightarrow> rtext \<Rightarrow> rtext \<Rightarrow> qstate \<Rightarrow> qstate \<Rightarrow> bool" where
  "q_retire i dead now q q' \<longleftrightarrow>
     (\<exists>st'. appended None [(''record'', dead)] (q_dead q) st' \<and>
        q' = (bump ''dead_lettered'' 1 q)
          \<lparr>q_dead := st', q_payloads := (q_payloads q)(i := None), q_done := (q_done q)(i \<mapsto> now),
           q_inflight := q_inflight q - 1\<rparr>)"

definition q_redeliver :: "int \<Rightarrow> string \<Rightarrow> rtext \<Rightarrow> rtext \<Rightarrow> qstate \<Rightarrow> qstate \<Rightarrow> bool" where
  "q_redeliver maxLen i retry now q q' \<longleftrightarrow>
     (\<exists>st'. appended (trim_arg maxLen) [(''task'', retry), (''dispatched_at_ms'', now)] (q_exec q) st' \<and>
        q' = (bump ''retried'' 1 q)\<lparr>q_exec := st', q_payloads := (q_payloads q)(i \<mapsto> retry)\<rparr>)"

definition q_retry ::
  "int \<Rightarrow> string \<Rightarrow> rtext \<Rightarrow> rtext \<Rightarrow> bool \<Rightarrow> rtext \<Rightarrow> string \<Rightarrow> sid option \<Rightarrow> qstate \<Rightarrow> int \<Rightarrow> qstate \<Rightarrow> bool" where
  "q_retry maxLen i retry dead isDead now gn msg q r q' \<longleftrightarrow>
     (if q_done q i \<noteq> None then r = 0 \<and> q' = q_ack gn msg q
      else if isDead then r = 2 \<and> (\<exists>q1. q_retire i dead now q q1 \<and> q' = q_ack gn msg q1)
      else r = 1 \<and> (\<exists>q1. q_redeliver maxLen i retry now q q1 \<and> q' = q_ack gn msg q1))"

definition q_save :: "(string \<times> rtext) list \<Rightarrow> qstate \<Rightarrow> qstate" where
  "q_save fvs q = (if fvs = [] then q else q\<lparr>q_sched := map_of (rev fvs)\<rparr>)"

text \<open>A reset empties the namespace but for the two counters that never go back.\<close>

definition q_reset :: "qstate \<Rightarrow> qstate" where
  "q_reset q =
     \<lparr>q_payloads = Map.empty, q_pending = Map.empty, q_age = Map.empty, q_done = Map.empty, q_sched = Map.empty,
      q_stats = (\<lambda>_. 0), q_service = (\<lambda>_. 0), q_count = (\<lambda>_. 0), q_inflight = 0, q_fence = q_fence q, q_epoch = q_epoch q,
      q_holder = None, q_ingress = empty_stream, q_exec = empty_stream, q_results = empty_stream, q_dead = empty_stream\<rparr>"

end
