(* ===== verification/QueueStore.thy ===== *)
theory QueueStore
  imports QueueSpec
begin

text \<open>
  The scripts implement their specification: on a typed key space each script replies and moves the
  abstract queue state as \<open>QueueSpec\<close> says, and leaves the key space typed. The locale
  \<open>queue_store\<close> is a Redis with the names of one namespace, pairwise different.
\<close>

named_theorems qsteps "symbolic execution of the scripts on the abstract queue state"

locale queue_store = redis call view
  for call :: "cmd \<Rightarrow> 's \<Rightarrow> reply \<times> 's" and view :: "'s \<Rightarrow> rdb" +
  fixes ks :: keys
  assumes names: "keys_ok ks"

lemma lbind_case: "lbind m f s = (case m s of (Inl e, s') \<Rightarrow> (Inl e, s') | (Inr a, s') \<Rightarrow> f a s')"
  by (simp add: lbind_def)

lemma lthen_case: "lthen m n s = (case m s of (Inl e, s') \<Rightarrow> (Inl e, s') | (Inr a, s') \<Rightarrow> n s')"
  by (simp add: lthen_def lbind_def)

lemma typedD:
  assumes "typed k d"
  shows "is_hash d (k_name k Payloads)" "is_hash d (k_name k Done)" "is_hash d (k_name k SchedState)"
    "is_zset d (k_name k Pending)" "is_zset d (k_name k PendingAge)"
    "is_hash d (k_name k Stats)" "is_hash d (k_name k TenantService)" "is_hash d (k_name k TenantCount)"
    "is_str d (k_name k InFlight)" "is_str d (k_name k Fence)" "is_str d (k_name k LeaderEpoch)" "is_str d (k_name k Leader)"
    "is_stream d (k_name k Ingress)" "is_stream d (k_name k Exec)" "is_stream d (k_name k Results)"
    "is_stream d (k_name k DeadLetter)"
    "nums (hash_at d (k_name k Stats))" "nums (hash_at d (k_name k TenantService))" "nums (hash_at d (k_name k TenantCount))"
    "int_text (str_at d (k_name k InFlight)) = Some (num_text (str_at d (k_name k InFlight)))"
    "int_text (str_at d (k_name k Fence)) = Some (num_text (str_at d (k_name k Fence)))"
    "int_text (str_at d (k_name k LeaderEpoch)) = Some (num_text (str_at d (k_name k LeaderEpoch)))"
  using assms by (simp_all add: typed_def int_num_text)

lemma qabs_sel:
  "hash_at d (k_name k Payloads) = q_payloads (qabs k d)" "hash_at d (k_name k Done) = q_done (qabs k d)"
  "hash_at d (k_name k SchedState) = q_sched (qabs k d)"
  "zset_at d (k_name k Pending) = q_pending (qabs k d)" "zset_at d (k_name k PendingAge) = q_age (qabs k d)"
  "num_text (hash_at d (k_name k Stats) f) = q_stats (qabs k d) f"
  "num_text (hash_at d (k_name k TenantService) f) = q_service (qabs k d) f"
  "num_text (hash_at d (k_name k TenantCount) f) = q_count (qabs k d) f"
  "num_text (str_at d (k_name k InFlight)) = q_inflight (qabs k d)" "num_text (str_at d (k_name k Fence)) = q_fence (qabs k d)"
  "num_text (str_at d (k_name k LeaderEpoch)) = q_epoch (qabs k d)" "str_at d (k_name k Leader) = q_holder (qabs k d)"
  "stream_at d (k_name k Ingress) = q_ingress (qabs k d)" "stream_at d (k_name k Exec) = q_exec (qabs k d)"
  "stream_at d (k_name k Results) = q_results (qabs k d)" "stream_at d (k_name k DeadLetter) = q_dead (qabs k d)"
  by (simp_all add: qabs_def)

lemma num_text_upd: "num_text \<circ> h(f \<mapsto> TNum n) = (num_text \<circ> h)(f := n)"
  by (rule ext) simp

lemma qabs_comp:
  "num_text \<circ> hash_at d (k_name k Stats) = q_stats (qabs k d)"
  "num_text \<circ> hash_at d (k_name k TenantService) = q_service (qabs k d)"
  "num_text \<circ> hash_at d (k_name k TenantCount) = q_count (qabs k d)"
  by (simp_all add: qabs_def)

context queue_store
begin

lemma step_SET_fence [qsteps]:
  "rcall call (SET (k_name ks Fence) (TNum n)) s = (Inr ROk, after call (SET (k_name ks Fence) (TNum n)) s)"
  "qabs ks (view (after call (SET (k_name ks Fence) (TNum n)) s)) = (qabs ks (view s))\<lparr>q_fence := n\<rparr>"
  "typed ks (view s) \<Longrightarrow> typed ks (view (after call (SET (k_name ks Fence) (TNum n)) s))"
  by (simp_all add: run_SET qabs_put [OF names] typed_put [OF names])

lemma reply_number_GET: "int_text v = Some n \<Longrightarrow> reply_number (case v of None \<Rightarrow> RNil | Some t \<Rightarrow> RText t) = Some (lua_number n)"
  by (auto simp: reply_number_def int_text_def lua_tonumber_def split: option.splits rtext.splits)

lemma step_GET_num:
  assumes "typed ks (view s)"
  shows "\<exists>r. rcall call (GET (k_name ks Fence)) s = (Inr r, after call (GET (k_name ks Fence)) s) \<and>
      reply_number r = Some (lua_number (q_fence (qabs ks (view s))))"
    "\<exists>r. rcall call (GET (k_name ks InFlight)) s = (Inr r, after call (GET (k_name ks InFlight)) s) \<and>
      reply_number r = Some (lua_number (q_inflight (qabs ks (view s))))"
    "view (after call (GET (k_name ks Fence)) s) = view s" "view (after call (GET (k_name ks InFlight)) s) = view s"
  using typedD [OF assms] by (simp_all add: run_GET reply_number_GET qabs_sel)

lemma step_HEXISTS [qsteps]:
  assumes "typed ks (view s)"
  shows "rcall call (HEXISTS (k_name ks Done) i) s =
      (Inr (RInt (if q_done (qabs ks (view s)) i = None then 0 else 1)), after call (HEXISTS (k_name ks Done) i) s)"
    "rcall call (HEXISTS (k_name ks Payloads) i) s =
      (Inr (RInt (if q_payloads (qabs ks (view s)) i = None then 0 else 1)), after call (HEXISTS (k_name ks Payloads) i) s)"
    "view (after call (HEXISTS (k_name ks Done) i) s) = view s" "view (after call (HEXISTS (k_name ks Payloads) i) s) = view s"
  using typedD [OF assms] by (simp_all add: run_HEXISTS qabs_sel)

lemma step_HGET [qsteps]:
  assumes "typed ks (view s)"
  shows "rcall call (HGET (k_name ks Payloads) i) s =
      (Inr (case q_payloads (qabs ks (view s)) i of None \<Rightarrow> RNil | Some t \<Rightarrow> RText t), after call (HGET (k_name ks Payloads) i) s)"
    "view (after call (HGET (k_name ks Payloads) i) s) = view s"
  using typedD [OF assms] by (simp_all add: run_HGET qabs_sel)

lemma step_HSET [qsteps]:
  assumes "typed ks (view s)"
  shows "rcall call (HSET (k_name ks Payloads) i t) s =
      (Inr (RInt (if q_payloads (qabs ks (view s)) i = None then 1 else 0)), after call (HSET (k_name ks Payloads) i t) s)"
    "qabs ks (view (after call (HSET (k_name ks Payloads) i t) s)) =
      (qabs ks (view s))\<lparr>q_payloads := (q_payloads (qabs ks (view s)))(i \<mapsto> t)\<rparr>"
    "typed ks (view (after call (HSET (k_name ks Payloads) i t) s))"
    "rcall call (HSET (k_name ks SchedState) i t) s =
      (Inr (RInt (if q_sched (qabs ks (view s)) i = None then 1 else 0)), after call (HSET (k_name ks SchedState) i t) s)"
    "qabs ks (view (after call (HSET (k_name ks SchedState) i t) s)) =
      (qabs ks (view s))\<lparr>q_sched := (q_sched (qabs ks (view s)))(i \<mapsto> t)\<rparr>"
    "typed ks (view (after call (HSET (k_name ks SchedState) i t) s))"
  using typedD [OF assms] assms by (simp_all add: run_HSET qabs_sel qabs_put [OF names] typed_put [OF names])

lemma step_HDEL [qsteps]:
  assumes "typed ks (view s)"
  shows "rcall call (HDEL (k_name ks Payloads) i) s =
      (Inr (RInt (if q_payloads (qabs ks (view s)) i = None then 0 else 1)), after call (HDEL (k_name ks Payloads) i) s)"
    "qabs ks (view (after call (HDEL (k_name ks Payloads) i) s)) =
      (qabs ks (view s))\<lparr>q_payloads := (q_payloads (qabs ks (view s)))(i := None)\<rparr>"
    "typed ks (view (after call (HDEL (k_name ks Payloads) i) s))"
  using typedD [OF assms] assms by (simp_all add: run_HDEL qabs_sel qabs_put [OF names] typed_put [OF names])

lemma step_HSETNX [qsteps]:
  assumes "typed ks (view s)"
  shows "rcall call (HSETNX (k_name ks Done) i t) s =
      (Inr (RInt (if q_done (qabs ks (view s)) i = None then 1 else 0)), after call (HSETNX (k_name ks Done) i t) s)"
    "qabs ks (view (after call (HSETNX (k_name ks Done) i t) s)) =
      (if q_done (qabs ks (view s)) i = None
       then (qabs ks (view s))\<lparr>q_done := (q_done (qabs ks (view s)))(i \<mapsto> t)\<rparr> else qabs ks (view s))"
    "typed ks (view (after call (HSETNX (k_name ks Done) i t) s))"
  using typedD [OF assms] assms by (simp_all add: run_HSETNX qabs_sel qabs_put [OF names] typed_put [OF names])

lemma step_HINCRBY [qsteps]:
  assumes "typed ks (view s)"
  shows "rcall call (HINCRBY (k_name ks Stats) f n) s =
      (Inr (RInt (q_stats (qabs ks (view s)) f + n)), after call (HINCRBY (k_name ks Stats) f n) s)"
    "qabs ks (view (after call (HINCRBY (k_name ks Stats) f n) s)) = bump f n (qabs ks (view s))"
    "typed ks (view (after call (HINCRBY (k_name ks Stats) f n) s))"
    "rcall call (HINCRBY (k_name ks TenantService) f n) s =
      (Inr (RInt (q_service (qabs ks (view s)) f + n)), after call (HINCRBY (k_name ks TenantService) f n) s)"
    "qabs ks (view (after call (HINCRBY (k_name ks TenantService) f n) s)) =
      (qabs ks (view s))\<lparr>q_service := (q_service (qabs ks (view s)))(f := q_service (qabs ks (view s)) f + n)\<rparr>"
    "typed ks (view (after call (HINCRBY (k_name ks TenantService) f n) s))"
    "rcall call (HINCRBY (k_name ks TenantCount) f n) s =
      (Inr (RInt (q_count (qabs ks (view s)) f + n)), after call (HINCRBY (k_name ks TenantCount) f n) s)"
    "qabs ks (view (after call (HINCRBY (k_name ks TenantCount) f n) s)) =
      (qabs ks (view s))\<lparr>q_count := (q_count (qabs ks (view s)))(f := q_count (qabs ks (view s)) f + n)\<rparr>"
    "typed ks (view (after call (HINCRBY (k_name ks TenantCount) f n) s))"
  using typedD [OF assms] assms
  by (simp_all add: run_HINCRBY nums_at qabs_put [OF names] typed_put [OF names] num_text_upd qabs_comp bump_def)
    (simp_all add: qabs_sel)

lemma step_inflight [qsteps]:
  assumes "typed ks (view s)"
  shows "rcall call (INCR (k_name ks InFlight)) s =
      (Inr (RInt (q_inflight (qabs ks (view s)) + 1)), after call (INCR (k_name ks InFlight)) s)"
    "qabs ks (view (after call (INCR (k_name ks InFlight)) s)) = (qabs ks (view s))\<lparr>q_inflight := q_inflight (qabs ks (view s)) + 1\<rparr>"
    "typed ks (view (after call (INCR (k_name ks InFlight)) s))"
    "rcall call (DECR (k_name ks InFlight)) s =
      (Inr (RInt (q_inflight (qabs ks (view s)) - 1)), after call (DECR (k_name ks InFlight)) s)"
    "qabs ks (view (after call (DECR (k_name ks InFlight)) s)) = (qabs ks (view s))\<lparr>q_inflight := q_inflight (qabs ks (view s)) - 1\<rparr>"
    "typed ks (view (after call (DECR (k_name ks InFlight)) s))"
  using typedD [OF assms] assms
  by (simp_all add: run_INCR run_DECR qabs_put [OF names] typed_put [OF names] qabs_sel)

lemma step_ZADD [qsteps]:
  assumes "typed ks (view s)" "score_text t = Some f"
  shows "rcall call (ZADD (k_name ks Pending) t m) s =
      (Inr (RInt (if q_pending (qabs ks (view s)) m = None then 1 else 0)), after call (ZADD (k_name ks Pending) t m) s)"
    "qabs ks (view (after call (ZADD (k_name ks Pending) t m) s)) =
      (qabs ks (view s))\<lparr>q_pending := (q_pending (qabs ks (view s)))(m \<mapsto> f)\<rparr>"
    "typed ks (view (after call (ZADD (k_name ks Pending) t m) s))"
    "rcall call (ZADD (k_name ks PendingAge) t m) s =
      (Inr (RInt (if q_age (qabs ks (view s)) m = None then 1 else 0)), after call (ZADD (k_name ks PendingAge) t m) s)"
    "qabs ks (view (after call (ZADD (k_name ks PendingAge) t m) s)) =
      (qabs ks (view s))\<lparr>q_age := (q_age (qabs ks (view s)))(m \<mapsto> f)\<rparr>"
    "typed ks (view (after call (ZADD (k_name ks PendingAge) t m) s))"
proof -
  note nan = score_text_not_NaN [OF assms(2)]
  note put = qabs_put(4,5) [OF names] typed_put(4,6) [OF names assms(1) nan]
  show "rcall call (ZADD (k_name ks Pending) t m) s =
      (Inr (RInt (if q_pending (qabs ks (view s)) m = None then 1 else 0)), after call (ZADD (k_name ks Pending) t m) s)"
    "qabs ks (view (after call (ZADD (k_name ks Pending) t m) s)) =
      (qabs ks (view s))\<lparr>q_pending := (q_pending (qabs ks (view s)))(m \<mapsto> f)\<rparr>"
    "typed ks (view (after call (ZADD (k_name ks Pending) t m) s))"
    "rcall call (ZADD (k_name ks PendingAge) t m) s =
      (Inr (RInt (if q_age (qabs ks (view s)) m = None then 1 else 0)), after call (ZADD (k_name ks PendingAge) t m) s)"
    "qabs ks (view (after call (ZADD (k_name ks PendingAge) t m) s)) =
      (qabs ks (view s))\<lparr>q_age := (q_age (qabs ks (view s)))(m \<mapsto> f)\<rparr>"
    "typed ks (view (after call (ZADD (k_name ks PendingAge) t m) s))"
    using typedD [OF assms(1)] assms(2) put
    by (simp_all add: run_ZADD qabs_sel(4,5))
qed

lemma step_ZREM [qsteps]:
  assumes "typed ks (view s)"
  shows "rcall call (ZREM (k_name ks PendingAge) m) s =
      (Inr (RInt (if q_age (qabs ks (view s)) m = None then 0 else 1)), after call (ZREM (k_name ks PendingAge) m) s)"
    "qabs ks (view (after call (ZREM (k_name ks PendingAge) m) s)) =
      (qabs ks (view s))\<lparr>q_age := (q_age (qabs ks (view s)))(m := None)\<rparr>"
    "typed ks (view (after call (ZREM (k_name ks PendingAge) m) s))"
  using typedD [OF assms] assms qabs_put(5) [OF names] typed_put(7) [OF names assms]
  by (simp_all add: run_ZREM qabs_sel(5))

lemma step_ZPOPMIN_empty:
  assumes "typed ks (view s)" "q_pending (qabs ks (view s)) = Map.empty"
  shows "rcall call (ZPOPMIN (k_name ks Pending)) s = (Inr (RScored []), after call (ZPOPMIN (k_name ks Pending)) s)"
    "view (after call (ZPOPMIN (k_name ks Pending)) s) = view s"
  using typedD [OF assms(1)] assms(2) by (simp_all add: run_ZPOPMIN_empty qabs_sel)

lemma step_ZPOPMIN:
  assumes "typed ks (view s)" "q_pending (qabs ks (view s)) \<noteq> Map.empty"
  obtains m f where "zmin (q_pending (qabs ks (view s))) m f"
    "rcall call (ZPOPMIN (k_name ks Pending)) s = (Inr (RScored [(m, f)]), after call (ZPOPMIN (k_name ks Pending)) s)"
    "qabs ks (view (after call (ZPOPMIN (k_name ks Pending)) s)) =
      (qabs ks (view s))\<lparr>q_pending := (q_pending (qabs ks (view s)))(m := None)\<rparr>"
    "typed ks (view (after call (ZPOPMIN (k_name ks Pending)) s))"
proof -
  have z: "is_zset (view s) (k_name ks Pending)" and ne: "zset_at (view s) (k_name ks Pending) \<noteq> Map.empty"
    using typedD [OF assms(1)] assms(2) by (simp_all add: qabs_sel)
  obtain m f where m: "zmin (zset_at (view s) (k_name ks Pending)) m f"
    using doc_after [of "ZPOPMIN (k_name ks Pending)" s] z ne by auto
  have "qabs ks (view (after call (ZPOPMIN (k_name ks Pending)) s)) =
      (qabs ks (view s))\<lparr>q_pending := (q_pending (qabs ks (view s)))(m := None)\<rparr>"
    "typed ks (view (after call (ZPOPMIN (k_name ks Pending)) s))"
    using run_ZPOPMIN(2) [OF z m] qabs_put(4) [OF names] typed_put(5) [OF names assms(1)] by (simp_all add: qabs_sel(4))
  with run_ZPOPMIN(1) [OF z m] m that show thesis by (simp add: qabs_sel)
qed

lemma step_XADD:
  assumes "typed ks (view s)"
  shows "\<exists>r. rcall call (XADD (k_name ks Exec) ml fs) s = (Inr r, after call (XADD (k_name ks Exec) ml fs) s)"
      "\<exists>st'. appended ml fs (q_exec (qabs ks (view s))) st' \<and>
        qabs ks (view (after call (XADD (k_name ks Exec) ml fs) s)) = (qabs ks (view s))\<lparr>q_exec := st'\<rparr>"
      "typed ks (view (after call (XADD (k_name ks Exec) ml fs) s))"
      "\<exists>r. rcall call (XADD (k_name ks Results) ml fs) s = (Inr r, after call (XADD (k_name ks Results) ml fs) s)"
      "\<exists>st'. appended ml fs (q_results (qabs ks (view s))) st' \<and>
        qabs ks (view (after call (XADD (k_name ks Results) ml fs) s)) = (qabs ks (view s))\<lparr>q_results := st'\<rparr>"
      "typed ks (view (after call (XADD (k_name ks Results) ml fs) s))"
      "\<exists>r. rcall call (XADD (k_name ks DeadLetter) ml fs) s = (Inr r, after call (XADD (k_name ks DeadLetter) ml fs) s)"
      "\<exists>st'. appended ml fs (q_dead (qabs ks (view s))) st' \<and>
        qabs ks (view (after call (XADD (k_name ks DeadLetter) ml fs) s)) = (qabs ks (view s))\<lparr>q_dead := st'\<rparr>"
      "typed ks (view (after call (XADD (k_name ks DeadLetter) ml fs) s))"
      "\<exists>r. rcall call (XADD (k_name ks Ingress) ml fs) s = (Inr r, after call (XADD (k_name ks Ingress) ml fs) s)"
      "\<exists>st'. appended ml fs (q_ingress (qabs ks (view s))) st' \<and>
        qabs ks (view (after call (XADD (k_name ks Ingress) ml fs) s)) = (qabs ks (view s))\<lparr>q_ingress := st'\<rparr>"
      "typed ks (view (after call (XADD (k_name ks Ingress) ml fs) s))"
proof -
  have *: "(\<exists>r. rcall call (XADD k ml fs) s = (Inr r, after call (XADD k ml fs) s)) \<and>
      (\<exists>st'. appended ml fs (stream_at (view s) k) st' \<and> view (after call (XADD k ml fs) s) = put_stream (view s) k st')"
    if "is_stream (view s) k" for k
    using run_XADD [OF that, of ml fs] unfolding appended_def by blast
  show "\<exists>r. rcall call (XADD (k_name ks Exec) ml fs) s = (Inr r, after call (XADD (k_name ks Exec) ml fs) s)"
      "\<exists>st'. appended ml fs (q_exec (qabs ks (view s))) st' \<and>
        qabs ks (view (after call (XADD (k_name ks Exec) ml fs) s)) = (qabs ks (view s))\<lparr>q_exec := st'\<rparr>"
      "typed ks (view (after call (XADD (k_name ks Exec) ml fs) s))"
    using * [OF typedD(14) [OF assms]] typed_put(16) [OF names assms] by (auto simp: qabs_put [OF names] qabs_sel)
  show "\<exists>r. rcall call (XADD (k_name ks Results) ml fs) s = (Inr r, after call (XADD (k_name ks Results) ml fs) s)"
      "\<exists>st'. appended ml fs (q_results (qabs ks (view s))) st' \<and>
        qabs ks (view (after call (XADD (k_name ks Results) ml fs) s)) = (qabs ks (view s))\<lparr>q_results := st'\<rparr>"
      "typed ks (view (after call (XADD (k_name ks Results) ml fs) s))"
    using * [OF typedD(15) [OF assms]] typed_put(17) [OF names assms] by (auto simp: qabs_put [OF names] qabs_sel)
  show "\<exists>r. rcall call (XADD (k_name ks DeadLetter) ml fs) s = (Inr r, after call (XADD (k_name ks DeadLetter) ml fs) s)"
      "\<exists>st'. appended ml fs (q_dead (qabs ks (view s))) st' \<and>
        qabs ks (view (after call (XADD (k_name ks DeadLetter) ml fs) s)) = (qabs ks (view s))\<lparr>q_dead := st'\<rparr>"
      "typed ks (view (after call (XADD (k_name ks DeadLetter) ml fs) s))"
    using * [OF typedD(16) [OF assms]] typed_put(18) [OF names assms] by (auto simp: qabs_put [OF names] qabs_sel)
  show "\<exists>r. rcall call (XADD (k_name ks Ingress) ml fs) s = (Inr r, after call (XADD (k_name ks Ingress) ml fs) s)"
      "\<exists>st'. appended ml fs (q_ingress (qabs ks (view s))) st' \<and>
        qabs ks (view (after call (XADD (k_name ks Ingress) ml fs) s)) = (qabs ks (view s))\<lparr>q_ingress := st'\<rparr>"
      "typed ks (view (after call (XADD (k_name ks Ingress) ml fs) s))"
    using * [OF typedD(13) [OF assms]] typed_put(15) [OF names assms] by (auto simp: qabs_put [OF names] qabs_sel)
qed

lemma step_XACK:
  assumes "typed ks (view s)"
  shows "\<exists>r. rcall call (XACK (k_name ks Exec) gn ids) s = (Inr r, after call (XACK (k_name ks Exec) gn ids) s)"
    "qabs ks (view (after call (XACK (k_name ks Exec) gn ids) s)) =
      (qabs ks (view s))\<lparr>q_exec := st_ack (q_exec (qabs ks (view s))) gn ids\<rparr>"
    "typed ks (view (after call (XACK (k_name ks Exec) gn ids) s))"
    "\<exists>r. rcall call (XACK (k_name ks Ingress) gn ids) s = (Inr r, after call (XACK (k_name ks Ingress) gn ids) s)"
    "qabs ks (view (after call (XACK (k_name ks Ingress) gn ids) s)) =
      (qabs ks (view s))\<lparr>q_ingress := st_ack (q_ingress (qabs ks (view s))) gn ids\<rparr>"
    "typed ks (view (after call (XACK (k_name ks Ingress) gn ids) s))"
  using run_XACK [OF typedD(14) [OF assms], of gn ids] run_XACK [OF typedD(13) [OF assms], of gn ids]
    qabs_acked [OF names] typed_acked [OF names assms]
  by auto

section \<open>The fence\<close>

lemma fenced_run:
  assumes t: "typed ks (view s)"
  shows "\<exists>s'. fenced call (k_name ks Fence) (TNum e) s = (Inr (refused e (qabs ks (view s))), s') \<and> typed ks (view s') \<and>
      qabs ks (view s') = (if refused e (qabs ks (view s)) then qabs ks (view s) else raised e (qabs ks (view s)))"
proof (cases "0 < e")
  case False
  then have "lua_number e \<le> 0"
    by (simp add: lua_number_nonpos)
  then show ?thesis using t False by (simp add: fenced_def lua_tonumber_def refused_def raised_def)
next
  case True
  then have pos: "\<not> lua_number e \<le> 0"
    using lua_number_pos by (simp add: not_le)
  obtain r where r: "rcall call (GET (k_name ks Fence)) s = (Inr r, after call (GET (k_name ks Fence)) s)"
      "reply_number r = Some (lua_number (q_fence (qabs ks (view s))))"
    using step_GET_num(1) [OF t] by blast
  note g = step_GET_num(3) [OF t]
  show ?thesis
    using True pos t by (simp add: fenced_def lua_tonumber_def lbind_case lthen_case r g refused_def raised_def step_SET_fence)
qed

section \<open>Admission\<close>

lemma admit_run:
  assumes t: "typed ks (view s)" and sc: "score_text score = Some f" "score_text sub = Some age"
  shows "\<exists>s'. admit_script call (k_name ks Payloads) (k_name ks Pending) (k_name ks PendingAge) (k_name ks Done)
        (k_name ks Stats) (k_name ks Fence) i m score sub p (TNum e) s =
      (if refused e (qabs ks (view s)) then Inl fenced_error else Inr (if q_known i (qabs ks (view s)) then 0 else 1), s') \<and>
      typed ks (view s') \<and>
      qabs ks (view s') =
        (if refused e (qabs ks (view s)) then qabs ks (view s)
         else if q_known i (qabs ks (view s)) then raised e (qabs ks (view s))
         else q_admit i m f age p (raised e (qabs ks (view s))))"
proof -
  obtain s1 where s1: "fenced call (k_name ks Fence) (TNum e) s = (Inr (refused e (qabs ks (view s))), s1)" "typed ks (view s1)"
      "qabs ks (view s1) = (if refused e (qabs ks (view s)) then qabs ks (view s) else raised e (qabs ks (view s)))"
    using fenced_run [OF t] by blast
  have known: "q_known i (raised e q) = q_known i q" for q
    by (simp add: q_known_def raised_def)
  show ?thesis
  proof (cases "refused e (qabs ks (view s))")
    case True
    then show ?thesis using s1 by (simp add: admit_script_def lbind_case)
  next
    case False
    then have q1: "qabs ks (view s1) = raised e (qabs ks (view s))"
      using s1(3) by simp
    show ?thesis
      unfolding known [of "qabs ks (view s)", symmetric] q1 [symmetric]
      using s1(1,2) False
      by (simp add: admit_script_def lbind_case lthen_case qsteps q_known_def q_admit_def sc bump_def)
  qed
qed

text \<open>A score Redis refuses (a NaN) stops the script after the payload is stored.\<close>

lemma admit_refused_score:
  assumes t: "typed ks (view s)" and sc: "score_text score = None"
    and ok: "\<not> refused e (qabs ks (view s))" "\<not> q_known i (qabs ks (view s))"
  shows "\<exists>err s'. admit_script call (k_name ks Payloads) (k_name ks Pending) (k_name ks PendingAge) (k_name ks Done)
        (k_name ks Stats) (k_name ks Fence) i m score sub p (TNum e) s = (Inl err, s') \<and> typed ks (view s') \<and>
      qabs ks (view s') = (raised e (qabs ks (view s)))\<lparr>q_payloads := (q_payloads (qabs ks (view s)))(i \<mapsto> p)\<rparr>"
proof -
  obtain s1 where s1: "fenced call (k_name ks Fence) (TNum e) s = (Inr False, s1)" "typed ks (view s1)"
      "qabs ks (view s1) = raised e (qabs ks (view s))"
    using fenced_run [OF t, of e] ok(1) by auto
  have k1: "q_done (qabs ks (view s1)) i = None" "q_payloads (qabs ks (view s1)) i = None"
    using ok(2) by (simp_all add: s1(3) q_known_def raised_def)
  have pl: "q_payloads (qabs ks (view s)) = q_payloads (qabs ks (view s1))"
    by (simp add: s1(3) raised_def)
  let ?s2 = "after call (HEXISTS (k_name ks Payloads) i) (after call (HEXISTS (k_name ks Done) i) s1)"
  let ?s3 = "after call (HSET (k_name ks Payloads) i p) ?s2"
  have t3: "typed ks (view ?s3)" "qabs ks (view ?s3) = (qabs ks (view s1))\<lparr>q_payloads := (q_payloads (qabs ks (view s1)))(i \<mapsto> p)\<rparr>"
    using s1(2) by (simp_all add: qsteps)
  obtain err where "rcall call (ZADD (k_name ks Pending) score m) ?s3 = (Inl err, after call (ZADD (k_name ks Pending) score m) ?s3)"
    using run_ZADD_refused(1) [OF typedD(4) [OF t3(1)] sc] by blast
  then have "admit_script call (k_name ks Payloads) (k_name ks Pending) (k_name ks PendingAge) (k_name ks Done)
        (k_name ks Stats) (k_name ks Fence) i m score sub p (TNum e) s = (Inl err, after call (ZADD (k_name ks Pending) score m) ?s3)"
    using s1(1,2) k1 by (simp add: admit_script_def lbind_case lthen_case qsteps)
  moreover have "view (after call (ZADD (k_name ks Pending) score m) ?s3) = view ?s3"
    by (rule run_ZADD_refused(2) [OF typedD(4) [OF t3(1)] sc])
  ultimately show ?thesis using t3 by (simp add: s1(3) [symmetric] pl)
qed

section \<open>Dispatch\<close>

lemma xadd_maxlen_run:
  assumes "typed ks (view s)"
  shows "\<exists>r s' st'. xadd_maxlen call (k_name ks Exec) maxLen fs s = (Inr r, s') \<and> typed ks (view s') \<and>
      appended (trim_arg maxLen) fs (q_exec (qabs ks (view s))) st' \<and> qabs ks (view s') = (qabs ks (view s))\<lparr>q_exec := st'\<rparr>"
    "\<exists>r s' st'. xadd_maxlen call (k_name ks Results) maxLen fs s = (Inr r, s') \<and> typed ks (view s') \<and>
      appended (trim_arg maxLen) fs (q_results (qabs ks (view s))) st' \<and> qabs ks (view s') = (qabs ks (view s))\<lparr>q_results := st'\<rparr>"
proof -
  have run: "xadd_maxlen call k maxLen fs s = rcall call (XADD k (trim_arg maxLen) fs) s" for k
    by (simp add: xadd_maxlen_def trim_arg_def)
  show "\<exists>r s' st'. xadd_maxlen call (k_name ks Exec) maxLen fs s = (Inr r, s') \<and> typed ks (view s') \<and>
      appended (trim_arg maxLen) fs (q_exec (qabs ks (view s))) st' \<and> qabs ks (view s') = (qabs ks (view s))\<lparr>q_exec := st'\<rparr>"
    using step_XADD(1-3) [OF assms, of "trim_arg maxLen" fs] unfolding run by blast
  show "\<exists>r s' st'. xadd_maxlen call (k_name ks Results) maxLen fs s = (Inr r, s') \<and> typed ks (view s') \<and>
      appended (trim_arg maxLen) fs (q_results (qabs ks (view s))) st' \<and> qabs ks (view s') = (qabs ks (view s))\<lparr>q_results := st'\<rparr>"
    using step_XADD(4-6) [OF assms, of "trim_arg maxLen" fs] unfolding run by blast
qed

lemma dispatch_one_run:
  assumes t: "typed ks (view s)" and q: "qabs ks (view s) = q\<lparr>q_pending := (q_pending q)(m := None)\<rparr>"
  shows "\<exists>ts s'. dispatch_one call (k_name ks PendingAge) (k_name ks Payloads) (k_name ks Exec) (k_name ks Stats)
        (k_name ks InFlight) now maxLen e m f out s = (Inr (out @ ts), s') \<and>
      typed ks (view s') \<and> q_launch now maxLen e m f q ts (qabs ks (view s'))"
proof -
  let ?s1 = "after call (ZREM (k_name ks PendingAge) m) s"
  have t1: "typed ks (view ?s1)" and q1: "qabs ks (view ?s1) = q_unpend m q"
    using t by (simp_all add: step_ZREM q q_unpend_def)
  note zrem = step_ZREM(1) [OF t, of m]
  show ?thesis
  proof (cases "after_first (CHR ''|'') m")
    case None
    then show ?thesis
      using t1 q_launch.no_task [OF None, of now maxLen e f q] unfolding q1 [symmetric]
      by (intro exI [of _ "[]"] exI [of _ ?s1]) (simp add: dispatch_one_def lthen_case zrem None)
  next
    case (Some i)
    let ?s2 = "after call (HGET (k_name ks Payloads) i) ?s1"
    have v2: "view ?s2 = view ?s1"
      using t1 by (simp add: step_HGET)
    have get: "rcall call (HGET (k_name ks Payloads) i) ?s1 =
        (Inr (case q_payloads q i of None \<Rightarrow> RNil | Some t \<Rightarrow> RText t), ?s2)"
      using step_HGET(1) [OF t1, of i] unfolding q1 by (simp add: q_unpend_def)
    show ?thesis
    proof (cases "q_payloads q i")
      case None
      then show ?thesis
        using t1 v2 q_launch.no_payload [OF Some None, of now maxLen e f] unfolding q1 [symmetric]
        by (intro exI [of _ "[]"] exI [of _ ?s2]) (simp add: dispatch_one_def lthen_case lbind_case zrem Some get None)
    next
      case (Some p)
      let ?fs = "[(''task'', p), (''dispatched_at_ms'', now), (''epoch'', e)]"
      obtain r s3 st' where x: "xadd_maxlen call (k_name ks Exec) maxLen ?fs ?s2 = (Inr r, s3)" "typed ks (view s3)"
          "appended (trim_arg maxLen) ?fs (q_exec q) st'" "qabs ks (view s3) = (q_unpend m q)\<lparr>q_exec := st'\<rparr>"
        using xadd_maxlen_run(1) [of ?s2 maxLen ?fs] t1 v2 q1 by (auto simp: q_unpend_def)
      let ?s4 = "after call (INCR (k_name ks InFlight)) (after call (HINCRBY (k_name ks Stats) ''dispatched'' 1) s3)"
      have run: "dispatch_one call (k_name ks PendingAge) (k_name ks Payloads) (k_name ks Exec) (k_name ks Stats)
          (k_name ks InFlight) now maxLen e m f out s = (Inr (out @ [(m, f, p)]), ?s4)"
        using x(1,2)
        by (simp add: dispatch_one_def lthen_case lbind_case zrem \<open>after_first (CHR ''|'') m = Some i\<close> get Some
            step_HINCRBY step_inflight)
      moreover have "typed ks (view ?s4)" "qabs ks (view ?s4) =
          (bump ''dispatched'' 1 (q_unpend m q))\<lparr>q_exec := st', q_inflight := q_inflight q + 1\<rparr>"
        using x(2) by (simp_all add: step_HINCRBY step_inflight x(4) bump_def q_unpend_def)
      ultimately show ?thesis
        using q_launch.launch [OF \<open>after_first (CHR ''|'') m = Some i\<close> Some x(3), of f] by auto
    qed
  qed
qed

lemma at_capacity_run:
  assumes "typed ks (view s)"
  shows "\<exists>s'. at_capacity call (k_name ks InFlight) cap s = (Inr (q_full cap (qabs ks (view s))), s') \<and> view s' = view s"
proof (cases "0 < cap")
  case True
  obtain r where "rcall call (GET (k_name ks InFlight)) s = (Inr r, after call (GET (k_name ks InFlight)) s)"
      "reply_number r = Some (lua_number (q_inflight (qabs ks (view s))))"
    using step_GET_num(2) [OF assms] by blast
  then show ?thesis using True step_GET_num(4) [OF assms] by (simp add: at_capacity_def lbind_case q_full_def)
qed (simp add: at_capacity_def q_full_def)

lemma dispatch_loop_run:
  assumes "typed ks (view s)"
  shows "\<exists>ts s'. dispatch_loop call (k_name ks Pending) (k_name ks PendingAge) (k_name ks Payloads) (k_name ks Exec)
        (k_name ks Stats) (k_name ks InFlight) cap now maxLen e n out s = (Inr (out @ ts), s') \<and>
      typed ks (view s') \<and> q_dispatch cap now maxLen e n (qabs ks (view s)) ts (qabs ks (view s'))"
  using assms
proof (induction n arbitrary: s out)
  case 0
  then show ?case by (auto intro: q_dispatch.stop)
next
  case (Suc n)
  obtain s1 where s1: "at_capacity call (k_name ks InFlight) cap s = (Inr (q_full cap (qabs ks (view s))), s1)" "view s1 = view s"
    using at_capacity_run [OF Suc.prems] by blast
  show ?case
  proof (cases "q_full cap (qabs ks (view s))")
    case True
    then show ?thesis using s1 Suc.prems q_dispatch.full [OF True] by (simp add: lbind_case)
  next
    case not_full: False
    have t1: "typed ks (view s1)"
      using Suc.prems s1(2) by simp
    show ?thesis
    proof (cases "q_pending (qabs ks (view s)) = Map.empty")
      case True
      then show ?thesis
        using s1 Suc.prems not_full step_ZPOPMIN_empty [OF t1] q_dispatch.idle [OF True] by (simp add: lbind_case)
    next
      case False
      let ?s2 = "after call (ZPOPMIN (k_name ks Pending)) s1"
      obtain m f where pop: "zmin (q_pending (qabs ks (view s))) m f"
          "rcall call (ZPOPMIN (k_name ks Pending)) s1 = (Inr (RScored [(m, f)]), ?s2)"
          "qabs ks (view ?s2) = (qabs ks (view s))\<lparr>q_pending := (q_pending (qabs ks (view s)))(m := None)\<rparr>"
          "typed ks (view ?s2)"
        using step_ZPOPMIN [OF t1] False by (metis s1(2))
      obtain ts1 s3 where one: "dispatch_one call (k_name ks PendingAge) (k_name ks Payloads) (k_name ks Exec) (k_name ks Stats)
            (k_name ks InFlight) now maxLen e m f out ?s2 = (Inr (out @ ts1), s3)"
          "typed ks (view s3)" "q_launch now maxLen e m f (qabs ks (view s)) ts1 (qabs ks (view s3))"
        using dispatch_one_run [OF pop(4,3)] by blast
      obtain ts2 s4 where rest: "dispatch_loop call (k_name ks Pending) (k_name ks PendingAge) (k_name ks Payloads) (k_name ks Exec)
            (k_name ks Stats) (k_name ks InFlight) cap now maxLen e n (out @ ts1) s3 = (Inr ((out @ ts1) @ ts2), s4)"
          "typed ks (view s4)" "q_dispatch cap now maxLen e n (qabs ks (view s3)) ts2 (qabs ks (view s4))"
        using Suc.IH [OF one(2)] by blast
      show ?thesis
        using s1(1) not_full pop(2) one(1) rest(1,2) q_dispatch.pop [OF not_full pop(1) one(3) rest(3)]
        by (simp add: lbind_case)
    qed
  qed
qed

lemma dispatch_run:
  assumes t: "typed ks (view s)"
  shows "\<exists>r s'. dispatch_script call (k_name ks Pending) (k_name ks PendingAge) (k_name ks Payloads) (k_name ks Exec)
        (k_name ks Stats) (k_name ks InFlight) (k_name ks Fence) maxCount cap now maxLen (TNum e) s = (r, s') \<and>
      typed ks (view s') \<and>
      (if refused e (qabs ks (view s)) then r = Inl fenced_error \<and> qabs ks (view s') = qabs ks (view s)
       else \<exists>ts. r = Inr ts \<and>
         q_dispatch cap now maxLen (TNum e) (nat maxCount) (raised e (qabs ks (view s))) ts (qabs ks (view s')))"
proof -
  obtain s1 where s1: "fenced call (k_name ks Fence) (TNum e) s = (Inr (refused e (qabs ks (view s))), s1)" "typed ks (view s1)"
      "qabs ks (view s1) = (if refused e (qabs ks (view s)) then qabs ks (view s) else raised e (qabs ks (view s)))"
    using fenced_run [OF t] by blast
  show ?thesis
  proof (cases "refused e (qabs ks (view s))")
    case True
    then show ?thesis using s1 by (simp add: dispatch_script_def lbind_case)
  next
    case False
    then show ?thesis
      using s1 dispatch_loop_run [OF s1(2), of cap now maxLen "TNum e" "nat maxCount" "[]"]
      by (auto simp: dispatch_script_def lbind_case)
  qed
qed

section \<open>Completion and retry\<close>

lemma xack_if_run:
  assumes "typed ks (view s)"
  shows "\<exists>r s'. xack_if call (k_name ks Exec) gn msg s = (Inr r, s') \<and> typed ks (view s') \<and>
      qabs ks (view s') = q_ack gn msg (qabs ks (view s))"
proof (cases msg)
  case None
  then show ?thesis using assms by (simp add: xack_if_def q_ack_def)
next
  case (Some j)
  then show ?thesis using step_XACK(1-3) [OF assms, of gn "[j]"] by (auto simp: xack_if_def q_ack_def)
qed

lemma complete_run:
  assumes t: "typed ks (view s)"
  shows "\<exists>s'. complete_script call (k_name ks Done) (k_name ks Payloads) (k_name ks Results) (k_name ks Stats)
        (k_name ks TenantService) (k_name ks TenantCount) (k_name ks InFlight) (k_name ks Exec)
        i res tenant ms missed now gn msg maxLen s =
        (Inr (if q_done (qabs ks (view s)) i = None then 1 else 0), s') \<and> typed ks (view s') \<and>
      q_complete maxLen i res tenant ms (missed = 1) now gn msg (qabs ks (view s)) (q_done (qabs ks (view s)) i = None)
        (qabs ks (view s'))"
proof (cases "q_done (qabs ks (view s)) i")
  case (Some x)
  let ?s1 = "after call (HINCRBY (k_name ks Stats) ''duplicate_completions'' 1) (after call (HSETNX (k_name ks Done) i now) s)"
  have s1: "typed ks (view ?s1)" "qabs ks (view ?s1) = bump ''duplicate_completions'' 1 (qabs ks (view s))"
    using t Some by (simp_all add: step_HSETNX step_HINCRBY)
  obtain r s2 where s2: "xack_if call (k_name ks Exec) gn msg ?s1 = (Inr r, s2)" "typed ks (view s2)"
      "qabs ks (view s2) = q_ack gn msg (qabs ks (view ?s1))"
    using xack_if_run [OF s1(1)] by blast
  show ?thesis
    using t Some s2(1,2)
    by (simp add: complete_script_def lbind_case lthen_case step_HSETNX step_HINCRBY q_complete_def s2(3) s1(2))
next
  case None
  let ?s1 = "after call (HDEL (k_name ks Payloads) i) (after call (HSETNX (k_name ks Done) i now) s)"
  have s1: "typed ks (view ?s1)" "qabs ks (view ?s1) =
      (qabs ks (view s))\<lparr>q_done := (q_done (qabs ks (view s)))(i \<mapsto> now), q_payloads := (q_payloads (qabs ks (view s)))(i := None)\<rparr>"
    using t None by (simp_all add: step_HSETNX step_HDEL)
  obtain r s2 st' where s2: "xadd_maxlen call (k_name ks Results) maxLen [(''result'', res)] ?s1 = (Inr r, s2)" "typed ks (view s2)"
      "appended (trim_arg maxLen) [(''result'', res)] (q_results (qabs ks (view s))) st'"
      "qabs ks (view s2) = (qabs ks (view ?s1))\<lparr>q_results := st'\<rparr>"
    using xadd_maxlen_run(2) [OF s1(1), of maxLen "[(''result'', res)]"] by (auto simp: s1(2))
  let ?s3 = "after call (HINCRBY (k_name ks Stats) ''completed'' 1) s2"
  let ?s4 = "if missed = 1 then after call (HINCRBY (k_name ks Stats) ''deadline_missed'' 1) ?s3 else ?s3"
  let ?s5 = "after call (DECR (k_name ks InFlight)) (after call (HINCRBY (k_name ks TenantCount) tenant 1)
    (after call (HINCRBY (k_name ks TenantService) tenant ms) ?s4))"
  have s4: "typed ks (view ?s4)"
    using s2(2) by (simp add: step_HINCRBY)
  have q4: "qabs ks (view ?s4) = (bump ''completed'' 1 (if missed = 1 then bump ''deadline_missed'' 1 (qabs ks (view s)) else qabs ks (view s)))
      \<lparr>q_done := (q_done (qabs ks (view s)))(i \<mapsto> now), q_payloads := (q_payloads (qabs ks (view s)))(i := None), q_results := st'\<rparr>"
    using s2(2) by (simp add: step_HINCRBY s2(4) s1(2) bump_def fun_upd_twist)
  have s5: "typed ks (view ?s5)"
    using s4 by (simp only: step_HINCRBY step_inflight)
  have q5: "qabs ks (view ?s5) = (bump ''completed'' 1 (if missed = 1 then bump ''deadline_missed'' 1 (qabs ks (view s)) else qabs ks (view s)))
      \<lparr>q_done := (q_done (qabs ks (view s)))(i \<mapsto> now), q_payloads := (q_payloads (qabs ks (view s)))(i := None), q_results := st',
       q_service := (q_service (qabs ks (view s)))(tenant := q_service (qabs ks (view s)) tenant + ms),
       q_count := (q_count (qabs ks (view s)))(tenant := q_count (qabs ks (view s)) tenant + 1),
       q_inflight := q_inflight (qabs ks (view s)) - 1\<rparr>"
    using s4 by (simp only: step_HINCRBY step_inflight q4) (simp add: bump_def)
  obtain r' s6 where s6: "xack_if call (k_name ks Exec) gn msg ?s5 = (Inr r', s6)" "typed ks (view s6)"
      "qabs ks (view s6) = q_ack gn msg (qabs ks (view ?s5))"
    using xack_if_run [OF s5] by blast
  have run: "complete_script call (k_name ks Done) (k_name ks Payloads) (k_name ks Results) (k_name ks Stats)
      (k_name ks TenantService) (k_name ks TenantCount) (k_name ks InFlight) (k_name ks Exec)
      i res tenant ms missed now gn msg maxLen s = (Inr 1, s6)"
    using t None s1(1) s2(1,2) s6(1)
    by (cases "missed = 1") (simp_all add: complete_script_def lbind_case lthen_case step_HSETNX step_HDEL step_HINCRBY step_inflight)
  show ?thesis
    using run None s6(2) s2(3) s6(3) [unfolded q5] by (intro exI [of _ s6]) (auto simp: q_complete_def)
qed

lemma retry_run:
  assumes t: "typed ks (view s)"
  shows "\<exists>r s'. retry_script call (k_name ks Done) (k_name ks Payloads) (k_name ks Exec) (k_name ks DeadLetter)
        (k_name ks Stats) (k_name ks InFlight) i retry dead isDead now gn msg maxLen s = (Inr r, s') \<and> typed ks (view s') \<and>
      q_retry maxLen i retry dead (isDead = 1) now gn msg (qabs ks (view s)) r (qabs ks (view s'))"
proof (cases "q_done (qabs ks (view s)) i")
  case (Some x)
  let ?s1 = "after call (HEXISTS (k_name ks Done) i) s"
  have s1: "view ?s1 = view s"
    using t by (simp add: step_HEXISTS)
  obtain r s2 where "xack_if call (k_name ks Exec) gn msg ?s1 = (Inr r, s2)" "typed ks (view s2)"
      "qabs ks (view s2) = q_ack gn msg (qabs ks (view s))"
    using xack_if_run [of ?s1 gn msg] t s1 by auto
  then show ?thesis
    using t Some by (simp add: retry_script_def lbind_case lthen_case step_HEXISTS q_retry_def)
next
  case None
  let ?s1 = "after call (HEXISTS (k_name ks Done) i) s"
  have s1: "view ?s1 = view s"
    using t by (simp add: step_HEXISTS)
  have t1: "typed ks (view ?s1)"
    using t by (simp add: s1)
  show ?thesis
  proof (cases "isDead = 1")
    case True
    let ?c = "XADD (k_name ks DeadLetter) None [(''record'', dead)]"
    let ?s2 = "after call ?c ?s1"
    obtain r0 where x: "rcall call ?c ?s1 = (Inr r0, ?s2)"
      using step_XADD(7) [OF t1] by blast
    obtain st' where a: "appended None [(''record'', dead)] (q_dead (qabs ks (view s))) st'"
        "qabs ks (view ?s2) = (qabs ks (view s))\<lparr>q_dead := st'\<rparr>"
      using step_XADD(8) [OF t1, of None "[(''record'', dead)]"] by (auto simp: s1)
    have t2: "typed ks (view ?s2)"
      by (rule step_XADD(9) [OF t1])
    let ?s3 = "after call (DECR (k_name ks InFlight)) (after call (HINCRBY (k_name ks Stats) ''dead_lettered'' 1)
      (after call (HSETNX (k_name ks Done) i now) (after call (HDEL (k_name ks Payloads) i) ?s2)))"
    let ?q1 = "(bump ''dead_lettered'' 1 (qabs ks (view s)))
          \<lparr>q_dead := st', q_payloads := (q_payloads (qabs ks (view s)))(i := None), q_done := (q_done (qabs ks (view s)))(i \<mapsto> now),
           q_inflight := q_inflight (qabs ks (view s)) - 1\<rparr>"
    have s3: "typed ks (view ?s3)" "qabs ks (view ?s3) = ?q1"
      using t2 None by (simp_all add: step_HINCRBY step_inflight step_HSETNX step_HDEL a(2) bump_def)
    obtain r s4 where s4: "xack_if call (k_name ks Exec) gn msg ?s3 = (Inr r, s4)" "typed ks (view s4)"
        "qabs ks (view s4) = q_ack gn msg ?q1"
      using xack_if_run [OF s3(1)] s3(2) by metis
    have "retry_script call (k_name ks Done) (k_name ks Payloads) (k_name ks Exec) (k_name ks DeadLetter)
        (k_name ks Stats) (k_name ks InFlight) i retry dead isDead now gn msg maxLen s = (Inr 2, s4)"
      using t t2 x None True s4(1)
      by (simp add: retry_script_def lbind_case lthen_case step_HEXISTS step_HDEL step_HSETNX step_HINCRBY step_inflight)
    moreover have "q_retire i dead now (qabs ks (view s)) ?q1"
      using a(1) by (auto simp: q_retire_def)
    ultimately show ?thesis using None True s4(2,3) by (auto simp: q_retry_def)
  next
    case False
    let ?s2 = "after call (HSET (k_name ks Payloads) i retry) ?s1"
    have s2: "typed ks (view ?s2)"
      "qabs ks (view ?s2) = (qabs ks (view s))\<lparr>q_payloads := (q_payloads (qabs ks (view s)))(i \<mapsto> retry)\<rparr>"
      using t1 by (simp_all add: step_HSET s1)
    let ?fs = "[(''task'', retry), (''dispatched_at_ms'', now)]"
    obtain r s3 st' where s3: "xadd_maxlen call (k_name ks Exec) maxLen ?fs ?s2 = (Inr r, s3)" "typed ks (view s3)"
        "appended (trim_arg maxLen) ?fs (q_exec (qabs ks (view s))) st'" "qabs ks (view s3) = (qabs ks (view ?s2))\<lparr>q_exec := st'\<rparr>"
      using xadd_maxlen_run(1) [OF s2(1), of maxLen ?fs] by (auto simp: s2(2))
    let ?s4 = "after call (HINCRBY (k_name ks Stats) ''retried'' 1) s3"
    let ?q1 = "(bump ''retried'' 1 (qabs ks (view s)))\<lparr>q_exec := st', q_payloads := (q_payloads (qabs ks (view s)))(i \<mapsto> retry)\<rparr>"
    have s4: "typed ks (view ?s4)" "qabs ks (view ?s4) = ?q1"
      using s3(2) by (simp_all add: step_HINCRBY s3(4) s2(2) bump_def)
    obtain r' s5 where s5: "xack_if call (k_name ks Exec) gn msg ?s4 = (Inr r', s5)" "typed ks (view s5)"
        "qabs ks (view s5) = q_ack gn msg ?q1"
      using xack_if_run [OF s4(1)] s4(2) by metis
    have "retry_script call (k_name ks Done) (k_name ks Payloads) (k_name ks Exec) (k_name ks DeadLetter)
        (k_name ks Stats) (k_name ks InFlight) i retry dead isDead now gn msg maxLen s = (Inr 1, s5)"
      using t t1 s2(1) s3(1,2) None False s5(1)
      by (simp add: retry_script_def lbind_case lthen_case step_HEXISTS step_HSET step_HINCRBY)
    moreover have "q_redeliver maxLen i retry now (qabs ks (view s)) ?q1"
      using s3(3) by (auto simp: q_redeliver_def)
    ultimately show ?thesis using None False s5(2,3) by (auto simp: q_retry_def)
  qed
qed

section \<open>Saved policy state and reset\<close>

lemma write_fields_run:
  assumes "typed ks (view s)"
  shows "\<exists>s'. write_fields call (k_name ks SchedState) fvs n s = (Inr (n + int (length fvs)), s') \<and> typed ks (view s') \<and>
      qabs ks (view s') = (qabs ks (view s))\<lparr>q_sched := q_sched (qabs ks (view s)) ++ map_of (rev fvs)\<rparr>"
  using assms
proof (induction fvs arbitrary: s n)
  case (Cons fv fvs)
  let ?s1 = "after call (HSET (k_name ks SchedState) (fst fv) (snd fv)) s"
  have s1: "typed ks (view ?s1)" "qabs ks (view ?s1) =
      (qabs ks (view s))\<lparr>q_sched := (q_sched (qabs ks (view s)))(fst fv \<mapsto> snd fv)\<rparr>"
    using Cons.prems by (simp_all add: step_HSET)
  obtain s2 where "write_fields call (k_name ks SchedState) fvs (n + 1) ?s1 = (Inr (n + 1 + int (length fvs)), s2)"
      "typed ks (view s2)"
      "qabs ks (view s2) = (qabs ks (view ?s1))\<lparr>q_sched := q_sched (qabs ks (view ?s1)) ++ map_of (rev fvs)\<rparr>"
    using Cons.IH [OF s1(1)] by blast
  then show ?case
    using Cons.prems by (cases fv) (simp add: lthen_case step_HSET s1(2) map_add_def fun_eq_iff split: option.splits)
qed simp

lemma clear_sched:
  assumes "typed ks (view s)"
  shows "\<exists>r. rcall call (DEL [k_name ks SchedState]) s = (Inr r, after call (DEL [k_name ks SchedState]) s)"
    "typed ks (view (after call (DEL [k_name ks SchedState]) s))"
    "qabs ks (view (after call (DEL [k_name ks SchedState]) s)) = (qabs ks (view s))\<lparr>q_sched := Map.empty\<rparr>"
proof -
  have v: "view (after call (DEL [k_name ks SchedState]) s) = put_hash (view s) (k_name ks SchedState) Map.empty"
    by (auto simp: run_DEL put_hash_def)
  show "\<exists>r. rcall call (DEL [k_name ks SchedState]) s = (Inr r, after call (DEL [k_name ks SchedState]) s)"
    using run_DEL(1) by blast
  show "typed ks (view (after call (DEL [k_name ks SchedState]) s))"
    "qabs ks (view (after call (DEL [k_name ks SchedState]) s)) = (qabs ks (view s))\<lparr>q_sched := Map.empty\<rparr>"
    unfolding v by (simp_all add: typed_put(3) [OF names assms] qabs_put(3) [OF names])
qed

lemma save_run:
  assumes t: "typed ks (view s)"
  shows "\<exists>s'. save_state_script call (k_name ks SchedState) (k_name ks Fence) (TNum e) fvs s =
        (if refused e (qabs ks (view s)) then Inl fenced_error else Inr (int (length fvs)), s') \<and> typed ks (view s') \<and>
      qabs ks (view s') =
        (if refused e (qabs ks (view s)) then qabs ks (view s) else q_save fvs (raised e (qabs ks (view s))))"
proof -
  obtain s1 where s1: "fenced call (k_name ks Fence) (TNum e) s = (Inr (refused e (qabs ks (view s))), s1)" "typed ks (view s1)"
      "qabs ks (view s1) = (if refused e (qabs ks (view s)) then qabs ks (view s) else raised e (qabs ks (view s)))"
    using fenced_run [OF t] by blast
  show ?thesis
  proof (cases "refused e (qabs ks (view s)) \<or> fvs = []")
    case True
    then show ?thesis using s1 by (auto simp: save_state_script_def lbind_case q_save_def)
  next
    case False
    obtain r where d: "rcall call (DEL [k_name ks SchedState]) s1 = (Inr r, after call (DEL [k_name ks SchedState]) s1)"
      using clear_sched(1) [OF s1(2)] by blast
    obtain s2 where "write_fields call (k_name ks SchedState) fvs 0 (after call (DEL [k_name ks SchedState]) s1) =
          (Inr (0 + int (length fvs)), s2)" "typed ks (view s2)"
        "qabs ks (view s2) = (qabs ks (view s1))\<lparr>q_sched := map_of (rev fvs)\<rparr>"
      using write_fields_run [OF clear_sched(2) [OF s1(2)], of fvs 0] by (auto simp: clear_sched(3) [OF s1(2)])
    then show ?thesis using False s1 d by (simp add: save_state_script_def lbind_case lthen_case q_save_def)
  qed
qed

lemma reset_run:
  assumes t: "typed ks (view s)"
  shows "typed ks (view (after call (DEL (all_keys ks)) s)) \<and>
    qabs ks (view (after call (DEL (all_keys ks)) s)) = q_reset (qabs ks (view s))"
proof -
  have v: "view (after call (DEL (all_keys ks)) s) (k_name ks f) =
      (if f = LeaderEpoch \<or> f = Fence then view s (k_name ks f) else None)" for f
    by (simp add: run_DEL all_keys_spec [OF names])
  show ?thesis
    using typedD [OF t] unfolding typed_def qabs_def q_reset_def nums_def comp_def is_defs
    by (simp add: v is_defs nums_def)
qed

end

end
