(* ===== verification/Broker.thy ===== *)
theory Broker
  imports QueueStore Queue
begin

text \<open>
  The broker (\<open>internal/broker/broker.go\<close>): the Go operations over the scripts and commands.

  The network is part of the state: \<open>n_faults\<close> is the fate of each request in order, the empty list
  meaning no fault. The Redis client resends a request whose reply was lost, so a request may
  run any number of times; then its reply arrives (\<open>Answered n\<close>, after \<open>n\<close> runs whose reply was
  lost) or the client gives up (\<open>Unanswered n\<close>, after \<open>n\<close> runs).
\<close>

section \<open>Requests\<close>

datatype delivery = Answered nat | Unanswered nat

record 's net =
  n_faults :: "delivery list"
  n_db :: 's

datatype rerr = NoReply | ErrorReply string

primrec resend :: "nat \<Rightarrow> ('s, 'a) lua \<Rightarrow> 's \<Rightarrow> 's" where
  "resend 0 m s = s"
| "resend (Suc n) m s = resend n m (snd (m s))"

definition next_fault :: "delivery list \<Rightarrow> delivery \<times> delivery list" where
  "next_fault ds = (case ds of [] \<Rightarrow> (Answered 0, []) | d # ds' \<Rightarrow> (d, ds'))"

type_synonym ('s, 'e, 'a) go = "'s net \<Rightarrow> ('e + 'a) \<times> 's net"

definition send :: "('s, 'a) lua \<Rightarrow> ('s, rerr, 'a) go" where
  "send m w =
     (case next_fault (n_faults w) of
        (Answered n, ds) \<Rightarrow>
          (case m (resend n m (n_db w)) of
             (Inl e, s') \<Rightarrow> (Inl (ErrorReply e), \<lparr>n_faults = ds, n_db = s'\<rparr>)
           | (Inr a, s') \<Rightarrow> (Inr a, \<lparr>n_faults = ds, n_db = s'\<rparr>))
      | (Unanswered n, ds) \<Rightarrow> (Inl NoReply, \<lparr>n_faults = ds, n_db = resend n m (n_db w)\<rparr>))"

text \<open>
  A pipeline sends every command, whatever happened to the one before, and reports the first error.
\<close>

fun pipeline :: "('s, 'a) lua list \<Rightarrow> ('s, rerr, 'a list) go" where
  "pipeline [] w = (Inr [], w)"
| "pipeline (m # ms) w =
     (case send m w of
        (Inl e, w1) \<Rightarrow> (Inl e, snd (pipeline ms w1))
      | (Inr a, w1) \<Rightarrow>
          (case pipeline ms w1 of
             (Inl e, w2) \<Rightarrow> (Inl e, w2)
           | (Inr as, w2) \<Rightarrow> (Inr (a # as), w2)))"

text \<open>Errors as the Go code wraps them; the label is the text before the colon.\<close>

datatype berr =
    ErrFenced
  | ErrRedis string rerr
  | ErrJson string json_error
  | ErrNumber string rtext
  | ErrText string

fun contains :: "string \<Rightarrow> string \<Rightarrow> bool" where
  "contains [] p = (p = [])"
| "contains (x # xs) p = (has_prefix (x # xs) p \<or> contains xs p)"

definition fenced_err :: "rerr \<Rightarrow> bool" where
  "fenced_err e = (case e of ErrorReply m \<Rightarrow> contains m ''TQFENCED'' | NoReply \<Rightarrow> False)"

definition is_busy_group :: "rerr \<Rightarrow> bool" where
  "is_busy_group e = (case e of ErrorReply m \<Rightarrow> contains m ''BUSYGROUP'' | NoReply \<Rightarrow> False)"

section \<open>The broker\<close>

record broker =
  b_keys :: keys
  b_max_len :: int

definition new_broker :: "streams_cfg \<Rightarrow> broker" where
  "new_broker st = \<lparr>b_keys = new_keys st, b_max_len = s_max_len st\<rparr>"

definition key :: "broker \<Rightarrow> key_field \<Rightarrow> rkey" where
  "key b f = k_name (b_keys b) f"

definition ping :: "(cmd \<Rightarrow> 's \<Rightarrow> reply \<times> 's) \<Rightarrow> ('s, berr, unit) go" where
  "ping call w =
     (case send (rcall call PING) w of (Inl e, w') \<Rightarrow> (Inl (ErrRedis ''redis not reachable'' e), w') | (Inr _, w') \<Rightarrow> (Inr (), w'))"

text \<open>
  \<open>WaitReady\<close>: \<open>clock\<close> is the sequence of readings of \<open>time.Now\<close> after each failed ping, \<open>cancelled\<close> whether
  the context ends before or during the n-th wait. The result is also the list of waits.
\<close>

definition max_backoff :: duration where
  "max_backoff = 3 * second"

definition next_backoff :: "duration \<Rightarrow> duration" where
  "next_backoff d = (if d < max_backoff then min (d * 2) max_backoff else d)"

datatype wait_end = Reachable | Interrupted | TimedOut rerr | OutOfFuel

fun wait_loop ::
  "(cmd \<Rightarrow> 's \<Rightarrow> reply \<times> 's) \<Rightarrow> nat \<Rightarrow> time \<Rightarrow> (nat \<Rightarrow> time) \<Rightarrow> (nat \<Rightarrow> bool) \<Rightarrow> (nat \<Rightarrow> bool) \<Rightarrow>
   nat \<Rightarrow> duration \<Rightarrow> 's net \<Rightarrow> wait_end \<times> duration list \<times> 's net" where
  "wait_loop call 0 deadline clock ended ended_waiting attempt backoff w = (OutOfFuel, [], w)"
| "wait_loop call (Suc fuel) deadline clock ended ended_waiting attempt backoff w =
     (case send (rcall call PING) w of
        (Inr _, w') \<Rightarrow> (Reachable, [], w')
      | (Inl e, w') \<Rightarrow>
          if ended attempt then (Interrupted, [], w')
          else if deadline < clock attempt then (TimedOut e, [], w')
          else if ended_waiting attempt then (Interrupted, [backoff], w')
          else
            (case wait_loop call fuel deadline clock ended ended_waiting (Suc attempt) (next_backoff backoff) w' of
               (r, ds, w'') \<Rightarrow> (r, backoff # ds, w'')))"

definition wait_ready ::
  "(cmd \<Rightarrow> 's \<Rightarrow> reply \<times> 's) \<Rightarrow> nat \<Rightarrow> duration \<Rightarrow> time \<Rightarrow> (nat \<Rightarrow> time) \<Rightarrow> (nat \<Rightarrow> bool) \<Rightarrow> (nat \<Rightarrow> bool) \<Rightarrow>
   's net \<Rightarrow> wait_end \<times> duration list \<times> 's net" where
  "wait_ready call fuel timeout start clock ended ended_waiting w =
     (if timeout \<le> 0 then
        (case send (rcall call PING) w of (Inr _, w') \<Rightarrow> (Reachable, [], w') | (Inl e, w') \<Rightarrow> (TimedOut e, [], w'))
      else wait_loop call fuel (start + timeout) clock ended ended_waiting 1 (100 * millisecond) w)"

fun ensure_groups :: "(cmd \<Rightarrow> 's \<Rightarrow> reply \<times> 's) \<Rightarrow> (rkey \<times> string) list \<Rightarrow> ('s, berr, unit) go" where
  "ensure_groups call [] w = (Inr (), w)"
| "ensure_groups call ((stream, name) # gs) w =
     (case send (rcall call (XGROUP_CREATE stream name)) w of
        (Inl e, w') \<Rightarrow>
          if is_busy_group e then ensure_groups call gs w' else (Inl (ErrRedis ''create consumer group'' e), w')
      | (Inr _, w') \<Rightarrow> ensure_groups call gs w')"

definition ensure_streams :: "(cmd \<Rightarrow> 's \<Rightarrow> reply \<times> 's) \<Rightarrow> broker \<Rightarrow> ('s, berr, unit) go" where
  "ensure_streams call b =
     ensure_groups call [(key b Ingress, k_sched_group (b_keys b)), (key b Exec, k_worker_group (b_keys b))]"

definition reset_ns :: "(cmd \<Rightarrow> 's \<Rightarrow> reply \<times> 's) \<Rightarrow> broker \<Rightarrow> ('s, berr, unit) go" where
  "reset_ns call b w =
     (case send (rcall call (DEL (all_keys (b_keys b)))) w of
        (Inl e, w') \<Rightarrow> (Inl (ErrRedis ''reset namespace'' e), w')
      | (Inr _, w') \<Rightarrow> (Inr (), w'))"

section \<open>Submission\<close>

definition submit_cmd :: "broker \<Rightarrow> rtext \<Rightarrow> cmd" where
  "submit_cmd b payload = XADD (key b Ingress) (if 0 < b_max_len b then Some (b_max_len b) else None) [(''task'', payload)]"

definition submit :: "(cmd \<Rightarrow> 's \<Rightarrow> reply \<times> 's) \<Rightarrow> broker \<Rightarrow> task \<Rightarrow> ('s, berr, unit) go" where
  "submit call b t w =
     (case marshal_task t of
        Inl e \<Rightarrow> (Inl (ErrJson ''marshal task'' e), w)
      | Inr payload \<Rightarrow>
          (case send (rcall call (submit_cmd b payload)) w of
             (Inl e, w') \<Rightarrow> (Inl (ErrRedis ''submit task'' e), w')
           | (Inr _, w') \<Rightarrow> (Inr (), w')))"

fun marshal_all :: "task list \<Rightarrow> json_error + rtext list" where
  "marshal_all [] = Inr []"
| "marshal_all (t # ts) =
     (case marshal_task t of
        Inl e \<Rightarrow> Inl e
      | Inr p \<Rightarrow> (case marshal_all ts of Inl e \<Rightarrow> Inl e | Inr ps \<Rightarrow> Inr (p # ps)))"

definition submit_batch :: "(cmd \<Rightarrow> 's \<Rightarrow> reply \<times> 's) \<Rightarrow> broker \<Rightarrow> task list \<Rightarrow> ('s, berr, unit) go" where
  "submit_batch call b ts w =
     (if ts = [] then (Inr (), w)
      else case marshal_all ts of
        Inl e \<Rightarrow> (Inl (ErrJson ''marshal task'' e), w)
      | Inr payloads \<Rightarrow>
          (case pipeline (map (\<lambda>p. rcall call (submit_cmd b p)) payloads) w of
             (Inl e, w') \<Rightarrow> (Inl (ErrRedis ''submit batch'' e), w')
           | (Inr _, w') \<Rightarrow> (Inr (), w')))"

section \<open>Ingress\<close>

record ingress_message =
  i_id :: sid
  i_task :: task

text \<open>\<open>msg.Values\<close> is a map built from the field list in order; a missing or non-string value reads as the empty text.\<close>

definition field :: "stream_entry \<Rightarrow> string \<Rightarrow> rtext option" where
  "field e f = map_of (rev (se_fields e)) f"

definition raw_field :: "stream_entry \<Rightarrow> string \<Rightarrow> rtext" where
  "raw_field e f = (case field e f of Some t \<Rightarrow> t | None \<Rightarrow> TStr [])"

definition ack_ingress :: "(cmd \<Rightarrow> 's \<Rightarrow> reply \<times> 's) \<Rightarrow> broker \<Rightarrow> sid list \<Rightarrow> ('s, berr, unit) go" where
  "ack_ingress call b ids w =
     (if ids = [] then (Inr (), w)
      else case send (rcall call (XACK (key b Ingress) (k_sched_group (b_keys b)) ids)) w of
        (Inl e, w') \<Rightarrow> (Inl (ErrRedis ''ack ingress'' e), w')
      | (Inr _, w') \<Rightarrow> (Inr (), w'))"

text \<open>The result is the messages parsed and, as in Go, an error beside them.\<close>

fun parse_ingress ::
  "(cmd \<Rightarrow> 's \<Rightarrow> reply \<times> 's) \<Rightarrow> broker \<Rightarrow> stream_entry list \<Rightarrow> ingress_message list \<Rightarrow> 's net \<Rightarrow>
   (ingress_message list \<times> berr option) \<times> 's net" where
  "parse_ingress call b [] out w = ((out, None), w)"
| "parse_ingress call b (e # es) out w =
     (case unmarshal_task (raw_field e ''task'') of
        Inl err \<Rightarrow> ((out, Some (ErrJson ''ingress entry'' err)), snd (ack_ingress call b [se_id e] w))
      | Inr t \<Rightarrow> parse_ingress call b es (out @ [\<lparr>i_id = se_id e, i_task = t\<rparr>]) w)"

definition read_ingress ::
  "(cmd \<Rightarrow> 's \<Rightarrow> reply \<times> 's) \<Rightarrow> broker \<Rightarrow> string \<Rightarrow> int \<Rightarrow> 's net \<Rightarrow> (ingress_message list \<times> berr option) \<times> 's net" where
  "read_ingress call b consumer cnt w =
     (case send (rcall call (XREADGROUP (key b Ingress) (k_sched_group (b_keys b)) consumer cnt)) w of
        (Inl e, w') \<Rightarrow> (([], Some (ErrRedis ''read ingress'' e)), w')
      | (Inr (REntries es), w') \<Rightarrow> parse_ingress call b es [] w'
      | (Inr _, w') \<Rightarrow> (([], None), w'))"

section \<open>Admission and dispatch\<close>

definition admit :: "(cmd \<Rightarrow> 's \<Rightarrow> reply \<times> 's) \<Rightarrow> broker \<Rightarrow> task \<Rightarrow> key \<Rightarrow> int \<Rightarrow> ('s, berr, bool) go" where
  "admit call b t k epoch w =
     (case marshal_task t of
        Inl e \<Rightarrow> (Inl (ErrJson ''marshal task'' e), w)
      | Inr payload \<Rightarrow>
          (case send (admit_script call (key b Payloads) (key b Pending) (key b PendingAge) (key b Done) (key b Stats) (key b Fence)
              (t_id t) (k_member k) (TFlt (k_score k)) (TNum (submitted_ms t)) payload (TNum epoch)) w of
             (Inl e, w') \<Rightarrow> (Inl (if fenced_err e then ErrFenced else ErrRedis ''admit task'' e), w')
           | (Inr res, w') \<Rightarrow> (Inr (res = 1), w')))"

type_synonym dispatched = "key \<times> task"

fun parse_dispatched :: "triple list \<Rightarrow> berr + dispatched list" where
  "parse_dispatched [] = Inr []"
| "parse_dispatched ((member, score, payload) # ts) =
     (case unmarshal_task payload of
        Inl e \<Rightarrow> Inl (ErrJson ''dispatch'' e)
      | Inr t \<Rightarrow>
          (case parse_dispatched ts of
             Inl e \<Rightarrow> Inl e
           | Inr ds \<Rightarrow> Inr ((\<lparr>k_score = score, k_member = member\<rparr>, t) # ds)))"

definition dispatch ::
  "(cmd \<Rightarrow> 's \<Rightarrow> reply \<times> 's) \<Rightarrow> broker \<Rightarrow> int \<Rightarrow> int \<Rightarrow> time \<Rightarrow> int \<Rightarrow> ('s, berr, dispatched list) go" where
  "dispatch call b max_count max_in_flight now epoch w =
     (case send (dispatch_script call (key b Pending) (key b PendingAge) (key b Payloads) (key b Exec) (key b Stats)
         (key b InFlight) (key b Fence) max_count max_in_flight (TNum (unix_milli now)) (b_max_len b) (TNum epoch)) w of
        (Inl e, w') \<Rightarrow> (Inl (if fenced_err e then ErrFenced else ErrRedis ''dispatch'' e), w')
      | (Inr raw, w') \<Rightarrow> (parse_dispatched raw, w'))"

section \<open>Execution\<close>

record exec_message =
  x_id :: sid
  x_task :: task
  x_dispatched :: time
  x_epoch :: int

text \<open>\<open>strconv.ParseInt\<close> on a stored text.\<close>

definition text_int :: "rtext \<Rightarrow> int option" where
  "text_int t =
     (case t of
        TNum n \<Rightarrow> if in_i64 n then Some n else None
      | TStr s \<Rightarrow> (case go_parse_int s of (v, ok) \<Rightarrow> if ok then Some v else None)
      | _ \<Rightarrow> None)"

definition parse_exec_message :: "stream_entry \<Rightarrow> berr + exec_message" where
  "parse_exec_message e =
     (case unmarshal_task (raw_field e ''task'') of
        Inl err \<Rightarrow> Inl (ErrJson ''exec entry'' err)
      | Inr t \<Rightarrow> Inr
          \<lparr>x_id = se_id e, x_task = t,
           x_dispatched = (case Option.bind (field e ''dispatched_at_ms'') text_int of Some ms \<Rightarrow> from_unix_milli ms | None \<Rightarrow> zero_time),
           x_epoch = (case Option.bind (field e ''epoch'') text_int of Some n \<Rightarrow> n | None \<Rightarrow> 0)\<rparr>)"

fun parse_exec_messages :: "stream_entry list \<Rightarrow> exec_message list \<times> berr option" where
  "parse_exec_messages [] = ([], None)"
| "parse_exec_messages (e # es) =
     (case parse_exec_message e of
        Inl err \<Rightarrow> ([], Some err)
      | Inr m \<Rightarrow> (case parse_exec_messages es of (ms, err) \<Rightarrow> (m # ms, err)))"

definition read_exec ::
  "(cmd \<Rightarrow> 's \<Rightarrow> reply \<times> 's) \<Rightarrow> broker \<Rightarrow> string \<Rightarrow> int \<Rightarrow> 's net \<Rightarrow> (exec_message list \<times> berr option) \<times> 's net" where
  "read_exec call b consumer cnt w =
     (case send (rcall call (XREADGROUP (key b Exec) (k_worker_group (b_keys b)) consumer cnt)) w of
        (Inl e, w') \<Rightarrow> (([], Some (ErrRedis ''read exec stream'' e)), w')
      | (Inr (REntries es), w') \<Rightarrow> (parse_exec_messages es, w')
      | (Inr _, w') \<Rightarrow> (([], None), w'))"

definition complete ::
  "(cmd \<Rightarrow> 's \<Rightarrow> reply \<times> 's) \<Rightarrow> broker \<Rightarrow> result \<Rightarrow> sid option \<Rightarrow> time \<Rightarrow> ('s, berr, bool) go" where
  "complete call b r msg now w =
     (case marshal_result r of
        Inl e \<Rightarrow> (Inl (ErrJson ''marshal result'' e), w)
      | Inr payload \<Rightarrow>
          (let missed = (if missed_deadline r then 1 else 0);
               service = (if r_actual_ms r \<le> 0 then r_exec_ms r else r_actual_ms r) in
           case send (complete_script call (key b Done) (key b Payloads) (key b Results) (key b Stats) (key b TenantService)
               (key b TenantCount) (key b InFlight) (key b Exec) (r_task_id r) payload (r_tenant r) service missed
               (TNum (unix_milli now)) (k_worker_group (b_keys b)) msg (b_max_len b)) w of
             (Inl e, w') \<Rightarrow> (Inl (ErrRedis ''complete task'' e), w')
           | (Inr recorded, w') \<Rightarrow> (Inr (recorded = 1), w')))"

datatype retry_outcome = RetryAlreadyTerminal | RetryRedelivered | RetryDeadLettered

definition retry_outcome_of :: "int \<Rightarrow> retry_outcome" where
  "retry_outcome_of n = (if n = 1 then RetryRedelivered else if n = 2 then RetryDeadLettered else RetryAlreadyTerminal)"

definition next_attempt :: "task \<Rightarrow> int \<Rightarrow> task" where
  "next_attempt t budget =
     (let n = i64 (t_retry t + 1) in
      t\<lparr>t_retry := n, t_max_retries := budget, t_attempt := t_id t @ ''#'' @ show_int n\<rparr>)"

text \<open>The outcome is paired with the task as the next attempt carries it; on an error it is the task given.\<close>

definition retry_or_dead_letter ::
  "(cmd \<Rightarrow> 's \<Rightarrow> reply \<times> 's) \<Rightarrow> broker \<Rightarrow> task \<Rightarrow> int \<Rightarrow> string \<Rightarrow> sid option \<Rightarrow> time \<Rightarrow> time \<Rightarrow> ('s, berr, retry_outcome \<times> task) go" where
  "retry_or_dead_letter call b t budget reason msg failed_at now w =
     (let next = next_attempt t budget;
          is_dead = (if budget < t_retry next then 1 else 0) in
      case marshal_task next of
        Inl e \<Rightarrow> (Inl (ErrJson ''marshal task'' e), w)
      | Inr retry_json \<Rightarrow>
          (case marshal_dead \<lparr>d_task = t, d_reason = reason, d_attempts = i64 (t_retry t + 1), d_last_attempt = t_attempt t,
               d_failed_at = failed_at\<rparr> of
             Inl e \<Rightarrow> (Inl (ErrJson ''marshal dead letter'' e), w)
           | Inr dead_json \<Rightarrow>
               (case send (retry_script call (key b Done) (key b Payloads) (key b Exec) (key b DeadLetter) (key b Stats) (key b InFlight)
                   (t_id t) retry_json dead_json is_dead (TNum (unix_milli now)) (k_worker_group (b_keys b)) msg (b_max_len b)) w of
                  (Inl e, w') \<Rightarrow> (Inl (ErrRedis ''retry task'' e), w')
                | (Inr res, w') \<Rightarrow> (Inr (retry_outcome_of res, next), w'))))"

section \<open>Reclaiming\<close>

fun claim_ingress ::
  "(cmd \<Rightarrow> 's \<Rightarrow> reply \<times> 's) \<Rightarrow> broker \<Rightarrow> stream_entry list \<Rightarrow> 's net \<Rightarrow> ingress_message list \<times> 's net" where
  "claim_ingress call b [] w = ([], w)"
| "claim_ingress call b (e # es) w =
     (case unmarshal_task (raw_field e ''task'') of
        Inl _ \<Rightarrow> claim_ingress call b es (snd (ack_ingress call b [se_id e] w))
      | Inr t \<Rightarrow> (case claim_ingress call b es w of (ms, w') \<Rightarrow> (\<lparr>i_id = se_id e, i_task = t\<rparr> # ms, w')))"

text \<open>The cursor after an error is the one given; after a nil reply it is \<open>0-0\<close>.\<close>

definition auto_claim_ingress ::
  "(cmd \<Rightarrow> 's \<Rightarrow> reply \<times> 's) \<Rightarrow> broker \<Rightarrow> string \<Rightarrow> int \<Rightarrow> sid \<Rightarrow> int \<Rightarrow> 's net \<Rightarrow>
   (ingress_message list \<times> sid \<times> berr option) \<times> 's net" where
  "auto_claim_ingress call b consumer min_idle start cnt w =
     (case send (rcall call (XAUTOCLAIM (key b Ingress) (k_sched_group (b_keys b)) consumer min_idle start cnt)) w of
        (Inl e, w') \<Rightarrow> (([], start, Some (ErrRedis ''autoclaim ingress stream'' e)), w')
      | (Inr (RClaim next es), w') \<Rightarrow> (case claim_ingress call b es w' of (ms, w'') \<Rightarrow> ((ms, next, None), w''))
      | (Inr _, w') \<Rightarrow> (([], (0, 0), None), w'))"

fun claim_exec ::
  "(cmd \<Rightarrow> 's \<Rightarrow> reply \<times> 's) \<Rightarrow> broker \<Rightarrow> stream_entry list \<Rightarrow> 's net \<Rightarrow> exec_message list \<times> 's net" where
  "claim_exec call b [] w = ([], w)"
| "claim_exec call b (e # es) w =
     (case parse_exec_message e of
        Inl _ \<Rightarrow> claim_exec call b es (snd (send (rcall call (XACK (key b Exec) (k_worker_group (b_keys b)) [se_id e])) w))
      | Inr m \<Rightarrow> (case claim_exec call b es w of (ms, w') \<Rightarrow> (m # ms, w')))"

definition auto_claim ::
  "(cmd \<Rightarrow> 's \<Rightarrow> reply \<times> 's) \<Rightarrow> broker \<Rightarrow> string \<Rightarrow> int \<Rightarrow> sid \<Rightarrow> int \<Rightarrow> 's net \<Rightarrow>
   (exec_message list \<times> sid \<times> berr option) \<times> 's net" where
  "auto_claim call b consumer min_idle start cnt w =
     (case send (rcall call (XAUTOCLAIM (key b Exec) (k_worker_group (b_keys b)) consumer min_idle start cnt)) w of
        (Inl e, w') \<Rightarrow> (([], start, Some (ErrRedis ''autoclaim exec stream'' e)), w')
      | (Inr (RClaim next es), w') \<Rightarrow> (case claim_exec call b es w' of (ms, w'') \<Rightarrow> ((ms, next, None), w''))
      | (Inr _, w') \<Rightarrow> (([], (0, 0), None), w'))"

end
