(* ===== verification/BrokerQueries.thy ===== *)
theory BrokerQueries
  imports Broker
begin

text \<open>
  The broker's reads, saved policy state, leadership report and the pre-check of known tasks (the second half of
  \<open>internal/broker/broker.go\<close>).
\<close>

definition as_int :: "reply \<Rightarrow> int option" where
  "as_int r = (case r of RInt n \<Rightarrow> Some n | RText t \<Rightarrow> text_int t | _ \<Rightarrow> None)"

text \<open>One request whose reply is an integer.\<close>

definition int_query :: "string \<Rightarrow> (cmd \<Rightarrow> 's \<Rightarrow> reply \<times> 's) \<Rightarrow> cmd \<Rightarrow> ('s, berr, int) go" where
  "int_query what call c w =
     (case send (rcall call c) w of
        (Inl e, w') \<Rightarrow> (Inl (ErrRedis what e), w')
      | (Inr r, w') \<Rightarrow> (case as_int r of Some n \<Rightarrow> (Inr n, w') | None \<Rightarrow> (Inl (ErrText what), w')))"

definition pending_count :: "(cmd \<Rightarrow> 's \<Rightarrow> reply \<times> 's) \<Rightarrow> broker \<Rightarrow> ('s, berr, int) go" where
  "pending_count call b = int_query ''pending count'' call (ZCARD (key b Pending))"

text \<open>\<open>int64(f)\<close>: towards zero; out of range the amd64 instruction gives the least integer.\<close>

definition f64_to_i64 :: "f64 \<Rightarrow> int" where
  "f64_to_i64 x =
     (case x of
        Fin q \<Rightarrow> (let n = (if q < 0 then \<lceil>q\<rceil> else \<lfloor>q\<rfloor>) in if in_i64 n then n else - (2 ^ 63))
      | _ \<Rightarrow> - (2 ^ 63))"

definition oldest_pending_submit :: "(cmd \<Rightarrow> 's \<Rightarrow> reply \<times> 's) \<Rightarrow> broker \<Rightarrow> ('s, berr, time option) go" where
  "oldest_pending_submit call b w =
     (case send (rcall call (ZFIRST (key b PendingAge))) w of
        (Inl e, w') \<Rightarrow> (Inl (ErrRedis ''oldest pending'' e), w')
      | (Inr (RScored ((_, score) # _)), w') \<Rightarrow> (Inr (Some (from_unix_milli (f64_to_i64 score))), w')
      | (Inr _, w') \<Rightarrow> (Inr None, w'))"

definition in_flight :: "(cmd \<Rightarrow> 's \<Rightarrow> reply \<times> 's) \<Rightarrow> broker \<Rightarrow> ('s, berr, int) go" where
  "in_flight call b w =
     (case send (rcall call (GET (key b InFlight))) w of
        (Inl e, w') \<Rightarrow> (Inl (ErrRedis ''in-flight count'' e), w')
      | (Inr RNil, w') \<Rightarrow> (Inr 0, w')
      | (Inr r, w') \<Rightarrow> (case as_int r of Some n \<Rightarrow> (Inr n, w') | None \<Rightarrow> (Inl (ErrText ''in-flight count''), w')))"

fun parse_counts :: "string \<Rightarrow> (string \<times> rtext) list \<Rightarrow> berr + int go_map" where
  "parse_counts what [] = Inr []"
| "parse_counts what ((k, v) # kvs) =
     (case text_int v of
        None \<Rightarrow> Inl (ErrNumber what v)
      | Some n \<Rightarrow> (case parse_counts what kvs of Inl e \<Rightarrow> Inl e | Inr m \<Rightarrow> Inr ((k, n) # m)))"

definition get_all :: "string \<Rightarrow> (cmd \<Rightarrow> 's \<Rightarrow> reply \<times> 's) \<Rightarrow> rkey \<Rightarrow> ('s, berr, (string \<times> rtext) list) go" where
  "get_all what call k w =
     (case send (rcall call (HGETALL k)) w of
        (Inl e, w') \<Rightarrow> (Inl (ErrRedis what e), w')
      | (Inr (RFields kvs), w') \<Rightarrow> (Inr kvs, w')
      | (Inr _, w') \<Rightarrow> (Inl (ErrText what), w'))"

definition stats :: "(cmd \<Rightarrow> 's \<Rightarrow> reply \<times> 's) \<Rightarrow> broker \<Rightarrow> ('s, berr, int go_map) go" where
  "stats call b w =
     (case get_all ''stats'' call (key b Stats) w of
        (Inl e, w') \<Rightarrow> (Inl e, w')
      | (Inr raw, w') \<Rightarrow> (parse_counts ''stats field'' raw, w'))"

definition tenant_service :: "(cmd \<Rightarrow> 's \<Rightarrow> reply \<times> 's) \<Rightarrow> broker \<Rightarrow> ('s, berr, int go_map \<times> int go_map) go" where
  "tenant_service call b w =
     (case get_all ''tenant service'' call (key b TenantService) w of
        (Inl e, w1) \<Rightarrow> (Inl e, w1)
      | (Inr svc_raw, w1) \<Rightarrow>
          (case get_all ''tenant count'' call (key b TenantCount) w1 of
             (Inl e, w2) \<Rightarrow> (Inl e, w2)
           | (Inr cnt_raw, w2) \<Rightarrow>
               (case parse_counts ''tenant'' svc_raw of
                  Inl e \<Rightarrow> (Inl e, w2)
                | Inr service \<Rightarrow>
                    (case parse_counts ''tenant'' cnt_raw of
                       Inl e \<Rightarrow> (Inl e, w2)
                     | Inr counts \<Rightarrow> (Inr (service, counts), w2)))))"

text \<open>\<open>strings.LastIndex(val, "|")\<close>: the part before and the part after the last bar.\<close>

fun split_last :: "char \<Rightarrow> string \<Rightarrow> (string \<times> string) option" where
  "split_last c [] = None"
| "split_last c (x # xs) =
     (case split_last c xs of
        Some (p, q) \<Rightarrow> Some (x # p, q)
      | None \<Rightarrow> if x = c then Some ([], xs) else None)"

lemma split_last_append [simp]: "c \<notin> set q \<Longrightarrow> split_last c (p @ c # q) = Some (p, q)"
proof (induction p)
  case Nil
  have "split_last c q = None" if "c \<notin> set q" for q
    using that by (induction q) auto
  then show ?case using Nil by simp
qed simp

record leadership_report =
  l_owner :: string
  l_epoch :: int
  l_ttl_ms :: int

definition holder_of :: "string \<Rightarrow> string \<times> int" where
  "holder_of val = (case split_last (CHR ''|'') val of Some (p, q) \<Rightarrow> (p, fst (go_parse_int q)) | None \<Rightarrow> (val, 0))"

definition leadership :: "(cmd \<Rightarrow> 's \<Rightarrow> reply \<times> 's) \<Rightarrow> broker \<Rightarrow> ('s, berr, leadership_report option) go" where
  "leadership call b w =
     (case send (rcall call (GET (key b Leader))) w of
        (Inl e, w1) \<Rightarrow> (Inl (ErrRedis ''read scheduler lease'' e), w1)
      | (Inr (RText (TStr val)), w1) \<Rightarrow>
          (case send (rcall call (PTTL (key b Leader))) w1 of
             (Inr (RInt d), w2) \<Rightarrow>
               (Inr (Some \<lparr>l_owner = fst (holder_of val), l_epoch = snd (holder_of val), l_ttl_ms = max 0 d\<rparr>), w2)
           | (_, w2) \<Rightarrow> (Inr (Some \<lparr>l_owner = fst (holder_of val), l_epoch = snd (holder_of val), l_ttl_ms = 0\<rparr>), w2))
      | (Inr _, w1) \<Rightarrow> (Inr None, w1))"

section \<open>Policy state\<close>

text \<open>A Go map is written in some iteration order: the order of the association list.\<close>

definition save_scheduler_state :: "(cmd \<Rightarrow> 's \<Rightarrow> reply \<times> 's) \<Rightarrow> broker \<Rightarrow> rtext go_map \<Rightarrow> int \<Rightarrow> ('s, berr, unit) go" where
  "save_scheduler_state call b state epoch w =
     (if state = [] then (Inr (), w)
      else case send (save_state_script call (key b SchedState) (key b Fence) (TNum epoch) state) w of
        (Inl e, w') \<Rightarrow> (Inl (if fenced_err e then ErrFenced else ErrRedis ''save scheduler state'' e), w')
      | (Inr _, w') \<Rightarrow> (Inr (), w'))"

definition load_scheduler_state :: "(cmd \<Rightarrow> 's \<Rightarrow> reply \<times> 's) \<Rightarrow> broker \<Rightarrow> ('s, berr, rtext go_map) go" where
  "load_scheduler_state call b = get_all ''load scheduler state'' call (key b SchedState)"

section \<open>Reading the streams\<close>

text \<open>\<open>None\<close> is the empty id or \<open>0\<close>.\<close>

definition exclusive :: "sid option \<Rightarrow> bound" where
  "exclusive i = (case i of None \<Rightarrow> BMin | Some j \<Rightarrow> if j = (0, 0) then BMin else BAfter j)"

definition range_query :: "string \<Rightarrow> (cmd \<Rightarrow> 's \<Rightarrow> reply \<times> 's) \<Rightarrow> rkey \<Rightarrow> bound \<Rightarrow> int \<Rightarrow> ('s, berr, stream_entry list) go" where
  "range_query what call k from n w =
     (case send (rcall call (XRANGE k from n)) w of
        (Inl e, w') \<Rightarrow> (Inl (ErrRedis what e), w')
      | (Inr (REntries es), w') \<Rightarrow> (Inr es, w')
      | (Inr _, w') \<Rightarrow> (Inl (ErrText what), w'))"

text \<open>The records up to the first that does not parse, with the cursor after them.\<close>

fun parse_results :: "stream_entry list \<Rightarrow> sid option \<Rightarrow> result list \<times> sid option \<times> berr option" where
  "parse_results [] cursor = ([], cursor, None)"
| "parse_results (e # es) cursor =
     (case unmarshal_result (raw_field e ''result'') of
        Inl err \<Rightarrow> ([], cursor, Some (ErrJson ''result entry'' err))
      | Inr r \<Rightarrow> (case parse_results es (Some (se_id e)) of (rs, cur) \<Rightarrow> (r # rs, cur)))"

definition read_results ::
  "(cmd \<Rightarrow> 's \<Rightarrow> reply \<times> 's) \<Rightarrow> broker \<Rightarrow> sid option \<Rightarrow> int \<Rightarrow> 's net \<Rightarrow> (result list \<times> sid option \<times> berr option) \<times> 's net" where
  "read_results call b start n w =
     (case range_query ''read results'' call (key b Results) (exclusive start) n w of
        (Inl e, w') \<Rightarrow> (([], start, Some e), w')
      | (Inr es, w') \<Rightarrow> (parse_results es start, w'))"

fun parse_dead :: "stream_entry list \<Rightarrow> dead_letter list \<times> berr option" where
  "parse_dead [] = ([], None)"
| "parse_dead (e # es) =
     (case unmarshal_dead (raw_field e ''record'') of
        Inl err \<Rightarrow> ([], Some (ErrJson ''dead letter entry'' err))
      | Inr d \<Rightarrow> (case parse_dead es of (ds, err) \<Rightarrow> (d # ds, err)))"

definition read_dead_letters ::
  "(cmd \<Rightarrow> 's \<Rightarrow> reply \<times> 's) \<Rightarrow> broker \<Rightarrow> int \<Rightarrow> 's net \<Rightarrow> (dead_letter list \<times> berr option) \<times> 's net" where
  "read_dead_letters call b n w =
     (case range_query ''read dead letters'' call (key b DeadLetter) BMin n w of
        (Inl e, w') \<Rightarrow> (([], Some e), w')
      | (Inr es, w') \<Rightarrow> (parse_dead es, w'))"

text \<open>A start id is the millisecond and sequence 0; before the epoch it is no valid id and Redis refuses it.\<close>

definition since_bound :: "time \<Rightarrow> bound option" where
  "since_bound t = (if 0 \<le> unix_milli t then Some (BFrom (nat (unix_milli t), 0)) else None)"

definition since_query :: "string \<Rightarrow> (cmd \<Rightarrow> 's \<Rightarrow> reply \<times> 's) \<Rightarrow> rkey \<Rightarrow> time \<Rightarrow> int \<Rightarrow> ('s, berr, stream_entry list) go" where
  "since_query what call k since n w =
     (case since_bound since of
        Some from \<Rightarrow> range_query what call k from n w
      | None \<Rightarrow> (Inl (ErrRedis what (ErrorReply ''ERR Invalid stream ID specified as stream command argument'')), w))"

definition dispatches_since ::
  "(cmd \<Rightarrow> 's \<Rightarrow> reply \<times> 's) \<Rightarrow> broker \<Rightarrow> time \<Rightarrow> int \<Rightarrow> 's net \<Rightarrow> (exec_message list \<times> berr option) \<times> 's net" where
  "dispatches_since call b since n w =
     (case since_query ''read exec stream'' call (key b Exec) since n w of
        (Inl e, w') \<Rightarrow> (([], Some e), w')
      | (Inr es, w') \<Rightarrow> (parse_exec_messages es, w'))"

definition results_since ::
  "(cmd \<Rightarrow> 's \<Rightarrow> reply \<times> 's) \<Rightarrow> broker \<Rightarrow> time \<Rightarrow> int \<Rightarrow> 's net \<Rightarrow> (result list \<times> berr option) \<times> 's net" where
  "results_since call b since n w =
     (case since_query ''read results'' call (key b Results) since n w of
        (Inl e, w') \<Rightarrow> (([], Some e), w')
      | (Inr es, w') \<Rightarrow> ((case parse_results es None of (rs, _, err) \<Rightarrow> (rs, err)), w'))"

definition ingress_backlog :: "(cmd \<Rightarrow> 's \<Rightarrow> reply \<times> 's) \<Rightarrow> broker \<Rightarrow> int \<Rightarrow> ('s, berr, int \<times> int \<times> bool) go" where
  "ingress_backlog call b limit w =
     (case send (rcall call (XINFO_GROUPS (key b Ingress))) w of
        (Inl e, w1) \<Rightarrow> (Inl (ErrRedis ''ingress groups'' e), w1)
      | (Inr (RGroups gs), w1) \<Rightarrow>
          (case map_of gs (k_sched_group (b_keys b)) of
             None \<Rightarrow> (Inl (ErrText ''ingress has no group''), w1)
           | Some (lastid, pending) \<Rightarrow>
               (case range_query ''ingress backlog'' call (key b Ingress) (if lastid = (0, 0) then BMin else BAfter lastid) limit w1 of
                  (Inl e, w2) \<Rightarrow> (Inl e, w2)
                | (Inr es, w2) \<Rightarrow> (Inr (int (length es), int pending, limit \<le> int (length es)), w2)))
      | (Inr _, w1) \<Rightarrow> (Inl (ErrText ''ingress groups''), w1))"

definition dead_letter_count :: "(cmd \<Rightarrow> 's \<Rightarrow> reply \<times> 's) \<Rightarrow> broker \<Rightarrow> ('s, berr, int) go" where
  "dead_letter_count call b = int_query ''dead letter length'' call (XLEN (key b DeadLetter))"

definition result_count :: "(cmd \<Rightarrow> 's \<Rightarrow> reply \<times> 's) \<Rightarrow> broker \<Rightarrow> ('s, berr, int) go" where
  "result_count call b = int_query ''results length'' call (XLEN (key b Results))"

definition exec_pending :: "(cmd \<Rightarrow> 's \<Rightarrow> reply \<times> 's) \<Rightarrow> broker \<Rightarrow> ('s, berr, int) go" where
  "exec_pending call b w =
     (case send (rcall call (XPENDING (key b Exec) (k_worker_group (b_keys b)))) w of
        (Inl e, w') \<Rightarrow> (Inl (ErrRedis ''exec pending'' e), w')
      | (Inr RNil, w') \<Rightarrow> (Inr 0, w')
      | (Inr r, w') \<Rightarrow> (case as_int r of Some n \<Rightarrow> (Inr n, w') | None \<Rightarrow> (Inl (ErrText ''exec pending''), w')))"

section \<open>Known tasks\<close>

text \<open>The map of ids to \<open>true\<close> is the list of ids that have it.\<close>

fun mark_known :: "string list \<Rightarrow> rtext option list \<Rightarrow> rtext option list \<Rightarrow> string list" where
  "mark_known [] ps ds = []"
| "mark_known (i # is) ps ds =
     (let p = (case ps of x # _ \<Rightarrow> x \<noteq> None | [] \<Rightarrow> False);
          d = (case ds of x # _ \<Rightarrow> x \<noteq> None | [] \<Rightarrow> False);
          rest = mark_known is (drop 1 ps) (drop 1 ds) in
      if p \<or> d then i # rest else rest)"

definition known :: "(cmd \<Rightarrow> 's \<Rightarrow> reply \<times> 's) \<Rightarrow> broker \<Rightarrow> string list \<Rightarrow> ('s, berr, string list) go" where
  "known call b ids w =
     (if ids = [] then (Inr [], w)
      else case pipeline [rcall call (HMGET (key b Payloads) ids), rcall call (HMGET (key b Done) ids)] w of
        (Inl e, w') \<Rightarrow> (Inl (ErrRedis ''known lookup'' e), w')
      | (Inr [RTexts ps, RTexts ds], w') \<Rightarrow> (Inr (mark_known ids ps ds), w')
      | (Inr _, w') \<Rightarrow> (Inl (ErrText ''known lookup''), w'))"

end
