(* ===== verification/Workload.thy ===== *)
theory Workload
  imports BrokerQueries Config
begin

text \<open>
  The synthetic workloads (\<open>internal/workload\<close>): the plan generated from a seed, its offered load, and the producer that replays
  it. The random source is the sequence of values \<open>math/rand\<close> gives for a seed, an argument of the definitions; so are
  \<open>math.Log\<close> and \<open>math.Pow\<close>.
\<close>

section \<open>The random source\<close>

text \<open>\<open>r_float r i\<close> and \<open>r_int r i n\<close> are what the \<open>i\<close>-th draw gives as \<open>Float64\<close> and as \<open>Int63n(n)\<close>.\<close>

record rng =
  r_float :: "nat \<Rightarrow> f64"
  r_int :: "nat \<Rightarrow> int \<Rightarrow> int"
  r_pos :: nat

definition float64 :: "rng \<Rightarrow> f64 \<times> rng" where
  "float64 r = (r_float r (r_pos r), r\<lparr>r_pos := Suc (r_pos r)\<rparr>)"

definition int63n :: "int \<Rightarrow> rng \<Rightarrow> int \<times> rng" where
  "int63n n r = (r_int r (r_pos r) n, r\<lparr>r_pos := Suc (r_pos r)\<rparr>)"

record mathlib =
  mf_log :: "f64 \<Rightarrow> f64"
  mf_pow :: "f64 \<Rightarrow> f64 \<Rightarrow> f64"

text \<open>\<open>math.Round\<close>: to the nearest integer, halves away from zero.\<close>

definition f64_round_int :: "f64 \<Rightarrow> f64" where
  "f64_round_int x =
     (case x of Fin q \<Rightarrow> Fin (of_int (if 0 \<le> q then \<lfloor>q + 1 / 2\<rfloor> else \<lceil>q - 1 / 2\<rceil>)) | _ \<Rightarrow> x)"

definition smallest_nonzero :: f64 where
  "smallest_nonzero = Fin (1 / 2 ^ 1074)"

section \<open>A plan\<close>

record spec =
  sp_id :: string
  sp_tenant :: string
  sp_offset :: duration
  sp_exec_ms :: int
  sp_priority :: int
  sp_slack_ms :: int
  sp_max_retries :: int

definition task_at :: "spec \<Rightarrow> time \<Rightarrow> task" where
  "task_at s submitted =
     \<lparr>t_id = sp_id s, t_tenant = sp_tenant s, t_submitted = submitted, t_exec_ms = sp_exec_ms s, t_priority = sp_priority s,
      t_deadline = submitted + i64 (sp_slack_ms s * millisecond), t_retry = 0, t_max_retries = sp_max_retries s,
      t_attempt = sp_id s @ ''#0''\<rparr>"

definition arrival_is_stochastic :: "string \<Rightarrow> bool" where
  "arrival_is_stochastic kind \<longleftrightarrow> kind \<noteq> ''uniform''"

definition in_burst :: "duration \<Rightarrow> burst_spec \<Rightarrow> bool" where
  "in_burst elapsed b = (if bu_period b \<le> 0 then False else go_mod elapsed (bu_period b) < bu_duration b)"

definition not_zero_draw :: "f64 \<Rightarrow> f64" where
  "not_zero_draw u = (if fle u (Fin 0) then smallest_nonzero else u)"

definition exponential :: "mathlib \<Rightarrow> f64 \<Rightarrow> rng \<Rightarrow> duration \<times> rng" where
  "exponential ml rate r =
     (case float64 r of (u, r') \<Rightarrow>
        (f64_to_i64 (fmul (fdiv (fneg (mf_log ml (not_zero_draw u))) rate) (f64_of_int second)), r'))"

definition next_gap :: "mathlib \<Rightarrow> workload_cfg \<Rightarrow> duration \<Rightarrow> rng \<Rightarrow> duration \<times> rng" where
  "next_gap ml w elapsed r =
     (if wl_type w = ''uniform'' then (f64_to_i64 (fdiv (f64_of_int second) (wl_rate w)), r)
      else if wl_type w = ''bursty''
      then exponential ml (if in_burst elapsed (wl_burst w) then bu_rate (wl_burst w) else bu_base (wl_burst w)) r
      else exponential ml (wl_rate w) r)"

definition pareto_millis :: "mathlib \<Rightarrow> heavy_spec \<Rightarrow> rng \<Rightarrow> int \<times> rng" where
  "pareto_millis ml ht r =
     (case float64 r of (u, r') \<Rightarrow>
        let v = fmul (f64_of_int (ht_min ht)) (mf_pow ml (not_zero_draw u) (fdiv (Fin (- 1)) (ht_alpha ht))) in
        (if fgt v (f64_of_int (ht_max ht)) then ht_max ht else f64_to_i64 v, r'))"

definition next_exec_millis :: "mathlib \<Rightarrow> workload_cfg \<Rightarrow> rng \<Rightarrow> int \<times> rng" where
  "next_exec_millis ml w r =
     (if wl_type w = ''heavy_tailed'' then pareto_millis ml (wl_heavy w) r
      else
        let span = i64 (ex_max (wl_exec w) - ex_min (wl_exec w)) in
        if span \<le> 0 then (ex_max (wl_exec w), r)
        else case int63n (i64 (span + 1)) r of (d, r') \<Rightarrow> (i64 (ex_min (wl_exec w) + d), r'))"

definition shares_of :: "tenant_share list \<Rightarrow> f64 list" where
  "shares_of ts = map ts_share ts"

fun cumulate :: "f64 \<Rightarrow> f64 \<Rightarrow> f64 list \<Rightarrow> f64 list" where
  "cumulate tot acc [] = []"
| "cumulate tot acc (x # xs) = fdiv (fadd acc x) tot # cumulate tot (fadd acc x) xs"

definition build_cdf :: "f64 list \<Rightarrow> f64 list" where
  "build_cdf ws = (let cdf = cumulate (sum_f ws) (Fin 0) ws in if cdf = [] then [] else butlast cdf @ [Fin 1])"

fun pick_from :: "f64 \<Rightarrow> int \<Rightarrow> f64 list \<Rightarrow> int option" where
  "pick_from u i [] = None"
| "pick_from u i (c # cs) = (if flt u c then Some i else pick_from u (i + 1) cs)"

definition pick :: "f64 \<Rightarrow> f64 list \<Rightarrow> int" where
  "pick u cdf = (case pick_from u 0 cdf of Some i \<Rightarrow> i | None \<Rightarrow> int (length cdf) - 1)"

datatype plan_error = UnknownType string | BadCount int | NoTenants string | NoWeights

definition validate_plan :: "workload_cfg \<Rightarrow> plan_error option" where
  "validate_plan w =
     (if \<not> valid_workload (wl_type w) then Some (UnknownType (wl_type w))
      else if wl_count w \<le> 0 then Some (BadCount (wl_count w))
      else if active_tenants w = [] then Some (NoTenants (wl_type w))
      else if wl_weights w = [] then Some NoWeights
      else None)"

text \<open>One task: arrival, tenant, duration, priority, deadline jitter, in this order of draws.\<close>

definition next_spec ::
  "mathlib \<Rightarrow> workload_cfg \<Rightarrow> f64 list \<Rightarrow> f64 list \<Rightarrow> int \<Rightarrow> duration \<Rightarrow> rng \<Rightarrow> spec \<times> duration \<times> rng" where
  "next_spec ml w tenant_cdf prio_cdf i elapsed r0 =
     (let (elapsed', r1) =
        (if 0 < i \<or> arrival_is_stochastic (wl_type w)
         then (case next_gap ml w elapsed r0 of (g, r) \<Rightarrow> (i64 (elapsed + g), r)) else (elapsed, r0));
        (ut, r2) = float64 r1;
        tenant = ts_id (active_tenants w ! nat (pick ut tenant_cdf));
        (exec_ms, r3) = next_exec_millis ml w r2;
        (up, r4) = float64 r3;
        priority = pick up prio_cdf;
        (jitter, r5) = (if 0 < dl_jitter (wl_deadline w) then int63n (i64 (dl_jitter (wl_deadline w) + 1)) r4 else (0, r4));
        slack = i64 (i64 (dl_base (wl_deadline w) +
          f64_to_i64 (f64_round_int (fmul (f64_of_int exec_ms) (dl_mult (wl_deadline w))))) + jitter)
      in (\<lparr>sp_id = wl_prefix w @ ''-'' @ show_pad 6 i, sp_tenant = tenant, sp_offset = elapsed', sp_exec_ms = exec_ms,
           sp_priority = priority, sp_slack_ms = slack, sp_max_retries = wl_max_retries w\<rparr>, elapsed', r5))"

fun gen_specs ::
  "mathlib \<Rightarrow> workload_cfg \<Rightarrow> f64 list \<Rightarrow> f64 list \<Rightarrow> nat \<Rightarrow> int \<Rightarrow> duration \<Rightarrow> rng \<Rightarrow> spec list" where
  "gen_specs ml w tcdf pcdf 0 i elapsed r = []"
| "gen_specs ml w tcdf pcdf (Suc n) i elapsed r =
     (case next_spec ml w tcdf pcdf i elapsed r of
        (s, elapsed', r') \<Rightarrow> s # gen_specs ml w tcdf pcdf n (i + 1) elapsed' r')"

definition generate :: "mathlib \<Rightarrow> (int \<Rightarrow> rng) \<Rightarrow> workload_cfg \<Rightarrow> plan_error + spec list" where
  "generate ml source w =
     (case validate_plan w of
        Some e \<Rightarrow> Inl e
      | None \<Rightarrow> Inr (gen_specs ml w (build_cdf (shares_of (active_tenants w))) (build_cdf (wl_weights w)) (nat (wl_count w)) 0 0
          (source (wl_seed w))))"

record plan_summary =
  ps_count :: int
  ps_span :: duration
  ps_total_ms :: int
  ps_mean_ms :: f64
  ps_max_ms :: int
  ps_tenants :: "string \<Rightarrow> int"

definition count_spec :: "plan_summary \<Rightarrow> spec \<Rightarrow> plan_summary" where
  "count_spec s sp =
     s\<lparr>ps_total_ms := i64 (ps_total_ms s + sp_exec_ms sp), ps_max_ms := max (ps_max_ms s) (sp_exec_ms sp),
       ps_span := max (ps_span s) (sp_offset sp),
       ps_tenants := (ps_tenants s)(sp_tenant sp := ps_tenants s (sp_tenant sp) + 1)\<rparr>"

definition summarise_plan :: "spec list \<Rightarrow> plan_summary" where
  "summarise_plan specs =
     (let s = foldl count_spec
        \<lparr>ps_count = int (length specs), ps_span = 0, ps_total_ms = 0, ps_mean_ms = Fin 0, ps_max_ms = 0, ps_tenants = (\<lambda>_. 0)\<rparr> specs in
      if specs = [] then s else s\<lparr>ps_mean_ms := fdiv (f64_of_int (ps_total_ms s)) (f64_of_int (int (length specs)))\<rparr>)"

section \<open>Offered load\<close>

definition mean_arrival_rate :: "workload_cfg \<Rightarrow> f64" where
  "mean_arrival_rate w =
     (if wl_type w \<noteq> ''bursty'' then wl_rate w
      else
        let period = dur_seconds (bu_period (wl_burst w)); burst = dur_seconds (bu_duration (wl_burst w)) in
        if fle period (Fin 0) \<or> flt burst (Fin 0) \<or> fgt burst period then bu_base (wl_burst w)
        else fdiv (fadd (fmul burst (bu_rate (wl_burst w))) (fmul (fsub period burst) (bu_base (wl_burst w)))) period)"

datatype load_error = BadRate f64 | CannotScale f64 | NoCapacity | BadLoad f64

definition with_arrival_rate :: "workload_cfg \<Rightarrow> f64 \<Rightarrow> load_error + workload_cfg" where
  "with_arrival_rate w target =
     (if fle target (Fin 0) then Inl (BadRate target)
      else if wl_type w \<noteq> ''bursty'' then Inr (w\<lparr>wl_rate := target\<rparr>)
      else
        let current = mean_arrival_rate w in
        if fle current (Fin 0) then Inl (CannotScale current)
        else
          let factor = fdiv target current; b = wl_burst w in
          Inr (w\<lparr>wl_burst := b\<lparr>bu_base := fmul (bu_base b) factor, bu_rate := fmul (bu_rate b) factor\<rparr>, wl_rate := target\<rparr>))"

definition capacity :: "f64 \<Rightarrow> int \<Rightarrow> f64" where
  "capacity mean_ms slots =
     (if fle mean_ms (Fin 0) \<or> slots \<le> 0 then Fin 0 else fdiv (f64_of_int slots) (fdiv mean_ms (Fin 1000)))"

definition offered_load :: "f64 \<Rightarrow> f64 \<Rightarrow> f64" where
  "offered_load rate cap = (if fle cap (Fin 0) then Fin 0 else fdiv rate cap)"

definition rate_for_load :: "f64 \<Rightarrow> f64 \<Rightarrow> int \<Rightarrow> load_error + f64" where
  "rate_for_load load mean_ms slots =
     (let c = capacity mean_ms slots in
      if fle c (Fin 0) then Inl NoCapacity
      else if fle load (Fin 0) then Inl (BadLoad load)
      else Inr (fmul load c))"

section \<open>The producer\<close>

record producer =
  pr_broker :: broker
  pr_batch :: nat

definition new_producer :: "broker \<Rightarrow> int \<Rightarrow> producer" where
  "new_producer b batch = \<lparr>pr_broker = b, pr_batch = nat (if batch \<le> 0 then 64 else batch)\<rparr>"

record submit_stats =
  su_submitted :: int
  su_start :: time
  su_end :: time
  su_max_lag :: duration
  su_mean_lag :: duration

definition known_chunk :: nat where
  "known_chunk = 1000"

text \<open>The result is the count so far and an error beside it.\<close>

function check_collisions ::
  "(cmd \<Rightarrow> 's \<Rightarrow> reply \<times> 's) \<Rightarrow> broker \<Rightarrow> spec list \<Rightarrow> int \<Rightarrow> 's net \<Rightarrow> (int \<times> berr option) \<times> 's net" where
  "check_collisions call b specs n w =
     (if specs = [] then ((n, None), w)
      else case known call b (map sp_id (take known_chunk specs)) w of
        (Inl e, w') \<Rightarrow> ((n, Some e), w')
      | (Inr ids, w') \<Rightarrow> check_collisions call b (drop known_chunk specs) (n + int (length ids)) w')"
  by auto
termination by (relation "measure (\<lambda>(call, b, specs, n, w). length specs)") (auto simp: known_chunk_def)

declare check_collisions.simps [simp del]

datatype collision_warning = NoWarning | SomeCollide int | AllCollide int

definition warn_on_collisions ::
  "(cmd \<Rightarrow> 's \<Rightarrow> reply \<times> 's) \<Rightarrow> broker \<Rightarrow> spec list \<Rightarrow> 's net \<Rightarrow> collision_warning \<times> 's net" where
  "warn_on_collisions call b specs w =
     (case check_collisions call b specs 0 w of
        ((_, Some _), w') \<Rightarrow> (NoWarning, w')
      | ((n, None), w') \<Rightarrow>
          (if n = 0 then NoWarning else if n = int (length specs) then AllCollide n else SomeCollide n, w'))"

datatype submit_error = SubmitFailed berr | SubmitInterrupted

definition flush_batch ::
  "(cmd \<Rightarrow> 's \<Rightarrow> reply \<times> 's) \<Rightarrow> broker \<Rightarrow> task list \<Rightarrow> submit_stats \<Rightarrow> 's net \<Rightarrow> submit_error option \<times> submit_stats \<times> 's net" where
  "flush_batch call b batch st w =
     (if batch = [] then (None, st, w)
      else case submit_batch call b batch w of
        (Inl e, w') \<Rightarrow> (Some (SubmitFailed e), st, w')
      | (Inr _, w') \<Rightarrow> (None, st\<lparr>su_submitted := su_submitted st + int (length batch)\<rparr>, w'))"

text \<open>
  What a spec meets: the reading of the clock that decides whether to wait, whether the wait ran to its end, and the reading
  at its submission.
\<close>

record arrival =
  ar_before :: time
  ar_woken :: bool
  ar_now :: time

definition lag_of :: "time \<Rightarrow> time \<Rightarrow> duration" where
  "lag_of now due = max 0 (time_sub now due)"

fun submit_loop ::
  "(cmd \<Rightarrow> 's \<Rightarrow> reply \<times> 's) \<Rightarrow> producer \<Rightarrow> (spec \<times> arrival) list \<Rightarrow> task list \<Rightarrow> submit_stats \<Rightarrow> duration \<Rightarrow> 's net \<Rightarrow>
   submit_error option \<times> submit_stats \<times> duration \<times> 's net" where
  "submit_loop call p [] batch st lag w =
     (case flush_batch call (pr_broker p) batch st w of (e, st', w') \<Rightarrow> (e, st', lag, w'))"
| "submit_loop call p ((s, a) # xs) batch st lag w =
     (let due = su_start st + sp_offset s;
          waits = 0 < time_sub due (ar_before a) in
      case (if waits then flush_batch call (pr_broker p) batch st w else (None, st, w)) of
        (Some e, st1, w1) \<Rightarrow> (Some e, st1, lag, w1)
      | (None, st1, w1) \<Rightarrow>
          if waits \<and> \<not> ar_woken a then (Some SubmitInterrupted, st1, lag, w1)
          else
            let l = lag_of (ar_now a) due;
                st2 = st1\<lparr>su_max_lag := max (su_max_lag st1) l\<rparr>;
                batch' = (if waits then [] else batch) @ [task_at s (ar_now a)] in
            if pr_batch p \<le> length batch' then
              (case flush_batch call (pr_broker p) batch' st2 w1 of
                 (Some e, st3, w2) \<Rightarrow> (Some e, st3, i64 (lag + l), w2)
               | (None, st3, w2) \<Rightarrow> submit_loop call p xs [] st3 (i64 (lag + l)) w2)
            else submit_loop call p xs batch' st2 (i64 (lag + l)) w1)"

definition submit_plan ::
  "(cmd \<Rightarrow> 's \<Rightarrow> reply \<times> 's) \<Rightarrow> producer \<Rightarrow> (spec \<times> arrival) list \<Rightarrow> time \<Rightarrow> time \<Rightarrow> 's net \<Rightarrow> submit_error option \<times> submit_stats \<times> 's net" where
  "submit_plan call p xs start finish w =
     (let st = \<lparr>su_submitted = 0, su_start = start, su_end = zero_time, su_max_lag = 0, su_mean_lag = 0\<rparr> in
      if xs = [] then (None, st\<lparr>su_end := start\<rparr>, w)
      else case submit_loop call p xs [] st 0 w of
        (Some e, st', _, w') \<Rightarrow> (Some e, st', w')
      | (None, st', lag, w') \<Rightarrow> (None, st'\<lparr>su_end := finish, su_mean_lag := go_div lag (int (length xs))\<rparr>, w'))"

end
