(* ===== verification/BenchRun.thy ===== *)
theory BenchRun
  imports BenchCsv Workload Broker BrokerQueries Queue
begin

text \<open>
  The benchmark runner (\<open>internal/bench/runner.go\<close>): the options and their check, the matrix of experiments,
  the configuration of a cell, one experiment from its plan to its summary, and the loops that wait and collect. What the started
  components do to the queue between the start and the collection is an argument, any function of the state; so are the clock, the
  outcome of writing a file and the events the waiting loops see.
\<close>

section \<open>Options\<close>

definition scheduler_none :: string where
  "scheduler_none = ''none''"

record bench_options =
  bo_base :: "config option"
  bo_redis :: bool
  bo_logger :: bool
  bo_run_id :: string
  bo_results_dir :: string
  bo_schedulers :: "string list"
  bo_workloads :: "string list"
  bo_reps :: int
  bo_loads :: "f64 list"
  bo_procs :: int
  bo_conc :: int
  bo_max_in_flight :: int
  bo_timeout :: duration
  bo_settle :: duration

datatype bench_error =
    MissingOption string
  | BadCountOption string int
  | UnknownScheduler string
  | UnknownWorkload string
  | BadLoadMultiplier f64
  | PlanError plan_error
  | LoadError load_error
  | BrokerError berr
  | PolicyError new_policy_error
  | ComponentError string
  | SubmitError submit_error
  | ComponentsNotReady duration
  | Cancelled
  | WriteError string

definition first_some :: "'a option list \<Rightarrow> 'a option" where
  "first_some xs = List.find (\<lambda>_. True) (map the (filter (\<lambda>x. x \<noteq> None) xs))"

definition unless :: "bool \<Rightarrow> 'a \<Rightarrow> 'a option" where
  "unless ok e = (if ok then None else Some e)"

definition check_options :: "bench_options \<Rightarrow> bench_error option" where
  "check_options o' =
     first_some
       ([unless (bo_base o' \<noteq> None) (MissingOption ''base configuration''), unless (bo_redis o') (MissingOption ''redis client''),
         unless (bo_logger o') (MissingOption ''logger''), unless (bo_run_id o' \<noteq> []) (MissingOption ''run id''),
         unless (bo_schedulers o' \<noteq> []) (MissingOption ''scheduler''), unless (bo_workloads o' \<noteq> []) (MissingOption ''workload''),
         unless (0 < bo_reps o') (BadCountOption ''repetitions'' (bo_reps o')),
         unless (0 < bo_procs o') (BadCountOption ''worker processes'' (bo_procs o')),
         unless (0 < bo_conc o') (BadCountOption ''worker concurrency'' (bo_conc o'))] @
        map (\<lambda>s. unless (s = scheduler_none \<or> valid_policy s) (UnknownScheduler s)) (bo_schedulers o') @
        map (\<lambda>w. unless (valid_workload w) (UnknownWorkload w)) (bo_workloads o') @
        map (\<lambda>l. unless (\<not> fle l (Fin 0)) (BadLoadMultiplier l)) (bo_loads o'))"

definition new_runner :: "bench_options \<Rightarrow> bench_error + bench_options" where
  "new_runner o' =
     (case check_options o' of
        Some e \<Rightarrow> Inl e
      | None \<Rightarrow> Inr (o'\<lparr>bo_settle := (if bo_settle o' \<le> 0 then 100 * millisecond else bo_settle o'),
          bo_results_dir := (if bo_results_dir o' = [] then ''results'' else bo_results_dir o')\<rparr>))"

definition effective_max_in_flight :: "bench_options \<Rightarrow> int" where
  "effective_max_in_flight o' = (if 0 < bo_max_in_flight o' then bo_max_in_flight o' else i64 (bo_procs o' * bo_conc o'))"

section \<open>A cell of the matrix\<close>

text \<open>\<open>%.2f\<close>: the exact value rounded half to even.\<close>

definition show_f2 :: "f64 \<Rightarrow> string" where
  "show_f2 x =
     (case x of
        Fin q \<Rightarrow> (let n = rne (\<bar>q\<bar> * 100) in (if q < 0 then ''-'' else []) @ show_int (n div 100) @ ''.'' @ show_pad 2 (n mod 100))
      | PInf \<Rightarrow> ''+Inf'' | NInf \<Rightarrow> ''-Inf'' | NaN \<Rightarrow> ''NaN'')"

definition load_suffix :: "f64 \<Rightarrow> string \<Rightarrow> string" where
  "load_suffix load sep =
     (if fle load (Fin 0) then [] else sep @ ''l'' @ map (\<lambda>c. if c = CHR ''.'' then CHR ''p'' else c) (show_f2 load))"

definition namespace_of :: "run_identity \<Rightarrow> string" where
  "namespace_of i =
     ''bench-'' @ id_run i @ ''-'' @ id_scheduler i @ ''-'' @ id_workload i @ load_suffix (id_load i) ''-'' @ ''-r'' @ show_int (id_repetition i)"

definition file_base :: "run_identity \<Rightarrow> string" where
  "file_base i =
     id_scheduler i @ ''_'' @ id_workload i @ load_suffix (id_load i) ''_'' @ ''_rep'' @ show_int (id_repetition i)"

definition experiment_config :: "bench_options \<Rightarrow> config \<Rightarrow> run_identity \<Rightarrow> config" where
  "experiment_config o' base i =
     (let st = (c_streams base)\<lparr>s_namespace := namespace_of i\<rparr>; sch = (c_scheduler base)\<lparr>sc_policy := id_scheduler i\<rparr>;
          control = (id_scheduler i = scheduler_none) in
      base\<lparr>c_streams := (if control then st\<lparr>s_exec := s_ingress st\<rparr> else st),
        c_scheduler := (if control then sch\<lparr>sc_policy := ''fifo''\<rparr> else sch)\<lparr>sc_max_in_flight := effective_max_in_flight o', sc_metrics_addr := []\<rparr>,
        c_worker := (c_worker base)\<lparr>wk_concurrency := bo_conc o', wk_metrics_addr := []\<rparr>,
        c_workload := (c_workload base)\<lparr>wl_type := id_workload i, wl_seed := id_seed i\<rparr>\<rparr>)"

text \<open>The experiments in the order of the loops; a load of 0 leaves the configured rate alone.\<close>

definition matrix :: "bench_options \<Rightarrow> config \<Rightarrow> run_identity list" where
  "matrix o' base =
     (let loads = (if bo_loads o' = [] then [Fin 0] else bo_loads o') in
      concat (map (\<lambda>s. concat (map (\<lambda>w. concat (map (\<lambda>l. map (\<lambda>n.
        \<lparr>id_run = bo_run_id o', id_scheduler = s, id_workload = w, id_repetition = int n, id_seed = i64 (wl_seed (c_workload base) + int n),
         id_load = l\<rparr>) [0..<nat (bo_reps o')]) loads)) (bo_workloads o'))) (bo_schedulers o')))"

definition derive_timeout :: "plan_summary \<Rightarrow> int \<Rightarrow> duration" where
  "derive_timeout plan n_slots =
     (let service = i64 (go_div (ps_total_ms plan) (if n_slots \<le> 0 then 1 else n_slots) * millisecond);
          est = i64 (i64 (ps_span plan + service) * 3); low = (if est < 30 * second then 30 * second else est) in
      if 30 * 60 * second < low then 30 * 60 * second else low)"

record prepared =
  pp_cfg :: config
  pp_specs :: "spec list"
  pp_plan :: plan_summary
  pp_capacity :: f64
  pp_rate :: f64
  pp_offered :: f64
  pp_timeout :: duration

definition prepared_of :: "bench_options \<Rightarrow> config \<Rightarrow> f64 \<Rightarrow> spec list \<Rightarrow> prepared" where
  "prepared_of o' cfg cap specs =
     (let plan = summarise_plan specs; r = mean_arrival_rate (c_workload cfg) in
      \<lparr>pp_cfg = cfg, pp_specs = specs, pp_plan = plan, pp_capacity = cap, pp_rate = r, pp_offered = offered_load r cap,
       pp_timeout = (if bo_timeout o' \<le> 0 then derive_timeout plan (i64 (bo_procs o' * bo_conc o')) else bo_timeout o')\<rparr>)"

definition prepare_run :: "mathlib \<Rightarrow> (int \<Rightarrow> rng) \<Rightarrow> bench_options \<Rightarrow> config \<Rightarrow> run_identity \<Rightarrow> bench_error + prepared" where
  "prepare_run ml source o' base i =
     (let cfg = experiment_config o' base i; n_slots = i64 (bo_procs o' * bo_conc o') in
      case generate ml source (c_workload cfg) of
        Inl e \<Rightarrow> Inl (PlanError e)
      | Inr specs \<Rightarrow>
          (let mean = ps_mean_ms (summarise_plan specs); cap = capacity mean n_slots in
           if \<not> fgt (id_load i) (Fin 0) then Inr (prepared_of o' cfg cap specs)
           else case rate_for_load (id_load i) mean n_slots of
             Inl e \<Rightarrow> Inl (LoadError e)
           | Inr r \<Rightarrow>
               (case with_arrival_rate (c_workload cfg) r of
                  Inl e \<Rightarrow> Inl (LoadError e)
                | Inr wl \<Rightarrow>
                    (case generate ml source wl of
                       Inl e \<Rightarrow> Inl (PlanError e)
                     | Inr specs' \<Rightarrow> Inr (prepared_of o' (cfg\<lparr>c_workload := wl\<rparr>) cap specs')))))"

section \<open>Waiting and collecting\<close>

text \<open>A turn of \<open>waitReady\<close>: who is ready, the clock when not all are, whether the context ends during the pause.\<close>

record ready_turn =
  rd_engine :: "bool option"
  rd_workers :: "bool list"
  rd_now :: time
  rd_cancelled :: bool

datatype ready_end = AllReady | ReadyTimeout duration | ReadyCancelled

fun wait_all_ready :: "time \<Rightarrow> duration \<Rightarrow> ready_turn list \<Rightarrow> ready_end option" where
  "wait_all_ready deadline timeout [] = None"
| "wait_all_ready deadline timeout (t # turns) =
     (if (case rd_engine t of None \<Rightarrow> True | Some r \<Rightarrow> r) \<and> list_all id (rd_workers t) then Some AllReady
      else if deadline < rd_now t then Some (ReadyTimeout timeout)
      else if rd_cancelled t then Some ReadyCancelled
      else wait_all_ready deadline timeout turns)"

text \<open>
  A turn of \<open>waitForCompletion\<close>: whether the context is done after the first or the second query, the clock, whether the context ends
  during the pause. The result is whether the experiment timed out; a query that fails counts as 0.
\<close>

record poll_turn =
  pt_done1 :: bool
  pt_done2 :: bool
  pt_now :: time
  pt_cancelled :: bool

definition count_or_zero :: "berr + int \<Rightarrow> int" where
  "count_or_zero r = (case r of Inl _ \<Rightarrow> 0 | Inr n \<Rightarrow> n)"

fun wait_for_completion ::
  "(cmd \<Rightarrow> 's \<Rightarrow> reply \<times> 's) \<Rightarrow> broker \<Rightarrow> int \<Rightarrow> time \<Rightarrow> poll_turn list \<Rightarrow> 's net \<Rightarrow> (bool option) \<times> 's net" where
  "wait_for_completion call b expected deadline [] w = (None, w)"
| "wait_for_completion call b expected deadline (t # turns) w =
     (case result_count call b w of
        (completed, w1) \<Rightarrow>
          if isl completed \<and> pt_done1 t then (Some True, w1)
          else case dead_letter_count call b w1 of
            (dead, w2) \<Rightarrow>
              if isl dead \<and> pt_done2 t then (Some True, w2)
              else if expected \<le> i64 (count_or_zero completed + count_or_zero dead) then (Some False, w2)
              else if deadline < pt_now t then (Some True, w2)
              else if pt_cancelled t then (Some True, w2)
              else wait_for_completion call b expected deadline turns w2)"

text \<open>The results stream in pages of 1000, until a page is empty. The loop has no bound of its own.\<close>

definition page_size :: int where
  "page_size = 1000"

partial_function (option) collect_results ::
  "(cmd \<Rightarrow> 's \<Rightarrow> reply \<times> 's) \<Rightarrow> broker \<Rightarrow> sid option \<Rightarrow> result list \<Rightarrow> 's net \<Rightarrow> ((berr + result list) \<times> 's net) option" where
  "collect_results call b cursor acc w =
     (case read_results call b cursor page_size w of
        ((page, next_cursor, Some e), w') \<Rightarrow> Some (Inl e, w')
      | ((page, next_cursor, None), w') \<Rightarrow>
          (if page = [] then Some (Inr acc, w') else collect_results call b next_cursor (acc @ page) w'))"

section \<open>One experiment\<close>

text \<open>
  What happens between the start of the components and their end, as \<open>runOne\<close> sees it: the errors of their construction, how the waiting
  for them ended, what the producer returned, whether the experiment timed out, how long it took, and each worker's busy time and
  failures.
\<close>

record phases =
  ph_engine :: "string option"
  ph_recovery :: "string option"
  ph_workers :: "string option list"
  ph_ready :: ready_end
  ph_submit :: "submit_stats \<times> submit_error option"
  ph_timed_out :: bool
  ph_duration :: duration
  ph_busy :: "duration list"
  ph_failed :: "int list"

record measured =
  ms_submit :: submit_stats
  ms_timed_out :: bool
  ms_duration :: duration
  ms_busy :: f64
  ms_failures :: int

definition run_phases :: "run_identity \<Rightarrow> phases \<Rightarrow> bench_error + measured" where
  "run_phases i p =
     (case first_some ((if id_scheduler i = scheduler_none then [] else [ph_engine p]) @ ph_recovery p # ph_workers p) of
        Some e \<Rightarrow> Inl (ComponentError e)
      | None \<Rightarrow>
          (case ph_ready p of
             ReadyTimeout d \<Rightarrow> Inl (ComponentsNotReady d)
           | ReadyCancelled \<Rightarrow> Inl Cancelled
           | AllReady \<Rightarrow>
               (case ph_submit p of
                  (_, Some e) \<Rightarrow> Inl (SubmitError e)
                | (st, None) \<Rightarrow>
                    Inr \<lparr>ms_submit = st, ms_timed_out = ph_timed_out p, ms_duration = ph_duration p,
                      ms_busy = foldl (\<lambda>s d. fadd s (dur_seconds d)) (Fin 0) (ph_busy p),
                      ms_failures = foldl (\<lambda>s n. i64 (s + n)) 0 (ph_failed p)\<rparr>)))"

definition summary_input_of ::
  "bench_options \<Rightarrow> run_identity \<Rightarrow> prepared \<Rightarrow> measured \<Rightarrow> result list \<Rightarrow> int go_map \<Rightarrow> dead_letter list \<Rightarrow> summary_input" where
  "summary_input_of o' i p m results st dead =
     (let cfg = pp_cfg p; n_slots = i64 (bo_procs o' * bo_conc o') in
      \<lparr>in_identity = i, in_tenants = tenant_ids (c_workload cfg), in_results = results, in_planned = int (length (pp_specs p)),
       in_submitted = su_submitted (ms_submit m), in_dead = int (length dead), in_retried = map_get 0 st ''retried'',
       in_failures = ms_failures m, in_duplicates = map_get 0 st ''duplicate_completions'', in_timed_out = ms_timed_out m,
       in_processes = bo_procs o', in_concurrency = bo_conc o', in_max_in_flight = sc_max_in_flight (c_scheduler cfg),
       in_duration = ms_duration m, in_busy = ms_busy m, in_slot = fmul (dur_seconds (ms_duration m)) (f64_of_int n_slots),
       in_max_lag = su_max_lag (ms_submit m), in_mean_lag = su_mean_lag (ms_submit m), in_rate = pp_rate p,
       in_exec_min = ex_min (wl_exec (c_workload cfg)), in_exec_max = ex_max (wl_exec (c_workload cfg)), in_load = pp_offered p,
       in_capacity = pp_capacity p, in_mean_exec = ps_mean_ms (pp_plan p)\<rparr>)"

definition collect_run ::
  "(cmd \<Rightarrow> 's \<Rightarrow> reply \<times> 's) \<Rightarrow> bench_options \<Rightarrow> run_identity \<Rightarrow> prepared \<Rightarrow> broker \<Rightarrow> time \<Rightarrow> measured \<Rightarrow> 's net \<Rightarrow>
   ((bench_error + summary \<times> result list \<times> dead_letter list) \<times> 's net) option" where
  "collect_run call o' i p b now m w =
     (case collect_results call b (Some (0, 0)) [] w of
        None \<Rightarrow> None
      | Some (Inl e, w1) \<Rightarrow> Some (Inl (BrokerError e), w1)
      | Some (Inr results, w1) \<Rightarrow>
          (case stats call b w1 of
             (Inl e, w2) \<Rightarrow> Some (Inl (BrokerError e), w2)
           | (Inr st, w2) \<Rightarrow>
               (case read_dead_letters call b 10000 w2 of
                  ((_, Some e), w3) \<Rightarrow> Some (Inl (BrokerError e), w3)
                | ((dead, None), w3) \<Rightarrow> Some (Inr (summarise_run now (summary_input_of o' i p m results st dead), results, dead), w3))))"

text \<open>The files: the raw rows carry the load the plan offers, not the one asked for; dead letters are written when there are any.\<close>

definition raw_identity :: "run_identity \<Rightarrow> prepared \<Rightarrow> run_identity" where
  "raw_identity i p = i\<lparr>id_load := pp_offered p\<rparr>"

definition write_run ::
  "(string \<Rightarrow> csv_field list list \<Rightarrow> string option) \<Rightarrow> (string \<Rightarrow> dead_letter list \<Rightarrow> string option) \<Rightarrow>
   run_identity \<Rightarrow> prepared \<Rightarrow> result list \<Rightarrow> dead_letter list \<Rightarrow> string option" where
  "write_run write_raw write_dead i p results dead =
     (case write_raw (file_base i) (raw_rows (raw_identity i p) results) of
        Some e \<Rightarrow> Some e
      | None \<Rightarrow> if dead = [] then None else write_dead (file_base i) dead)"

text \<open>
  \<open>running\<close> is what happens from the start of the components to their end, to the queue and as the phases; \<open>write_raw\<close> and \<open>write_dead\<close>
  write a file. The namespace is reset on every way out after its first reset, whatever that reset returns.
\<close>

definition run_one ::
  "(cmd \<Rightarrow> 's \<Rightarrow> reply \<times> 's) \<Rightarrow> mathlib \<Rightarrow> (int \<Rightarrow> rng) \<Rightarrow> bench_options \<Rightarrow> config \<Rightarrow> run_identity \<Rightarrow>
   (prepared \<Rightarrow> policy \<Rightarrow> broker \<Rightarrow> 's net \<Rightarrow> phases \<times> 's net) \<Rightarrow> time \<Rightarrow> (string \<Rightarrow> csv_field list list \<Rightarrow> string option) \<Rightarrow>
   (string \<Rightarrow> dead_letter list \<Rightarrow> string option) \<Rightarrow> 's net \<Rightarrow> ((bench_error + summary) \<times> 's net) option" where
  "run_one call ml source o' base i running now write_raw write_dead w =
     (case prepare_run ml source o' base i of
        Inl e \<Rightarrow> Some (Inl e, w)
      | Inr p \<Rightarrow>
          (let b = new_broker (c_streams (pp_cfg p)); sch = c_scheduler (pp_cfg p); cleanup = (\<lambda>(r, w). (r, snd (reset_ns call b w))) in
           case reset_ns call b w of
             (Inl e, w1) \<Rightarrow> Some (Inl (BrokerError e), w1)
           | (Inr _, w1) \<Rightarrow> map_option cleanup
               (case ensure_streams call b w1 of
                  (Inl e, w2) \<Rightarrow> Some (Inl (BrokerError e), w2)
                | (Inr _, w2) \<Rightarrow>
                    (case new_policy (sc_policy sch) (sc_weights sch) (sc_default_weight sch) of
                       Inl e \<Rightarrow> Some (Inl (PolicyError e), w2)
                     | Inr pol \<Rightarrow>
                         (case running p pol b w2 of
                            (ph, w3) \<Rightarrow>
                              (case run_phases i ph of
                                 Inl e \<Rightarrow> Some (Inl e, w3)
                               | Inr m \<Rightarrow>
                                   (case collect_run call o' i p b now m w3 of
                                      None \<Rightarrow> None
                                    | Some (Inl e, w4) \<Rightarrow> Some (Inl e, w4)
                                    | Some (Inr (s, results, dead), w4) \<Rightarrow>
                                        (case write_run write_raw write_dead i p results dead of
                                           Some e \<Rightarrow> Some (Inl (WriteError e), w4)
                                         | None \<Rightarrow> Some (Inr s, w4)))))))))"

section \<open>The matrix\<close>

record manifest =
  mf_started :: time
  mf_finished :: "time option"
  mf_experiments :: "summary list"
  mf_failures :: "(run_identity \<times> bench_error) list"
  mf_rows :: "summary list"

text \<open>What a cell meets: whether the context is done before it, its result, and the outcomes of appending to the two tables.\<close>

record cell =
  ce_cancelled :: bool
  ce_result :: "bench_error + summary"
  ce_append :: "string option"
  ce_tenants :: "string option"
  ce_now :: time

datatype run_end = RunComplete | RunInterrupted nat nat | RunWriteFailed string

fun run_cells :: "nat \<Rightarrow> nat \<Rightarrow> (run_identity \<times> cell) list \<Rightarrow> manifest \<Rightarrow> run_end \<times> manifest" where
  "run_cells finished all_n [] m = (RunComplete, m)"
| "run_cells finished all_n ((i, c) # xs) m =
     (if ce_cancelled c then (RunInterrupted finished all_n, m\<lparr>mf_finished := Some (ce_now c)\<rparr>)
      else case ce_result c of
        Inl e \<Rightarrow> run_cells (Suc finished) all_n xs (m\<lparr>mf_failures := mf_failures m @ [(i, e)]\<rparr>)
      | Inr s \<Rightarrow>
          (case ce_append c of
             Some e \<Rightarrow> (RunWriteFailed e, m)
           | None \<Rightarrow>
               (let m1 = m\<lparr>mf_rows := mf_rows m @ [s]\<rparr> in
                case ce_tenants c of
                  Some e \<Rightarrow> (RunWriteFailed e, m1)
                | None \<Rightarrow> run_cells (Suc finished) all_n xs (m1\<lparr>mf_experiments := mf_experiments m1 @ [s]\<rparr>))))"

definition run_matrix :: "bench_options \<Rightarrow> config \<Rightarrow> time \<Rightarrow> (run_identity \<Rightarrow> cell) \<Rightarrow> time \<Rightarrow> run_end \<times> manifest" where
  "run_matrix o' base started env finished_at =
     (let ids = matrix o' base in
      case run_cells 0 (length ids) (map (\<lambda>i. (i, env i)) ids)
        \<lparr>mf_started = started, mf_finished = None, mf_experiments = [], mf_failures = [], mf_rows = []\<rparr> of
        (RunComplete, m) \<Rightarrow> (RunComplete, m\<lparr>mf_finished := Some finished_at\<rparr>)
      | (r, m) \<Rightarrow> (r, m))"

end
