(* ===== verification/QueueInv.thy ===== *)
theory QueueInv
  imports Broker
begin

text \<open>
  The invariants of the queue over every interleaving of its operations. \<open>world\<close> is the abstract queue
  state with \<open>w_held\<close>, the messages any worker process has ever received (a process that dies
  only forgets some). \<open>wstep\<close> has one rule per atomic change; the broker's operations are sequences of
  these steps (theory \<open>System\<close>).
\<close>

record world =
  w_q :: qstate
  w_held :: "exec_message set"

text \<open>The epoch has passed the fence of this state.\<close>

definition passed :: "int \<Rightarrow> qstate \<Rightarrow> bool" where
  "passed e q \<longleftrightarrow> e \<le> 0 \<or> lua_number e = lua_number (q_fence q)"

definition entry_task :: "stream_entry \<Rightarrow> task option" where
  "entry_task e = (case unmarshal_task (raw_field e ''task'') of Inr t \<Rightarrow> Some t | Inl _ \<Rightarrow> None)"

definition received :: "stream_entry list \<Rightarrow> exec_message set" where
  "received es = {m. \<exists>e \<in> set es. parse_exec_message e = Inr m}"

inductive wstep :: "string \<Rightarrow> int \<Rightarrow> world \<Rightarrow> world \<Rightarrow> bool" for gn :: string and maxLen :: int where
  aux: "\<lbrakk>lua_number (q_fence q) \<le> lua_number f\<rbrakk> \<Longrightarrow>
    wstep gn maxLen \<lparr>w_q = q, w_held = H\<rparr>
      \<lparr>w_q = q\<lparr>q_ingress := a, q_sched := b, q_holder := c, q_epoch := d, q_fence := f\<rparr>, w_held = H\<rparr>"
| admitted: "\<lbrakk>\<not> q_known (t_id t) q; after_first (CHR ''|'') m = Some (t_id t)\<rbrakk> \<Longrightarrow>
    wstep gn maxLen \<lparr>w_q = q, w_held = H\<rparr> \<lparr>w_q = q_admit (t_id t) m f a (TTask t) q, w_held = H\<rparr>"
| launched: "\<lbrakk>zmin (q_pending q) m f; passed e q; q_launch now maxLen (TNum e) m f q ts q'\<rbrakk> \<Longrightarrow>
    wstep gn maxLen \<lparr>w_q = q, w_held = H\<rparr> \<lparr>w_q = q', w_held = H\<rparr>"
| grouped: "\<lbrakk>st_groups (q_exec q) gn = None\<rbrakk> \<Longrightarrow>
    wstep gn maxLen \<lparr>w_q = q, w_held = H\<rparr>
      \<lparr>w_q = q\<lparr>q_exec := (q_exec q)\<lparr>st_groups := (st_groups (q_exec q))(gn \<mapsto> empty_group)\<rparr>\<rparr>, w_held = H\<rparr>"
| delivered: "\<lbrakk>st_groups (q_exec q) gn = Some g; es = take n (unread (q_exec q) (g_last g))\<rbrakk> \<Longrightarrow>
    wstep gn maxLen \<lparr>w_q = q, w_held = H\<rparr>
      \<lparr>w_q = q\<lparr>q_exec := deliver (q_exec q) gn g es\<rparr>, w_held = H \<union> received es\<rparr>"
| reclaimed: "\<lbrakk>st_groups (q_exec q) gn = Some g; gone \<subseteq> g_pel g - se_id ` set (st_entries (q_exec q));
    set es \<subseteq> set (st_entries (q_exec q))\<rbrakk> \<Longrightarrow>
    wstep gn maxLen \<lparr>w_q = q, w_held = H\<rparr>
      \<lparr>w_q = q\<lparr>q_exec := set_pel (q_exec q) gn g (g_pel g - gone)\<rparr>, w_held = H \<union> received es\<rparr>"
| completed: "\<lbrakk>msg \<in> H; r_task_id r = t_id (x_task msg);
    q_complete maxLen (r_task_id r) (TResult r) tenant ms missed now gn (Some (x_id msg)) q recorded q'\<rbrakk> \<Longrightarrow>
    wstep gn maxLen \<lparr>w_q = q, w_held = H\<rparr> \<lparr>w_q = q', w_held = H\<rparr>"
| retried: "\<lbrakk>msg \<in> H; t_id next = t_id (x_task msg);
    q_retry maxLen (t_id (x_task msg)) (TTask next) dead isDead now gn (Some (x_id msg)) q r q'\<rbrakk> \<Longrightarrow>
    wstep gn maxLen \<lparr>w_q = q, w_held = H\<rparr> \<lparr>w_q = q', w_held = H\<rparr>"
| forgotten: "H' \<subseteq> H \<Longrightarrow> wstep gn maxLen \<lparr>w_q = q, w_held = H\<rparr> \<lparr>w_q = q, w_held = H'\<rparr>"

section \<open>Identity: every id is pending, launched or done\<close>

definition pending_ids :: "qstate \<Rightarrow> string set" where
  "pending_ids q = {i. \<exists>m \<in> dom (q_pending q). after_first (CHR ''|'') m = Some i}"

definition launched_ids :: "qstate \<Rightarrow> string set" where
  "launched_ids q = dom (q_payloads q) - pending_ids q"

definition seen_ids :: "qstate \<Rightarrow> string set" where
  "seen_ids q = launched_ids q \<union> dom (q_done q)"

definition inv_ids :: "qstate \<Rightarrow> bool" where
  "inv_ids q \<longleftrightarrow>
     finite (dom (q_payloads q)) \<and> finite (dom (q_done q)) \<and>
     (\<forall>i p. q_payloads q i = Some p \<longrightarrow> (\<exists>t. p = TTask t \<and> t_id t = i)) \<and>
     dom (q_payloads q) \<inter> dom (q_done q) = {} \<and>
     (\<forall>m \<in> dom (q_pending q). \<exists>i \<in> dom (q_payloads q). after_first (CHR ''|'') m = Some i) \<and>
     inj_on (after_first (CHR ''|'')) (dom (q_pending q)) \<and>
     dom (q_age q) = dom (q_pending q)"

definition inv_counts :: "qstate \<Rightarrow> bool" where
  "inv_counts q \<longleftrightarrow>
     q_inflight q = int (card (launched_ids q)) \<and>
     q_stats q ''completed'' + q_stats q ''dead_lettered'' = int (card (dom (q_done q))) \<and>
     q_stats q ''dispatched'' = q_inflight q + int (card (dom (q_done q))) \<and>
     q_stats q ''admitted'' = int (card (dom (q_payloads q))) + int (card (dom (q_done q)))"

text \<open>Every entry of the execution stream, and every message a worker holds, is of a task that is launched or done.\<close>

definition inv_exec :: "world \<Rightarrow> bool" where
  "inv_exec w \<longleftrightarrow>
     sorted_wrt (<) (map se_id (st_entries (q_exec (w_q w)))) \<and>
     (\<forall>e \<in> set (st_entries (q_exec (w_q w))).
        (0, 0) < se_id e \<and> se_id e \<le> st_last (q_exec (w_q w)) \<and> (\<exists>t. entry_task e = Some t \<and> t_id t \<in> seen_ids (w_q w))) \<and>
     (\<forall>m \<in> w_held w.
        x_id m \<le> st_last (q_exec (w_q w)) \<and> t_id (x_task m) \<in> seen_ids (w_q w) \<and>
        (\<forall>e \<in> set (st_entries (q_exec (w_q w))). se_id e = x_id m \<longrightarrow> entry_task e = Some (x_task m)))"

text \<open>An entry the group will still hand out: not yet delivered, or delivered and not acknowledged.\<close>

definition live_entry :: "stream \<Rightarrow> string \<Rightarrow> stream_entry \<Rightarrow> bool" where
  "live_entry st gn e \<longleftrightarrow>
     e \<in> set (st_entries st) \<and>
     (case st_groups st gn of None \<Rightarrow> True | Some g \<Rightarrow> g_last g < se_id e \<or> se_id e \<in> g_pel g)"

definition inv_live :: "string \<Rightarrow> qstate \<Rightarrow> bool" where
  "inv_live gn q \<longleftrightarrow>
     (\<forall>g. st_groups (q_exec q) gn = Some g \<longrightarrow> g_last g \<le> st_last (q_exec q)) \<and>
     (\<forall>i \<in> launched_ids q. \<exists>e t. live_entry (q_exec q) gn e \<and> entry_task e = Some t \<and> t_id t = i)"

definition entry_result :: "stream_entry \<Rightarrow> result option" where
  "entry_result e = (case unmarshal_result (raw_field e ''result'') of Inr r \<Rightarrow> Some r | Inl _ \<Rightarrow> None)"

definition result_ids :: "qstate \<Rightarrow> string list" where
  "result_ids q = map (\<lambda>e. case entry_result e of Some r \<Rightarrow> r_task_id r | None \<Rightarrow> []) (st_entries (q_results q))"

definition st_ordered :: "stream \<Rightarrow> bool" where
  "st_ordered st \<longleftrightarrow> sorted_wrt (<) (map se_id (st_entries st)) \<and> (\<forall>e \<in> set (st_entries st). (0, 0) < se_id e \<and> se_id e \<le> st_last st)"

definition inv_results :: "qstate \<Rightarrow> bool" where
  "inv_results q \<longleftrightarrow> distinct (result_ids q) \<and> set (result_ids q) \<subseteq> dom (q_done q) \<and> st_ordered (q_results q) \<and>
     (\<forall>e \<in> set (st_entries (q_results q)). entry_result e \<noteq> None)"

text \<open>The epoch a dispatch stamped on an entry; a retry has none.\<close>

definition entry_epoch :: "stream_entry \<Rightarrow> int" where
  "entry_epoch e = (case field e ''epoch'' of Some (TNum n) \<Rightarrow> lua_number n | _ \<Rightarrow> 0)"

definition log_epochs :: "qstate \<Rightarrow> int list" where
  "log_epochs q = filter (\<lambda>n. 0 < n) (map entry_epoch (st_entries (q_exec q)))"

definition epoch_stamp :: "stream_entry \<Rightarrow> bool" where
  "epoch_stamp e \<longleftrightarrow> (case field e ''epoch'' of None \<Rightarrow> True | Some (TNum n) \<Rightarrow> True | Some _ \<Rightarrow> False)"

definition inv_epochs :: "qstate \<Rightarrow> bool" where
  "inv_epochs q \<longleftrightarrow> sorted (log_epochs q) \<and> (\<forall>n \<in> set (log_epochs q). n \<le> lua_number (q_fence q)) \<and>
     (\<forall>e \<in> set (st_entries (q_exec q)). epoch_stamp e)"

section \<open>What the steps do to the ids\<close>

lemma bump_simps [simp]:
  "q_payloads (bump f n q) = q_payloads q" "q_pending (bump f n q) = q_pending q" "q_age (bump f n q) = q_age q"
  "q_done (bump f n q) = q_done q" "q_sched (bump f n q) = q_sched q" "q_inflight (bump f n q) = q_inflight q"
  "q_fence (bump f n q) = q_fence q" "q_epoch (bump f n q) = q_epoch q" "q_holder (bump f n q) = q_holder q"
  "q_ingress (bump f n q) = q_ingress q" "q_exec (bump f n q) = q_exec q" "q_results (bump f n q) = q_results q"
  "q_dead (bump f n q) = q_dead q" "q_service (bump f n q) = q_service q" "q_count (bump f n q) = q_count q"
  "q_stats (bump f n q) g = (if g = f then q_stats q f + n else q_stats q g)"
  by (simp_all add: bump_def)

lemma q_ack_simps [simp]:
  "q_payloads (q_ack gn i q) = q_payloads q" "q_pending (q_ack gn i q) = q_pending q" "q_age (q_ack gn i q) = q_age q"
  "q_done (q_ack gn i q) = q_done q" "q_inflight (q_ack gn i q) = q_inflight q" "q_stats (q_ack gn i q) = q_stats q"
  "q_fence (q_ack gn i q) = q_fence q" "q_results (q_ack gn i q) = q_results q" "q_dead (q_ack gn i q) = q_dead q"
  by (cases i; simp add: q_ack_def)+

lemma st_ack_simps [simp]:
  "st_entries (st_ack st gn ids) = st_entries st" "st_last (st_ack st gn ids) = st_last st"
  by (simp_all add: st_ack_def set_pel_def split: option.splits)

lemma q_ack_exec [simp]:
  "st_entries (q_exec (q_ack gn i q)) = st_entries (q_exec q)" "st_last (q_exec (q_ack gn i q)) = st_last (q_exec q)"
  by (cases i; simp add: q_ack_def)+

text \<open>The ids, counters and the lists of the execution and results streams depend on these fields only.\<close>

lemma ids_cong:
  assumes "q_payloads q' = q_payloads q" "q_pending q' = q_pending q"
  shows "pending_ids q' = pending_ids q" "launched_ids q' = launched_ids q"
  using assms by (simp_all add: pending_ids_def launched_ids_def)

lemma inv_ids_cong:
  assumes "q_payloads q' = q_payloads q" "q_pending q' = q_pending q" "q_age q' = q_age q" "q_done q' = q_done q"
  shows "inv_ids q' = inv_ids q"
  using assms by (simp add: inv_ids_def)

lemma inv_idsD:
  assumes "inv_ids q"
  shows "finite (dom (q_payloads q))" "finite (dom (q_done q))" "inj_on (after_first (CHR ''|'')) (dom (q_pending q))"
    "dom (q_age q) = dom (q_pending q)" "dom (q_payloads q) \<inter> dom (q_done q) = {}"
    "q_payloads q i = Some p \<Longrightarrow> \<exists>t. p = TTask t \<and> t_id t = i"
    "q_pending q m = Some f \<Longrightarrow> \<exists>i \<in> dom (q_payloads q). after_first (CHR ''|'') m = Some i"
    "q_payloads q i = Some p \<Longrightarrow> q_done q i = None"
  using assms unfolding inv_ids_def by blast+

lemma inv_idsI:
  assumes "finite (dom (q_payloads q))" "finite (dom (q_done q))" "inj_on (after_first (CHR ''|'')) (dom (q_pending q))"
    "dom (q_age q) = dom (q_pending q)" "\<And>i p. q_payloads q i = Some p \<Longrightarrow> q_done q i = None"
    "\<And>i p. q_payloads q i = Some p \<Longrightarrow> \<exists>t. p = TTask t \<and> t_id t = i"
    "\<And>m f. q_pending q m = Some f \<Longrightarrow> \<exists>i \<in> dom (q_payloads q). after_first (CHR ''|'') m = Some i"
  shows "inv_ids q"
proof -
  have "dom (q_payloads q) \<inter> dom (q_done q) = {}"
    using assms(5) by fastforce
  then show ?thesis using assms(1-4,6,7) unfolding inv_ids_def by blast
qed

text \<open>Admission, launch and the end of a task, as changes of the three sets.\<close>

lemma admit_ids:
  assumes "inv_ids q" "\<not> q_known i q" "after_first (CHR ''|'') m = Some i" "t_id t = i"
  shows "inv_ids (q_admit i m f a (TTask t) q)" "launched_ids (q_admit i m f a (TTask t) q) = launched_ids q"
    "dom (q_payloads (q_admit i m f a (TTask t) q)) = insert i (dom (q_payloads q))" "i \<notin> dom (q_payloads q)"
    "q_done (q_admit i m f a (TTask t) q) = q_done q"
proof -
  note D = inv_idsD [OF assms(1)]
  have new: "q_payloads q i = None" "q_done q i = None"
    using assms(2) by (simp_all add: q_known_def)
  have fresh: "after_first (CHR ''|'') m' \<noteq> Some i" if "q_pending q m' = Some f'" for m' f'
    using D(7) [OF that] new(1) by auto
  let ?q = "q_admit i m f a (TTask t) q"
  have pl: "q_payloads ?q = (q_payloads q)(i \<mapsto> TTask t)" "q_pending ?q = (q_pending q)(m \<mapsto> f)" "q_age ?q = (q_age q)(m \<mapsto> a)"
    "q_done ?q = q_done q"
    by (simp_all add: q_admit_def)
  have "inj_on (after_first (CHR ''|'')) (insert m (dom (q_pending q)))"
    unfolding inj_on_insert assms(3) using D(3) fresh by (force simp: image_iff)
  then show "inv_ids ?q"
  proof (intro inv_idsI, unfold pl)
    fix j p assume "((q_payloads q)(i \<mapsto> TTask t)) j = Some p"
    then show "q_done q j = None" "\<exists>t. p = TTask t \<and> t_id t = j"
      using D(6,8) new(2) assms(4) by (auto split: if_splits)
  next
    fix m' f' assume "((q_pending q)(m \<mapsto> f)) m' = Some f'"
    then show "\<exists>j \<in> dom ((q_payloads q)(i \<mapsto> TTask t)). after_first (CHR ''|'') m' = Some j"
      using D(7) assms(3) by (cases "m' = m") auto
  qed (use D(1,2,4) in auto)
  have "pending_ids ?q = insert i (pending_ids q)"
    using assms(3) unfolding pending_ids_def pl by auto
  moreover have "i \<notin> pending_ids q"
    using fresh by (auto simp: pending_ids_def)
  ultimately show "launched_ids ?q = launched_ids q"
    using new(1) unfolding launched_ids_def pl by auto
  show "dom (q_payloads ?q) = insert i (dom (q_payloads q))" "i \<notin> dom (q_payloads q)" "q_done ?q = q_done q"
    using new(1) unfolding pl by auto
qed

lemma unpend_ids:
  assumes "inv_ids q" "m \<in> dom (q_pending q)" "after_first (CHR ''|'') m = Some i"
  shows "inv_ids (q_unpend m q)" "launched_ids (q_unpend m q) = insert i (launched_ids q)" "i \<notin> launched_ids q"
    "i \<in> dom (q_payloads q)"
proof -
  note D = inv_idsD [OF assms(1)]
  have other: "m' = m" if "m' \<in> dom (q_pending q)" "after_first (CHR ''|'') m' = Some i" for m'
    using inj_onD [OF D(3), of m' m] assms(2,3) that by simp
  have "pending_ids (q_unpend m q) = pending_ids q - {i}"
    using assms(3) other unfolding pending_ids_def q_unpend_def by (fastforce split: if_splits)
  moreover show i: "i \<in> dom (q_payloads q)"
    using assms(2,3) D(7) by force
  moreover have "i \<in> pending_ids q"
    using assms(2,3) by (auto simp: pending_ids_def)
  ultimately show "launched_ids (q_unpend m q) = insert i (launched_ids q)" "i \<notin> launched_ids q"
    by (auto simp: launched_ids_def q_unpend_def)
  show "inv_ids (q_unpend m q)"
    by (rule inv_idsI) (use D in \<open>auto simp: q_unpend_def intro: inj_on_subset split: if_splits\<close>)
qed

lemma finish_ids:
  assumes "inv_ids q" "i \<in> launched_ids q" "q_payloads q' = (q_payloads q)(i := None)" "q_done q' = (q_done q)(i \<mapsto> now)"
    "q_pending q' = q_pending q" "q_age q' = q_age q"
  shows "inv_ids q'" "launched_ids q' = launched_ids q - {i}" "i \<notin> dom (q_done q)"
proof -
  note D = inv_idsD [OF assms(1)]
  have ni: "i \<notin> pending_ids q" "i \<in> dom (q_payloads q)"
    using assms(2) by (auto simp: launched_ids_def)
  have "pending_ids q' = pending_ids q"
    by (simp add: pending_ids_def assms(5))
  then show "launched_ids q' = launched_ids q - {i}"
    by (auto simp: launched_ids_def assms(3))
  show "i \<notin> dom (q_done q)"
    using D(5) ni(2) by blast
  show "inv_ids q'"
  proof (rule inv_idsI)
    fix j p assume "q_payloads q' j = Some p"
    then show "q_done q' j = None" "\<exists>t. p = TTask t \<and> t_id t = j"
      using D(6,8) unfolding assms(3,4) by (auto split: if_splits)
  next
    fix m f assume m: "q_pending q' m = Some f"
    then have m': "q_pending q m = Some f"
      by (simp add: assms(5))
    then obtain j where j: "j \<in> dom (q_payloads q)" "after_first (CHR ''|'') m = Some j"
      using D(7) by blast
    then have "j \<noteq> i"
      using ni(1) m' by (auto simp: pending_ids_def)
    then show "\<exists>j \<in> dom (q_payloads q'). after_first (CHR ''|'') m = Some j"
      using j by (auto simp: assms(3))
  qed (use D in \<open>auto simp: assms(3-6)\<close>)
qed

section \<open>Streams\<close>

lemma appendedE:
  assumes "appended ml fs st st'"
  obtains e n where "se_fields e = fs" "st_last st < se_id e" "st_last st' = se_id e" "st_groups st' = st_groups st"
    "st_entries st' = drop n (st_entries st @ [e])" "ml = None \<Longrightarrow> n = 0"
proof -
  obtain i n where a: "st_last st < i" "trim_allowed ml st n" "st' = add_entry st n \<lparr>se_id = i, se_fields = fs\<rparr>"
    using assms by (auto simp: appended_def)
  show thesis
  proof (rule that)
    show "st_entries st' = drop n (st_entries st @ [\<lparr>se_id = i, se_fields = fs\<rparr>])"
      unfolding a(3) add_entry_def by simp
    show "ml = None \<Longrightarrow> n = 0"
      using a(2) by (simp add: trim_allowed_def)
  qed (use a(1) in \<open>simp_all add: a(3) add_entry_def\<close>)
qed

lemma in_drop_append: "x \<in> set (drop n (xs @ [y])) \<Longrightarrow> x \<in> set xs \<or> x = y"
  using set_drop_subset [of n "xs @ [y]"] by auto

lemma sorted_ids_drop:
  assumes "sorted_wrt (<) (map se_id es)" "\<forall>e' \<in> set es. se_id e' < se_id e"
  shows "sorted_wrt (<) (map se_id (drop n (es @ [e])))"
proof -
  have "sorted_wrt (<) (map se_id (es @ [e]))"
    using assms by (simp add: sorted_wrt_append)
  then show ?thesis by (simp only: drop_map [symmetric] sorted_wrt_drop)
qed

lemma entry_task_raw:
  "se_fields e = (''task'', TTask t) # fs \<Longrightarrow> (\<forall>v. (''task'', v) \<notin> set fs) \<Longrightarrow> entry_task e = Some t"
  by (auto simp: entry_task_def raw_field_def field_def map_add_def map_of_eq_None_iff split: option.splits dest!: map_of_SomeD)

lemma parse_exec_task: "parse_exec_message e = Inr m \<Longrightarrow> x_id m = se_id e \<and> entry_task e = Some (x_task m)"
  by (auto simp: parse_exec_message_def entry_task_def split: sum.splits)

lemma st_ordered_append:
  assumes "st_ordered st" "appended ml fs st st'"
  shows "st_ordered st'"
proof -
  obtain e n where e: "st_last st < se_id e" "st_last st' = se_id e" "st_entries st' = drop n (st_entries st @ [e])"
    using appendedE [OF assms(2)] by metis
  note I = assms(1) [unfolded st_ordered_def]
  have below: "\<forall>e' \<in> set (st_entries st). se_id e' < se_id e"
    using I e(1) by (meson le_less_trans)
  have "(0, 0) \<le> st_last st"
    by (cases "st_last st") (simp add: less_eq_prod_def)
  then have pos: "(0, 0) < se_id e"
    using e(1) by simp
  have "sorted_wrt (<) (map se_id (st_entries st'))"
    unfolding e(3) using I below by (intro sorted_ids_drop) auto
  moreover have "(0, 0) < se_id e' \<and> se_id e' \<le> st_last st'" if "e' \<in> set (st_entries st')" for e'
    using in_drop_append [of e' n "st_entries st" e] that I below pos unfolding e(2,3) by (metis less_imp_le order_refl)
  ultimately show ?thesis
    by (simp add: st_ordered_def)
qed

text \<open>A new execution entry for a task that is launched or done keeps the stream's invariant.\<close>

lemma inv_exec_append:
  assumes "inv_exec \<lparr>w_q = q, w_held = H\<rparr>" "appended ml fs (q_exec q) st'" "q_exec q' = st'"
    and "seen_ids q \<subseteq> seen_ids q'" and "\<And>e. se_fields e = fs \<Longrightarrow> entry_task e = Some t" and "t_id t \<in> seen_ids q'"
  shows "inv_exec \<lparr>w_q = q', w_held = H\<rparr>"
proof -
  obtain e n where e: "se_fields e = fs" "st_last (q_exec q) < se_id e" "st_last st' = se_id e"
      "st_entries st' = drop n (st_entries (q_exec q) @ [e])"
    using appendedE [OF assms(2)] by metis
  note I = assms(1) [unfolded inv_exec_def world.select_convs]
  have below: "\<forall>e' \<in> set (st_entries (q_exec q)). se_id e' < se_id e"
    using I e(2) by (meson le_less_trans)
  have sorted: "sorted_wrt (<) (map se_id (st_entries st'))"
    unfolding e(4) using I below by (intro sorted_ids_drop) auto
  have old: "e' \<in> set (st_entries (q_exec q)) \<or> e' = e" if "e' \<in> set (st_entries st')" for e'
    using that unfolding e(4) by (rule in_drop_append)
  have "(0, 0) \<le> st_last (q_exec q)"
    by (cases "st_last (q_exec q)") (simp add: less_eq_prod_def)
  then have pos: "(0, 0) < se_id e"
    using e(2) by simp
  have entries: "(0, 0) < se_id e' \<and> se_id e' \<le> st_last st' \<and> (\<exists>u. entry_task e' = Some u \<and> t_id u \<in> seen_ids q')"
    if "e' \<in> set (st_entries st')" for e'
    using old [OF that] I below pos assms(4,6) assms(5) [OF e(1)] unfolding e(3) by (metis less_imp_le order_refl subsetD)
  have held: "x_id m \<le> st_last st' \<and> t_id (x_task m) \<in> seen_ids q' \<and>
      (\<forall>e' \<in> set (st_entries st'). se_id e' = x_id m \<longrightarrow> entry_task e' = Some (x_task m))" if "m \<in> H" for m
  proof -
    have m: "x_id m \<le> st_last (q_exec q)" "t_id (x_task m) \<in> seen_ids q"
      "\<forall>e' \<in> set (st_entries (q_exec q)). se_id e' = x_id m \<longrightarrow> entry_task e' = Some (x_task m)"
      using I that by auto
    then show ?thesis using old e(2,3) assms(4) by (metis le_less_trans less_imp_le less_irrefl subsetD)
  qed
  show ?thesis using sorted entries held unfolding inv_exec_def by (simp add: assms(3))
qed

lemma inv_exec_same:
  assumes "inv_exec \<lparr>w_q = q, w_held = H\<rparr>" "st_entries (q_exec q') = st_entries (q_exec q)"
    "st_last (q_exec q') = st_last (q_exec q)" "seen_ids q \<subseteq> seen_ids q'"
  shows "inv_exec \<lparr>w_q = q', w_held = H\<rparr>"
  using assms unfolding inv_exec_def by (simp add: subset_iff) blast

text \<open>Messages a worker receives are entries of the stream.\<close>

lemma inv_exec_receive:
  assumes "inv_exec \<lparr>w_q = q, w_held = H\<rparr>" "set es \<subseteq> set (st_entries (q_exec q))"
  shows "inv_exec \<lparr>w_q = q, w_held = H \<union> received es\<rparr>"
proof -
  note I = assms(1) [unfolded inv_exec_def world.select_convs]
  have uniq: "e = e'" if "e \<in> set (st_entries (q_exec q))" "e' \<in> set (st_entries (q_exec q))" "se_id e = se_id e'" for e e'
  proof -
    have "distinct (map se_id (st_entries (q_exec q)))"
      using I by (simp add: strict_sorted_iff)
    then show ?thesis using that by (simp add: distinct_map inj_on_def)
  qed
  have "x_id m \<le> st_last (q_exec q) \<and> t_id (x_task m) \<in> seen_ids q \<and>
      (\<forall>e' \<in> set (st_entries (q_exec q)). se_id e' = x_id m \<longrightarrow> entry_task e' = Some (x_task m))" if "m \<in> received es" for m
  proof -
    obtain e where e: "e \<in> set (st_entries (q_exec q))" "x_id m = se_id e" "entry_task e = Some (x_task m)"
      using \<open>m \<in> received es\<close> assms(2) parse_exec_task by (fastforce simp: received_def)
    then show ?thesis using I uniq by (metis option.inject)
  qed
  then show ?thesis using I unfolding inv_exec_def by auto
qed

section \<open>Live deliveries\<close>

lemma live_append:
  assumes "appended None fs st st'"
  shows "live_entry st gn e \<Longrightarrow> live_entry st' gn e"
    "\<forall>g. st_groups st gn = Some g \<longrightarrow> g_last g \<le> st_last st \<Longrightarrow>
     \<exists>e. live_entry st' gn e \<and> se_fields e = fs \<and> st_last st < se_id e"
proof -
  obtain e0 where e0: "se_fields e0 = fs" "st_last st < se_id e0" "st_entries st' = st_entries st @ [e0]" "st_groups st' = st_groups st"
    using appendedE [OF assms] by (metis drop0)
  show "live_entry st gn e \<Longrightarrow> live_entry st' gn e"
    using e0 by (auto simp: live_entry_def)
  assume "\<forall>g. st_groups st gn = Some g \<longrightarrow> g_last g \<le> st_last st"
  then have "live_entry st' gn e0"
    using e0 by (auto simp: live_entry_def split: option.splits dest: le_less_trans)
  then show "\<exists>e. live_entry st' gn e \<and> se_fields e = fs \<and> st_last st < se_id e"
    using e0 by blast
qed

lemma live_ack: "live_entry st gn e \<Longrightarrow> se_id e \<noteq> j \<Longrightarrow> live_entry (st_ack st gn [j]) gn e"
  by (auto simp: live_entry_def st_ack_def set_pel_def split: option.splits)

lemma live_deliver:
  assumes "sorted_wrt (<) (map se_id (st_entries st))" "st_groups st gn = Some g" "es = take n (unread st (g_last g))"
  shows "live_entry st gn e \<Longrightarrow> live_entry (deliver st gn g es) gn e"
proof -
  assume live: "live_entry st gn e"
  show ?thesis
  proof (cases "es = []")
    case True
    then show ?thesis using live by (simp add: deliver_def)
  next
    case False
    have e: "e \<in> set (st_entries st)" "g_last g < se_id e \<or> se_id e \<in> g_pel g"
      using live assms(2) by (auto simp: live_entry_def)
    have "se_id (last es) < se_id e \<or> e \<in> set es" if "g_last g < se_id e"
    proof -
      let ?u = "unread st (g_last g)"
      have mem: "e \<in> set ?u"
        using that e(1) by (simp add: unread_def)
      have srt: "sorted_wrt (\<lambda>a b. se_id a < se_id b) ?u"
        using assms(1) unfolding unread_def sorted_wrt_map by (rule sorted_wrt_filter)
      have "?u = es @ drop n ?u"
        by (simp add: assms(3))
      then have "e \<in> set es \<or> e \<in> set (drop n ?u)" "\<forall>a \<in> set es. \<forall>b \<in> set (drop n ?u). se_id a < se_id b"
        using mem srt by (metis Un_iff set_append, metis sorted_wrt_append)
      then show ?thesis using last_in_set [OF False] by blast
    qed
    then show ?thesis using e False by (auto simp: live_entry_def deliver_def)
  qed
qed

lemma deliver_simps [simp]:
  "st_entries (deliver st gn g es) = st_entries st" "st_last (deliver st gn g es) = st_last st"
  by (simp_all add: deliver_def)

lemma set_pel_simps [simp]:
  "st_entries (set_pel st gn g pel) = st_entries st" "st_last (set_pel st gn g pel) = st_last st"
  "st_groups (set_pel st gn g pel) gn = Some (g\<lparr>g_pel := pel\<rparr>)"
  by (simp_all add: set_pel_def)

text \<open>Acknowledging a message leaves a live delivery to every launched task that had one under another id.\<close>

lemma st_ack_last: "st_groups (st_ack st gn ids) gn = Some g' \<Longrightarrow> \<exists>g. st_groups st gn = Some g \<and> g_last g' = g_last g"
  by (auto simp: st_ack_def set_pel_def split: option.splits)

lemma inv_live_ack:
  assumes "\<forall>g. st_groups (q_exec q) gn = Some g \<longrightarrow> g_last g \<le> st_last (q_exec q)"
    and "\<And>i. i \<in> launched_ids q \<Longrightarrow>
      \<exists>e t. live_entry (q_exec q) gn e \<and> se_id e \<noteq> j \<and> entry_task e = Some t \<and> t_id t = i"
  shows "inv_live gn (q_ack gn (Some j) q)"
proof -
  have "launched_ids (q_ack gn (Some j) q) = launched_ids q"
    by (rule ids_cong) simp_all
  moreover have "q_exec (q_ack gn (Some j) q) = st_ack (q_exec q) gn [j]"
    by (simp add: q_ack_def)
  ultimately show ?thesis
    unfolding inv_live_def using assms live_ack st_ack_last by (metis st_ack_simps(2))
qed

section \<open>Every step keeps the invariants\<close>

definition winv :: "string \<Rightarrow> int \<Rightarrow> world \<Rightarrow> bool" where
  "winv gn maxLen w \<longleftrightarrow>
     inv_ids (w_q w) \<and> inv_counts (w_q w) \<and> inv_exec w \<and> inv_results (w_q w) \<and> inv_epochs (w_q w) \<and>
     (maxLen \<le> 0 \<longrightarrow> inv_live gn (w_q w))"

lemma winvI [intro?]:
  assumes "inv_ids q" "inv_counts q" "inv_exec \<lparr>w_q = q, w_held = H\<rparr>" "inv_results q" "inv_epochs q"
    "maxLen \<le> 0 \<Longrightarrow> inv_live gn q"
  shows "winv gn maxLen \<lparr>w_q = q, w_held = H\<rparr>"
  using assms by (simp add: winv_def)

lemma winvD:
  assumes "winv gn maxLen \<lparr>w_q = q, w_held = H\<rparr>"
  shows "inv_ids q" "inv_counts q" "inv_exec \<lparr>w_q = q, w_held = H\<rparr>" "inv_results q" "inv_epochs q"
    "maxLen \<le> 0 \<Longrightarrow> inv_live gn q"
  using assms by (simp_all add: winv_def)

lemma winv_aux:
  assumes "winv gn maxLen \<lparr>w_q = q, w_held = H\<rparr>" "lua_number (q_fence q) \<le> lua_number f"
  shows "winv gn maxLen \<lparr>w_q = q\<lparr>q_ingress := a, q_sched := b, q_holder := c, q_epoch := d, q_fence := f\<rparr>, w_held = H\<rparr>"
proof -
  note W = winvD [OF assms(1)]
  let ?q = "q\<lparr>q_ingress := a, q_sched := b, q_holder := c, q_epoch := d, q_fence := f\<rparr>"
  have same: "pending_ids ?q = pending_ids q" "launched_ids ?q = launched_ids q" "seen_ids ?q = seen_ids q"
    "result_ids ?q = result_ids q" "log_epochs ?q = log_epochs q"
    by (simp_all add: pending_ids_def launched_ids_def seen_ids_def result_ids_def log_epochs_def)
  show ?thesis
    using W assms(2)
    by (intro winvI) (auto simp: inv_ids_def inv_counts_def inv_exec_def inv_results_def inv_epochs_def inv_live_def same)
qed

lemma winv_admitted:
  assumes "winv gn maxLen \<lparr>w_q = q, w_held = H\<rparr>" "\<not> q_known (t_id t) q" "after_first (CHR ''|'') m = Some (t_id t)"
  shows "winv gn maxLen \<lparr>w_q = q_admit (t_id t) m f a (TTask t) q, w_held = H\<rparr>"
proof -
  note W = winvD [OF assms(1)]
  note A = admit_ids [OF W(1) assms(2,3) refl]
  let ?q = "q_admit (t_id t) m f a (TTask t) q"
  have same: "q_exec ?q = q_exec q" "q_results ?q = q_results q" "q_inflight ?q = q_inflight q" "q_fence ?q = q_fence q"
    by (simp_all add: q_admit_def)
  have seen: "seen_ids ?q = seen_ids q"
    by (simp add: seen_ids_def A(2,5))
  have card: "card (dom (q_payloads ?q)) = Suc (card (dom (q_payloads q)))"
    unfolding A(3) using inv_idsD(1) [OF W(1)] A(4) by simp
  show ?thesis
  proof (rule winvI)
    show "inv_counts ?q"
      using W(2) unfolding inv_counts_def A(2,5) same card by (simp add: q_admit_def)
    show "inv_exec \<lparr>w_q = ?q, w_held = H\<rparr>"
      by (rule inv_exec_same [OF W(3)]) (simp_all add: same seen)
    show "inv_results ?q"
      using W(4) by (simp add: inv_results_def result_ids_def same A(5))
    show "inv_epochs ?q"
      using W(5) by (simp add: inv_epochs_def log_epochs_def same)
    show "inv_live gn ?q" if "maxLen \<le> 0"
      using W(6) [OF that] by (simp add: inv_live_def same A(2))
  qed (rule A(1))
qed

lemma field_simps:
  "entry_epoch e = (case map_of (rev (se_fields e)) ''epoch'' of Some (TNum n) \<Rightarrow> lua_number n | _ \<Rightarrow> 0)"
  "epoch_stamp e = (case map_of (rev (se_fields e)) ''epoch'' of None \<Rightarrow> True | Some (TNum n) \<Rightarrow> True | Some _ \<Rightarrow> False)"
  by (simp_all add: entry_epoch_def epoch_stamp_def field_def)

lemma log_epochs_append:
  assumes "appended ml fs (q_exec q) st'" "q_exec q' = st'"
  obtains e n where "se_fields e = fs"
    "log_epochs q' = filter (\<lambda>n. 0 < n) (drop n (map entry_epoch (st_entries (q_exec q)) @ [entry_epoch e]))"
    "set (st_entries (q_exec q')) \<subseteq> insert e (set (st_entries (q_exec q)))"
proof -
  obtain e n where "se_fields e = fs" "st_entries st' = drop n (st_entries (q_exec q) @ [e])"
    using appendedE [OF assms(1)] by metis
  then show thesis
    using that [of e n] set_drop_subset [of n "st_entries (q_exec q) @ [e]"]
    by (simp add: log_epochs_def assms(2) drop_map [symmetric] del: drop_append)
qed

lemma filter_drop_sublist: "sorted (filter P xs) \<Longrightarrow> sorted (filter P (drop n xs))"
proof -
  assume "sorted (filter P xs)"
  then have "sorted (filter P (take n xs) @ filter P (drop n xs))"
    by (metis append_take_drop_id filter_append)
  then show ?thesis by (simp add: sorted_append)
qed

lemma inv_epochs_append:
  assumes "inv_epochs q" "appended ml fs (q_exec q) st'" "q_exec q' = st'" "q_fence q' = q_fence q"
    and "\<And>e. se_fields e = fs \<Longrightarrow> 0 < entry_epoch e \<Longrightarrow> entry_epoch e = lua_number (q_fence q)"
    and "\<And>e. se_fields e = fs \<Longrightarrow> epoch_stamp e"
  shows "inv_epochs q'"
proof -
  obtain e n where e: "se_fields e = fs"
      "log_epochs q' = filter (\<lambda>n. 0 < n) (drop n (map entry_epoch (st_entries (q_exec q)) @ [entry_epoch e]))"
      "set (st_entries (q_exec q')) \<subseteq> insert e (set (st_entries (q_exec q)))"
    using log_epochs_append [OF assms(2,3)] .
  let ?xs = "map entry_epoch (st_entries (q_exec q)) @ [entry_epoch e]"
  have all: "filter (\<lambda>n. 0 < n) ?xs = log_epochs q @ (if 0 < entry_epoch e then [entry_epoch e] else [])"
    by (simp add: log_epochs_def)
  have "sorted (filter (\<lambda>n. 0 < n) ?xs) \<and> (\<forall>n \<in> set (filter (\<lambda>n. 0 < n) ?xs). n \<le> lua_number (q_fence q))"
    unfolding all using assms(1) assms(5) [OF e(1)] by (auto simp: inv_epochs_def sorted_append)
  moreover have "set (filter (\<lambda>n. 0 < n) (drop n ?xs)) \<subseteq> set (filter (\<lambda>n. 0 < n) ?xs)"
    using set_drop_subset [of n ?xs] by auto
  moreover have "\<forall>x \<in> set (st_entries (q_exec q')). epoch_stamp x"
    using e(1,3) assms(1,6) by (auto simp: inv_epochs_def)
  ultimately show ?thesis
    unfolding inv_epochs_def e(2) assms(4) using filter_drop_sublist [of _ ?xs n] by blast
qed

lemma winv_launched:
  assumes "winv gn maxLen \<lparr>w_q = q, w_held = H\<rparr>" "zmin (q_pending q) m f" "passed ep q"
    "q_launch now maxLen (TNum ep) m f q ts q'"
  shows "winv gn maxLen \<lparr>w_q = q', w_held = H\<rparr>"
proof -
  note W = winvD [OF assms(1)]
  have m: "m \<in> dom (q_pending q)"
    using assms(2) by (auto simp: zmin_def)
  then obtain i p where i: "after_first (CHR ''|'') m = Some i" "q_payloads q i = Some p"
    using inv_idsD(7) [OF W(1)] by fastforce
  then obtain t where t: "p = TTask t" "t_id t = i"
    using inv_idsD(6) [OF W(1)] by blast
  let ?fs = "[(''task'', TTask t), (''dispatched_at_ms'', now), (''epoch'', TNum ep)]"
  obtain st' where st': "appended (trim_arg maxLen) ?fs (q_exec q) st'"
      "q' = (bump ''dispatched'' 1 (q_unpend m q))\<lparr>q_exec := st', q_inflight := q_inflight q + 1\<rparr>"
    using assms(4) i t by (cases rule: q_launch.cases) auto
  note U = unpend_ids [OF W(1) m i(1)]
  have same: "q_payloads q' = q_payloads q" "q_done q' = q_done q" "q_results q' = q_results q" "q_fence q' = q_fence q" "q_exec q' = st'"
    by (simp_all add: st'(2) q_unpend_def)
  have launched: "launched_ids q' = insert i (launched_ids q)"
    unfolding U(2) [symmetric] by (rule ids_cong) (simp_all add: st'(2))
  have fin: "finite (launched_ids q)"
    using inv_idsD(1) [OF W(1)] by (simp add: launched_ids_def)
  have seen: "seen_ids q \<subseteq> seen_ids q'" "i \<in> seen_ids q'"
    by (auto simp: seen_ids_def launched same)
  have task: "entry_task e = Some t" if "se_fields e = ?fs" for e
    by (rule entry_task_raw [OF that]) simp
  show ?thesis
  proof (rule winvI)
    show "inv_ids q'"
      using U(1) by (subst inv_ids_cong [of q' "q_unpend m q"]) (simp_all add: st'(2))
    show "inv_counts q'"
      using W(2) U(3) fin unfolding inv_counts_def launched same by (simp add: st'(2) q_unpend_def)
    show "inv_exec \<lparr>w_q = q', w_held = H\<rparr>"
      by (rule inv_exec_append [OF W(3) st'(1) same(5) seen(1) task]) (simp_all add: t(2) seen(2))
    show "inv_results q'"
      using W(4) by (simp add: inv_results_def result_ids_def same)
    show "inv_epochs q'"
    proof (rule inv_epochs_append [OF W(5) st'(1) same(5,4)])
      fix e assume "se_fields e = ?fs" "0 < entry_epoch e"
      then show "entry_epoch e = lua_number (q_fence q)"
        using assms(3) lua_number_nonpos [of ep] by (auto simp: field_simps passed_def)
    qed (simp add: field_simps)
    show "inv_live gn q'" if "maxLen \<le> 0"
    proof -
      have none: "trim_arg maxLen = None"
        using that by (simp add: trim_arg_def)
      note L = W(6) [OF that, unfolded inv_live_def]
      note app = live_append [OF st'(1) [unfolded none]]
      obtain e where "live_entry st' gn e" "se_fields e = ?fs"
        using app(2) [of gn] L by blast
      then have "\<forall>j \<in> launched_ids q'. \<exists>e u. live_entry st' gn e \<and> entry_task e = Some u \<and> t_id u = j"
        using L app(1) [of gn] task t(2) unfolding launched by blast
      moreover have "\<forall>g. st_groups st' gn = Some g \<longrightarrow> g_last g \<le> st_last st'"
        using L appendedE [OF st'(1)] by (metis less_imp_le order_trans)
      ultimately show ?thesis by (simp add: inv_live_def same(5))
    qed
  qed
qed

lemma winv_group_only:
  assumes "winv gn maxLen \<lparr>w_q = q, w_held = H\<rparr>" "st_entries st' = st_entries (q_exec q)" "st_last st' = st_last (q_exec q)"
    and "set es \<subseteq> set (st_entries (q_exec q))"
    and "\<And>e. live_entry (q_exec q) gn e \<Longrightarrow> live_entry st' gn e"
    and "inv_exec \<lparr>w_q = q, w_held = H\<rparr> \<Longrightarrow> \<forall>g. st_groups (q_exec q) gn = Some g \<longrightarrow> g_last g \<le> st_last (q_exec q) \<Longrightarrow>
      \<forall>g. st_groups st' gn = Some g \<longrightarrow> g_last g \<le> st_last st'"
  shows "winv gn maxLen \<lparr>w_q = q\<lparr>q_exec := st'\<rparr>, w_held = H \<union> received es\<rparr>"
proof -
  note W = winvD [OF assms(1)]
  let ?q = "q\<lparr>q_exec := st'\<rparr>"
  have same: "pending_ids ?q = pending_ids q" "launched_ids ?q = launched_ids q" "seen_ids ?q = seen_ids q"
    by (simp_all add: pending_ids_def launched_ids_def seen_ids_def)
  show ?thesis
  proof (rule winvI)
    show "inv_ids ?q"
      using W(1) by (simp add: inv_ids_cong [of ?q q])
    show "inv_counts ?q"
      using W(2) by (simp add: inv_counts_def same)
    show "inv_exec \<lparr>w_q = ?q, w_held = H \<union> received es\<rparr>"
      by (rule inv_exec_receive, rule inv_exec_same [OF W(3)]) (use assms(2-4) same in simp_all)
    show "inv_results ?q"
      using W(4) by (simp add: inv_results_def result_ids_def)
    show "inv_epochs ?q"
      using W(5) by (simp add: inv_epochs_def log_epochs_def assms(2))
    show "inv_live gn ?q" if "maxLen \<le> 0"
      using W(6) [OF that] assms(5) assms(6) [OF W(3)] by (simp add: inv_live_def same) blast
  qed
qed

lemma held_seen:
  assumes "inv_exec \<lparr>w_q = q, w_held = H\<rparr>" "msg \<in> H"
  shows "t_id (x_task msg) \<in> seen_ids q" "x_id msg \<le> st_last (q_exec q)"
    "e \<in> set (st_entries (q_exec q)) \<Longrightarrow> entry_task e = Some t \<Longrightarrow> t_id t \<noteq> t_id (x_task msg) \<Longrightarrow> se_id e \<noteq> x_id msg"
  using assms by (auto simp: inv_exec_def)

lemma live_other:
  assumes "inv_live gn q" "inv_exec \<lparr>w_q = q, w_held = H\<rparr>" "msg \<in> H" "k \<in> launched_ids q" "k \<noteq> t_id (x_task msg)"
  shows "\<exists>e t. live_entry (q_exec q) gn e \<and> se_id e \<noteq> x_id msg \<and> entry_task e = Some t \<and> t_id t = k"
proof -
  obtain e t where e: "live_entry (q_exec q) gn e" "entry_task e = Some t" "t_id t = k"
    using assms(1,4) by (auto simp: inv_live_def)
  then have "se_id e \<noteq> x_id msg"
    using held_seen(3) [OF assms(2,3)] assms(5) by (auto simp: live_entry_def)
  then show ?thesis using e by blast
qed

text \<open>The end of a task: completion and dead-lettering change ids and counters alike.\<close>

lemma winv_finished:
  assumes "winv gn maxLen \<lparr>w_q = q, w_held = H\<rparr>" "msg \<in> H" "q_done q (t_id (x_task msg)) = None"
    and q1: "q_payloads q1 = (q_payloads q)(t_id (x_task msg) := None)" "q_done q1 = (q_done q)(t_id (x_task msg) \<mapsto> now)"
      "q_pending q1 = q_pending q" "q_age q1 = q_age q" "q_inflight q1 = q_inflight q - 1" "q_fence q1 = q_fence q"
      "q_exec q1 = q_exec q"
    and st: "q_stats q1 ''completed'' + q_stats q1 ''dead_lettered'' = q_stats q ''completed'' + q_stats q ''dead_lettered'' + 1"
      "q_stats q1 ''dispatched'' = q_stats q ''dispatched''" "q_stats q1 ''admitted'' = q_stats q ''admitted''"
    and res: "inv_results q1"
  shows "winv gn maxLen \<lparr>w_q = q_ack gn (Some (x_id msg)) q1, w_held = H\<rparr>"
proof -
  note W = winvD [OF assms(1)]
  let ?i = "t_id (x_task msg)" and ?q = "q_ack gn (Some (x_id msg)) q1"
  have i: "?i \<in> launched_ids q"
    using held_seen(1) [OF W(3) assms(2)] assms(3) by (auto simp: seen_ids_def)
  note F = finish_ids [OF W(1) i q1(1-4)]
  have ids: "pending_ids ?q = pending_ids q1" "launched_ids ?q = launched_ids q1"
    by (rule ids_cong; simp)+
  have seen: "seen_ids q1 = seen_ids q"
    using i by (auto simp: seen_ids_def F(2) q1(2))
  have fin: "finite (launched_ids q)" "finite (dom (q_done q))" "finite (dom (q_payloads q))" "?i \<in> dom (q_payloads q)"
    using inv_idsD(1,2) [OF W(1)] i by (auto simp: launched_ids_def)
  have card: "card (launched_ids q - {?i}) + 1 = card (launched_ids q)" "card (dom (q_done q1)) = card (dom (q_done q)) + 1"
    "card (dom (q_payloads q1)) + 1 = card (dom (q_payloads q))"
    using i fin F(3) card_Suc_Diff1 [OF fin(1) i] card_Suc_Diff1 [OF fin(3,4)] by (simp_all add: q1(1,2))
  show ?thesis
  proof (rule winvI)
    show "inv_ids ?q"
      using F(1) by (subst inv_ids_cong [of ?q q1]) simp_all
    show "inv_counts ?q"
      using W(2) card st unfolding inv_counts_def ids F(2) by (simp add: q1(5))
    show "inv_exec \<lparr>w_q = ?q, w_held = H\<rparr>"
      by (rule inv_exec_same [OF W(3)]) (simp_all add: q1 seen_ids_def ids seen [symmetric, unfolded seen_ids_def])
    show "inv_results ?q"
      using res by (simp add: inv_results_def result_ids_def)
    show "inv_epochs ?q"
      using W(5) by (simp add: inv_epochs_def log_epochs_def q1)
    show "inv_live gn ?q" if "maxLen \<le> 0"
    proof (rule inv_live_ack)
      show "\<forall>g. st_groups (q_exec q1) gn = Some g \<longrightarrow> g_last g \<le> st_last (q_exec q1)"
        using W(6) [OF that] by (simp add: inv_live_def q1)
      fix k assume "k \<in> launched_ids q1"
      then show "\<exists>e t. live_entry (q_exec q1) gn e \<and> se_id e \<noteq> x_id msg \<and> entry_task e = Some t \<and> t_id t = k"
        using live_other [OF W(6) [OF that] W(3) assms(2)] by (auto simp: F(2) q1(7))
    qed
  qed
qed

lemma result_ids_append:
  assumes "appended ml [(''result'', TResult r)] (q_results q) st'" "q_results q' = st'"
  obtains n where "result_ids q' = drop n (result_ids q @ [r_task_id r])"
    "\<forall>e \<in> set (st_entries st'). e \<in> set (st_entries (q_results q)) \<or> entry_result e = Some r"
proof -
  obtain e n where e: "se_fields e = [(''result'', TResult r)]" "st_entries st' = drop n (st_entries (q_results q) @ [e])"
    using appendedE [OF assms(1)] by metis
  have "entry_result e = Some r"
    using e(1) by (simp add: entry_result_def raw_field_def field_def)
  then have "\<forall>e \<in> set (st_entries st'). e \<in> set (st_entries (q_results q)) \<or> entry_result e = Some r"
    using in_drop_append [of _ n "st_entries (q_results q)" e] unfolding e(2) by blast
  moreover have "result_ids q' = drop n (result_ids q @ [r_task_id r])"
    using \<open>entry_result e = Some r\<close> e(2) by (simp add: result_ids_def assms(2) drop_map [symmetric] del: drop_append)
  ultimately show thesis
    using that by blast
qed

lemma winv_completed:
  assumes "winv gn maxLen \<lparr>w_q = q, w_held = H\<rparr>" "msg \<in> H" "r_task_id r = t_id (x_task msg)"
    "q_complete maxLen (r_task_id r) (TResult r) tenant ms missed now gn (Some (x_id msg)) q recorded q'"
  shows "winv gn maxLen \<lparr>w_q = q', w_held = H\<rparr>"
proof -
  note W = winvD [OF assms(1)]
  let ?i = "t_id (x_task msg)"
  show ?thesis
  proof (cases "q_done q ?i")
    case None
    then obtain st' where st': "appended (trim_arg maxLen) [(''result'', TResult r)] (q_results q) st'"
        "q' = q_ack gn (Some (x_id msg)) (bump ''completed'' 1 (if missed then bump ''deadline_missed'' 1 q else q)
            \<lparr>q_done := (q_done q)(?i \<mapsto> now), q_payloads := (q_payloads q)(?i := None), q_results := st',
             q_service := (q_service q)(tenant := q_service q tenant + ms),
             q_count := (q_count q)(tenant := q_count q tenant + 1), q_inflight := q_inflight q - 1\<rparr>)" (is "_ = q_ack gn _ ?q1")
      using assms(3,4) by (auto simp: q_complete_def)
    obtain n where n: "result_ids ?q1 = drop n (result_ids q @ [r_task_id r])"
        "\<forall>e \<in> set (st_entries st'). e \<in> set (st_entries (q_results q)) \<or> entry_result e = Some r"
      using result_ids_append [OF st'(1), of ?q1] by auto
    have "st_ordered st'"
      using W(4) st_ordered_append [OF _ st'(1)] by (simp add: inv_results_def)
    moreover have "\<forall>e \<in> set (st_entries st'). entry_result e \<noteq> None"
      using n(2) W(4) by (auto simp: inv_results_def)
    moreover have "r_task_id r \<notin> set (result_ids q)"
      using W(4) None assms(3) by (auto simp: inv_results_def)
    ultimately have "inv_results ?q1"
      using W(4) assms(3) set_drop_subset [of n "result_ids q @ [r_task_id r]"]
        distinct_drop [of "result_ids q @ [r_task_id r]" n]
      unfolding inv_results_def n(1) by (auto simp del: drop_append)
    then show ?thesis
      unfolding st'(2) by (intro winv_finished [OF assms(1,2) None]) auto
  next
    case (Some x)
    then have q': "q' = q_ack gn (Some (x_id msg)) (bump ''duplicate_completions'' 1 q)" (is "_ = q_ack gn _ ?q1")
      using assms(3,4) by (simp add: q_complete_def)
    have ids: "pending_ids q' = pending_ids q" "launched_ids q' = launched_ids q" "launched_ids ?q1 = launched_ids q"
      unfolding q' by (rule ids_cong; simp)+
    have gone: "?i \<notin> launched_ids q"
      using Some inv_idsD(8) [OF W(1)] by (auto simp: launched_ids_def)
    show ?thesis
    proof (rule winvI)
      show "inv_ids q'"
        using W(1) by (subst inv_ids_cong [of q' q]) (simp_all add: q')
      show "inv_counts q'"
        using W(2) unfolding inv_counts_def ids by (simp add: q')
      show "inv_exec \<lparr>w_q = q', w_held = H\<rparr>"
        by (rule inv_exec_same [OF W(3)]) (simp_all add: seen_ids_def ids, simp_all add: q')
      show "inv_results q'"
        using W(4) by (simp add: inv_results_def result_ids_def q')
      show "inv_epochs q'"
        using W(5) by (simp add: inv_epochs_def log_epochs_def q')
      show "inv_live gn q'" if "maxLen \<le> 0"
        unfolding q'
      proof (rule inv_live_ack)
        show "\<forall>g. st_groups (q_exec ?q1) gn = Some g \<longrightarrow> g_last g \<le> st_last (q_exec ?q1)"
          using W(6) [OF that] by (simp add: inv_live_def)
        fix k assume "k \<in> launched_ids ?q1"
        then show "\<exists>e t. live_entry (q_exec ?q1) gn e \<and> se_id e \<noteq> x_id msg \<and> entry_task e = Some t \<and> t_id t = k"
          using live_other [OF W(6) [OF that] W(3) assms(2)] gone by (auto simp: ids)
      qed
    qed
  qed
qed

lemma winv_retried:
  assumes "winv gn maxLen \<lparr>w_q = q, w_held = H\<rparr>" "msg \<in> H" "t_id next = t_id (x_task msg)"
    "q_retry maxLen (t_id (x_task msg)) (TTask next) dead isDead now gn (Some (x_id msg)) q r q'"
  shows "winv gn maxLen \<lparr>w_q = q', w_held = H\<rparr>"
proof -
  note W = winvD [OF assms(1)]
  let ?i = "t_id (x_task msg)"
  consider (gone) "q_done q ?i \<noteq> None" | (dead) "q_done q ?i = None" isDead | (again) "q_done q ?i = None" "\<not> isDead"
    by blast
  then show ?thesis
  proof cases
    case gone
    then have q': "q' = q_ack gn (Some (x_id msg)) q"
      using assms(4) by (simp add: q_retry_def)
    have ids: "pending_ids q' = pending_ids q" "launched_ids q' = launched_ids q"
      unfolding q' by (rule ids_cong; simp)+
    have gone': "?i \<notin> launched_ids q"
      using gone inv_idsD(8) [OF W(1)] by (auto simp: launched_ids_def)
    show ?thesis
    proof (rule winvI)
      show "inv_ids q'"
        using W(1) by (subst inv_ids_cong [of q' q]) (simp_all add: q')
      show "inv_counts q'"
        using W(2) unfolding inv_counts_def ids by (simp add: q')
      show "inv_exec \<lparr>w_q = q', w_held = H\<rparr>"
        by (rule inv_exec_same [OF W(3)]) (simp_all add: seen_ids_def ids, simp_all add: q')
      show "inv_results q'"
        using W(4) by (simp add: inv_results_def result_ids_def q')
      show "inv_epochs q'"
        using W(5) by (simp add: inv_epochs_def log_epochs_def q')
      show "inv_live gn q'" if "maxLen \<le> 0"
        unfolding q'
      proof (rule inv_live_ack)
        show "\<forall>g. st_groups (q_exec q) gn = Some g \<longrightarrow> g_last g \<le> st_last (q_exec q)"
          using W(6) [OF that] by (simp add: inv_live_def)
        fix k assume "k \<in> launched_ids q"
        then show "\<exists>e t. live_entry (q_exec q) gn e \<and> se_id e \<noteq> x_id msg \<and> entry_task e = Some t \<and> t_id t = k"
          using live_other [OF W(6) [OF that] W(3) assms(2)] gone' by auto
      qed
    qed
  next
    case dead
    then obtain st' where q': "q' = q_ack gn (Some (x_id msg)) ((bump ''dead_lettered'' 1 q)
          \<lparr>q_dead := st', q_payloads := (q_payloads q)(?i := None), q_done := (q_done q)(?i \<mapsto> now),
           q_inflight := q_inflight q - 1\<rparr>)"
      using assms(4) by (auto simp: q_retry_def q_retire_def)
    have "inv_results ((bump ''dead_lettered'' 1 q)\<lparr>q_dead := st', q_payloads := (q_payloads q)(?i := None),
        q_done := (q_done q)(?i \<mapsto> now), q_inflight := q_inflight q - 1\<rparr>)"
      using W(4) by (auto simp: inv_results_def result_ids_def)
    then show ?thesis
      unfolding q' by (intro winv_finished [OF assms(1,2) dead(1)]) auto
  next
    case again
    let ?fs = "[(''task'', TTask next), (''dispatched_at_ms'', now)]"
    obtain st' where st': "appended (trim_arg maxLen) ?fs (q_exec q) st'"
        "q' = q_ack gn (Some (x_id msg)) ((bump ''retried'' 1 q)\<lparr>q_exec := st', q_payloads := (q_payloads q)(?i \<mapsto> TTask next)\<rparr>)"
        (is "_ = q_ack gn _ ?q1")
      using assms(4) again by (auto simp: q_retry_def q_redeliver_def)
    note D = inv_idsD [OF W(1)]
    have i: "?i \<in> launched_ids q"
      using held_seen(1) [OF W(3) assms(2)] again(1) by (auto simp: seen_ids_def)
    then have dom: "dom (q_payloads ?q1) = dom (q_payloads q)"
      by (auto simp: launched_ids_def)
    have pend: "pending_ids ?q1 = pending_ids q"
      by (simp add: pending_ids_def)
    have ids: "launched_ids q' = launched_ids q" "launched_ids ?q1 = launched_ids q"
      using dom pend ids_cong [of q' ?q1] unfolding st'(2) by (simp_all add: launched_ids_def)
    have seen: "seen_ids ?q1 = seen_ids q" "seen_ids q' = seen_ids ?q1"
      by (simp_all add: seen_ids_def ids) (simp add: st'(2))
    have task: "entry_task e = Some next" if "se_fields e = ?fs" for e
      by (rule entry_task_raw [OF that]) simp
    have exec1: "inv_exec \<lparr>w_q = ?q1, w_held = H\<rparr>"
      by (rule inv_exec_append [OF W(3) st'(1) _ _ task]) (use i seen assms(3) in \<open>auto simp: seen_ids_def\<close>)
    show ?thesis
    proof (rule winvI)
      have "inv_ids ?q1"
        by (rule inv_idsI) (use D i assms(3) in \<open>auto simp: launched_ids_def split: if_splits\<close>)
      then show "inv_ids q'"
        by (subst inv_ids_cong [of q' ?q1]) (simp_all add: st'(2))
      show "inv_counts q'"
        using W(2) dom unfolding inv_counts_def ids by (simp add: st'(2))
      show "inv_exec \<lparr>w_q = q', w_held = H\<rparr>"
        by (rule inv_exec_same [OF exec1]) (simp_all add: seen(2), simp_all add: st'(2))
      show "inv_results q'"
        using W(4) by (simp add: inv_results_def result_ids_def st'(2))
      have "inv_epochs ?q1"
        by (rule inv_epochs_append [OF W(5) st'(1)]) (auto simp: field_simps)
      then show "inv_epochs q'"
        by (simp add: inv_epochs_def log_epochs_def st'(2))
      show "inv_live gn q'" if "maxLen \<le> 0"
        unfolding st'(2)
      proof (rule inv_live_ack)
        have none: "trim_arg maxLen = None"
          using that by (simp add: trim_arg_def)
        note L = W(6) [OF that, unfolded inv_live_def]
        note app = live_append [OF st'(1) [unfolded none]]
        show "\<forall>g. st_groups (q_exec ?q1) gn = Some g \<longrightarrow> g_last g \<le> st_last (q_exec ?q1)"
          using L appendedE [OF st'(1)] by (simp, metis less_imp_le order_trans)
        obtain e where e: "live_entry st' gn e" "se_fields e = ?fs" "st_last (q_exec q) < se_id e"
          using app(2) [of gn] L by blast
        then have "se_id e \<noteq> x_id msg"
          using held_seen(2) [OF W(3) assms(2)] by auto
        moreover fix k assume "k \<in> launched_ids ?q1"
        ultimately show "\<exists>e t. live_entry (q_exec ?q1) gn e \<and> se_id e \<noteq> x_id msg \<and> entry_task e = Some t \<and> t_id t = k"
          using live_other [OF W(6) [OF that] W(3) assms(2), of k] app(1) [of gn] e task assms(3) unfolding ids
          by (cases "k = ?i") (simp, blast, simp, blast)
      qed
    qed
  qed
qed

lemma winv_grouped:
  assumes "winv gn maxLen \<lparr>w_q = q, w_held = H\<rparr>" "st_groups (q_exec q) gn = None"
  shows "winv gn maxLen
    \<lparr>w_q = q\<lparr>q_exec := (q_exec q)\<lparr>st_groups := (st_groups (q_exec q))(gn \<mapsto> empty_group)\<rparr>\<rparr>, w_held = H\<rparr>"
proof -
  let ?st' = "(q_exec q)\<lparr>st_groups := (st_groups (q_exec q))(gn \<mapsto> empty_group)\<rparr>"
  have "\<forall>e \<in> set (st_entries (q_exec q)). (0, 0) < se_id e"
    using winvD(3) [OF assms(1)] by (simp add: inv_exec_def)
  then have "live_entry ?st' gn e" if "live_entry (q_exec q) gn e" for e
    using that by (simp add: live_entry_def empty_group_def)
  moreover have "(0, 0) \<le> st_last (q_exec q)"
    by (cases "st_last (q_exec q)") (simp add: less_eq_prod_def)
  ultimately show ?thesis
    using winv_group_only [OF assms(1), of ?st' "[]"] by (simp add: received_def empty_group_def)
qed

lemma winv_delivered:
  assumes "winv gn maxLen \<lparr>w_q = q, w_held = H\<rparr>" "st_groups (q_exec q) gn = Some g" "es = take n (unread (q_exec q) (g_last g))"
  shows "winv gn maxLen \<lparr>w_q = q\<lparr>q_exec := deliver (q_exec q) gn g es\<rparr>, w_held = H \<union> received es\<rparr>"
proof -
  note X = winvD(3) [OF assms(1), unfolded inv_exec_def world.select_convs]
  have sub: "set es \<subseteq> set (st_entries (q_exec q))"
    using set_take_subset [of n "unread (q_exec q) (g_last g)"] by (auto simp: assms(3) unread_def)
  have last: "se_id (last es) \<le> st_last (q_exec q)" if "es \<noteq> []"
    using X sub last_in_set [OF that] by blast
  show ?thesis
    using X live_deliver [OF _ assms(2,3)] last
    by (intro winv_group_only [OF assms(1) _ _ sub]) (auto simp: deliver_def)
qed

lemma winv_reclaimed:
  assumes "winv gn maxLen \<lparr>w_q = q, w_held = H\<rparr>" "st_groups (q_exec q) gn = Some g"
    "gone \<subseteq> g_pel g - se_id ` set (st_entries (q_exec q))" "set es \<subseteq> set (st_entries (q_exec q))"
  shows "winv gn maxLen \<lparr>w_q = q\<lparr>q_exec := set_pel (q_exec q) gn g (g_pel g - gone)\<rparr>, w_held = H \<union> received es\<rparr>"
  using assms(2,3) by (intro winv_group_only [OF assms(1) _ _ assms(4)]) (auto simp: live_entry_def)

lemma winv_forgotten:
  assumes "winv gn maxLen \<lparr>w_q = q, w_held = H\<rparr>" "H' \<subseteq> H"
  shows "winv gn maxLen \<lparr>w_q = q, w_held = H'\<rparr>"
  using assms by (auto simp: winv_def inv_exec_def)

theorem wstep_winv:
  assumes "wstep gn maxLen w w'" "winv gn maxLen w"
  shows "winv gn maxLen w'"
  using assms(1)
proof (cases rule: wstep.cases)
  case (forgotten H' H q)
  then show ?thesis using assms(2) winv_forgotten by blast
qed (use assms(2) in \<open>auto intro: winv_aux winv_admitted winv_launched winv_grouped winv_delivered winv_reclaimed
      winv_completed winv_retried\<close>)

end
