(* ===== verification/Lease.thy ===== *)
theory Lease
  imports BrokerQueries
begin

text \<open>
  The leader lease (\<open>internal/lease/lease.go\<close>): its scripts, the operations of a process that holds or seeks it, and
  the campaign loop. A lease value is the fields that do not change with the grant the process
  believes it holds (\<open>ls_value\<close> empty: none).
\<close>

definition no_epoch :: int where
  "no_epoch = 0"

record options =
  o_redis :: bool
  o_holder :: rkey
  o_epoch :: rkey
  o_owner :: string
  o_ttl :: duration
  o_renew :: duration
  o_retry :: duration
  o_wait :: int
  o_wait_timeout :: duration

record lease =
  ls_holder :: rkey
  ls_counter :: rkey
  ls_owner :: string
  ls_ttl :: duration
  ls_renew :: duration
  ls_retry :: duration
  ls_wait :: int
  ls_wait_timeout :: duration
  ls_value :: string
  ls_epoch :: int

datatype lease_error = NoClient | NoKeys | BadTtl | RenewTooLong duration duration | BadReplicas int

text \<open>\<open>host\<close> is what \<open>os.Hostname\<close> gives, \<open>None\<close> for an error.\<close>

definition default_owner :: "string option \<Rightarrow> int \<Rightarrow> string" where
  "default_owner host pid =
     (case host of Some h \<Rightarrow> (if h = [] then ''scheduler'' else h) | None \<Rightarrow> ''scheduler'') @ ''-'' @ show_int pid"

definition new_lease :: "string option \<Rightarrow> int \<Rightarrow> options \<Rightarrow> lease_error + lease" where
  "new_lease host pid op =
     (if \<not> o_redis op then Inl NoClient
      else if o_holder op = [] \<or> o_epoch op = [] then Inl NoKeys
      else if o_ttl op \<le> 0 then Inl BadTtl
      else
        let renew = (if o_renew op \<le> 0 then go_div (o_ttl op) 3 else o_renew op) in
        if o_ttl op \<le> renew then Inl (RenewTooLong renew (o_ttl op))
        else
          let retry = (if o_retry op \<le> 0 then go_div (o_ttl op) 3 else o_retry op);
              owner = (if o_owner op = [] then default_owner host pid else o_owner op) in
          if o_wait op < 0 then Inl (BadReplicas (o_wait op))
          else
            let wait_timeout = (if 0 < o_wait op \<and> o_wait_timeout op \<le> 0 then go_div (o_ttl op) 2 else o_wait_timeout op) in
            Inr \<lparr>ls_holder = o_holder op, ls_counter = o_epoch op, ls_owner = owner, ls_ttl = o_ttl op, ls_renew = renew,
              ls_retry = retry, ls_wait = o_wait op, ls_wait_timeout = wait_timeout, ls_value = [], ls_epoch = no_epoch\<rparr>)"

section \<open>The scripts\<close>

text \<open>
  \<open>owner .. '|' .. epoch\<close>. Lua writes a number with 14 significant digits: the decimal digits, for every
  epoch below \<open>10 ^ 14\<close>.
\<close>

definition grant_value :: "string \<Rightarrow> int \<Rightarrow> string" where
  "grant_value owner epoch = owner @ ''|'' @ show_int epoch"

definition acquire_script :: "(cmd \<Rightarrow> 's \<Rightarrow> reply \<times> 's) \<Rightarrow> rkey \<Rightarrow> rkey \<Rightarrow> string \<Rightarrow> int \<Rightarrow> ('s, int \<times> string) lua" where
  "acquire_script call holder epochK owner ttlMS =
     lbind (rcall call (EXISTS holder)) (\<lambda>r.
       if r = RInt 1 then lreturn (0, [])
       else
         lbind (rcall call (INCR epochK)) (\<lambda>r.
           case r of
             RInt epoch \<Rightarrow>
               lthen (rcall call (SETPX holder (TStr (grant_value owner epoch)) ttlMS))
                 (lreturn (epoch, grant_value owner epoch))
           | _ \<Rightarrow> lfail ''attempt to concatenate a nil value''))"

definition renew_script :: "(cmd \<Rightarrow> 's \<Rightarrow> reply \<times> 's) \<Rightarrow> rkey \<Rightarrow> string \<Rightarrow> int \<Rightarrow> ('s, int) lua" where
  "renew_script call holder val ttlMS =
     lbind (rcall call (GET holder)) (\<lambda>r.
       if r = RText (TStr val) then lthen (rcall call (PEXPIRE holder ttlMS)) (lreturn 1) else lreturn 0)"

definition release_script :: "(cmd \<Rightarrow> 's \<Rightarrow> reply \<times> 's) \<Rightarrow> rkey \<Rightarrow> string \<Rightarrow> ('s, int) lua" where
  "release_script call holder val =
     lbind (rcall call (GET holder)) (\<lambda>r.
       if r = RText (TStr val) then lthen (rcall call (DEL [holder])) (lreturn 1) else lreturn 0)"

section \<open>The operations\<close>

datatype acquire_error = AcquireFailed rerr | NotDurable "rerr option"

text \<open>\<open>awaitEpochDurable\<close>; the grant is given back where the wait fails or too few replicas answered.\<close>

definition await_durable :: "(cmd \<Rightarrow> 's \<Rightarrow> reply \<times> 's) \<Rightarrow> lease \<Rightarrow> string \<Rightarrow> 's net \<Rightarrow> acquire_error option \<times> 's net" where
  "await_durable call l val w =
     (if ls_wait l \<le> 0 then (None, w)
      else case send (rcall call (WAIT (ls_wait l) (dur_millis (ls_wait_timeout l)))) w of
        (Inr (RInt n), w1) \<Rightarrow>
          if ls_wait l \<le> n then (None, w1)
          else (Some (NotDurable None), snd (send (release_script call (ls_holder l) val) w1))
      | (Inr _, w1) \<Rightarrow> (Some (NotDurable None), snd (send (release_script call (ls_holder l) val) w1))
      | (Inl e, w1) \<Rightarrow> (Some (NotDurable (Some e)), snd (send (release_script call (ls_holder l) val) w1)))"

text \<open>\<open>Acquire\<close>: \<open>Inr (Some e)\<close> is a grant of epoch \<open>e\<close>, \<open>Inr None\<close> that another process holds it.\<close>

definition acquire :: "(cmd \<Rightarrow> 's \<Rightarrow> reply \<times> 's) \<Rightarrow> lease \<Rightarrow> 's net \<Rightarrow> (acquire_error + int option) \<times> lease \<times> 's net" where
  "acquire call l w =
     (case send (acquire_script call (ls_holder l) (ls_counter l) (ls_owner l) (dur_millis (ls_ttl l))) w of
        (Inl e, w1) \<Rightarrow> (Inl (AcquireFailed e), l, w1)
      | (Inr (epoch, val), w1) \<Rightarrow>
          if epoch \<le> 0 \<or> val = [] then (Inr None, l, w1)
          else case await_durable call l val w1 of
            (Some e, w2) \<Rightarrow> (Inl e, l, w2)
          | (None, w2) \<Rightarrow> (Inr (Some epoch), l\<lparr>ls_value := val, ls_epoch := epoch\<rparr>, w2))"

definition forget :: "string \<Rightarrow> lease \<Rightarrow> lease" where
  "forget val l = (if ls_value l = val then l\<lparr>ls_value := [], ls_epoch := no_epoch\<rparr> else l)"

definition renew :: "(cmd \<Rightarrow> 's \<Rightarrow> reply \<times> 's) \<Rightarrow> lease \<Rightarrow> 's net \<Rightarrow> (rerr + bool) \<times> lease \<times> 's net" where
  "renew call l w =
     (if ls_value l = [] then (Inr False, l, w)
      else case send (renew_script call (ls_holder l) (ls_value l) (dur_millis (ls_ttl l))) w of
        (Inl e, w1) \<Rightarrow> (Inl e, l, w1)
      | (Inr n, w1) \<Rightarrow> if n \<noteq> 1 then (Inr False, forget (ls_value l) l, w1) else (Inr True, l, w1))"

definition release :: "(cmd \<Rightarrow> 's \<Rightarrow> reply \<times> 's) \<Rightarrow> lease \<Rightarrow> 's net \<Rightarrow> rerr option \<times> lease \<times> 's net" where
  "release call l w =
     (if ls_value l = [] then (None, l, w)
      else case send (release_script call (ls_holder l) (ls_value l)) w of
        (r, w1) \<Rightarrow> (case r of Inl e \<Rightarrow> Some e | Inr _ \<Rightarrow> None, forget (ls_value l) l, w1))"

section \<open>A term and the campaign\<close>

text \<open>
  What the \<open>select\<close> of \<open>serveTerm\<close> receives: the end of the context, the result of the leader loop, a renewal
  tick. With a tick, whether the context has ended by the time the renewal failed. \<open>None\<close> as
  an error is a nil or cancelled result of the leader loop.
\<close>

datatype term_event = CtxDone | LeadReturned "string option" | Tick bool

record term_end =
  e_returned :: bool
  e_error :: "string option"
  e_lost :: bool

fun serve_loop ::
  "(cmd \<Rightarrow> 's \<Rightarrow> reply \<times> 's) \<Rightarrow> term_event list \<Rightarrow> lease \<Rightarrow> 's net \<Rightarrow> term_end option \<times> lease \<times> 's net" where
  "serve_loop call [] l w = (None, l, w)"
| "serve_loop call (CtxDone # es) l w = (Some \<lparr>e_returned = False, e_error = None, e_lost = False\<rparr>, l, w)"
| "serve_loop call (LeadReturned err # es) l w = (Some \<lparr>e_returned = True, e_error = err, e_lost = False\<rparr>, l, w)"
| "serve_loop call (Tick ended # es) l w =
     (case renew call l w of
        (Inl _, l', w') \<Rightarrow>
          if ended then (Some \<lparr>e_returned = False, e_error = None, e_lost = False\<rparr>, l', w') else serve_loop call es l' w'
      | (Inr ok, l', w') \<Rightarrow>
          if ok then serve_loop call es l' w' else (Some \<lparr>e_returned = False, e_error = None, e_lost = True\<rparr>, l', w'))"

text \<open>\<open>late\<close> is what the leader loop returns once its context has been cancelled. The result is \<open>None\<close> while the term lasts.\<close>

definition serve_term ::
  "(cmd \<Rightarrow> 's \<Rightarrow> reply \<times> 's) \<Rightarrow> term_event list \<Rightarrow> string option \<Rightarrow> lease \<Rightarrow> 's net \<Rightarrow> string option option \<times> lease \<times> 's net" where
  "serve_term call es late l w =
     (case serve_loop call es l w of
        (None, l', w') \<Rightarrow> (None, l', w')
      | (Some e, l', w') \<Rightarrow>
          (let err = (if e_returned e then e_error e else late) in
           if e_lost e then (Some err, l', w')
           else (case release call l' w' of (_, l'', w'') \<Rightarrow> (Some err, l'', w''))))"

text \<open>
  One round of \<open>Campaign\<close> and what it tells the observer. The booleans are the readings of the context: before
  the attempt, during the wait after a failed attempt, after the term, during the wait after it.
\<close>

record campaign_round =
  c_done_before :: bool
  c_done_waiting :: bool
  c_events :: "term_event list"
  c_late :: "string option"
  c_done_after :: bool

datatype campaign_end = Running | Stopped | Failed string

definition campaign_round ::
  "(cmd \<Rightarrow> 's \<Rightarrow> reply \<times> 's) \<Rightarrow> campaign_round \<Rightarrow> lease \<Rightarrow> 's net \<Rightarrow>
   campaign_end option \<times> (bool \<times> int) list \<times> lease \<times> 's net" where
  "campaign_round call c l w =
     (if c_done_before c then (Some Stopped, [], l, w)
      else case acquire call l w of
        (Inr (Some epoch), l1, w1) \<Rightarrow>
          (case serve_term call (c_events c) (c_late c) l1 w1 of
             (None, l2, w2) \<Rightarrow> (None, [(True, epoch)], l2, w2)
           | (Some (Some err), l2, w2) \<Rightarrow> (Some (Failed err), [(True, epoch), (False, no_epoch)], l2, w2)
           | (Some None, l2, w2) \<Rightarrow>
               (Some (if c_done_after c then Stopped else Running), [(True, epoch), (False, no_epoch)], l2, w2))
      | (_, l1, w1) \<Rightarrow> (Some (if c_done_waiting c then Stopped else Running), [], l1, w1))"

fun campaign_rounds ::
  "(cmd \<Rightarrow> 's \<Rightarrow> reply \<times> 's) \<Rightarrow> campaign_round list \<Rightarrow> lease \<Rightarrow> 's net \<Rightarrow> campaign_end option \<times> (bool \<times> int) list \<times> lease \<times> 's net" where
  "campaign_rounds call [] l w = (Some Running, [], l, w)"
| "campaign_rounds call (c # cs) l w =
     (case campaign_round call c l w of
        (Some Running, obs, l', w') \<Rightarrow>
          (case campaign_rounds call cs l' w' of (r, obs', l'', w'') \<Rightarrow> (r, obs @ obs', l'', w''))
      | res \<Rightarrow> res)"

definition campaign ::
  "(cmd \<Rightarrow> 's \<Rightarrow> reply \<times> 's) \<Rightarrow> campaign_round list \<Rightarrow> lease \<Rightarrow> 's net \<Rightarrow> campaign_end option \<times> (bool \<times> int) list \<times> lease \<times> 's net" where
  "campaign call cs l w =
     (case campaign_rounds call cs l w of (r, obs, l', w') \<Rightarrow> (r, (False, no_epoch) # obs, l', w'))"

end
