(* ===== verification/MemRedis.thy ===== *)
theory MemRedis
  imports QueueStore "HOL-Library.AList"
begin

text \<open>
  A reference server: an in-memory key space of association lists that computes. It shows the hypothesis
  about Redis can hold (\<open>mem\<close> interprets \<open>redis\<close>), and the witnesses run the program on it. New stream ids
  come from the server's clock, a trim removes nothing, a claim takes every pending entry; expiry of the
  lease is the separate step \<open>mem_expire\<close>.
\<close>

datatype mvalue =
    MStr rtext
  | MHash "(string \<times> rtext) list"
  | MZSet "(string \<times> f64) list"
  | MStream "stream_entry list" sid "(string \<times> sid \<times> sid list) list"

record mem =
  m_keys :: "(rkey \<times> mvalue) list"
  m_clock :: nat

definition mem_group :: "sid \<times> sid list \<Rightarrow> group" where
  "mem_group g = \<lparr>g_last = fst g, g_pel = set (snd g)\<rparr>"

fun mem_value :: "mvalue \<Rightarrow> rvalue" where
  "mem_value (MStr t) = VStr t"
| "mem_value (MHash h) = VHash (map_of h)"
| "mem_value (MZSet z) = VZSet (map_of z)"
| "mem_value (MStream es l gs) = VStream \<lparr>st_entries = es, st_last = l, st_groups = map_option mem_group \<circ> map_of gs\<rparr>"

definition mem_view :: "mem \<Rightarrow> rdb" where
  "mem_view s = map_option mem_value \<circ> map_of (m_keys s)"

definition mem_empty :: mem where
  "mem_empty = \<lparr>m_keys = [], m_clock = 1\<rparr>"

definition wrong_type :: reply where
  "wrong_type = RErr ''WRONGTYPE Operation against a key holding the wrong kind of value''"

definition mput :: "rkey \<Rightarrow> mvalue \<Rightarrow> mem \<Rightarrow> mem" where
  "mput k v s = s\<lparr>m_keys := AList.update k v (m_keys s)\<rparr>"

definition mdel :: "rkey \<Rightarrow> mem \<Rightarrow> mem" where
  "mdel k s = s\<lparr>m_keys := AList.delete k (m_keys s)\<rparr>"

definition mem_expire :: "rkey \<Rightarrow> mem \<Rightarrow> mem" where
  "mem_expire = mdel"

definition mem_tick :: "nat \<Rightarrow> mem \<Rightarrow> mem" where
  "mem_tick n s = s\<lparr>m_clock := m_clock s + n\<rparr>"

definition mstr :: "mem \<Rightarrow> rkey \<Rightarrow> rtext option option" where
  "mstr s k = (case map_of (m_keys s) k of None \<Rightarrow> Some None | Some (MStr t) \<Rightarrow> Some (Some t) | _ \<Rightarrow> None)"

definition mhash :: "mem \<Rightarrow> rkey \<Rightarrow> (string \<times> rtext) list option" where
  "mhash s k = (case map_of (m_keys s) k of None \<Rightarrow> Some [] | Some (MHash h) \<Rightarrow> Some h | _ \<Rightarrow> None)"

definition mzset :: "mem \<Rightarrow> rkey \<Rightarrow> (string \<times> f64) list option" where
  "mzset s k = (case map_of (m_keys s) k of None \<Rightarrow> Some [] | Some (MZSet z) \<Rightarrow> Some z | _ \<Rightarrow> None)"

definition mstream :: "mem \<Rightarrow> rkey \<Rightarrow> (stream_entry list \<times> sid \<times> (string \<times> sid \<times> sid list) list) option" where
  "mstream s k = (case map_of (m_keys s) k of None \<Rightarrow> Some ([], (0, 0), []) | Some (MStream es l gs) \<Rightarrow> Some (es, l, gs) | _ \<Rightarrow> None)"

definition set_hash :: "rkey \<Rightarrow> (string \<times> rtext) list \<Rightarrow> mem \<Rightarrow> mem" where
  "set_hash k h s = (if h = [] then mdel k s else mput k (MHash h) s)"

definition set_zset :: "rkey \<Rightarrow> (string \<times> f64) list \<Rightarrow> mem \<Rightarrow> mem" where
  "set_zset k z s = (if z = [] then mdel k s else mput k (MZSet z) s)"

definition on :: "'a option \<Rightarrow> mem \<Rightarrow> ('a \<Rightarrow> reply \<times> mem) \<Rightarrow> reply \<times> mem" where
  "on v s f = (case v of None \<Rightarrow> (wrong_type, s) | Some a \<Rightarrow> f a)"

text \<open>The least entry of a sorted set.\<close>

definition zbefore :: "string \<times> f64 \<Rightarrow> string \<times> f64 \<Rightarrow> bool" where
  "zbefore a b \<longleftrightarrow> flt (snd a) (snd b) \<or> snd a = snd b \<and> fst a \<le> fst b"

fun zleast :: "(string \<times> f64) list \<Rightarrow> string \<times> f64" where
  "zleast [] = ('''', NaN)"
| "zleast [x] = x"
| "zleast (x # y # xs) = (let m = zleast (y # xs) in if zbefore x m then x else m)"

definition next_id :: "nat \<Rightarrow> sid \<Rightarrow> sid" where
  "next_id clock l = (if fst l < clock then (clock, 0) else (fst l, Suc (snd l)))"

definition incr_reply :: "rtext option \<Rightarrow> int \<Rightarrow> (int \<Rightarrow> mem) \<Rightarrow> mem \<Rightarrow> reply \<times> mem" where
  "incr_reply v i f s =
     (case int_text v of None \<Rightarrow> (RErr ''ERR value is not an integer or out of range'', s) | Some n \<Rightarrow> (RInt (n + i), f (n + i)))"

definition no_group :: reply where
  "no_group = RErr ''NOGROUP No such consumer group''"

fun mem_call :: "cmd \<Rightarrow> mem \<Rightarrow> reply \<times> mem" where
  "mem_call PING s = (ROk, s)"
| "mem_call (GET k) s = on (mstr s k) s (\<lambda>v. (case v of None \<Rightarrow> RNil | Some t \<Rightarrow> RText t, s))"
| "mem_call (SET k t) s = (ROk, mput k (MStr t) s)"
| "mem_call (SETPX k t ms) s =
     (if 0 < ms then (ROk, mput k (MStr t) s) else (RErr ''ERR invalid expire time in 'set' command'', s))"
| "mem_call (INCR k) s = on (mstr s k) s (\<lambda>v. incr_reply v 1 (\<lambda>n. mput k (MStr (TNum n)) s) s)"
| "mem_call (DECR k) s = on (mstr s k) s (\<lambda>v. incr_reply v (- 1) (\<lambda>n. mput k (MStr (TNum n)) s) s)"
| "mem_call (EXISTS k) s = (RInt (case map_of (m_keys s) k of None \<Rightarrow> 0 | Some _ \<Rightarrow> 1), s)"
| "mem_call (DEL ks) s = (RInt (int (length (filter (\<lambda>k. map_of (m_keys s) k \<noteq> None) ks))), fold mdel ks s)"
| "mem_call (PEXPIRE k ms) s = (RInt (case map_of (m_keys s) k of None \<Rightarrow> 0 | Some _ \<Rightarrow> 1), s)"
| "mem_call (PTTL k) s = (RInt (case map_of (m_keys s) k of None \<Rightarrow> - 2 | Some _ \<Rightarrow> - 1), s)"
| "mem_call (WAIT n ms) s = (RInt 0, s)"
| "mem_call (HEXISTS k f) s = on (mhash s k) s (\<lambda>h. (RInt (case map_of h f of None \<Rightarrow> 0 | Some _ \<Rightarrow> 1), s))"
| "mem_call (HGET k f) s = on (mhash s k) s (\<lambda>h. (case map_of h f of None \<Rightarrow> RNil | Some t \<Rightarrow> RText t, s))"
| "mem_call (HSET k f t) s =
     on (mhash s k) s (\<lambda>h. (RInt (case map_of h f of None \<Rightarrow> 1 | Some _ \<Rightarrow> 0), set_hash k (AList.update f t h) s))"
| "mem_call (HSETNX k f t) s =
     on (mhash s k) s (\<lambda>h. case map_of h f of None \<Rightarrow> (RInt 1, set_hash k (AList.update f t h) s) | Some _ \<Rightarrow> (RInt 0, s))"
| "mem_call (HDEL k f) s =
     on (mhash s k) s (\<lambda>h. (RInt (case map_of h f of None \<Rightarrow> 0 | Some _ \<Rightarrow> 1), set_hash k (AList.delete f h) s))"
| "mem_call (HINCRBY k f i) s =
     on (mhash s k) s (\<lambda>h. incr_reply (map_of h f) i (\<lambda>n. set_hash k (AList.update f (TNum n) h) s) s)"
| "mem_call (HGETALL k) s = on (mhash s k) s (\<lambda>h. (RFields (AList.clearjunk h), s))"
| "mem_call (HMGET k fs) s = on (mhash s k) s (\<lambda>h. (RTexts (map (map_of h) fs), s))"
| "mem_call (ZADD k t m) s =
     on (mzset s k) s (\<lambda>z. case score_text t of
         None \<Rightarrow> (RErr ''ERR value is not a valid float'', s)
       | Some f \<Rightarrow> (RInt (case map_of z m of None \<Rightarrow> 1 | Some _ \<Rightarrow> 0), set_zset k (AList.update m f z) s))"
| "mem_call (ZREM k m) s =
     on (mzset s k) s (\<lambda>z. (RInt (case map_of z m of None \<Rightarrow> 0 | Some _ \<Rightarrow> 1), set_zset k (AList.delete m z) s))"
| "mem_call (ZPOPMIN k) s =
     on (mzset s k) s (\<lambda>z. if z = [] then (RScored [], s)
       else (let x = zleast (AList.clearjunk z) in (RScored [x], set_zset k (AList.delete (fst x) z) s)))"
| "mem_call (ZCARD k) s = on (mzset s k) s (\<lambda>z. (RInt (int (length (AList.clearjunk z))), s))"
| "mem_call (ZFIRST k) s =
     on (mzset s k) s (\<lambda>z. (RScored (if z = [] then [] else [zleast (AList.clearjunk z)]), s))"
| "mem_call (XADD k maxlen fs) s =
     on (mstream s k) s (\<lambda>(es, l, gs). let i = next_id (m_clock s) l in
       (RId i, mput k (MStream (es @ [\<lparr>se_id = i, se_fields = fs\<rparr>]) i gs) s))"
| "mem_call (XACK k gn ids) s =
     on (mstream s k) s (\<lambda>(es, l, gs). case map_of gs gn of
         None \<Rightarrow> (RInt 0, s)
       | Some (gl, pel) \<Rightarrow>
           (RInt (int (length (filter (\<lambda>i. i \<in> set pel) ids))),
            mput k (MStream es l (AList.update gn (gl, filter (\<lambda>i. i \<notin> set ids) pel) gs)) s))"
| "mem_call (XGROUP_CREATE k gn) s =
     on (mstream s k) s (\<lambda>(es, l, gs). case map_of gs gn of
         None \<Rightarrow> (ROk, mput k (MStream es l (AList.update gn ((0, 0), []) gs)) s)
       | Some _ \<Rightarrow> (RErr ''BUSYGROUP Consumer Group name already exists'', s))"
| "mem_call (XREADGROUP k gn c n) s =
     on (mstream s k) s (\<lambda>(es, l, gs). case map_of gs gn of
         None \<Rightarrow> (no_group, s)
       | Some (gl, pel) \<Rightarrow>
           (let new = take (nat n) (filter (\<lambda>e. gl < se_id e) es) in
            if new = [] then (RNil, s)
            else (REntries new, mput k (MStream es l (AList.update gn (se_id (last new), pel @ map se_id new) gs)) s)))"
| "mem_call (XAUTOCLAIM k gn c idle start n) s =
     on (mstream s k) s (\<lambda>(es, l, gs). case map_of gs gn of
         None \<Rightarrow> (no_group, s)
       | Some (gl, pel) \<Rightarrow> (RClaim (0, 0) (filter (\<lambda>e. se_id e \<in> set pel \<and> start \<le> se_id e) es), s))"
| "mem_call (XRANGE k b n) s =
     on (mstream s k) s (\<lambda>(es, l, gs). (REntries (take (nat n) (filter (\<lambda>e. in_bound b (se_id e)) es)), s))"
| "mem_call (XLEN k) s = on (mstream s k) s (\<lambda>(es, l, gs). (RInt (int (length es)), s))"
| "mem_call (XPENDING k gn) s =
     on (mstream s k) s (\<lambda>(es, l, gs). case map_of gs gn of None \<Rightarrow> (no_group, s) | Some (gl, pel) \<Rightarrow> (RInt (int (length (remdups pel))), s))"
| "mem_call (XINFO_GROUPS k) s =
     on (mstream s k) s (\<lambda>(es, l, gs).
       (RGroups (map (\<lambda>(gn, gl, pel). (gn, gl, length (remdups pel))) (AList.clearjunk gs)), s))"

section \<open>The server keeps its documentation\<close>

lemma mem_view_put [simp]: "mem_view (mput k v s) = (mem_view s)(k \<mapsto> mem_value v)"
  by (rule ext) (simp add: mem_view_def mput_def update_conv')

lemma mem_view_del [simp]: "mem_view (mdel k s) = (mem_view s)(k := None)"
  by (rule ext) (simp add: mem_view_def mdel_def delete_conv')

lemma mem_view_dels: "mem_view (fold mdel ks s) = (\<lambda>k. if k \<in> set ks then None else mem_view s k)"
  by (induction ks arbitrary: s) (auto simp: fun_eq_iff)

lemma map_of_Nil_iff: "map_of xs = Map.empty \<longleftrightarrow> xs = []"
  by (cases xs) auto

lemma mem_view_set [simp]:
  "mem_view (set_hash k h s) = put_hash (mem_view s) k (map_of h)"
  "mem_view (set_zset k z s) = put_zset (mem_view s) k (map_of z)"
  by (auto simp: set_hash_def set_zset_def put_hash_def put_zset_def map_of_Nil_iff)

lemma mem_exists [simp]: "mem_view s k = None \<longleftrightarrow> map_of (m_keys s) k = None"
  by (simp add: mem_view_def)

lemma mem_value_eq:
  "mem_value v = VHash h \<longleftrightarrow> (\<exists>al. v = MHash al \<and> h = map_of al)"
  "mem_value v = VZSet z \<longleftrightarrow> (\<exists>al. v = MZSet al \<and> z = map_of al)"
  "mem_value v = VStream st \<longleftrightarrow> (\<exists>es l gs. v = MStream es l gs \<and>
     st = \<lparr>st_entries = es, st_last = l, st_groups = map_option mem_group \<circ> map_of gs\<rparr>)"
  by (cases v; auto)+

lemma mstr_view:
  assumes "is_str (mem_view s) k"
  shows "mstr s k = Some (str_at (mem_view s) k)"
  using assms by (auto simp: is_str_def str_at_def mstr_def mem_view_def split: option.splits mvalue.splits rvalue.splits)

lemma mhash_view:
  assumes "is_hash (mem_view s) k"
  obtains h where "mhash s k = Some h" "hash_at (mem_view s) k = map_of h"
  using assms by (auto simp: is_hash_def hash_at_def mhash_def mem_view_def mem_value_eq split: option.splits rvalue.splits)

lemma mzset_view:
  assumes "is_zset (mem_view s) k"
  obtains z where "mzset s k = Some z" "zset_at (mem_view s) k = map_of z" "NaN \<notin> ran (map_of z)"
  using assms by (auto simp: is_zset_def zset_at_def mzset_def mem_view_def mem_value_eq split: option.splits rvalue.splits)

lemma mstream_view:
  assumes "is_stream (mem_view s) k"
  obtains es l gs where "mstream s k = Some (es, l, gs)"
    "stream_at (mem_view s) k = \<lparr>st_entries = es, st_last = l, st_groups = map_option mem_group \<circ> map_of gs\<rparr>"
  using assms
  by (auto simp: is_stream_def stream_at_def mstream_def mem_view_def empty_stream_def fun_eq_iff mem_value_eq split: option.splits rvalue.splits)

lemma on_Some [simp]: "on (Some a) s f = f a"
  by (simp add: on_def)

lemma zbefore_total: "snd a \<noteq> NaN \<Longrightarrow> snd b \<noteq> NaN \<Longrightarrow> zbefore a b \<or> zbefore b a"
  using flt_total [of "snd a" "snd b"] by (auto simp: zbefore_def)

lemma zbefore_trans: "zbefore a b \<Longrightarrow> zbefore b c \<Longrightarrow> zbefore a c"
  by (auto simp: zbefore_def dest: flt_trans)

lemma zbefore_refl: "zbefore a a"
  by (simp add: zbefore_def)

lemma zleast_least:
  assumes "xs \<noteq> []" "\<forall>x \<in> set xs. snd x \<noteq> NaN"
  shows "zleast xs \<in> set xs \<and> (\<forall>x \<in> set xs. zbefore (zleast xs) x)"
  using assms
proof (induction xs rule: zleast.induct)
  case (3 x y xs)
  then have IH: "zleast (y # xs) \<in> set (y # xs)" "\<forall>z \<in> set (y # xs). zbefore (zleast (y # xs)) z"
    by auto
  show ?case
  proof (cases "zbefore x (zleast (y # xs))")
    case True
    then show ?thesis using IH zbefore_refl [of x] zbefore_trans [OF True] by (auto simp: Let_def)
  next
    case False
    then have "zbefore (zleast (y # xs)) x"
      using zbefore_total [of x "zleast (y # xs)"] 3(3) IH(1) by auto
    then show ?thesis using False IH by (auto simp: Let_def)
  qed
qed (auto simp: zbefore_refl)

lemma zleast_zmin:
  assumes "z \<noteq> []" "NaN \<notin> ran (map_of z)"
  shows "zmin (map_of z) (fst (zleast (AList.clearjunk z))) (snd (zleast (AList.clearjunk z)))"
proof -
  let ?z = "AList.clearjunk z"
  have d: "distinct (map fst ?z)" and m: "map_of ?z = map_of z"
    by (simp_all add: distinct_clearjunk map_of_clearjunk)
  have "?z \<noteq> []"
    using assms(1) m by (metis map_of_Nil_iff)
  moreover have "\<forall>x \<in> set ?z. snd x \<noteq> NaN"
    using assms(2) d m by (auto simp: ran_def) (metis map_of_eq_Some_iff [OF d])
  ultimately have least: "zleast ?z \<in> set ?z" "\<forall>x \<in> set ?z. zbefore (zleast ?z) x"
    using zleast_least by blast+
  have "map_of z (fst (zleast ?z)) = Some (snd (zleast ?z))"
    unfolding m [symmetric] map_of_eq_Some_iff [OF d] using least(1) by simp
  moreover have "flt (snd (zleast ?z)) f \<or> snd (zleast ?z) = f \<and> fst (zleast ?z) \<le> k" if "map_of z k = Some f" for k f
    using least(2) that unfolding m [symmetric] map_of_eq_Some_iff [OF d] by (auto simp: zbefore_def)
  ultimately show ?thesis by (simp add: zmin_def)
qed

lemma length_clearjunk: "length (AList.clearjunk z) = card (dom (map_of z))"
  by (metis distinct_clearjunk dom_map_of_conv_image_fst map_of_clearjunk distinct_card length_map set_map)

lemma group_update:
  "map_option mem_group \<circ> map_of (AList.update gn g gs) = (map_option mem_group \<circ> map_of gs)(gn \<mapsto> mem_group g)"
  by (rule ext) (simp add: update_conv')

lemma next_id_less: "l < next_id c l"
  by (cases l) (auto simp: next_id_def less_prod_def)

lemma mem_doc_str:
  assumes "is_str (mem_view s) k"
  shows "redis_doc (GET k) (mem_view s) (fst (mem_call (GET k) s)) (mem_view (snd (mem_call (GET k) s)))"
    "redis_doc (INCR k) (mem_view s) (fst (mem_call (INCR k) s)) (mem_view (snd (mem_call (INCR k) s)))"
    "redis_doc (DECR k) (mem_view s) (fst (mem_call (DECR k) s)) (mem_view (snd (mem_call (DECR k) s)))"
  using assms by (auto simp: mstr_view incr_reply_def put_str_def split: option.splits)

lemma mem_doc_hash:
  assumes "is_hash (mem_view s) k" and "c \<in> {HEXISTS k f, HGET k f, HSET k f t, HSETNX k f t, HDEL k f, HINCRBY k f i, HGETALL k, HMGET k fs}"
  shows "redis_doc c (mem_view s) (fst (mem_call c s)) (mem_view (snd (mem_call c s)))"
proof -
  obtain h where "mhash s k = Some h" "hash_at (mem_view s) k = map_of h"
    using mhash_view [OF assms(1)] .
  then show ?thesis
    using assms(2)
    by (auto simp: update_conv' delete_conv' distinct_clearjunk map_of_clearjunk incr_reply_def fun_upd_def split: option.splits)
qed

lemma mem_doc_zset:
  assumes "is_zset (mem_view s) k" and "c \<in> {ZADD k t m, ZREM k m, ZPOPMIN k, ZCARD k, ZFIRST k}"
  shows "redis_doc c (mem_view s) (fst (mem_call c s)) (mem_view (snd (mem_call c s)))"
proof -
  obtain z where z: "mzset s k = Some z" "zset_at (mem_view s) k = map_of z" "NaN \<notin> ran (map_of z)"
    using mzset_view [OF assms(1)] .
  show ?thesis
    using assms(2) z zleast_zmin [OF _ z(3)]
    by (auto simp: update_conv' delete_conv' length_clearjunk map_of_Nil_iff Let_def
        split: option.splits intro!: exI [of _ "fst (zleast (AList.clearjunk z))"] exI [of _ "snd (zleast (AList.clearjunk z))"])
qed

lemma mem_doc_xadd:
  assumes "is_stream (mem_view s) k"
  shows "redis_doc (XADD k maxlen fs) (mem_view s) (fst (mem_call (XADD k maxlen fs) s)) (mem_view (snd (mem_call (XADD k maxlen fs) s)))"
proof -
  obtain es l gs where "mstream s k = Some (es, l, gs)"
      "stream_at (mem_view s) k = \<lparr>st_entries = es, st_last = l, st_groups = map_option mem_group \<circ> map_of gs\<rparr>"
    using mstream_view [OF assms] .
  then show ?thesis
    using next_id_less [of l "m_clock s"] unfolding redis_doc.simps
    by (intro impI exI [of _ "next_id (m_clock s) l"] exI [of _ 0])
      (simp add: Let_def put_stream_def add_entry_def trim_allowed_def split: option.splits)
qed

lemma mem_doc_stream:
  assumes "is_stream (mem_view s) k"
    and "c \<in> {XACK k gn ids, XGROUP_CREATE k gn, XREADGROUP k gn co n, XAUTOCLAIM k gn co idle start n, XRANGE k b n, XLEN k, XPENDING k gn}"
  shows "redis_doc c (mem_view s) (fst (mem_call c s)) (mem_view (snd (mem_call c s)))"
proof -
  obtain es l gs where m: "mstream s k = Some (es, l, gs)"
      "stream_at (mem_view s) k = \<lparr>st_entries = es, st_last = l, st_groups = map_option mem_group \<circ> map_of gs\<rparr>"
    using mstream_view [OF assms(1)] .
  have pel: "card (set pel) = length (remdups pel)" for pel :: "sid list"
    by (metis List.card_set)
  consider "c = XACK k gn ids" | "c = XGROUP_CREATE k gn" | "c = XREADGROUP k gn co n" | "c = XAUTOCLAIM k gn co idle start n"
    | "c = XRANGE k b n" | "c = XLEN k" | "c = XPENDING k gn"
    using assms(2) by blast
  then show ?thesis
  proof cases
    case 1
    then show ?thesis using m
      by (auto simp: acked_def put_stream_def set_pel_def mem_group_def group_update set_diff_eq split: option.splits prod.splits)
  next
    case 2
    then show ?thesis using m
      by (auto simp: put_stream_def empty_group_def mem_group_def group_update split: option.splits)
  next
    case 3
    then show ?thesis using m
      by (auto simp: put_stream_def deliver_def unread_def mem_group_def group_update no_group_def Let_def split: option.splits prod.splits)
  next
    case 4
    show ?thesis
    proof (cases "map_of gs gn")
      case None
      then show ?thesis using m 4 by (simp add: no_group_def)
    next
      case (Some g)
      obtain gl pel where g: "g = (gl, pel)"
        by (cases g)
      have "redis_doc c (mem_view s) (RClaim (0, 0) (filter (\<lambda>e. se_id e \<in> set pel \<and> start \<le> se_id e) es)) (mem_view s)"
        unfolding 4 redis_doc.simps m(2) using Some g
        by (simp add: mem_group_def del: split_paired_Ex)
          (intro impI, rule exI [of _ "(0, 0)"], rule exI [of _ "{}"], simp, rule exI [of _ "set pel \<inter> {i. start \<le> i}"], auto)
      then show ?thesis using m Some g 4 by simp
    qed
  next
    case 5
    then show ?thesis using m by simp
  next
    case 6
    then show ?thesis using m by simp
  next
    case 7
    then show ?thesis using m by (auto simp: mem_group_def no_group_def pel split: option.splits prod.splits)
  qed
qed

lemma mem_doc_groups:
  assumes "is_stream (mem_view s) k"
  shows "redis_doc (XINFO_GROUPS k) (mem_view s) (fst (mem_call (XINFO_GROUPS k) s)) (mem_view (snd (mem_call (XINFO_GROUPS k) s)))"
proof -
  obtain es l gs where m: "mstream s k = Some (es, l, gs)"
      "stream_at (mem_view s) k = \<lparr>st_entries = es, st_last = l, st_groups = map_option mem_group \<circ> map_of gs\<rparr>"
    using mstream_view [OF assms(1)] .
  let ?f = "\<lambda>(gn, gl, pel). (gn, gl, length (remdups pel))"
  have d: "distinct (map fst (map ?f (AList.clearjunk gs)))"
    using distinct_clearjunk [of gs] by (simp add: comp_def case_prod_unfold)
  have "map_of (map ?f xs) gn = map_option (\<lambda>g. (g_last (mem_group g), card (g_pel (mem_group g)))) (map_of xs gn)"
    for xs :: "(string \<times> sid \<times> sid list) list" and gn
    by (induction xs) (auto simp: mem_group_def List.card_set)
  then have "map_of (map ?f (AList.clearjunk gs)) = (\<lambda>gn. map_option (\<lambda>g. (g_last g, card (g_pel g))) (map_option mem_group (map_of gs gn)))"
    by (simp add: fun_eq_iff map_of_clearjunk option.map_comp comp_def)
  then show ?thesis using m d by simp
qed

theorem mem_doc: "redis_doc c (mem_view s) (fst (mem_call c s)) (mem_view (snd (mem_call c s)))"
proof (cases c)
  case (GET k)
  show ?thesis using mem_doc_str(1) [of s k] unfolding GET by auto
next
  case (INCR k)
  show ?thesis using mem_doc_str(2) [of s k] unfolding INCR redis_doc.simps by blast
next
  case (DECR k)
  show ?thesis using mem_doc_str(3) [of s k] unfolding DECR redis_doc.simps by blast
next
  case (SET k t)
  then show ?thesis by (simp add: put_str_def)
next
  case (SETPX k t ms)
  then show ?thesis by (simp add: put_str_def)
next
  case (EXISTS k)
  then show ?thesis by (auto split: option.splits)
next
  case (DEL ks)
  then show ?thesis by (simp add: mem_view_dels)
next
  case (PEXPIRE k ms)
  then show ?thesis by (auto split: option.splits)
next
  case (HEXISTS k f)
  show ?thesis using mem_doc_hash [of s k c f] unfolding HEXISTS by auto
next
  case (HGET k f)
  show ?thesis using mem_doc_hash [of s k c f] unfolding HGET by auto
next
  case (HSET k f t)
  show ?thesis using mem_doc_hash [of s k c f t] unfolding HSET by auto
next
  case (HSETNX k f t)
  show ?thesis using mem_doc_hash [of s k c f t] unfolding HSETNX by auto
next
  case (HDEL k f)
  show ?thesis using mem_doc_hash [of s k c f] unfolding HDEL by auto
next
  case (HINCRBY k f i)
  show ?thesis using mem_doc_hash [of s k c f _ i] unfolding HINCRBY redis_doc.simps by blast
next
  case (HGETALL k)
  show ?thesis using mem_doc_hash [of s k c] unfolding HGETALL redis_doc.simps by blast
next
  case (HMGET k fs)
  show ?thesis using mem_doc_hash [of s k c _ _ _ fs] unfolding HMGET redis_doc.simps by blast
next
  case (ZADD k t m)
  show ?thesis using mem_doc_zset [of s k c t m] unfolding ZADD redis_doc.simps by blast
next
  case (ZREM k m)
  show ?thesis using mem_doc_zset [of s k c _ m] unfolding ZREM redis_doc.simps by blast
next
  case (ZPOPMIN k)
  show ?thesis using mem_doc_zset [of s k c] unfolding ZPOPMIN redis_doc.simps by blast
next
  case (ZCARD k)
  show ?thesis using mem_doc_zset [of s k c] unfolding ZCARD redis_doc.simps by blast
next
  case (ZFIRST k)
  show ?thesis using mem_doc_zset [of s k c] unfolding ZFIRST redis_doc.simps by blast
next
  case (XADD k maxlen fs)
  show ?thesis using mem_doc_xadd [of s k maxlen fs] unfolding XADD redis_doc.simps by blast
next
  case (XACK k gn ids)
  show ?thesis using mem_doc_stream [of s k c gn ids] unfolding XACK redis_doc.simps by blast
next
  case (XGROUP_CREATE k gn)
  show ?thesis using mem_doc_stream [of s k c gn] unfolding XGROUP_CREATE redis_doc.simps by blast
next
  case (XREADGROUP k gn co n)
  show ?thesis using mem_doc_stream [of s k c gn _ co n] unfolding XREADGROUP redis_doc.simps by blast
next
  case (XAUTOCLAIM k gn co idle start n)
  show ?thesis using mem_doc_stream [of s k c gn _ co n idle start] unfolding XAUTOCLAIM redis_doc.simps by blast
next
  case (XRANGE k b n)
  show ?thesis using mem_doc_stream [of s k c _ _ _ n _ _ b] unfolding XRANGE redis_doc.simps by blast
next
  case (XLEN k)
  show ?thesis using mem_doc_stream [of s k c] unfolding XLEN redis_doc.simps by blast
next
  case (XPENDING k gn)
  show ?thesis using mem_doc_stream [of s k c gn] unfolding XPENDING redis_doc.simps by blast
next
  case (XINFO_GROUPS k)
  show ?thesis using mem_doc_groups [of s k] unfolding XINFO_GROUPS redis_doc.simps by blast
qed simp_all

interpretation mem: redis mem_call mem_view
  by unfold_locales (rule mem_doc)

text \<open>The names of the default configuration, on the reference server.\<close>

end
