(* ===== verification/BrokerSteps.thy ===== *)
theory BrokerSteps
  imports QueueInv Lease MemRedis
begin

text \<open>
  Every operation of the broker and of the lease, under any fate of its requests, is a sequence of the
  atomic steps of \<open>QueueInv\<close> on a typed key space.
\<close>

definition world_of :: "keys \<Rightarrow> ('s \<Rightarrow> rdb) \<Rightarrow> 's \<Rightarrow> exec_message set \<Rightarrow> world" where
  "world_of ks view s H = \<lparr>w_q = qabs ks (view s), w_held = H\<rparr>"

text \<open>\<open>f\<close> keeps the key space typed and moves the world by steps, with nothing newly held.\<close>

definition keeps :: "keys \<Rightarrow> ('s \<Rightarrow> rdb) \<Rightarrow> int \<Rightarrow> exec_message set \<Rightarrow> ('s \<Rightarrow> 's) \<Rightarrow> bool" where
  "keeps ks view ml H f \<longleftrightarrow>
     (\<forall>s. typed ks (view s) \<longrightarrow>
        typed ks (view (f s)) \<and> (wstep (k_worker_group ks) ml)\<^sup>*\<^sup>* (world_of ks view s H) (world_of ks view (f s) H))"

definition moved :: "keys \<Rightarrow> ('s \<Rightarrow> rdb) \<Rightarrow> int \<Rightarrow> exec_message set \<Rightarrow> 's net \<Rightarrow> exec_message set \<Rightarrow> 's net \<Rightarrow> bool" where
  "moved ks view ml H w H' w' \<longleftrightarrow>
     typed ks (view (n_db w')) \<and>
     (wstep (k_worker_group ks) ml)\<^sup>*\<^sup>* (world_of ks view (n_db w) H) (world_of ks view (n_db w') H')"

lemma moved_refl: "typed ks (view (n_db w)) \<Longrightarrow> moved ks view ml H w H w"
  by (simp add: moved_def)

lemma moved_trans: "moved ks view ml H w H' w' \<Longrightarrow> moved ks view ml H' w' H'' w'' \<Longrightarrow> moved ks view ml H w H'' w''"
  unfolding moved_def by (blast intro: rtranclp_trans)

lemma moved_typed: "moved ks view ml H w H' w' \<Longrightarrow> typed ks (view (n_db w'))"
  by (simp add: moved_def)

lemma keeps_resend: "keeps ks view ml H (\<lambda>s. snd (m s)) \<Longrightarrow> keeps ks view ml H (resend n m)"
proof (induction n)
  case (Suc n)
  then show ?case unfolding keeps_def resend.simps by (blast intro: rtranclp_trans)
qed (simp add: keeps_def)

lemma send_db:
  "n_db (snd (send m w)) =
     (case fst (next_fault (n_faults w)) of
        Answered n \<Rightarrow> snd (m (resend n m (n_db w)))
      | Unanswered n \<Rightarrow> resend n m (n_db w))"
  by (auto simp: send_def split: prod.splits delivery.splits sum.splits)

lemma send_moved:
  assumes "keeps ks view ml H (\<lambda>s. snd (m s))" "typed ks (view (n_db w))"
  shows "moved ks view ml H w H (snd (send m w))"
proof -
  have r: "keeps ks view ml H (\<lambda>s. snd (m (resend n m s)))" for n
    using assms(1) keeps_resend [OF assms(1), of n] unfolding keeps_def by (blast intro: rtranclp_trans)
  show ?thesis
    using assms(2) keeps_resend [OF assms(1)] r
    by (simp add: send_db moved_def keeps_def split: delivery.splits)
qed

text \<open>A forgotten message is a process that died; weakening what is held is a step.\<close>

section \<open>Single steps\<close>

lemma step_fence: "wstep gn ml \<lparr>w_q = q, w_held = H\<rparr> \<lparr>w_q = raised e q, w_held = H\<rparr>"
  using wstep.aux [where q = q and f = "if 0 < e \<and> lua_number (q_fence q) < lua_number e then lua_number e else q_fence q" and H = H
      and a = "q_ingress q" and b = "q_sched q" and c = "q_holder q" and d = "q_epoch q"]
  by (auto simp: raised_def)

lemma step_ingress: "wstep gn ml \<lparr>w_q = q, w_held = H\<rparr> \<lparr>w_q = q\<lparr>q_ingress := a\<rparr>, w_held = H\<rparr>"
  using wstep.aux [where q = q and f = "q_fence q" and a = a and b = "q_sched q" and c = "q_holder q" and d = "q_epoch q"] by simp

lemma step_sched: "wstep gn ml \<lparr>w_q = q, w_held = H\<rparr> \<lparr>w_q = q\<lparr>q_sched := b\<rparr>, w_held = H\<rparr>"
  using wstep.aux [where q = q and f = "q_fence q" and a = "q_ingress q" and b = b and c = "q_holder q" and d = "q_epoch q"] by simp

lemma step_lease: "wstep gn ml \<lparr>w_q = q, w_held = H\<rparr> \<lparr>w_q = q\<lparr>q_holder := c, q_epoch := d\<rparr>, w_held = H\<rparr>"
  using wstep.aux [where q = q and f = "q_fence q" and a = "q_ingress q" and b = "q_sched q" and c = c and d = d] by simp

lemma step_same: "wstep gn ml \<lparr>w_q = q, w_held = H\<rparr> \<lparr>w_q = q, w_held = H\<rparr>"
  using step_ingress [of gn ml q H "q_ingress q"] by simp

lemma passed_raised: "\<not> refused e q \<Longrightarrow> passed e (raised e q)"
  by (auto simp: passed_def raised_def refused_def)

lemma q_launch_fence: "q_launch now ml e m f q ts q' \<Longrightarrow> q_fence q' = q_fence q"
  by (induction rule: q_launch.induct) (simp_all add: q_unpend_def)

lemma q_dispatch_steps:
  "q_dispatch cap now ml (TNum e) n q ts q' \<Longrightarrow> passed e q \<Longrightarrow>
   (wstep gn ml)\<^sup>*\<^sup>* \<lparr>w_q = q, w_held = H\<rparr> \<lparr>w_q = q', w_held = H\<rparr>"
proof (induction cap now ml "TNum e" n q ts q' rule: q_dispatch.induct)
  case (pop cap q m f now maxLen ts q1 n out q2)
  have "passed e q1"
    using pop(6) q_launch_fence [OF pop(3)] by (simp add: passed_def)
  then show ?case
    using wstep.launched [OF pop(2) pop(6) pop(3)] pop(5) by (meson converse_rtranclp_into_rtranclp)
qed auto

section \<open>Commands and scripts\<close>

lemma rcall_snd: "snd (rcall call c s) = after call c s"
  by (auto simp: rcall_def after_def split: prod.splits reply.splits)

lemma keepsI:
  assumes "\<And>s. typed ks (view s) \<Longrightarrow> typed ks (view (f s)) \<and>
    (wstep (k_worker_group ks) ml)\<^sup>*\<^sup>* \<lparr>w_q = qabs ks (view s), w_held = H\<rparr> \<lparr>w_q = qabs ks (view (f s)), w_held = H\<rparr>"
  shows "keeps ks view ml H f"
  using assms by (simp add: keeps_def world_of_def)

lemma keeps_view:
  assumes "\<And>s. typed ks (view s) \<Longrightarrow> view (f s) = view s"
  shows "keeps ks view ml H f"
  using assms by (intro keepsI) simp

context queue_store
begin

lemma keeps_ingress:
  assumes "\<And>s. typed ks (view s) \<Longrightarrow>
    view (after call c s) = view s \<or> (\<exists>st. view (after call c s) = put_stream (view s) (k_name ks Ingress) st)"
  shows "keeps ks view ml H (\<lambda>s. snd (rcall call c s))"
proof (rule keepsI, unfold rcall_snd)
  fix s assume t: "typed ks (view s)"
  show "typed ks (view (after call c s)) \<and> (wstep (k_worker_group ks) ml)\<^sup>*\<^sup>*
      \<lparr>w_q = qabs ks (view s), w_held = H\<rparr> \<lparr>w_q = qabs ks (view (after call c s)), w_held = H\<rparr>"
    using assms [OF t] typed_put(15) [OF names t] t step_ingress
    by (auto simp: qabs_put(13) [OF names] intro: r_into_rtranclp)
qed

lemma keeps_submit: "keeps ks view ml H (\<lambda>s. snd (rcall call (XADD (k_name ks Ingress) n fs) s))"
  by (rule keeps_ingress) (use run_XADD(2) [OF typedD(13)] in blast)

lemma keeps_ack_ingress: "keeps ks view ml H (\<lambda>s. snd (rcall call (XACK (k_name ks Ingress) gn ids) s))"
  by (rule keeps_ingress) (auto simp: run_XACK(2) [OF typedD(13)] acked_def split: option.splits)

lemma keeps_group_ingress: "keeps ks view ml H (\<lambda>s. snd (rcall call (XGROUP_CREATE (k_name ks Ingress) gn) s))"
proof (rule keeps_ingress)
  fix s assume "typed ks (view s)"
  then show "view (after call (XGROUP_CREATE (k_name ks Ingress) gn) s) = view s \<or>
      (\<exists>st. view (after call (XGROUP_CREATE (k_name ks Ingress) gn) s) = put_stream (view s) (k_name ks Ingress) st)"
    using doc_after [of "XGROUP_CREATE (k_name ks Ingress) gn" s] typedD(13) by (auto split: if_splits)
qed

lemma keeps_read_ingress:
  assumes "0 < n"
  shows "keeps ks view ml H (\<lambda>s. snd (rcall call (XREADGROUP (k_name ks Ingress) gn c n) s))"
proof (rule keeps_ingress)
  fix s assume "typed ks (view s)"
  then show "view (after call (XREADGROUP (k_name ks Ingress) gn c n) s) = view s \<or>
      (\<exists>st. view (after call (XREADGROUP (k_name ks Ingress) gn c n) s) = put_stream (view s) (k_name ks Ingress) st)"
    using doc_after [of "XREADGROUP (k_name ks Ingress) gn c n" s] typedD(13) assms
    by (auto simp: Let_def split: option.splits if_splits)
qed

lemma keeps_claim_ingress:
  assumes "0 < n"
  shows "keeps ks view ml H (\<lambda>s. snd (rcall call (XAUTOCLAIM (k_name ks Ingress) gn c idle start n) s))"
proof (rule keeps_ingress)
  fix s assume "typed ks (view s)"
  then show "view (after call (XAUTOCLAIM (k_name ks Ingress) gn c idle start n) s) = view s \<or>
      (\<exists>st. view (after call (XAUTOCLAIM (k_name ks Ingress) gn c idle start n) s) = put_stream (view s) (k_name ks Ingress) st)"
    using doc_after [of "XAUTOCLAIM (k_name ks Ingress) gn c idle start n" s] typedD(13) assms
    by (auto split: option.splits if_splits)
qed

lemma keeps_group_exec: "keeps ks view ml H (\<lambda>s. snd (rcall call (XGROUP_CREATE (k_name ks Exec) (k_worker_group ks)) s))"
proof (rule keepsI, unfold rcall_snd)
  fix s assume t: "typed ks (view s)"
  let ?c = "XGROUP_CREATE (k_name ks Exec) (k_worker_group ks)"
  show "typed ks (view (after call ?c s)) \<and> (wstep (k_worker_group ks) ml)\<^sup>*\<^sup>*
      \<lparr>w_q = qabs ks (view s), w_held = H\<rparr> \<lparr>w_q = qabs ks (view (after call ?c s)), w_held = H\<rparr>"
  proof (cases "st_groups (q_exec (qabs ks (view s))) (k_worker_group ks)")
    case None
    then have "view (after call ?c s) = put_stream (view s) (k_name ks Exec)
        ((q_exec (qabs ks (view s)))\<lparr>st_groups := (st_groups (q_exec (qabs ks (view s))))(k_worker_group ks \<mapsto> empty_group)\<rparr>)"
      using doc_after [of ?c s] typedD(14) [OF t] by (simp add: qabs_sel)
    then show ?thesis
      using typed_put(16) [OF names t] wstep.grouped [OF None] by (auto simp: qabs_put(14) [OF names] intro: r_into_rtranclp)
  next
    case (Some g)
    then have "view (after call ?c s) = view s"
      using doc_after [of ?c s] typedD(14) [OF t] by (simp add: qabs_sel)
    then show ?thesis using t by simp
  qed
qed

lemma keeps_admit:
  assumes "after_first (CHR ''|'') m = Some (t_id t)" "score \<noteq> NaN"
  shows "keeps ks view ml H (\<lambda>s. snd (admit_script call (k_name ks Payloads) (k_name ks Pending) (k_name ks PendingAge) (k_name ks Done)
    (k_name ks Stats) (k_name ks Fence) (t_id t) m (TFlt score) (TNum age) (TTask t) (TNum e) s))"
proof (rule keepsI)
  fix s assume t: "typed ks (view s)"
  let ?q = "qabs ks (view s)" and ?w = "\<lambda>q. \<lparr>w_q = q, w_held = H\<rparr>"
  let ?s = "snd (admit_script call (k_name ks Payloads) (k_name ks Pending) (k_name ks PendingAge) (k_name ks Done)
    (k_name ks Stats) (k_name ks Fence) (t_id t) m (TFlt score) (TNum age) (TTask t) (TNum e) s)"
  have sc: "score_text (TFlt score) = Some score" "score_text (TNum age) = Some (f64_of_int age)"
    using assms(2) by (cases score; simp add: score_text_def)+
  have r: "typed ks (view ?s)" "qabs ks (view ?s) =
      (if refused e ?q then ?q else if q_known (t_id t) ?q then raised e ?q
       else q_admit (t_id t) m score (f64_of_int age) (TTask t) (raised e ?q))"
    using admit_run [OF t sc, of "t_id t" m "TTask t" e] by auto
  have known: "q_known (t_id t) (raised e ?q) = q_known (t_id t) ?q"
    by (simp add: q_known_def raised_def)
  have "(wstep (k_worker_group ks) ml)\<^sup>*\<^sup>* (?w ?q) (?w (qabs ks (view ?s)))"
    unfolding r(2)
    using step_fence [of "k_worker_group ks" ml ?q H e]
      wstep.admitted [of t "raised e ?q" m "k_worker_group ks" ml H score "f64_of_int age"] assms(1)
    by (auto simp: known intro: converse_rtranclp_into_rtranclp)
  with r(1) show "typed ks (view ?s) \<and> (wstep (k_worker_group ks) ml)\<^sup>*\<^sup>* (?w ?q) (?w (qabs ks (view ?s)))"
    by simp
qed

lemma keeps_dispatch:
  "keeps ks view ml H (\<lambda>s. snd (dispatch_script call (k_name ks Pending) (k_name ks PendingAge) (k_name ks Payloads) (k_name ks Exec)
    (k_name ks Stats) (k_name ks InFlight) (k_name ks Fence) n cap now ml (TNum e) s))"
proof (rule keepsI)
  fix s assume t: "typed ks (view s)"
  let ?q = "qabs ks (view s)" and ?w = "\<lambda>q. \<lparr>w_q = q, w_held = H\<rparr>"
  let ?s = "snd (dispatch_script call (k_name ks Pending) (k_name ks PendingAge) (k_name ks Payloads) (k_name ks Exec)
    (k_name ks Stats) (k_name ks InFlight) (k_name ks Fence) n cap now ml (TNum e) s)"
  have r: "typed ks (view ?s)" "if refused e ?q then qabs ks (view ?s) = ?q
      else \<exists>ts. q_dispatch cap now ml (TNum e) (nat n) (raised e ?q) ts (qabs ks (view ?s))"
    using dispatch_run [OF t, of n cap now ml e] by (auto split: if_splits)
  have "(wstep (k_worker_group ks) ml)\<^sup>*\<^sup>* (?w ?q) (?w (qabs ks (view ?s)))"
  proof (cases "refused e ?q")
    case False
    then obtain ts where "q_dispatch cap now ml (TNum e) (nat n) (raised e ?q) ts (qabs ks (view ?s))"
      using r(2) by auto
    from q_dispatch_steps [OF this passed_raised [OF False]]
    show ?thesis using step_fence by (meson converse_rtranclp_into_rtranclp)
  qed (use r(2) in simp)
  with r(1) show "typed ks (view ?s) \<and> (wstep (k_worker_group ks) ml)\<^sup>*\<^sup>* (?w ?q) (?w (qabs ks (view ?s)))"
    by simp
qed

lemma keeps_complete:
  assumes "msg \<in> H" "r_task_id r = t_id (x_task msg)"
  shows "keeps ks view ml H (\<lambda>s. snd (complete_script call (k_name ks Done) (k_name ks Payloads) (k_name ks Results) (k_name ks Stats)
    (k_name ks TenantService) (k_name ks TenantCount) (k_name ks InFlight) (k_name ks Exec)
    (r_task_id r) (TResult r) tenant ms missed now (k_worker_group ks) (Some (x_id msg)) ml s))"
  using complete_run wstep.completed [OF assms] by (intro keepsI) (metis r_into_rtranclp snd_conv)

lemma keeps_retry:
  assumes "msg \<in> H" "t_id next = t_id (x_task msg)"
  shows "keeps ks view ml H (\<lambda>s. snd (retry_script call (k_name ks Done) (k_name ks Payloads) (k_name ks Exec) (k_name ks DeadLetter)
    (k_name ks Stats) (k_name ks InFlight) (t_id (x_task msg)) (TTask next) dead isDead now (k_worker_group ks) (Some (x_id msg)) ml s))"
  using retry_run wstep.retried [OF assms] by (intro keepsI) (metis r_into_rtranclp snd_conv)

lemma keeps_save:
  "keeps ks view ml H (\<lambda>s. snd (save_state_script call (k_name ks SchedState) (k_name ks Fence) (TNum e) fvs s))"
proof (rule keepsI)
  fix s assume t: "typed ks (view s)"
  let ?q = "qabs ks (view s)" and ?w = "\<lambda>q. \<lparr>w_q = q, w_held = H\<rparr>"
  let ?s = "snd (save_state_script call (k_name ks SchedState) (k_name ks Fence) (TNum e) fvs s)"
  have r: "typed ks (view ?s)" "qabs ks (view ?s) = (if refused e ?q then ?q else q_save fvs (raised e ?q))"
    using save_run [OF t, of e fvs] by auto
  have save: "wstep (k_worker_group ks) ml (?w q) (?w (q_save fvs q))" for q
    by (simp add: q_save_def step_sched step_same)
  have "(wstep (k_worker_group ks) ml)\<^sup>*\<^sup>* (?w ?q) (?w (qabs ks (view ?s)))"
    unfolding r(2) using step_fence [of "k_worker_group ks" ml ?q H e] save by (auto intro: converse_rtranclp_into_rtranclp)
  with r(1) show "typed ks (view ?s) \<and> (wstep (k_worker_group ks) ml)\<^sup>*\<^sup>* (?w ?q) (?w (qabs ks (view ?s)))"
    by simp
qed

section \<open>Deliveries\<close>

text \<open>What a reply delivers.\<close>

lemma read_exec_run:
  assumes t: "typed ks (view s)" and n: "0 < n" and c_def: "c = XREADGROUP (k_name ks Exec) (k_worker_group ks) co n"
  shows "typed ks (view (after call c s)) \<and>
    (wstep (k_worker_group ks) ml)\<^sup>*\<^sup>* \<lparr>w_q = qabs ks (view s), w_held = H\<rparr>
      \<lparr>w_q = qabs ks (view (after call c s)),
       w_held = H \<union> (case fst (rcall call c s) of Inr (REntries es) \<Rightarrow> received es | _ \<Rightarrow> {})\<rparr>"
proof (cases "st_groups (q_exec (qabs ks (view s))) (k_worker_group ks)")
  case None
  then obtain e where "fst (call c s) = RErr e" "view (after call c s) = view s"
    using doc_after [of c s] typedD(14) [OF t] n by (auto simp: c_def qabs_sel)
  then show ?thesis using t rcall_error [of call c s e] by simp
next
  case (Some g)
  let ?es = "take (nat n) (unread (q_exec (qabs ks (view s))) (g_last g))"
  have d: "view (after call c s) = (if ?es = [] then view s else put_stream (view s) (k_name ks Exec) (deliver (q_exec (qabs ks (view s))) (k_worker_group ks) g ?es))"
    "fst (call c s) = (if ?es = [] then RNil else REntries ?es)"
    using doc_after [of c s] typedD(14) [OF t] n Some by (simp_all add: c_def qabs_sel Let_def)
  have r: "fst (rcall call c s) = Inr (if ?es = [] then RNil else REntries ?es)"
    by (subst rcall_reply_fst [of call c s "if ?es = [] then RNil else REntries ?es"]) (simp_all add: d(2))
  have "qabs ks (view (after call c s)) = (qabs ks (view s))\<lparr>q_exec := deliver (q_exec (qabs ks (view s))) (k_worker_group ks) g ?es\<rparr>"
    by (simp add: d(1) qabs_put(14) [OF names] deliver_def)
  moreover have "(case fst (rcall call c s) of Inr (REntries es) \<Rightarrow> received es | _ \<Rightarrow> {}) = received ?es"
    by (simp add: r received_def)
  ultimately show ?thesis
    using wstep.delivered [OF Some refl, of ml H "nat n"] typed_put(16) [OF names t] t
    by (auto simp: d(1) intro: r_into_rtranclp)
qed

lemma claim_exec_run:
  assumes t: "typed ks (view s)" and n: "0 < n" and c_def: "c = XAUTOCLAIM (k_name ks Exec) (k_worker_group ks) co idle start n"
  shows "typed ks (view (after call c s)) \<and>
    (wstep (k_worker_group ks) ml)\<^sup>*\<^sup>* \<lparr>w_q = qabs ks (view s), w_held = H\<rparr>
      \<lparr>w_q = qabs ks (view (after call c s)),
       w_held = H \<union> (case fst (rcall call c s) of Inr (RClaim _ es) \<Rightarrow> received es | _ \<Rightarrow> {})\<rparr> \<and>
    (\<forall>next es. fst (rcall call c s) = Inr (RClaim next es) \<longrightarrow> set es \<subseteq> set (st_entries (q_exec (qabs ks (view s)))) \<and>
       st_entries (q_exec (qabs ks (view (after call c s)))) = st_entries (q_exec (qabs ks (view s))))"
proof (cases "st_groups (q_exec (qabs ks (view s))) (k_worker_group ks)")
  case None
  then obtain e where "fst (call c s) = RErr e" "view (after call c s) = view s"
    using doc_after [of c s] typedD(14) [OF t] n by (auto simp: c_def qabs_sel)
  then show ?thesis using t rcall_error [of call c s e] by simp
next
  case (Some g)
  let ?st = "q_exec (qabs ks (view s))"
  obtain nx gone claimed where d: "gone \<subseteq> g_pel g - se_id ` set (st_entries ?st)"
      "fst (call c s) = RClaim nx (filter (\<lambda>e. se_id e \<in> claimed) (st_entries ?st))"
      "view (after call c s) = (if gone = {} then view s else put_stream (view s) (k_name ks Exec) (set_pel ?st (k_worker_group ks) g (g_pel g - gone)))"
    using doc_after [of c s] typedD(14) [OF t] n Some by (auto simp: c_def qabs_sel)
  let ?es = "filter (\<lambda>e. se_id e \<in> claimed) (st_entries ?st)"
  have r: "fst (rcall call c s) = Inr (RClaim nx ?es)"
    by (subst rcall_reply_fst [of call c s "RClaim nx ?es"]) (simp_all add: d(2))
  have same: "set_pel ?st (k_worker_group ks) g (g_pel g - {}) = ?st"
    using Some by (cases ?st) (auto simp: set_pel_def fun_upd_idem)
  have q: "qabs ks (view (after call c s)) = (qabs ks (view s))\<lparr>q_exec := set_pel ?st (k_worker_group ks) g (g_pel g - gone)\<rparr>"
    using same by (auto simp: d(3) qabs_put(14) [OF names])
  have "wstep (k_worker_group ks) ml \<lparr>w_q = qabs ks (view s), w_held = H\<rparr>
      \<lparr>w_q = (qabs ks (view s))\<lparr>q_exec := set_pel ?st (k_worker_group ks) g (g_pel g - gone)\<rparr>, w_held = H \<union> received ?es\<rparr>"
    by (rule wstep.reclaimed [OF Some d(1)]) auto
  moreover have "typed ks (view (after call c s))"
    using typed_put(16) [OF names t] t by (simp add: d(3))
  ultimately show ?thesis by (auto simp: r q intro: r_into_rtranclp)
qed

lemma forget_steps:
  assumes "(wstep gn ml)\<^sup>*\<^sup>* W \<lparr>w_q = q, w_held = H\<rparr>" "H' \<subseteq> H"
  shows "(wstep gn ml)\<^sup>*\<^sup>* W \<lparr>w_q = q, w_held = H'\<rparr>"
  using assms wstep.forgotten by (meson rtranclp.rtrancl_into_rtrancl)

lemma keeps_read_exec: "0 < n \<Longrightarrow> keeps ks view ml H (\<lambda>s. snd (rcall call (XREADGROUP (k_name ks Exec) (k_worker_group ks) co n) s))"
  unfolding rcall_snd by (rule keepsI) (use read_exec_run [OF _ _ refl] forget_steps [OF _ Un_upper1] in blast)

lemma keeps_claim_exec:
  "0 < n \<Longrightarrow> keeps ks view ml H (\<lambda>s. snd (rcall call (XAUTOCLAIM (k_name ks Exec) (k_worker_group ks) co idle start n) s))"
  unfolding rcall_snd by (rule keepsI) (use claim_exec_run [OF _ _ refl] forget_steps [OF _ Un_upper1] in blast)

text \<open>An answered request is its last run, after the runs whose reply was lost.\<close>

lemma send_answered:
  assumes "send m w = (Inr a, w')" "keeps ks view ml H (\<lambda>s. snd (m s))" "typed ks (view (n_db w))"
  obtains s where "typed ks (view s)" "m s = (Inr a, n_db w')"
    "(wstep (k_worker_group ks) ml)\<^sup>*\<^sup>* (world_of ks view (n_db w) H) (world_of ks view s H)"
proof -
  obtain n where "m (resend n m (n_db w)) = (Inr a, n_db w')"
    using assms(1) by (auto simp: send_def split: prod.splits delivery.splits sum.splits)
  then show thesis
    using that [of "resend n m (n_db w)"] keeps_resend [OF assms(2), of n] assms(3) by (simp add: keeps_def)
qed

end

end
