(* ===== verification/LeaseProps.thy ===== *)
theory LeaseProps
  imports BrokerSteps
begin

text \<open>
  The lease scripts as functions of the abstract state, and what follows for a process: a grant is
  new and exclusive, a renewal or a release touches only the process's own grant.
\<close>

text \<open>The lease uses the two lease keys of the namespace.\<close>

definition lease_on :: "keys \<Rightarrow> lease \<Rightarrow> bool" where
  "lease_on ks l \<longleftrightarrow> ls_holder l = k_name ks Leader \<and> ls_counter l = k_name ks LeaderEpoch"

text \<open>Two grants with different epochs have different values, whoever holds them.\<close>

lemma grant_value_nonempty [simp]: "grant_value owner e \<noteq> []"
  by (simp add: grant_value_def)

lemma grant_value_split: "split_last (CHR ''|'') (grant_value owner e) = Some (owner, show_int e)"
  by (simp add: grant_value_def)

lemma holder_of_grant: "in_i64 e \<Longrightarrow> holder_of (grant_value owner e) = (owner, e)"
  by (simp add: holder_of_def grant_value_split parse_show_int)

lemma grant_value_inj: "in_i64 e \<Longrightarrow> in_i64 e' \<Longrightarrow> grant_value o1 e = grant_value o2 e' \<Longrightarrow> o1 = o2 \<and> e = e'"
  by (metis holder_of_grant prod.inject)

context queue_store
begin

lemma holder_exists: "typed ks (view s) \<Longrightarrow> (view s (k_name ks Leader) = None) = (q_holder (qabs ks (view s)) = None)"
  using typedD(12) [of ks "view s"] by (auto simp: qabs_def is_str_def str_at_def split: option.splits rvalue.splits)

lemma acquire_run:
  assumes t: "typed ks (view s)"
  shows "\<exists>r s'. acquire_script call (k_name ks Leader) (k_name ks LeaderEpoch) owner ttl s = (r, s') \<and> typed ks (view s') \<and>
    (if q_holder (qabs ks (view s)) \<noteq> None then r = Inr (0, []) \<and> qabs ks (view s') = qabs ks (view s)
     else if 0 < ttl then
       r = Inr (q_epoch (qabs ks (view s)) + 1, grant_value owner (q_epoch (qabs ks (view s)) + 1)) \<and>
       qabs ks (view s') = (qabs ks (view s))
         \<lparr>q_epoch := q_epoch (qabs ks (view s)) + 1, q_holder := Some (TStr (grant_value owner (q_epoch (qabs ks (view s)) + 1)))\<rparr>
     else (\<exists>e. r = Inl e) \<and> qabs ks (view s') = (qabs ks (view s))\<lparr>q_epoch := q_epoch (qabs ks (view s)) + 1\<rparr>)"
proof -
  let ?n = "q_epoch (qabs ks (view s))"
  let ?s1 = "after call (EXISTS (k_name ks Leader)) s"
  have v1: "view ?s1 = view s"
    by (rule run_EXISTS(2))
  show ?thesis
  proof (cases "q_holder (qabs ks (view s))")
    case (Some v)
    then show ?thesis
      using t holder_exists [OF t] by (auto simp: acquire_script_def lbind_case run_EXISTS)
  next
    case None
    let ?s2 = "after call (INCR (k_name ks LeaderEpoch)) ?s1"
    have i: "rcall call (INCR (k_name ks LeaderEpoch)) ?s1 = (Inr (RInt (?n + 1)), ?s2)"
      "view ?s2 = put_str (view s) (k_name ks LeaderEpoch) (TNum (?n + 1))"
      using run_INCR [of ?s1 "k_name ks LeaderEpoch" ?n] typedD(11,22) [OF t] by (simp_all add: v1 qabs_sel)
    have t2: "typed ks (view ?s2)" "qabs ks (view ?s2) = (qabs ks (view s))\<lparr>q_epoch := ?n + 1\<rparr>"
      using typed_put(13) [OF names t] by (simp_all add: i(2) qabs_put(11) [OF names])
    show ?thesis
    proof (cases "0 < ttl")
      case True
      then show ?thesis
        using None t2 typed_put(14) [OF names t2(1)] holder_exists [OF t]
        by (simp add: acquire_script_def lbind_case lthen_case run_EXISTS i(1) run_SETPX qabs_put(12) [OF names])
    next
      case False
      let ?c = "SETPX (k_name ks Leader) (TStr (grant_value owner (?n + 1))) ttl"
      obtain e where "rcall call ?c ?s2 = (Inl e, after call ?c ?s2)"
        using run_SETPX_refused(1) [OF False] by blast
      then show ?thesis
        using None False t2 holder_exists [OF t]
        by (simp add: acquire_script_def lbind_case lthen_case run_EXISTS i(1) run_SETPX_refused(2))
    qed
  qed
qed

lemma get_holder:
  assumes t: "typed ks (view s)"
  shows "\<exists>r. rcall call (GET (k_name ks Leader)) s = (Inr r, after call (GET (k_name ks Leader)) s) \<and>
      (r = RText (TStr v)) = (q_holder (qabs ks (view s)) = Some (TStr v))"
    "view (after call (GET (k_name ks Leader)) s) = view s"
  using typedD(12) [OF t] by (auto simp: run_GET qabs_sel split: option.splits)

lemma renew_run:
  assumes t: "typed ks (view s)" and ttl: "0 < ttl"
  shows "\<exists>s'. renew_script call (k_name ks Leader) v ttl s =
      (Inr (if q_holder (qabs ks (view s)) = Some (TStr v) then 1 else 0), s') \<and> view s' = view s"
proof -
  obtain r where r: "rcall call (GET (k_name ks Leader)) s = (Inr r, after call (GET (k_name ks Leader)) s)"
      "(r = RText (TStr v)) = (q_holder (qabs ks (view s)) = Some (TStr v))"
    using get_holder(1) [OF t] by blast
  show ?thesis
    by (simp add: renew_script_def lbind_case lthen_case r run_PEXPIRE [OF ttl] get_holder(2) [OF t])
qed

lemma qabs_no_holder:
  "qabs ks (\<lambda>k. if k \<in> set [k_name ks Leader] then None else d k) = (qabs ks d)\<lparr>q_holder := None\<rparr>"
  "typed ks d \<Longrightarrow> typed ks (\<lambda>k. if k \<in> set [k_name ks Leader] then None else d k)"
  by (auto simp: qabs_def typed_def is_defs k_name_eq [OF names])

lemma release_run:
  assumes t: "typed ks (view s)"
  shows "\<exists>s'. release_script call (k_name ks Leader) v s =
      (Inr (if q_holder (qabs ks (view s)) = Some (TStr v) then 1 else 0), s') \<and> typed ks (view s') \<and>
      qabs ks (view s') =
        (if q_holder (qabs ks (view s)) = Some (TStr v) then (qabs ks (view s))\<lparr>q_holder := None\<rparr> else qabs ks (view s))"
proof -
  let ?s1 = "after call (GET (k_name ks Leader)) s"
  obtain r where r: "rcall call (GET (k_name ks Leader)) s = (Inr r, ?s1)"
      "(r = RText (TStr v)) = (q_holder (qabs ks (view s)) = Some (TStr v))"
    using get_holder(1) [OF t] by blast
  note v1 = get_holder(2) [OF t]
  show ?thesis
  proof (cases "q_holder (qabs ks (view s)) = Some (TStr v)")
    case True
    obtain n where "rcall call (DEL [k_name ks Leader]) ?s1 = (Inr (RInt n), after call (DEL [k_name ks Leader]) ?s1)"
      using run_DEL(1) by blast
    moreover have "view (after call (DEL [k_name ks Leader]) ?s1) = (\<lambda>k. if k \<in> set [k_name ks Leader] then None else view s k)"
      unfolding run_DEL(2) v1 ..
    ultimately show ?thesis
      using True r(2) qabs_no_holder(1) [of "view s"] qabs_no_holder(2) [OF t]
      by (simp add: release_script_def lbind_case lthen_case r(1))
  next
    case False
    then show ?thesis using r t v1 by (simp add: release_script_def lbind_case)
  qed
qed

section \<open>Steps of the world\<close>

lemma keeps_acquire:
  "keeps ks view ml H (\<lambda>s. snd (acquire_script call (k_name ks Leader) (k_name ks LeaderEpoch) owner ttl s))"
proof (rule keepsI)
  fix s assume t: "typed ks (view s)"
  let ?q = "qabs ks (view s)" and ?s = "snd (acquire_script call (k_name ks Leader) (k_name ks LeaderEpoch) owner ttl s)"
  have r: "typed ks (view ?s)" "\<exists>c d. qabs ks (view ?s) = ?q\<lparr>q_holder := c, q_epoch := d\<rparr>"
  proof -
    note run = acquire_run [OF t, of owner ttl]
    show "typed ks (view ?s)" using run by auto
    consider (held) "q_holder ?q \<noteq> None" | (granted) "q_holder ?q = None" "0 < ttl" | (bad) "q_holder ?q = None" "\<not> 0 < ttl"
      by blast
    then show "\<exists>c d. qabs ks (view ?s) = ?q\<lparr>q_holder := c, q_epoch := d\<rparr>"
    proof cases
      case held
      then have "qabs ks (view ?s) = ?q\<lparr>q_holder := q_holder ?q, q_epoch := q_epoch ?q\<rparr>"
        using run by auto
      then show ?thesis by blast
    next
      case granted
      then have "qabs ks (view ?s) = ?q\<lparr>q_holder := Some (TStr (grant_value owner (q_epoch ?q + 1))), q_epoch := q_epoch ?q + 1\<rparr>"
        using run by auto
      then show ?thesis by blast
    next
      case bad
      then have "qabs ks (view ?s) = ?q\<lparr>q_holder := q_holder ?q, q_epoch := q_epoch ?q + 1\<rparr>"
        using run by auto
      then show ?thesis by blast
    qed
  qed
  then show "typed ks (view ?s) \<and> (wstep (k_worker_group ks) ml)\<^sup>*\<^sup>* \<lparr>w_q = ?q, w_held = H\<rparr> \<lparr>w_q = qabs ks (view ?s), w_held = H\<rparr>"
    using step_lease by (metis r_into_rtranclp)
qed

lemma keeps_renew: "0 < ttl \<Longrightarrow> keeps ks view ml H (\<lambda>s. snd (renew_script call (k_name ks Leader) v ttl s))"
  by (rule keeps_view) (metis renew_run snd_conv)

lemma keeps_release: "keeps ks view ml H (\<lambda>s. snd (release_script call (k_name ks Leader) v s))"
proof (rule keepsI)
  fix s assume t: "typed ks (view s)"
  let ?q = "qabs ks (view s)" and ?s = "snd (release_script call (k_name ks Leader) v s)"
  have "typed ks (view ?s)" "qabs ks (view ?s) = ?q \<or> qabs ks (view ?s) = ?q\<lparr>q_holder := None, q_epoch := q_epoch ?q\<rparr>"
    using release_run [OF t, of v] by (auto split: if_splits)
  then show "typed ks (view ?s) \<and> (wstep (k_worker_group ks) ml)\<^sup>*\<^sup>* \<lparr>w_q = ?q, w_held = H\<rparr> \<lparr>w_q = qabs ks (view ?s), w_held = H\<rparr>"
    using step_lease [where q = ?q and c = None and d = "q_epoch ?q"] by auto
qed

lemma keeps_wait: "keeps ks view ml H (\<lambda>s. snd (rcall call (WAIT n ms) s))"
  unfolding rcall_snd by (rule keeps_view) (use doc_after [of "WAIT n ms"] in simp)

end

end
