(* ===== verification/Engine.thy ===== *)
theory Engine
  imports Lease Config
begin

text \<open>
  The scheduler engine (\<open>internal/scheduler/engine.go\<close>): admission of ingress batches, the passes of its four
  loops, policy state, leadership, and a leadership term. A pass is one iteration of a loop with its
  context alive; the loops' passes interleave in the order of a list.

  Metric updates (\<open>internal/metrics\<close>) are the events a step emits. Log lines are not modelled.
\<close>

section \<open>Metrics\<close>

datatype instrument =
    TasksAdmitted | TasksDispatched | PendingTasks | InFlightTasks | LongestPendingWait | MaxObservedWait
  | IngressReclaimed | RecoveryReclaimed | TaskRetries | TasksDeadLettered | DuplicateAdmissions | DispatchErrors
  | IsLeader | LeaderEpochGauge | LeaderTransitions | FencedOperations
  | TasksCompleted | TasksFailed | DeadlineMissed | DuplicateCompletions | TenantServiceSeconds | TenantCompletedTasks
  | WorkerBusySeconds | ExecSeconds | QueueWaitSeconds | LatencySeconds

datatype mevent =
    Inc instrument | IncFor instrument string | AddN instrument f64 | AddFor instrument string f64
  | SetG instrument f64 | Observe instrument f64

definition set_leader :: "bool \<Rightarrow> int \<Rightarrow> mevent list" where
  "set_leader leader epoch =
     (if leader then [SetG IsLeader (Fin 1), SetG LeaderEpochGauge (f64_of_int epoch)]
      else [SetG IsLeader (Fin 0), SetG LeaderEpochGauge (Fin 0)])"

text \<open>The running maximum is part of the metrics' state.\<close>

definition observe_wait :: "duration \<Rightarrow> duration \<Rightarrow> mevent list \<times> duration" where
  "observe_wait d max_wait =
     (if max_wait < d then ([SetG LongestPendingWait (dur_seconds d), SetG MaxObservedWait (dur_seconds d)], d)
      else ([SetG LongestPendingWait (dur_seconds d)], max_wait))"

definition preload_tenants :: "string list \<Rightarrow> mevent list" where
  "preload_tenants ts =
     concat (map (\<lambda>t. [AddFor TasksDispatched t (Fin 0), AddFor TasksCompleted t (Fin 0), AddFor DeadlineMissed t (Fin 0),
       AddFor TenantServiceSeconds t (Fin 0), AddFor TenantCompletedTasks t (Fin 0)]) ts)"

section \<open>The engine\<close>

record engine =
  en_broker :: broker
  en_pol :: policy
  en_cfg :: scheduler_cfg
  en_name :: string
  en_leader :: bool
  en_epoch :: int
  en_max_wait :: duration

record engine_options =
  eo_broker :: "broker option"
  eo_pol :: "policy option"
  eo_cfg :: scheduler_cfg
  eo_logger :: bool
  eo_metrics :: bool
  eo_consumer :: string

definition new_engine :: "engine_options \<Rightarrow> string + engine" where
  "new_engine op =
     (case eo_broker op of
        None \<Rightarrow> Inl ''scheduler engine: broker is required''
      | Some b \<Rightarrow>
          (case eo_pol op of
             None \<Rightarrow> Inl ''scheduler engine: policy is required''
           | Some p \<Rightarrow>
               if \<not> eo_logger op then Inl ''scheduler engine: logger is required''
               else if \<not> eo_metrics op then Inl ''scheduler engine: metrics are required''
               else if eo_consumer op = [] then Inl ''scheduler engine: consumer name is required''
               else Inr \<lparr>en_broker = b, en_pol = p, en_cfg = eo_cfg op, en_name = eo_consumer op, en_leader = False,
                 en_epoch = 0, en_max_wait = 0\<rparr>))"

definition set_leadership :: "bool \<Rightarrow> int \<Rightarrow> engine \<Rightarrow> engine \<times> mevent list" where
  "set_leadership leader epoch en =
     (en\<lparr>en_leader := leader, en_epoch := epoch\<rparr>,
      set_leader leader epoch @ (if en_leader en \<noteq> leader then [Inc LeaderTransitions] else []))"

datatype restore_state_error = LoadFailed berr | RestoreFailed restore_error

definition restore_state :: "(cmd \<Rightarrow> 's \<Rightarrow> reply \<times> 's) \<Rightarrow> engine \<Rightarrow> 's net \<Rightarrow> restore_state_error option \<times> engine \<times> 's net" where
  "restore_state call en w =
     (case load_scheduler_state call (en_broker en) w of
        (Inl e, w') \<Rightarrow> (Some (LoadFailed e), en, w')
      | (Inr st, w') \<Rightarrow>
          if st = [] then (None, en, w')
          else case pol_restore (en_pol en) st of (e, p) \<Rightarrow> (map_option RestoreFailed e, en\<lparr>en_pol := p\<rparr>, w'))"

definition flush_state :: "(cmd \<Rightarrow> 's \<Rightarrow> reply \<times> 's) \<Rightarrow> int \<Rightarrow> engine \<Rightarrow> ('s, berr, unit) go" where
  "flush_state call epoch en w = save_scheduler_state call (en_broker en) (pol_state (en_pol en)) epoch w"

section \<open>Admission\<close>

text \<open>The result is the errors joined, none on success. \<open>acks\<close> are the entries settled so far.\<close>

fun admit_loop ::
  "(cmd \<Rightarrow> 's \<Rightarrow> reply \<times> 's) \<Rightarrow> int \<Rightarrow> string list \<Rightarrow> ingress_message list \<Rightarrow> sid list \<Rightarrow> engine \<Rightarrow> 's net \<Rightarrow>
   berr list \<times> engine \<times> mevent list \<times> 's net" where
  "admit_loop call epoch knownIds [] acks en w =
     (case ack_ingress call (en_broker en) acks w of (r, w') \<Rightarrow> ((case r of Inl e \<Rightarrow> [e] | Inr _ \<Rightarrow> []), en, [], w'))"
| "admit_loop call epoch knownIds (m # ms) acks en w =
     (if t_id (i_task m) \<in> set knownIds then
        (case admit_loop call epoch knownIds ms (acks @ [i_id m]) en w of
           (es, en', ev, w') \<Rightarrow> (es, en', Inc DuplicateAdmissions # ev, w'))
      else if validate_task (i_task m) \<noteq> None then admit_loop call epoch knownIds ms (acks @ [i_id m]) en w
      else
        (case pol_rank (en_pol en) (i_task m) of
           (k, p) \<Rightarrow>
             (let en1 = en\<lparr>en_pol := p\<rparr> in
              case admit call (en_broker en) (i_task m) k epoch w of
                (Inl e, w1) \<Rightarrow>
                  (case ack_ingress call (en_broker en) acks w1 of
                     (r, w2) \<Rightarrow> (e # (case r of Inl e' \<Rightarrow> [e'] | Inr _ \<Rightarrow> []), en1, [], w2))
              | (Inr admitted, w1) \<Rightarrow>
                  (case admit_loop call epoch knownIds ms (acks @ [i_id m]) en1 w1 of
                     (es, en', ev, w') \<Rightarrow> (es, en', Inc (if admitted then TasksAdmitted else DuplicateAdmissions) # ev, w')))))"

definition admit_batch ::
  "(cmd \<Rightarrow> 's \<Rightarrow> reply \<times> 's) \<Rightarrow> int \<Rightarrow> ingress_message list \<Rightarrow> engine \<Rightarrow> 's net \<Rightarrow> berr list \<times> engine \<times> mevent list \<times> 's net" where
  "admit_batch call epoch ms en w =
     (case known call (en_broker en) (map (t_id \<circ> i_task) ms) w of
        (Inl _, w') \<Rightarrow> admit_loop call epoch [] ms [] en w'
      | (Inr ids, w') \<Rightarrow> admit_loop call epoch ids ms [] en w')"

section \<open>The passes of the loops\<close>

datatype pass_end = Continue | StandDown

definition pass_end_of :: "berr list \<Rightarrow> pass_end" where
  "pass_end_of es = (if ErrFenced \<in> set es then StandDown else Continue)"

definition ingest_pass :: "(cmd \<Rightarrow> 's \<Rightarrow> reply \<times> 's) \<Rightarrow> int \<Rightarrow> engine \<Rightarrow> 's net \<Rightarrow> pass_end \<times> engine \<times> mevent list \<times> 's net" where
  "ingest_pass call epoch en w =
     (case read_ingress call (en_broker en) (en_name en) (sc_ingest_batch (en_cfg en)) w of
        ((_, Some _), w1) \<Rightarrow> (Continue, en, [], w1)
      | ((ms, None), w1) \<Rightarrow>
          if ms = [] then (Continue, en, [], w1)
          else case admit_batch call epoch ms en w1 of (es, en', ev, w2) \<Rightarrow> (pass_end_of es, en', ev, w2))"

definition reclaim_pass ::
  "(cmd \<Rightarrow> 's \<Rightarrow> reply \<times> 's) \<Rightarrow> int \<Rightarrow> sid \<Rightarrow> engine \<Rightarrow> 's net \<Rightarrow> pass_end \<times> sid \<times> engine \<times> mevent list \<times> 's net" where
  "reclaim_pass call epoch cursor en w =
     (case auto_claim_ingress call (en_broker en) (en_name en) (dur_millis (sc_reclaim_idle (en_cfg en))) cursor
         (sc_ingest_batch (en_cfg en)) w of
        ((_, _, Some _), w1) \<Rightarrow> (Continue, cursor, en, [], w1)
      | ((ms, next, None), w1) \<Rightarrow>
          if ms = [] then (Continue, next, en, [], w1)
          else case admit_batch call epoch ms en w1 of
            (es, en', ev, w2) \<Rightarrow> (pass_end_of es, next, en', AddN IngressReclaimed (f64_of_int (int (length ms))) # ev, w2))"

definition notify_all :: "policy \<Rightarrow> dispatched list \<Rightarrow> policy" where
  "notify_all p ds = foldl (\<lambda>p d. pol_notify p (fst d)) p ds"

definition dispatch_pass ::
  "(cmd \<Rightarrow> 's \<Rightarrow> reply \<times> 's) \<Rightarrow> int \<Rightarrow> time \<Rightarrow> engine \<Rightarrow> 's net \<Rightarrow> pass_end \<times> engine \<times> mevent list \<times> 's net" where
  "dispatch_pass call epoch now en w =
     (case dispatch call (en_broker en) (sc_dispatch_batch (en_cfg en)) (sc_max_in_flight (en_cfg en)) now epoch w of
        (Inl e, w1) \<Rightarrow> if e = ErrFenced then (StandDown, en, [], w1) else (Continue, en, [Inc DispatchErrors], w1)
      | (Inr ds, w1) \<Rightarrow>
          (Continue, en\<lparr>en_pol := notify_all (en_pol en) ds\<rparr>, map (\<lambda>d. IncFor TasksDispatched (t_tenant (snd d))) ds, w1))"

definition refresh_gauges :: "(cmd \<Rightarrow> 's \<Rightarrow> reply \<times> 's) \<Rightarrow> time \<Rightarrow> engine \<Rightarrow> 's net \<Rightarrow> engine \<times> mevent list \<times> 's net" where
  "refresh_gauges call now en w =
     (case pending_count call (en_broker en) w of
        (Inl _, w1) \<Rightarrow> (en, [], w1)
      | (Inr pending, w1) \<Rightarrow>
          (case in_flight call (en_broker en) w1 of
             (r, w2) \<Rightarrow>
               (let ev = SetG PendingTasks (f64_of_int pending) # (case r of Inr n \<Rightarrow> [SetG InFlightTasks (f64_of_int n)] | Inl _ \<Rightarrow> []) in
                case oldest_pending_submit call (en_broker en) w2 of
                  (Inl _, w3) \<Rightarrow> (en, ev, w3)
                | (Inr None, w3) \<Rightarrow> (en, ev @ [SetG LongestPendingWait (Fin 0)], w3)
                | (Inr (Some t), w3) \<Rightarrow>
                    (case observe_wait (time_sub now t) (en_max_wait en) of
                       (ev', m) \<Rightarrow> (en\<lparr>en_max_wait := m\<rparr>, ev @ ev', w3)))))"

definition flush_pass :: "(cmd \<Rightarrow> 's \<Rightarrow> reply \<times> 's) \<Rightarrow> int \<Rightarrow> engine \<Rightarrow> 's net \<Rightarrow> pass_end \<times> 's net" where
  "flush_pass call epoch en w =
     (case flush_state call epoch en w of
        (Inl e, w') \<Rightarrow> (if e = ErrFenced then StandDown else Continue, w')
      | (Inr _, w') \<Rightarrow> (Continue, w'))"

section \<open>A term\<close>

datatype pass = Ingest | Reclaim | DispatchAt time | Gauges time | Flush

text \<open>
  The passes of the four loops in the order they ran, until one is fenced; the reclaim cursor starts at \<open>0-0\<close>. The
  result says whether the term was fenced.
\<close>

fun run_passes ::
  "(cmd \<Rightarrow> 's \<Rightarrow> reply \<times> 's) \<Rightarrow> int \<Rightarrow> pass list \<Rightarrow> sid \<Rightarrow> engine \<Rightarrow> 's net \<Rightarrow> bool \<times> engine \<times> mevent list \<times> 's net" where
  "run_passes call epoch [] cursor en w = (False, en, [], w)"
| "run_passes call epoch (p # ps) cursor en w =
     (case (case p of
         Ingest \<Rightarrow> (case ingest_pass call epoch en w of (r, en', ev, w') \<Rightarrow> (r, cursor, en', ev, w'))
       | Reclaim \<Rightarrow> reclaim_pass call epoch cursor en w
       | DispatchAt now \<Rightarrow> (case dispatch_pass call epoch now en w of (r, en', ev, w') \<Rightarrow> (r, cursor, en', ev, w'))
       | Gauges now \<Rightarrow> (case refresh_gauges call now en w of (en', ev, w') \<Rightarrow> (Continue, cursor, en', ev, w'))
       | Flush \<Rightarrow> (case flush_pass call epoch en w of (r, w') \<Rightarrow> (r, cursor, en, [], w'))) of
        (StandDown, cursor', en', ev, w') \<Rightarrow> (True, en', ev @ [Inc FencedOperations], w')
      | (Continue, cursor', en', ev, w') \<Rightarrow>
          (case run_passes call epoch ps cursor' en' w' of (f, en'', ev', w'') \<Rightarrow> (f, en'', ev @ ev', w'')))"

text \<open>The last flush is skipped when the term was fenced.\<close>

definition serve_loops ::
  "(cmd \<Rightarrow> 's \<Rightarrow> reply \<times> 's) \<Rightarrow> int \<Rightarrow> pass list \<Rightarrow> engine \<Rightarrow> 's net \<Rightarrow> engine \<times> mevent list \<times> 's net" where
  "serve_loops call epoch ps en w =
     (case run_passes call epoch ps (0, 0) en w of
        (fencedOut, en', ev, w') \<Rightarrow> if fencedOut then (en', ev, w') else (en', ev, snd (flush_state call epoch en' w')))"

definition lead_term ::
  "(cmd \<Rightarrow> 's \<Rightarrow> reply \<times> 's) \<Rightarrow> int \<Rightarrow> pass list \<Rightarrow> engine \<Rightarrow> 's net \<Rightarrow>
   restore_state_error option \<times> engine \<times> mevent list \<times> 's net" where
  "lead_term call epoch ps en w =
     (case restore_state call en w of
        (Some e, en', w') \<Rightarrow> (Some e, en', [], w')
      | (None, en', w') \<Rightarrow> (case serve_loops call epoch ps en' w' of (en'', ev, w'') \<Rightarrow> (None, en'', ev, w'')))"

text \<open>\<open>Run\<close> without a lease: this process always leads, with no epoch.\<close>

datatype run_error = StreamsFailed berr | StateFailed restore_state_error

definition run_unelected ::
  "(cmd \<Rightarrow> 's \<Rightarrow> reply \<times> 's) \<Rightarrow> pass list \<Rightarrow> engine \<Rightarrow> 's net \<Rightarrow> run_error option \<times> engine \<times> mevent list \<times> 's net" where
  "run_unelected call ps en w =
     (case ensure_streams call (en_broker en) w of
        (Inl e, w1) \<Rightarrow> (Some (StreamsFailed e), en, [], w1)
      | (Inr _, w1) \<Rightarrow>
          (case restore_state call en w1 of
             (Some e, en1, w2) \<Rightarrow> (Some (StateFailed e), en1, [], w2)
           | (None, en1, w2) \<Rightarrow>
               (case set_leadership True no_epoch en1 of
                  (en2, ev1) \<Rightarrow>
                    (case serve_loops call no_epoch ps en2 w2 of
                       (en3, ev2, w3) \<Rightarrow>
                         (case set_leadership False no_epoch en3 of (en4, ev3) \<Rightarrow> (None, en4, ev1 @ ev2 @ ev3, w3))))))"

section \<open>The lease of a scheduler\<close>

text \<open>The options \<open>cmd/scheduler\<close> builds its lease with, from a configuration and its own name.\<close>

definition lease_options :: "config \<Rightarrow> string \<Rightarrow> options" where
  "lease_options c name =
     (let le = sc_election (c_scheduler c); ks = new_keys (c_streams c) in
      \<lparr>o_redis = True, o_holder = k_name ks Leader, o_epoch = k_name ks LeaderEpoch, o_owner = name, o_ttl = le_ttl le,
       o_renew = le_renew le, o_retry = le_retry le, o_wait = sn_wait (rc_sentinel (c_redis c)),
       o_wait_timeout = sn_wait_timeout (rc_sentinel (c_redis c))\<rparr>)"

end
