(* ===== verification/Worker.thy ===== *)
theory Worker
  imports Engine "HOL-Library.Word"
begin

text \<open>
  The worker pool (\<open>internal/worker\<close>) and the recovery loop (\<open>internal/recovery\<close>). The random draws, the readings of
  the clock and SHA-256 are arguments; log lines are not modelled.
\<close>

unbundle bit_operations_syntax

section \<open>Execution modes\<close>

text \<open>\<open>burn\<close> chains SHA-256 from 32 zero bytes and adds up the first bytes, modulo \<open>2 ^ 64\<close>.\<close>

fun burn_loop :: "(8 word list \<Rightarrow> 8 word list) \<Rightarrow> nat \<Rightarrow> 8 word list \<Rightarrow> 64 word \<Rightarrow> 64 word" where
  "burn_loop sha 0 buf acc = acc"
| "burn_loop sha (Suc n) buf acc = (let b = sha buf in burn_loop sha n b (acc + ucast (hd b)))"

definition burn :: "(8 word list \<Rightarrow> 8 word list) \<Rightarrow> int \<Rightarrow> 64 word" where
  "burn sha iters = burn_loop sha (nat iters) (replicate 32 0) 0"

text \<open>
  \<open>calibrate\<close>: \<open>elapsed\<close> are the measured durations of the successive samples, the size doubling each time.
\<close>

fun calibrate_loop :: "nat \<Rightarrow> int \<Rightarrow> duration list \<Rightarrow> f64 option" where
  "calibrate_loop 0 iters elapsed = None"
| "calibrate_loop (Suc n) iters [] = None"
| "calibrate_loop (Suc n) iters (d # ds) =
     (if 20 * millisecond \<le> d then Some (fdiv (f64_of_int iters) (fdiv (f64_of_int d) (f64_of_int (10 ^ 6))))
      else calibrate_loop n (i64 (iters * 2)) ds)"

definition calibrate :: "duration list \<Rightarrow> f64 option" where
  "calibrate elapsed = calibrate_loop 12 20000 elapsed"

definition iters_for :: "f64 \<Rightarrow> duration \<Rightarrow> int" where
  "iters_for itersPerMs d =
     (if fle itersPerMs (Fin 0) \<or> d \<le> 0 then 0
      else let n = fmul itersPerMs (fdiv (f64_of_int d) (f64_of_int (10 ^ 6))) in
        if flt n (Fin 1) then 1 else f64_to_i64 n)"

text \<open>The sizes of the chunks \<open>burnFor\<close> burns, if the context stays alive.\<close>

function burn_chunks :: "int \<Rightarrow> int \<Rightarrow> int list" where
  "burn_chunks iters done_so_far =
     (if done_so_far < iters
      then (if iters - done_so_far < 2000 then iters - done_so_far else 2000) # burn_chunks iters (done_so_far + 2000)
      else [])"
  by auto
termination by (relation "measure (\<lambda>(iters, done_so_far). nat (iters - done_so_far))") auto

declare burn_chunks.simps [simp del]

datatype work = NoWork | SleepFor duration | BurnChunks "int list"

definition simulate_work :: "string \<Rightarrow> f64 \<Rightarrow> duration \<Rightarrow> work" where
  "simulate_work mode itersPerMs d =
     (if d \<le> 0 then NoWork
      else if mode = ''cpu'' then BurnChunks (burn_chunks (iters_for itersPerMs d) 0)
      else SleepFor d)"

section \<open>The worker\<close>

record worker =
  wo_broker :: broker
  wo_cfg :: worker_cfg
  wo_rec :: recovery_cfg
  wo_name :: string
  wo_seed :: int
  wo_rng :: "f64 list"
  wo_iters :: f64
  wo_busy :: int
  wo_failures :: int

definition default_name :: "string option \<Rightarrow> int \<Rightarrow> string" where
  "default_name host pid =
     (case host of Some h \<Rightarrow> (if h = [] then ''worker'' else h) | None \<Rightarrow> ''worker'') @ ''-'' @ show_int pid"

text \<open>The FNV hash of the name, in 64-bit arithmetic; the characters of the name are ASCII.\<close>

definition name_seed :: "string \<Rightarrow> int" where
  "name_seed name = foldl (\<lambda>h c. i64 (xor h (of_char c) * 1099511628211)) 1469598103934665603 name"

definition new_worker ::
  "string option \<Rightarrow> int \<Rightarrow> (int \<Rightarrow> f64 list) \<Rightarrow> broker option \<Rightarrow> bool \<Rightarrow> bool \<Rightarrow> worker_cfg \<Rightarrow> recovery_cfg \<Rightarrow> string + worker" where
  "new_worker host pid rng b logger metrics cfg rec =
     (case b of
        None \<Rightarrow> Inl ''worker: broker is required''
      | Some br \<Rightarrow>
          if \<not> logger then Inl ''worker: logger is required''
          else if \<not> metrics then Inl ''worker: metrics are required''
          else
            let name = (if wk_name cfg = [] then default_name host pid else wk_name cfg);
                seed = (if wk_fail_seed cfg = 0 then name_seed name else wk_fail_seed cfg) in
            Inr \<lparr>wo_broker = br, wo_cfg = cfg, wo_rec = rec, wo_name = name, wo_seed = seed, wo_rng = rng seed,
              wo_iters = Fin 0, wo_busy = 0, wo_failures = 0\<rparr>)"

text \<open>The next number of the random stream is in the unit interval; an exhausted list reads as 0.\<close>

definition roll :: "f64 \<Rightarrow> worker \<Rightarrow> bool \<times> worker" where
  "roll p wo =
     (if fle p (Fin 0) then (False, wo)
      else if fle (Fin 1) p then (True, wo)
      else case wo_rng wo of
        [] \<Rightarrow> (flt (Fin 0) p, wo)
      | x # xs \<Rightarrow> (flt x p, wo\<lparr>wo_rng := xs\<rparr>))"

definition retry_budget :: "recovery_cfg \<Rightarrow> int \<Rightarrow> int" where
  "retry_budget rec n = (if 0 < n then n else rv_max_retries rec)"

definition result_of :: "string \<Rightarrow> exec_message \<Rightarrow> time \<Rightarrow> time \<Rightarrow> result" where
  "result_of consumer msg started finished =
     (let t = x_task msg in
      \<lparr>r_task_id = t_id t, r_attempt = t_attempt t, r_tenant = t_tenant t, r_outcome = OutcomeCompleted,
       r_priority = t_priority t, r_submitted = t_submitted t, r_dispatched = x_dispatched msg, r_started = started,
       r_finished = finished, r_deadline = t_deadline t, r_exec_ms = t_exec_ms t,
       r_actual_ms = dur_millis (time_sub finished started), r_retry = t_retry t, r_worker = consumer, r_error = []\<rparr>)"

text \<open>
  \<open>execute\<close>, with the readings of the clock before and after the work and those of the completion or retry.
\<close>

definition execute ::
  "(cmd \<Rightarrow> 's \<Rightarrow> reply \<times> 's) \<Rightarrow> string \<Rightarrow> exec_message \<Rightarrow> time \<Rightarrow> time \<Rightarrow> time \<Rightarrow> worker \<Rightarrow> 's net \<Rightarrow>
   berr option \<times> worker \<times> mevent list \<times> 's net" where
  "execute call consumer msg started finished now wo w =
     (case roll (wk_fail_rate (wo_cfg wo)) wo of
        (app_failure, wo1) \<Rightarrow>
          (case roll (wk_abandon_rate (wo_cfg wo1)) wo1 of
             (abandon, wo2) \<Rightarrow>
               (let t = x_task msg;
                    elapsed = time_sub finished started;
                    wo3 = wo2\<lparr>wo_busy := wo_busy wo2 + elapsed\<rparr>;
                    ev = [AddN WorkerBusySeconds (dur_seconds elapsed), Observe ExecSeconds (dur_seconds elapsed)] in
                if abandon then (None, wo3\<lparr>wo_failures := wo_failures wo3 + 1\<rparr>, ev @ [Inc TasksFailed], w)
                else if app_failure then
                  (let wo4 = wo3\<lparr>wo_failures := wo_failures wo3 + 1\<rparr>;
                       ev1 = ev @ [Inc TasksFailed] in
                   case retry_or_dead_letter call (wo_broker wo) t (retry_budget (wo_rec wo) (t_max_retries t))
                       ''worker reported an application error'' (Some (x_id msg)) now now w of
                     (Inl e, w') \<Rightarrow> (Some e, wo4, ev1, w')
                   | (Inr (RetryRedelivered, _), w') \<Rightarrow> (None, wo4, ev1 @ [Inc TaskRetries], w')
                   | (Inr (RetryDeadLettered, _), w') \<Rightarrow> (None, wo4, ev1 @ [Inc TasksDeadLettered], w')
                   | (Inr (RetryAlreadyTerminal, _), w') \<Rightarrow> (None, wo4, ev1, w'))
                else
                  (let r = result_of consumer msg started finished in
                   case complete call (wo_broker wo) r (Some (x_id msg)) now w of
                     (Inl e, w') \<Rightarrow> (Some e, wo3, ev, w')
                   | (Inr False, w') \<Rightarrow> (None, wo3, ev @ [Inc DuplicateCompletions], w')
                   | (Inr True, w') \<Rightarrow>
                       (None, wo3,
                        ev @ [IncFor TasksCompleted (t_tenant t), IncFor TenantCompletedTasks (t_tenant t),
                          AddFor TenantServiceSeconds (t_tenant t) (dur_seconds elapsed),
                          Observe QueueWaitSeconds (dur_seconds (queue_wait r)), Observe LatencySeconds (dur_seconds (latency r))] @
                          (if missed_deadline r then [IncFor DeadlineMissed (t_tenant t)] else []), w')))))"

text \<open>One iteration of a slot: read one delivery and execute it. The clock readings are those of the execution.\<close>

definition slot_pass ::
  "(cmd \<Rightarrow> 's \<Rightarrow> reply \<times> 's) \<Rightarrow> string \<Rightarrow> time \<Rightarrow> time \<Rightarrow> time \<Rightarrow> worker \<Rightarrow> 's net \<Rightarrow> worker \<times> mevent list \<times> 's net" where
  "slot_pass call consumer started finished now wo w =
     (case read_exec call (wo_broker wo) consumer 1 w of
        ((_, Some _), w1) \<Rightarrow> (wo, [], w1)
      | ((ms, None), w1) \<Rightarrow>
          foldl (\<lambda>(wo, ev, w) m. case execute call consumer m started finished now wo w of (_, wo', ev', w') \<Rightarrow> (wo', ev @ ev', w'))
            (wo, [], w1) ms)"

section \<open>Recovery\<close>

record recovery =
  re_broker :: broker
  re_cfg :: recovery_cfg
  re_consumer :: string
  re_cursor :: sid

definition new_recovery :: "broker option \<Rightarrow> bool \<Rightarrow> bool \<Rightarrow> recovery_cfg \<Rightarrow> string \<Rightarrow> string + recovery" where
  "new_recovery b logger metrics cfg consumer =
     (case b of
        None \<Rightarrow> Inl ''recovery: broker is required''
      | Some br \<Rightarrow>
          if \<not> logger then Inl ''recovery: logger is required''
          else if \<not> metrics then Inl ''recovery: metrics are required''
          else if consumer = [] then Inl ''recovery: consumer name is required''
          else Inr \<lparr>re_broker = br, re_cfg = cfg, re_consumer = consumer, re_cursor = (0, 0)\<rparr>)"

text \<open>The text of a duration inside the reason is left out.\<close>

definition lost_reason :: string where
  "lost_reason = ''no acknowledgement within visibility timeout''"

fun recover_all ::
  "(cmd \<Rightarrow> 's \<Rightarrow> reply \<times> 's) \<Rightarrow> recovery \<Rightarrow> time \<Rightarrow> exec_message list \<Rightarrow> int \<Rightarrow> 's net \<Rightarrow> (int \<times> berr option) \<times> mevent list \<times> 's net" where
  "recover_all call re now [] handled w = ((handled, None), [], w)"
| "recover_all call re now (m # ms) handled w =
     (case retry_or_dead_letter call (re_broker re) (x_task m) (retry_budget (re_cfg re) (t_max_retries (x_task m))) lost_reason
         (Some (x_id m)) now now w of
        (Inl e, w1) \<Rightarrow> ((handled, Some e), [Inc RecoveryReclaimed], w1)
      | (Inr (outcome, _), w1) \<Rightarrow>
          (case recover_all call re now ms (handled + 1) w1 of
             (r, ev, w2) \<Rightarrow>
               (r, Inc RecoveryReclaimed #
                 (case outcome of RetryRedelivered \<Rightarrow> [Inc TaskRetries] | RetryDeadLettered \<Rightarrow> [Inc TasksDeadLettered]
                  | RetryAlreadyTerminal \<Rightarrow> []) @ ev, w2)))"

definition recover_once ::
  "(cmd \<Rightarrow> 's \<Rightarrow> reply \<times> 's) \<Rightarrow> time \<Rightarrow> recovery \<Rightarrow> 's net \<Rightarrow> (int \<times> berr option) \<times> recovery \<times> mevent list \<times> 's net" where
  "recover_once call now re w =
     (case auto_claim call (re_broker re) (re_consumer re) (dur_millis (rv_min_idle (re_cfg re))) (re_cursor re) (rv_batch (re_cfg re)) w of
        ((_, _, Some e), w1) \<Rightarrow> ((0, Some e), re, [], w1)
      | ((ms, next, None), w1) \<Rightarrow>
          (case recover_all call re now ms 0 w1 of (r, ev, w2) \<Rightarrow> (r, re\<lparr>re_cursor := next\<rparr>, ev, w2)))"

end
