(* ===== verification/System.thy ===== *)
theory System
  imports LeaseProps Worker
begin

text \<open>
  The whole system: \<open>reach\<close> are the states of Redis and the messages workers hold that any number of
  producers, schedulers, workers, recovery loops and lease holders can reach from an empty key space, in any
  interleaving of their broker and lease operations, with requests lost or repeated, processes dying and the lease
  lapsing at any time. The passes of the engine, the worker and the recovery loop stay inside it.
\<close>

inductive reach ::
  "(cmd \<Rightarrow> 's \<Rightarrow> reply \<times> 's) \<Rightarrow> ('s \<Rightarrow> rdb) \<Rightarrow> broker \<Rightarrow> 's net \<Rightarrow> exec_message set \<Rightarrow> bool"
  for call :: "cmd \<Rightarrow> 's \<Rightarrow> reply \<times> 's" and view :: "'s \<Rightarrow> rdb" and b :: broker where
  start: "view (n_db w) = Map.empty \<Longrightarrow> reach call view b w {}"
| network: "reach call view b w H \<Longrightarrow> reach call view b (w\<lparr>n_faults := ds\<rparr>) H"
| lapse: "\<lbrakk>reach call view b w H; view s' = (view (n_db w))(key b Leader := None)\<rbrakk> \<Longrightarrow> reach call view b (w\<lparr>n_db := s'\<rparr>) H"
| idle: "\<lbrakk>reach call view b w H; view s' = view (n_db w)\<rbrakk> \<Longrightarrow> reach call view b (w\<lparr>n_db := s'\<rparr>) H"
| crash: "\<lbrakk>reach call view b w H; H' \<subseteq> H\<rbrakk> \<Longrightarrow> reach call view b w H'"
| ensure: "reach call view b w H \<Longrightarrow> reach call view b (snd (ensure_streams call b w)) H"
| submit_one: "reach call view b w H \<Longrightarrow> reach call view b (snd (submit call b t w)) H"
| submit_many: "reach call view b w H \<Longrightarrow> reach call view b (snd (submit_batch call b ts w)) H"
| ingress: "\<lbrakk>reach call view b w H; 0 < n\<rbrakk> \<Longrightarrow> reach call view b (snd (read_ingress call b c n w)) H"
| ingress_claim: "\<lbrakk>reach call view b w H; 0 < n\<rbrakk> \<Longrightarrow> reach call view b (snd (auto_claim_ingress call b c idle start n w)) H"
| ingress_ack: "reach call view b w H \<Longrightarrow> reach call view b (snd (ack_ingress call b ids w)) H"
| admission: "\<lbrakk>reach call view b w H; k_member k = member_for t; k_score k \<noteq> NaN\<rbrakk> \<Longrightarrow>
    reach call view b (snd (admit call b t k epoch w)) H"
| dispatching: "reach call view b w H \<Longrightarrow> reach call view b (snd (dispatch call b mx cap now epoch w)) H"
| execution: "\<lbrakk>reach call view b w H; 0 < n; read_exec call b c n w = ((ms, err), w')\<rbrakk> \<Longrightarrow> reach call view b w' (H \<union> set ms)"
| exec_claim: "\<lbrakk>reach call view b w H; 0 < n; auto_claim call b c idle start n w = ((ms, cur, err), w')\<rbrakk> \<Longrightarrow>
    reach call view b w' (H \<union> set ms)"
| completion: "\<lbrakk>reach call view b w H; m \<in> H; r_task_id r = t_id (x_task m)\<rbrakk> \<Longrightarrow>
    reach call view b (snd (complete call b r (Some (x_id m)) now w)) H"
| retrying: "\<lbrakk>reach call view b w H; m \<in> H\<rbrakk> \<Longrightarrow>
    reach call view b (snd (retry_or_dead_letter call b (x_task m) budget reason (Some (x_id m)) failed_at now w)) H"
| saving: "reach call view b w H \<Longrightarrow> reach call view b (snd (save_scheduler_state call b st epoch w)) H"
| lease_acquire: "\<lbrakk>reach call view b w H; lease_on (b_keys b) l\<rbrakk> \<Longrightarrow> reach call view b (snd (snd (acquire call l w))) H"
| lease_renew: "\<lbrakk>reach call view b w H; lease_on (b_keys b) l; 0 < dur_millis (ls_ttl l)\<rbrakk> \<Longrightarrow>
    reach call view b (snd (snd (renew call l w))) H"
| lease_release: "\<lbrakk>reach call view b w H; lease_on (b_keys b) l\<rbrakk> \<Longrightarrow> reach call view b (snd (snd (release call l w))) H"

section \<open>The operations are sequences of steps\<close>

lemma winv_steps: "(wstep gn ml)\<^sup>*\<^sup>* W W' \<Longrightarrow> winv gn ml W \<Longrightarrow> winv gn ml W'"
  by (induction rule: rtranclp_induct) (auto intro: wstep_winv)

lemma winv_moved:
  "moved ks view ml H w H' w' \<Longrightarrow> winv (k_worker_group ks) ml (world_of ks view (n_db w) H) \<Longrightarrow>
   winv (k_worker_group ks) ml (world_of ks view (n_db w') H')"
  by (auto simp: moved_def intro: winv_steps)

context queue_store
begin

lemma key_name: "b_keys b = ks \<Longrightarrow> key b f = k_name ks f"
  by (simp add: key_def)

lemma send_mv: "keeps ks view ml H (\<lambda>s. snd (m s)) \<Longrightarrow> typed ks (view (n_db w)) \<Longrightarrow> moved ks view ml H w H (snd (send m w))"
  by (rule send_moved)

lemma mv_refl: "typed ks (view (n_db w)) \<Longrightarrow> moved ks view ml H w H w"
  by (rule moved_refl)

lemma ack_ingress_moved:
  assumes "b_keys b = ks" "typed ks (view (n_db w))"
  shows "moved ks view ml H w H (snd (ack_ingress call b ids w))"
  using send_mv [OF keeps_ack_ingress assms(2)] mv_refl [OF assms(2)] assms
  by (auto simp: ack_ingress_def key_name split: prod.splits sum.splits) (metis snd_conv)+

lemma ensure_groups_moved:
  assumes "\<forall>g \<in> set gs. keeps ks view ml H (\<lambda>s. snd (rcall call (XGROUP_CREATE (fst g) (snd g)) s))" "typed ks (view (n_db w))"
  shows "moved ks view ml H w H (snd (ensure_groups call gs w))"
  using assms
proof (induction gs arbitrary: w)
  case (Cons g gs)
  obtain st nm where g: "g = (st, nm)"
    by (cases g)
  have m: "moved ks view ml H w H (snd (send (rcall call (XGROUP_CREATE st nm)) w))"
    by (rule send_mv [OF _ Cons.prems(2)]) (use Cons.prems(1) g in simp)
  have "moved ks view ml H w H (snd (ensure_groups call gs (snd (send (rcall call (XGROUP_CREATE st nm)) w))))"
    using moved_trans [OF m] Cons.IH [OF _ moved_typed [OF m]] Cons.prems(1) by simp
  then show ?case
    using m g by (auto split: prod.splits sum.splits)
qed (simp add: mv_refl)

lemma ensure_moved:
  assumes "b_keys b = ks" "typed ks (view (n_db w))"
  shows "moved ks view ml H w H (snd (ensure_streams call b w))"
  unfolding ensure_streams_def
  by (rule ensure_groups_moved [OF _ assms(2)]) (use assms(1) keeps_group_ingress keeps_group_exec in \<open>simp add: key_name\<close>)

lemma submit_moved:
  assumes "b_keys b = ks" "typed ks (view (n_db w))"
  shows "moved ks view ml H w H (snd (submit call b t w))"
  using send_mv [OF keeps_submit assms(2)] mv_refl [OF assms(2)] assms(1)
  by (auto simp: submit_def submit_cmd_def key_name split: prod.splits sum.splits) (metis snd_conv)+

lemma pipeline_moved:
  assumes "\<forall>m \<in> set ms. keeps ks view ml H (\<lambda>s. snd (m s))" "typed ks (view (n_db w))"
  shows "moved ks view ml H w H (snd (pipeline ms w))"
  using assms
proof (induction ms arbitrary: w)
  case (Cons m ms)
  have m: "moved ks view ml H w H (snd (send m w))"
    by (rule send_mv [OF _ Cons.prems(2)]) (use Cons.prems(1) in simp)
  have "moved ks view ml H w H (snd (pipeline ms (snd (send m w))))"
    using moved_trans [OF m] Cons.IH [OF _ moved_typed [OF m]] Cons.prems(1) by simp
  then show ?case by (auto split: prod.splits sum.splits)
qed (simp add: mv_refl)

lemma submit_batch_moved:
  assumes "b_keys b = ks" "typed ks (view (n_db w))"
  shows "moved ks view ml H w H (snd (submit_batch call b ts w))"
proof -
  have "moved ks view ml H w H (snd (pipeline (map (\<lambda>p. rcall call (submit_cmd b p)) ps) w))" for ps
    by (rule pipeline_moved [OF _ assms(2)]) (use keeps_submit assms(1) in \<open>auto simp: submit_cmd_def key_name\<close>)
  then show ?thesis
    using mv_refl [OF assms(2)] by (auto simp: submit_batch_def split: prod.splits sum.splits) (metis snd_conv)+
qed

lemma parse_ingress_moved:
  assumes "b_keys b = ks" "typed ks (view (n_db w))"
  shows "moved ks view ml H w H (snd (parse_ingress call b es out w))"
  using assms
proof (induction es arbitrary: out)
  case (Cons e es)
  then show ?case using ack_ingress_moved [OF assms] by (auto split: sum.splits)
qed (simp add: mv_refl)

lemma read_ingress_moved:
  assumes "b_keys b = ks" "typed ks (view (n_db w))" "0 < n"
  shows "moved ks view ml H w H (snd (read_ingress call b c n w))"
proof -
  let ?r = "send (rcall call (XREADGROUP (key b Ingress) (k_sched_group (b_keys b)) c n)) w"
  have m: "moved ks view ml H w H (snd ?r)"
    unfolding key_name [OF assms(1)] by (rule send_mv [OF keeps_read_ingress [OF assms(3)] assms(2)])
  have "moved ks view ml H w H (snd (parse_ingress call b es [] (snd ?r)))" for es
    by (rule moved_trans [OF m parse_ingress_moved [OF assms(1) moved_typed [OF m]]])
  then show ?thesis
    using m by (auto simp: read_ingress_def split: prod.splits sum.splits reply.splits)
qed

lemma claim_ingress_moved:
  assumes "b_keys b = ks" "typed ks (view (n_db w))"
  shows "moved ks view ml H w H (snd (claim_ingress call b es w))"
  using assms(2)
proof (induction es arbitrary: w)
  case (Cons e es)
  have m: "moved ks view ml H w H (snd (ack_ingress call b [se_id e] w))"
    by (rule ack_ingress_moved [OF assms(1) Cons.prems])
  show ?case
    using moved_trans [OF m Cons.IH [OF moved_typed [OF m]]] Cons.IH [OF Cons.prems]
    by (auto split: sum.splits prod.splits)
qed (simp add: mv_refl)

lemma auto_claim_ingress_moved:
  assumes "b_keys b = ks" "typed ks (view (n_db w))" "0 < n"
  shows "moved ks view ml H w H (snd (auto_claim_ingress call b c idle start n w))"
proof -
  let ?r = "send (rcall call (XAUTOCLAIM (key b Ingress) (k_sched_group (b_keys b)) c idle start n)) w"
  have m: "moved ks view ml H w H (snd ?r)"
    unfolding key_name [OF assms(1)] by (rule send_mv [OF keeps_claim_ingress [OF assms(3)] assms(2)])
  have "moved ks view ml H w H (snd (claim_ingress call b es (snd ?r)))" for es
    by (rule moved_trans [OF m claim_ingress_moved [OF assms(1) moved_typed [OF m]]])
  then show ?thesis
    using m by (auto simp: auto_claim_ingress_def split: prod.splits sum.splits reply.splits) (metis snd_conv)+
qed

lemma admit_moved:
  assumes "b_keys b = ks" "typed ks (view (n_db w))" "k_member k = member_for t" "k_score k \<noteq> NaN"
  shows "moved ks view ml H w H (snd (admit call b t k epoch w))"
proof -
  have "after_first (CHR ''|'') (k_member k) = Some (t_id t)"
    by (simp add: assms(3))
  from send_mv [OF keeps_admit [OF this assms(4)] assms(2)] mv_refl [OF assms(2)] assms(1)
  show ?thesis
    by (auto simp: admit_def key_name marshal_task_def split: prod.splits sum.splits) (metis snd_conv)+
qed

lemma dispatch_moved:
  assumes "b_keys b = ks" "typed ks (view (n_db w))"
  shows "moved ks view (b_max_len b) H w H (snd (dispatch call b mx cap now epoch w))"
  using send_mv [OF keeps_dispatch assms(2)] assms(1)
  by (auto simp: dispatch_def key_name split: prod.splits sum.splits) (metis snd_conv)+

lemma complete_moved:
  assumes "b_keys b = ks" "typed ks (view (n_db w))" "m \<in> H" "r_task_id r = t_id (x_task m)"
  shows "moved ks view (b_max_len b) H w H (snd (complete call b r (Some (x_id m)) now w))"
  using send_mv [OF keeps_complete [OF assms(3,4)] assms(2)] mv_refl [OF assms(2)] assms(1)
  by (auto simp: complete_def key_name marshal_result_def Let_def split: prod.splits sum.splits) (metis snd_conv)+

lemma retry_moved:
  assumes "b_keys b = ks" "typed ks (view (n_db w))" "m \<in> H"
  shows "moved ks view (b_max_len b) H w H (snd (retry_or_dead_letter call b (x_task m) budget reason (Some (x_id m)) failed_at now w))"
proof -
  have "t_id (next_attempt (x_task m) budget) = t_id (x_task m)"
    by (simp add: next_attempt_def Let_def)
  from send_mv [OF keeps_retry [OF assms(3) this] assms(2)] mv_refl [OF assms(2)] assms(1)
  show ?thesis
    by (auto simp: retry_or_dead_letter_def key_name marshal_task_def Let_def split: prod.splits sum.splits) (metis snd_conv)+
qed

lemma save_moved:
  assumes "b_keys b = ks" "typed ks (view (n_db w))"
  shows "moved ks view ml H w H (snd (save_scheduler_state call b st epoch w))"
  using send_mv [OF keeps_save assms(2)] mv_refl [OF assms(2)] assms(1)
  by (auto simp: save_scheduler_state_def key_name split: prod.splits sum.splits) (metis snd_conv)+

lemma lease_release_moved:
  assumes "lease_on ks l" "typed ks (view (n_db w))"
  shows "moved ks view ml H w H (snd (send (release_script call (ls_holder l) v) w))"
  using send_mv [OF keeps_release assms(2)] assms(1) by (simp add: lease_on_def)

lemma await_moved:
  assumes "lease_on ks l" "typed ks (view (n_db w))"
  shows "moved ks view ml H w H (snd (await_durable call l v w))"
proof -
  let ?r = "send (rcall call (WAIT (ls_wait l) (dur_millis (ls_wait_timeout l)))) w"
  have m: "moved ks view ml H w H (snd ?r)"
    by (rule send_mv [OF keeps_wait assms(2)])
  have "moved ks view ml H w H (snd (send (release_script call (ls_holder l) v) (snd ?r)))"
    by (rule moved_trans [OF m lease_release_moved [OF assms(1) moved_typed [OF m]]])
  then show ?thesis
    using m mv_refl [OF assms(2)] by (auto simp: await_durable_def split: prod.splits sum.splits reply.splits)
qed

lemma acquire_moved:
  assumes "lease_on ks l" "typed ks (view (n_db w))"
  shows "moved ks view ml H w H (snd (snd (acquire call l w)))"
proof -
  let ?r = "send (acquire_script call (ls_holder l) (ls_counter l) (ls_owner l) (dur_millis (ls_ttl l))) w"
  have m: "moved ks view ml H w H (snd ?r)"
    using send_mv [OF keeps_acquire assms(2)] assms(1) by (simp add: lease_on_def)
  have "moved ks view ml H w H (snd (await_durable call l v (snd ?r)))" for v
    by (rule moved_trans [OF m await_moved [OF assms(1) moved_typed [OF m]]])
  then show ?thesis
    using m by (auto simp: acquire_def split: prod.splits sum.splits option.splits) (metis snd_conv)+
qed

lemma renew_moved:
  assumes "lease_on ks l" "typed ks (view (n_db w))" "0 < dur_millis (ls_ttl l)"
  shows "moved ks view ml H w H (snd (snd (renew call l w)))"
  using send_mv [OF keeps_renew [OF assms(3)] assms(2)] mv_refl [OF assms(2)] assms(1)
  by (auto simp: renew_def lease_on_def split: prod.splits sum.splits) (metis snd_conv)+

lemma release_moved:
  assumes "lease_on ks l" "typed ks (view (n_db w))"
  shows "moved ks view ml H w H (snd (snd (release call l w)))"
  using lease_release_moved [OF assms] mv_refl [OF assms(2)]
  by (auto simp: release_def split: prod.splits)  (metis snd_conv)

section \<open>Deliveries\<close>

lemma parse_exec_received: "set (fst (parse_exec_messages es)) \<subseteq> received es"
proof (induction es)
  case (Cons e es)
  have "received es \<subseteq> received (e # es)" "parse_exec_message e = Inr m \<Longrightarrow> m \<in> received (e # es)" for m
    by (auto simp: received_def)
  then show ?case
    using Cons by (auto split: sum.splits prod.splits)
qed simp

lemma read_exec_moved:
  assumes "b_keys b = ks" "typed ks (view (n_db w))" "0 < n" "read_exec call b c n w = ((ms, err), w')"
  shows "moved ks view ml H w (H \<union> set ms) w'"
proof -
  let ?c = "XREADGROUP (k_name ks Exec) (k_worker_group ks) c n"
  note k = keeps_read_exec [OF assms(3), of ml H c]
  have m: "moved ks view ml H w H (snd (send (rcall call ?c) w))"
    by (rule send_mv [OF k assms(2)])
  show ?thesis
  proof (cases "fst (send (rcall call ?c) w)")
    case (Inl e)
    then show ?thesis using m assms(1,4) by (auto simp: read_exec_def key_name split: prod.splits sum.splits)
  next
    case (Inr r)
    then have snd: "send (rcall call ?c) w = (Inr r, w')"
      using assms(1,4) by (auto simp: read_exec_def key_name split: prod.splits sum.splits reply.splits)
    obtain s where s: "typed ks (view s)" "rcall call ?c s = (Inr r, n_db w')"
        "(wstep (k_worker_group ks) ml)\<^sup>*\<^sup>* (world_of ks view (n_db w) H) (world_of ks view s H)"
      using send_answered [OF snd k assms(2)] by blast
    have after: "n_db w' = after call ?c s"
      using rcall_snd [of call ?c s] s(2) by simp
    have sub: "set ms \<subseteq> (case r of REntries es \<Rightarrow> received es | _ \<Rightarrow> {})"
      using snd assms(1,4) parse_exec_received by (auto simp: read_exec_def key_name split: reply.splits) (metis fst_conv subsetD)
    have run: "typed ks (view (n_db w'))" "(wstep (k_worker_group ks) ml)\<^sup>*\<^sup>* (world_of ks view s H)
        \<lparr>w_q = qabs ks (view (n_db w')), w_held = H \<union> (case r of REntries es \<Rightarrow> received es | _ \<Rightarrow> {})\<rparr>"
      using read_exec_run [OF s(1) assms(3) refl, of c ml H] s(2) unfolding after by (simp_all add: world_of_def)
    have "(wstep (k_worker_group ks) ml)\<^sup>*\<^sup>* (world_of ks view s H) \<lparr>w_q = qabs ks (view (n_db w')), w_held = H \<union> set ms\<rparr>"
      by (rule forget_steps [OF run(2)]) (use sub in auto)
    then show ?thesis
      using run(1) s(3) by (auto simp: moved_def world_of_def intro: rtranclp_trans)
  qed
qed

text \<open>Where every entry of the stream parses, a claim hands out what it claimed and acknowledges nothing.\<close>

lemma claim_exec_all:
  assumes "\<forall>e \<in> set es. \<exists>m. parse_exec_message e = Inr m"
  shows "set (fst (claim_exec call b es w)) \<subseteq> received es \<and> snd (claim_exec call b es w) = w"
  using assms
proof (induction es)
  case (Cons e es)
  obtain m where m: "parse_exec_message e = Inr m"
    using Cons.prems by auto
  have "received es \<subseteq> received (e # es)" "m \<in> received (e # es)"
    using m by (auto simp: received_def)
  then show ?case
    using Cons m by (auto split: prod.splits)
qed simp

lemma entry_task_parses: "entry_task e = Some t \<Longrightarrow> \<exists>m. parse_exec_message e = Inr m"
  by (auto simp: entry_task_def parse_exec_message_def split: sum.splits)

lemma auto_claim_moved:
  assumes "b_keys b = ks" "typed ks (view (n_db w))" "0 < n" "auto_claim call b c idle start n w = ((ms, cur, err), w')"
    "winv (k_worker_group ks) ml (world_of ks view (n_db w) H)"
  shows "moved ks view ml H w (H \<union> set ms) w'"
proof -
  let ?c = "XAUTOCLAIM (k_name ks Exec) (k_worker_group ks) c idle start n"
  note k = keeps_claim_exec [OF assms(3), of ml H c idle start]
  have m: "moved ks view ml H w H (snd (send (rcall call ?c) w))"
    by (rule send_mv [OF k assms(2)])
  show ?thesis
  proof (cases "\<exists>nx es w1. send (rcall call ?c) w = (Inr (RClaim nx es), w1)")
    case False
    then have "ms = [] \<and> w' = snd (send (rcall call ?c) w)"
      using assms(1,4) by (cases cur) (auto simp: auto_claim_def key_name split: prod.splits sum.splits reply.splits)
    then show ?thesis using m by simp
  next
    case True
    then obtain nx es w1 where snd: "send (rcall call ?c) w = (Inr (RClaim nx es), w1)"
      by blast
    obtain s where s: "typed ks (view s)" "rcall call ?c s = (Inr (RClaim nx es), n_db w1)"
        "(wstep (k_worker_group ks) ml)\<^sup>*\<^sup>* (world_of ks view (n_db w) H) (world_of ks view s H)"
      using send_answered [OF snd k assms(2)] by blast
    have after: "n_db w1 = after call ?c s"
      using rcall_snd [of call ?c s] s(2) by simp
    have run: "typed ks (view (n_db w1))" "(wstep (k_worker_group ks) ml)\<^sup>*\<^sup>* (world_of ks view s H)
        \<lparr>w_q = qabs ks (view (n_db w1)), w_held = H \<union> received es\<rparr>" "set es \<subseteq> set (st_entries (q_exec (qabs ks (view s))))"
      using claim_exec_run [OF s(1) assms(3) refl, of c idle start ml H] s(2) unfolding after by (simp_all add: world_of_def)
    have "winv (k_worker_group ks) ml (world_of ks view s H)"
      by (rule winv_steps [OF s(3) assms(5)])
    then have "\<forall>e \<in> set (st_entries (q_exec (qabs ks (view s)))). \<exists>t. entry_task e = Some t"
      by (auto simp: winv_def world_of_def inv_exec_def)
    then have "\<forall>e \<in> set es. \<exists>m. parse_exec_message e = Inr m"
      using run(3) entry_task_parses by blast
    from claim_exec_all [OF this, of b w1] have ms: "set ms \<subseteq> received es" "w' = w1"
      using assms(1,4) snd by (auto simp: auto_claim_def key_name split: prod.splits)
    have "(wstep (k_worker_group ks) ml)\<^sup>*\<^sup>* (world_of ks view s H) \<lparr>w_q = qabs ks (view (n_db w1)), w_held = H \<union> set ms\<rparr>"
      by (rule forget_steps [OF run(2)]) (use ms(1) in auto)
    then show ?thesis
      using run(1) s(3) ms(2) by (auto simp: moved_def world_of_def intro: rtranclp_trans)
  qed
qed

section \<open>Every reachable state satisfies the invariants\<close>

lemma start_inv: "typed ks Map.empty \<and> winv gn ml \<lparr>w_q = qabs ks Map.empty, w_held = {}\<rparr>"
  by (simp add: typed_empty winv_def inv_ids_def inv_counts_def inv_exec_def inv_results_def inv_epochs_def inv_live_def
      qabs_def is_defs empty_stream_def pending_ids_def launched_ids_def result_ids_def log_epochs_def st_ordered_def)

lemma lapse_moved:
  assumes "typed ks (view (n_db w))" "view s' = (view (n_db w))(k_name ks Leader := None)"
  shows "moved ks view ml H w H (w\<lparr>n_db := s'\<rparr>)"
proof -
  have v: "view s' = (\<lambda>k. if k \<in> set [k_name ks Leader] then None else view (n_db w) k)"
    by (auto simp: assms(2) fun_eq_iff)
  show ?thesis
    using qabs_no_holder(2) [OF assms(1)] step_lease [where q = "qabs ks (view (n_db w))" and c = None and d = "q_epoch (qabs ks (view (n_db w)))"]
    unfolding moved_def world_of_def by (auto simp: v qabs_no_holder(1) [simplified])
qed

lemma keep_moved:
  assumes "moved ks view ml H w H' w'" "winv (k_worker_group ks) ml (world_of ks view (n_db w) H)"
  shows "typed ks (view (n_db w')) \<and> winv (k_worker_group ks) ml (world_of ks view (n_db w') H')"
  using moved_typed [OF assms(1)] winv_moved [OF assms] by blast

theorem reach_inv:
  assumes "reach call view b w H" "b_keys b = ks"
  shows "typed ks (view (n_db w)) \<and> winv (k_worker_group ks) (b_max_len b) (world_of ks view (n_db w) H)"
  using assms
proof (induction rule: reach.induct)
  case (start w)
  then show ?case using start_inv by (simp add: world_of_def)
next
  case (network w H ds)
  then show ?case by simp
next
  case (crash w H H')
  then show ?case using winv_forgotten by (auto simp: world_of_def)
next
  case (lapse w H s')
  then show ?case by (intro keep_moved [OF lapse_moved]) (auto simp: key_name)
next
  case (idle w H s')
  then show ?case by (simp add: world_of_def)
next
  case (ensure w H)
  then show ?case by (intro keep_moved [OF ensure_moved]) auto
next
  case (submit_one w H t)
  then show ?case by (intro keep_moved [OF submit_moved]) auto
next
  case (submit_many w H ts)
  then show ?case by (intro keep_moved [OF submit_batch_moved]) auto
next
  case (ingress w H n c)
  then show ?case by (intro keep_moved [OF read_ingress_moved]) auto
next
  case (ingress_claim w H n c idle start)
  then show ?case by (intro keep_moved [OF auto_claim_ingress_moved]) auto
next
  case (ingress_ack w H ids)
  then show ?case by (intro keep_moved [OF ack_ingress_moved]) auto
next
  case (admission w H k t epoch)
  then show ?case by (intro keep_moved [OF admit_moved]) auto
next
  case (dispatching w H mx cap now epoch)
  then show ?case by (intro keep_moved [OF dispatch_moved]) auto
next
  case (execution w H n c ms err w')
  have "moved ks view (b_max_len b) H w (H \<union> set ms) w'"
    by (rule read_exec_moved) (use execution in blast)+
  then show ?case using execution keep_moved by blast
next
  case (exec_claim w H n c idle start ms cur err w')
  have "moved ks view (b_max_len b) H w (H \<union> set ms) w'"
    by (rule auto_claim_moved) (use exec_claim in blast)+
  then show ?case using exec_claim keep_moved by blast
next
  case (completion w H m r now)
  then show ?case by (intro keep_moved [OF complete_moved]) auto
next
  case (retrying w H m budget reason failed_at now)
  then show ?case by (intro keep_moved [OF retry_moved]) auto
next
  case (saving w H st epoch)
  then show ?case by (intro keep_moved [OF save_moved]) auto
next
  case (lease_acquire w H l)
  then show ?case by (intro keep_moved [OF acquire_moved]) auto
next
  case (lease_renew w H l)
  then show ?case by (intro keep_moved [OF renew_moved]) auto
next
  case (lease_release w H l)
  then show ?case by (intro keep_moved [OF release_moved]) auto
qed

end

end
