(* ===== verification/Demo.thy ===== *)
theory Demo
  imports System
begin

text \<open>
  One concrete run on the reference server, for the witnesses: two tasks admitted under first-come-first-served
  ranking, one dispatched, received and completed.
\<close>

definition demo_streams :: streams_cfg where
  "demo_streams = \<lparr>s_namespace = ''tq'', s_ingress = ''ingress'', s_exec = ''exec'', s_results = ''results'', s_dead = ''dead'',
     s_sched_group = ''schedulers'', s_worker_group = ''workers'', s_max_len = 0\<rparr>"

definition demo_broker :: broker where
  "demo_broker = new_broker demo_streams"

definition demo_task :: "string \<Rightarrow> int \<Rightarrow> task" where
  "demo_task i ms = \<lparr>t_id = i, t_tenant = ''A'', t_submitted = from_unix_milli ms, t_exec_ms = 50, t_priority = 1,
     t_deadline = zero_time, t_retry = 0, t_max_retries = 3, t_attempt = i @ ''#0''\<rparr>"

definition demo0 :: "mem net" where
  "demo0 = snd (ensure_streams mem_call demo_broker \<lparr>n_faults = [], n_db = mem_empty\<rparr>)"

definition demo1 :: "mem net" where
  "demo1 = snd (admit mem_call demo_broker (demo_task ''b'' 2000) (fifo_rank (demo_task ''b'' 2000)) 7
     (snd (admit mem_call demo_broker (demo_task ''a'' 3000) (fifo_rank (demo_task ''a'' 3000)) 7 demo0)))"

definition demo2 :: "mem net" where
  "demo2 = snd (dispatch mem_call demo_broker 1 10 (from_unix_milli 5000) 7 demo1)"

definition demo3 :: "mem net" where
  "demo3 = snd (read_exec mem_call demo_broker ''w1'' 1 demo2)"

definition demo_messages :: "exec_message list" where
  "demo_messages = fst (fst (read_exec mem_call demo_broker ''w1'' 1 demo2))"

lemma demo_keys: "keys_ok (b_keys demo_broker)"
  using new_keys_ok [of demo_streams]
  by (simp add: demo_broker_def new_broker_def demo_streams_def stream_names_distinct_def)


text \<open>The states of the run, as the server holds them.\<close>

definition demo_mem :: "stream_entry list \<Rightarrow> sid \<Rightarrow> (string \<times> sid \<times> sid list) list \<Rightarrow> (rkey \<times> mvalue) list \<Rightarrow> mem net" where
  "demo_mem es l gs vs = \<lparr>n_faults = [], n_db = \<lparr>m_keys =
     (''tq:stream:ingress'', MStream [] (0, 0) [(''schedulers'', (0, 0), [])]) # (''tq:stream:exec'', MStream es l gs) # vs,
     m_clock = 1\<rparr>\<rparr>"

definition demo_payloads :: "rkey \<times> mvalue" where
  "demo_payloads = (''tq:payloads'', MHash [(''a'', TTask (demo_task ''a'' 3000)), (''b'', TTask (demo_task ''b'' 2000))])"

definition demo_entry :: stream_entry where
  "demo_entry = \<lparr>se_id = (1, 0),
     se_fields = [(''task'', TTask (demo_task ''b'' 2000)), (''dispatched_at_ms'', TNum 5000), (''epoch'', TNum 7)]\<rparr>"

lemma demo0_val: "demo0 = demo_mem [] (0, 0) [(''workers'', (0, 0), [])] []"
  by code_simp

lemma demo1_val: "demo1 = demo_mem [] (0, 0) [(''workers'', (0, 0), [])]
  [(''tq:fence'', MStr (TNum 7)), demo_payloads,
   (''tq:pending'', MZSet [(''0000000003000|a'', Fin 3000), (''0000000002000|b'', Fin 2000)]),
   (''tq:pending_age'', MZSet [(''0000000003000|a'', Fin 3000), (''0000000002000|b'', Fin 2000)]),
   (''tq:stats'', MHash [(''admitted'', TNum 2)])]"
  unfolding demo1_def demo0_val by code_simp

lemma demo2_val: "demo2 = demo_mem [demo_entry] (1, 0) [(''workers'', (0, 0), [])]
  [(''tq:fence'', MStr (TNum 7)), demo_payloads,
   (''tq:pending'', MZSet [(''0000000003000|a'', Fin 3000)]), (''tq:pending_age'', MZSet [(''0000000003000|a'', Fin 3000)]),
   (''tq:stats'', MHash [(''admitted'', TNum 2), (''dispatched'', TNum 1)]), (''tq:inflight'', MStr (TNum 1))]"
  unfolding demo2_def demo1_val by code_simp

definition demo_msg :: exec_message where
  "demo_msg = \<lparr>x_id = (1, 0), x_task = demo_task ''b'' 2000, x_dispatched = from_unix_milli 5000, x_epoch = 7\<rparr>"

lemma demo3_val: "read_exec mem_call demo_broker ''w1'' 1 demo2 =
  (([demo_msg], None), demo_mem [demo_entry] (1, 0) [(''workers'', (1, 0), [(1, 0)])]
    [(''tq:fence'', MStr (TNum 7)), demo_payloads,
     (''tq:pending'', MZSet [(''0000000003000|a'', Fin 3000)]), (''tq:pending_age'', MZSet [(''0000000003000|a'', Fin 3000)]),
     (''tq:stats'', MHash [(''admitted'', TNum 2), (''dispatched'', TNum 1)]), (''tq:inflight'', MStr (TNum 1))])"
  unfolding demo2_val by code_simp

lemma demo_no_trim: "b_max_len demo_broker \<le> 0"
  by (simp add: demo_broker_def new_broker_def demo_streams_def)

interpretation mem_store: queue_store mem_call mem_view "b_keys demo_broker"
  by unfold_locales (rule demo_keys)

text \<open>Every state of the run is reachable, hence typed.\<close>

lemma demo0_reach: "reach mem_call mem_view demo_broker demo0 {}"
  unfolding demo0_def by (intro reach.ensure reach.start) (simp add: mem_view_def mem_empty_def)

lemma demo1_reach: "reach mem_call mem_view demo_broker demo1 {}"
  unfolding demo1_def by (intro reach.admission demo0_reach) (simp_all add: fifo_rank_def f64_of_int_exact demo_task_def submitted_ms_def unix_milli_from in_i64_def)

lemma demo2_reach: "reach mem_call mem_view demo_broker demo2 {}"
  unfolding demo2_def by (intro reach.dispatching demo1_reach)

lemma demo3_reach: "reach mem_call mem_view demo_broker demo3 (set demo_messages)"
proof -
  obtain ms err w where r: "read_exec mem_call demo_broker ''w1'' 1 demo2 = ((ms, err), w)"
    by (metis surj_pair)
  from reach.execution [OF demo2_reach _ this]
  show ?thesis unfolding demo3_def demo_messages_def r by simp
qed

lemma demo_typed:
  "typed (b_keys demo_broker) (mem_view (n_db demo0))" "typed (b_keys demo_broker) (mem_view (n_db demo1))"
  "typed (b_keys demo_broker) (mem_view (n_db demo2))" "typed (b_keys demo_broker) (mem_view (n_db demo3))"
  using mem_store.reach_inv [OF demo0_reach refl] mem_store.reach_inv [OF demo1_reach refl]
    mem_store.reach_inv [OF demo2_reach refl] mem_store.reach_inv [OF demo3_reach refl] by blast+

lemma demo_redis: "redis mem_call mem_view"
  by (rule mem.redis_axioms)

text \<open>What the run computes.\<close>

lemma demo3_payload: "q_payloads (qabs (b_keys demo_broker) (mem_view (n_db demo3))) ''b'' = Some (TTask (demo_task ''b'' 2000))"
  unfolding demo3_def demo3_val snd_conv qabs_def qstate.select_convs by code_simp

lemma demo3_messages [simp]: "demo_messages = [demo_msg]"
  unfolding demo_messages_def demo3_val by simp

lemma demo1_fence: "q_fence (qabs (b_keys demo_broker) (mem_view (n_db demo1))) = 7"
  unfolding demo1_val qabs_def qstate.select_convs by code_simp

lemma demo_task_times: "task_times_ok (demo_task i 2000)"
  unfolding demo_task_def task_times_ok_def by code_simp

lemma demo_score: "k_score (fifo_rank (demo_task i ms)) \<noteq> NaN"
  by (simp add: fifo_rank_def f64_of_int_not_NaN)

end
