(* ===== verification/BrokerProps.thy ===== *)
theory BrokerProps
  imports Demo
begin

text \<open>
  What one broker operation does to the abstract queue and what it returns, under every fate of its request.
\<close>

section \<open>Requests that may run many times\<close>

lemma resend_inv: "\<lbrakk>\<And>s. I s \<Longrightarrow> I (snd (m s)); I s\<rbrakk> \<Longrightarrow> I (resend n m s)"
  by (induction n arbitrary: s) auto

text \<open>A property every run keeps holds after the request, and the reply is that of a run in such a state.\<close>

lemma send_inv:
  assumes "\<And>s. I s \<Longrightarrow> I (snd (m s))" "I (n_db w)"
  shows "I (n_db (snd (send m w)))"
    and "fst (send m w) = Inl NoReply \<or>
      (\<exists>s. I s \<and> fst (send m w) = (case fst (m s) of Inl e \<Rightarrow> Inl (ErrorReply e) | Inr a \<Rightarrow> Inr a))"
proof -
  have r: "I (resend n m (n_db w))" for n
    using resend_inv [of I m] assms by blast
  show "I (n_db (snd (send m w)))"
    using assms(1) [OF r] r by (simp add: send_db split: delivery.splits)
  show "fst (send m w) = Inl NoReply \<or>
      (\<exists>s. I s \<and> fst (send m w) = (case fst (m s) of Inl e \<Rightarrow> Inl (ErrorReply e) | Inr a \<Rightarrow> Inr a))"
    using r by (auto simp: send_def split: prod.splits delivery.splits sum.splits) (metis fst_conv old.sum.simps)+
qed

text \<open>How often a request runs at the server.\<close>

fun runs :: "delivery \<Rightarrow> nat" where
  "runs (Answered n) = Suc n"
| "runs (Unanswered n) = n"

abbreviation fate :: "'s net \<Rightarrow> delivery" where
  "fate w \<equiv> fst (next_fault (n_faults w))"

abbreviation queue_at :: "('s \<Rightarrow> rdb) \<Rightarrow> broker \<Rightarrow> 's net \<Rightarrow> qstate" where
  "queue_at view b w \<equiv> qabs (b_keys b) (view (n_db w))"

lemma send_fst:
  "fst (send m w) =
     (case fate w of
        Answered n \<Rightarrow> (case fst (m (resend n m (n_db w))) of Inl e \<Rightarrow> Inl (ErrorReply e) | Inr a \<Rightarrow> Inr a)
      | Unanswered n \<Rightarrow> Inl NoReply)"
  by (auto simp: send_def split: prod.splits delivery.splits sum.splits)

lemma send_runs: "n_db (snd (send m w)) = resend (runs (fate w)) m (n_db w)"
proof -
  have "resend (Suc n) m s = snd (m (resend n m s))" for n s
    by (induction n arbitrary: s) simp_all
  then show ?thesis by (simp add: send_db split: delivery.splits)
qed

lemma send_faults: "n_faults (snd (send m w)) = snd (next_fault (n_faults w))"
  by (auto simp: send_def split: prod.splits delivery.splits sum.splits)

text \<open>A script that is a function \<open>f\<close> of the abstract state, run \<open>n\<close> times.\<close>

lemma resend_fun:
  assumes "\<And>s. typed ks (view s) \<Longrightarrow> typed ks (view (snd (m s))) \<and> qabs ks (view (snd (m s))) = f (qabs ks (view s))"
    and "typed ks (view s)"
  shows "typed ks (view (resend n m s)) \<and> qabs ks (view (resend n m s)) = (f ^^ n) (qabs ks (view s))"
  using assms(2)
proof (induction n arbitrary: s)
  case (Suc n)
  then show ?case using assms(1) [OF Suc.prems] by (simp add: funpow_swap1)
qed simp

lemma funpow_idem: "(\<And>x. f (f x) = f x) \<Longrightarrow> (f ^^ n) x = (if n = 0 then x else f x)"
  by (induction n) auto

lemma queue_storeI: "redis call view \<Longrightarrow> keys_ok ks \<Longrightarrow> queue_store call view ks"
  by (intro queue_store.intro queue_store_axioms.intro)

text \<open>Where a second run changes nothing more, the state after \<open>n\<close> runs is the state after one.\<close>

lemma raised_idem [simp]: "raised e (raised e q) = raised e q"
  by (simp add: raised_def lua_number_idem)

lemma refused_raised [simp]: "refused e (raised e q) = refused e q"
  by (auto simp: refused_def raised_def lua_number_idem)

lemma q_known_raised [simp]: "q_known i (raised e q) = q_known i q"
  by (simp add: q_known_def raised_def)

lemma q_known_admit [simp]: "q_known i (q_admit i m f a p q)"
  by (simp add: q_known_def q_admit_def)

lemma raised_admit [simp]: "raised e (q_admit i m f a p (raised e q)) = q_admit i m f a p (raised e q)"
  by (simp add: raised_def q_admit_def bump_def lua_number_idem)

lemma refused_admit [simp]: "refused e (q_admit i m f a p (raised e q)) = refused e q"
  by (auto simp: refused_def q_admit_def bump_def raised_def lua_number_idem)

lemma fenced_err_error [simp]: "fenced_err (ErrorReply fenced_error)" "\<not> fenced_err NoReply"
  by (simp_all add: fenced_err_def fenced_error_def)

section \<open>What a dispatch takes\<close>

text \<open>The order of Redis on (score, member) pairs, least first.\<close>

definition no_later :: "string \<times> f64 \<Rightarrow> string \<times> f64 \<Rightarrow> bool" where
  "no_later x y \<longleftrightarrow> flt (snd x) (snd y) \<or> snd x = snd y \<and> fst x \<le> fst y"

abbreviation slot :: "triple \<Rightarrow> string \<times> f64" where
  "slot t \<equiv> (fst t, fst (snd t))"

lemma q_launch_out:
  "q_launch now ml e m f q ts q' \<Longrightarrow>
     q_pending q' = (q_pending q)(m := None) \<and> q_payloads q' = q_payloads q \<and>
     q_inflight q' = q_inflight q + int (length ts) \<and> length ts \<le> 1 \<and>
     (\<forall>t \<in> set ts. slot t = (m, f) \<and> (\<exists>i. after_first (CHR ''|'') m = Some i \<and> q_payloads q i = Some (snd (snd t)))) \<and>
     ((\<exists>i. after_first (CHR ''|'') m = Some i \<and> q_payloads q i \<noteq> None) \<longrightarrow> length ts = 1)"
  by (induction rule: q_launch.induct) (auto simp: q_unpend_def)

text \<open>The tasks come least first, each was pending and is no longer, and no task left behind comes before one taken.\<close>

lemma q_dispatch_order:
  "q_dispatch cap now ml e n q ts q' \<Longrightarrow>
     sorted_wrt (\<lambda>a b. no_later (slot a) (slot b)) ts \<and>
     (\<forall>t \<in> set ts. q_pending q (fst t) = Some (fst (snd t))) \<and>
     (\<forall>m f. q_pending q' m = Some f \<longrightarrow> q_pending q m = Some f \<and> (\<forall>t \<in> set ts. no_later (slot t) (m, f) \<and> fst t \<noteq> m))"
proof (induction rule: q_dispatch.induct)
  case (pop cap q m f now ml e ts q1 n out q2)
  note l = q_launch_out [OF pop(3)]
  have least: "no_later (m, f) (m', f')" if "q_pending q m' = Some f'" for m' f'
    using pop(2) that by (auto simp: zmin_def no_later_def)
  have old: "q_pending q m' = Some f' \<and> m' \<noteq> m" if "q_pending q1 m' = Some f'" for m' f'
    using l that by (auto split: if_splits)
  have ts: "slot t = (m, f) \<and> q_pending q m = Some f" if "t \<in> set ts" for t
    using l pop(2) that by (auto simp: zmin_def)
  have left: "q_pending q1 m' = Some f'" "\<forall>t \<in> set out. no_later (slot t) (m', f') \<and> fst t \<noteq> m'" if "q_pending q2 m' = Some f'" for m' f'
    using pop.IH that by blast+
  have out: "q_pending q1 (fst t) = Some (fst (snd t))" if "t \<in> set out" for t
    using pop.IH that by blast
  have one: "sorted_wrt (\<lambda>a b. no_later (slot a) (slot b)) ts"
    using l by (cases ts) (auto simp: le_Suc_eq)
  have cross: "no_later (slot a) (slot b)" if "a \<in> set ts" "b \<in> set out" for a b
    using ts [OF that(1)] least [OF conjunct1 [OF old [OF out [OF that(2)]]]] by simp
  have "sorted_wrt (\<lambda>a b. no_later (slot a) (slot b)) (ts @ out)"
    using one cross pop.IH by (simp add: sorted_wrt_append)
  moreover have "q_pending q (fst t) = Some (fst (snd t))" if "t \<in> set (ts @ out)" for t
    using that ts [of t] old [OF out, of t] by auto
  moreover have "q_pending q m' = Some f' \<and> (\<forall>t \<in> set (ts @ out). no_later (slot t) (m', f') \<and> fst t \<noteq> m')"
    if "q_pending q2 m' = Some f'" for m' f'
  proof -
    note o = old [OF left(1) [OF that]]
    have "no_later (slot t) (m', f') \<and> fst t \<noteq> m'" if "t \<in> set ts" for t
      using ts [OF that] least [OF conjunct1 [OF o]] o by auto
    then show ?thesis using o left(2) [OF that] by auto
  qed
  ultimately show ?case by blast
qed auto

lemma q_dispatch_count:
  "q_dispatch cap now ml e n q ts q' \<Longrightarrow> length ts \<le> n \<and> q_inflight q' = q_inflight q + int (length ts)"
proof (induction rule: q_dispatch.induct)
  case (pop cap q m f now ml e ts q1 n out q2)
  then show ?case using q_launch_out [OF pop(3)] by auto
qed auto

lemma not_full: "\<lbrakk>\<not> q_full cap q; 0 < cap; cap \<le> 2 ^ 53\<rbrakk> \<Longrightarrow> q_inflight q < cap"
  using lua_number_mono [of cap "q_inflight q"] lua_number_exact [of cap] by (force simp: q_full_def)

lemma q_dispatch_cap:
  "q_dispatch cap now ml e n q ts q' \<Longrightarrow> 0 < cap \<Longrightarrow> cap \<le> 2 ^ 53 \<Longrightarrow> q_inflight q' \<le> max (q_inflight q) cap"
proof (induction rule: q_dispatch.induct)
  case (pop cap q m f now ml e ts q1 n out q2)
  then show ?case using q_launch_out [OF pop(3)] not_full [OF pop(1)] by auto
qed auto

text \<open>Every pending member has its payload.\<close>

definition all_backed :: "qstate \<Rightarrow> bool" where
  "all_backed q \<longleftrightarrow> (\<forall>m \<in> dom (q_pending q). \<exists>i. after_first (CHR ''|'') m = Some i \<and> q_payloads q i \<noteq> None)"

lemma inv_ids_backed: "inv_ids q \<Longrightarrow> all_backed q"
  by (fastforce simp: inv_ids_def all_backed_def)

lemma q_dispatch_busy:
  "q_dispatch cap now ml e n q ts q' \<Longrightarrow> all_backed q \<Longrightarrow> length ts < n \<Longrightarrow> q_full cap q' \<or> q_pending q' = Map.empty"
proof (induction rule: q_dispatch.induct)
  case (pop cap q m f now ml e ts q1 n out q2)
  note l = q_launch_out [OF pop(3)]
  have "m \<in> dom (q_pending q)"
    using pop(2) by (auto simp: zmin_def)
  then have "length ts = 1"
    using l pop.prems(1) unfolding all_backed_def by blast
  moreover have "all_backed q1"
    using l pop.prems(1) by (auto simp: all_backed_def)
  ultimately show ?case
    using pop.IH pop.prems(2) by simp
qed auto

section \<open>Admission and refusal\<close>

text \<open>What one run of an admission leaves.\<close>

definition admitted_state :: "int \<Rightarrow> task \<Rightarrow> key \<Rightarrow> qstate \<Rightarrow> qstate" where
  "admitted_state e t k q =
     (if refused e q then q
      else if q_known (t_id t) q then raised e q
      else q_admit (t_id t) (k_member k) (k_score k) (f64_of_int (submitted_ms t)) (TTask t) (raised e q))"

lemma admitted_state_idem [simp]: "admitted_state e t k (admitted_state e t k q) = admitted_state e t k q"
  by (simp add: admitted_state_def)

context queue_store
begin

lemma admit_one:
  assumes "typed ks (view s)" "k_score k \<noteq> NaN"
  shows "\<exists>s'. admit_script call (k_name ks Payloads) (k_name ks Pending) (k_name ks PendingAge) (k_name ks Done)
        (k_name ks Stats) (k_name ks Fence) (t_id t) (k_member k) (TFlt (k_score k)) (TNum (submitted_ms t)) (TTask t) (TNum e) s =
      (if refused e (qabs ks (view s)) then Inl fenced_error else Inr (if q_known (t_id t) (qabs ks (view s)) then 0 else 1), s') \<and>
      typed ks (view s') \<and> qabs ks (view s') = admitted_state e t k (qabs ks (view s))"
proof -
  have sc: "score_text (TFlt (k_score k)) = Some (k_score k)" "score_text (TNum (submitted_ms t)) = Some (f64_of_int (submitted_ms t))"
    using assms(2) by (cases "k_score k"; simp add: score_text_def)+
  show ?thesis
    using admit_run [OF assms(1) sc, of "t_id t" "k_member k" "TTask t" e] unfolding admitted_state_def by auto
qed

lemma admit_request:
  assumes b: "b_keys b = ks" and t: "typed ks (view (n_db w))" "task_times_ok t" "k_score k \<noteq> NaN"
  shows "fst (admit call b t k e w) =
      (case fate w of
         Unanswered n \<Rightarrow> Inl (ErrRedis ''admit task'' NoReply)
       | Answered n \<Rightarrow>
           if refused e (qabs ks (view (n_db w))) then Inl ErrFenced
           else Inr (n = 0 \<and> \<not> q_known (t_id t) (qabs ks (view (n_db w)))))"
    "qabs ks (view (n_db (snd (admit call b t k e w)))) =
      (if runs (fate w) = 0 then qabs ks (view (n_db w)) else admitted_state e t k (qabs ks (view (n_db w))))"
proof -
  let ?m = "admit_script call (k_name ks Payloads) (k_name ks Pending) (k_name ks PendingAge) (k_name ks Done)
    (k_name ks Stats) (k_name ks Fence) (t_id t) (k_member k) (TFlt (k_score k)) (TNum (submitted_ms t)) (TTask t) (TNum e)"
  let ?q = "qabs ks (view (n_db w))" and ?f = "admitted_state e t k"
  have one: "typed ks (view (snd (?m s))) \<and> qabs ks (view (snd (?m s))) = ?f (qabs ks (view s))" if "typed ks (view s)" for s
    using admit_one [OF that t(3), of t e] by auto
  note many = resend_fun [of ks view ?m ?f, OF one t(1)]
  have p: "marshal_task t = Inr (TTask t)"
    using t(2) by (simp add: marshal_task_def)
  have reply: "fst (?m (resend n ?m (n_db w))) =
      (if refused e ?q then Inl fenced_error else Inr (if n = 0 \<and> \<not> q_known (t_id t) ?q then 1 else 0))" for n
  proof -
    have "fst (?m (resend n ?m (n_db w))) = (if refused e ((?f ^^ n) ?q) then Inl fenced_error
        else Inr (if q_known (t_id t) ((?f ^^ n) ?q) then 0 else 1))"
      using admit_one [OF conjunct1 [OF many [of n]] t(3), of t e] many by auto
    then show ?thesis
      by (simp add: funpow_idem) (simp add: admitted_state_def)
  qed
  show "fst (admit call b t k e w) =
      (case fate w of
         Unanswered n \<Rightarrow> Inl (ErrRedis ''admit task'' NoReply)
       | Answered n \<Rightarrow> if refused e ?q then Inl ErrFenced else Inr (n = 0 \<and> \<not> q_known (t_id t) ?q))"
    using send_fst [of ?m w] reply
    by (auto simp: admit_def p b key_def split: prod.splits sum.splits delivery.splits if_splits)
  show "qabs ks (view (n_db (snd (admit call b t k e w)))) = (if runs (fate w) = 0 then ?q else ?f ?q)"
    using send_runs [of ?m w] many
    by (auto simp: admit_def p b key_def funpow_idem split: prod.splits sum.splits)
qed

text \<open>A request of a superseded epoch changes nothing, whatever its fate.\<close>

lemma send_refused:
  assumes "\<And>s. typed ks (view s) \<Longrightarrow> refused e (qabs ks (view s)) \<Longrightarrow>
      fst (m s) = Inl fenced_error \<and> typed ks (view (snd (m s))) \<and> qabs ks (view (snd (m s))) = qabs ks (view s)"
    and "typed ks (view (n_db w))" "refused e (qabs ks (view (n_db w)))"
  shows "fst (send m w) = Inl (ErrorReply fenced_error) \<or> fst (send m w) = Inl NoReply"
    "qabs ks (view (n_db (snd (send m w)))) = qabs ks (view (n_db w))"
proof -
  let ?I = "\<lambda>s. typed ks (view s) \<and> qabs ks (view s) = qabs ks (view (n_db w))"
  have I: "?I (snd (m s))" if "?I s" for s
    using assms(1) [of s] that assms(3) by simp
  note s = send_inv [of ?I m w, OF I]
  show "qabs ks (view (n_db (snd (send m w)))) = qabs ks (view (n_db w))"
    using s(1) assms(2) by simp
  show "fst (send m w) = Inl (ErrorReply fenced_error) \<or> fst (send m w) = Inl NoReply"
    using s(2) assms by fastforce
qed

lemma stale_dispatch:
  assumes b: "b_keys b = ks" and t: "typed ks (view (n_db w))" "refused e (qabs ks (view (n_db w)))"
  shows "fst (dispatch call b mx cap now e w) \<in> {Inl ErrFenced, Inl (ErrRedis ''dispatch'' NoReply)}"
    "qabs ks (view (n_db (snd (dispatch call b mx cap now e w)))) = qabs ks (view (n_db w))"
proof -
  let ?m = "dispatch_script call (k_name ks Pending) (k_name ks PendingAge) (k_name ks Payloads) (k_name ks Exec)
    (k_name ks Stats) (k_name ks InFlight) (k_name ks Fence) mx cap (TNum (unix_milli now)) (b_max_len b) (TNum e)"
  have "fst (?m s) = Inl fenced_error \<and> typed ks (view (snd (?m s))) \<and> qabs ks (view (snd (?m s))) = qabs ks (view s)"
    if "typed ks (view s)" "refused e (qabs ks (view s))" for s
    using dispatch_run [OF that(1), of mx cap "TNum (unix_milli now)" "b_max_len b" e] that(2) by auto
  note s = send_refused [of e ?m w, OF this t]
  show "fst (dispatch call b mx cap now e w) \<in> {Inl ErrFenced, Inl (ErrRedis ''dispatch'' NoReply)}"
    "qabs ks (view (n_db (snd (dispatch call b mx cap now e w)))) = qabs ks (view (n_db w))"
    using s by (auto simp: dispatch_def b key_def split: prod.splits sum.splits)
qed

lemma stale_save:
  assumes b: "b_keys b = ks" "st \<noteq> []" and t: "typed ks (view (n_db w))" "refused e (qabs ks (view (n_db w)))"
  shows "fst (save_scheduler_state call b st e w) \<in> {Inl ErrFenced, Inl (ErrRedis ''save scheduler state'' NoReply)}"
    "qabs ks (view (n_db (snd (save_scheduler_state call b st e w)))) = qabs ks (view (n_db w))"
proof -
  let ?m = "save_state_script call (k_name ks SchedState) (k_name ks Fence) (TNum e) st"
  have "fst (?m s) = Inl fenced_error \<and> typed ks (view (snd (?m s))) \<and> qabs ks (view (snd (?m s))) = qabs ks (view s)"
    if "typed ks (view s)" "refused e (qabs ks (view s))" for s
    using save_run [OF that(1), of e st] that(2) by auto
  note s = send_refused [of e ?m w, OF this t]
  show "fst (save_scheduler_state call b st e w) \<in> {Inl ErrFenced, Inl (ErrRedis ''save scheduler state'' NoReply)}"
    "qabs ks (view (n_db (snd (save_scheduler_state call b st e w)))) = qabs ks (view (n_db w))"
    using s by (auto simp: save_scheduler_state_def b key_def split: prod.splits sum.splits)
qed

text \<open>A dispatch whose one reply arrives is a dispatch of the abstract queue.\<close>

lemma dispatch_request:
  assumes b: "b_keys b = ks" and t: "typed ks (view (n_db w))" "fate w = Answered 0" "\<not> refused e (qabs ks (view (n_db w)))"
  shows "\<exists>ts. q_dispatch cap (TNum (unix_milli now)) (b_max_len b) (TNum e) (nat mx) (raised e (qabs ks (view (n_db w)))) ts
        (qabs ks (view (n_db (snd (dispatch call b mx cap now e w))))) \<and>
      fst (dispatch call b mx cap now e w) = parse_dispatched ts"
proof -
  let ?m = "dispatch_script call (k_name ks Pending) (k_name ks PendingAge) (k_name ks Payloads) (k_name ks Exec)
    (k_name ks Stats) (k_name ks InFlight) (k_name ks Fence) mx cap (TNum (unix_milli now)) (b_max_len b) (TNum e)"
  obtain ts s' where r: "?m (n_db w) = (Inr ts, s')"
    "q_dispatch cap (TNum (unix_milli now)) (b_max_len b) (TNum e) (nat mx) (raised e (qabs ks (view (n_db w)))) ts (qabs ks (view s'))"
    using dispatch_run [OF t(1), of mx cap "TNum (unix_milli now)" "b_max_len b" e] t(3) by auto
  have "fst (send ?m w) = Inr ts" "n_db (snd (send ?m w)) = s'"
    using t(2) r(1) by (simp_all add: send_fst send_runs)
  then have "fst (dispatch call b mx cap now e w) = parse_dispatched ts" "n_db (snd (dispatch call b mx cap now e w)) = s'"
    by (auto simp: dispatch_def b key_def split: prod.splits sum.splits)
  then show ?thesis using r(2) by auto
qed

text \<open>A completion: the reply and the state when it runs once, and when it runs again.\<close>

lemma complete_request:
  assumes b: "b_keys b = ks" and t: "typed ks (view (n_db w))" "fate w = Answered 0" and p: "marshal_result r = Inr (TResult r)"
  shows "fst (complete call b r msg now w) = Inr (q_done (qabs ks (view (n_db w))) (r_task_id r) = None) \<and>
    q_complete (b_max_len b) (r_task_id r) (TResult r) (r_tenant r) (if r_actual_ms r \<le> 0 then r_exec_ms r else r_actual_ms r)
      (missed_deadline r) (TNum (unix_milli now)) (k_worker_group ks) msg (qabs ks (view (n_db w)))
      (q_done (qabs ks (view (n_db w))) (r_task_id r) = None) (qabs ks (view (n_db (snd (complete call b r msg now w)))))"
proof -
  let ?ms = "if r_actual_ms r \<le> 0 then r_exec_ms r else r_actual_ms r" and ?missed = "if missed_deadline r then 1 else 0 :: int"
  let ?m = "complete_script call (k_name ks Done) (k_name ks Payloads) (k_name ks Results) (k_name ks Stats) (k_name ks TenantService)
    (k_name ks TenantCount) (k_name ks InFlight) (k_name ks Exec) (r_task_id r) (TResult r) (r_tenant r) ?ms ?missed
    (TNum (unix_milli now)) (k_worker_group ks) msg (b_max_len b)"
  have m: "(?missed = 1) = missed_deadline r"
    by simp
  obtain s' where r: "?m (n_db w) = (Inr (if q_done (qabs ks (view (n_db w))) (r_task_id r) = None then 1 else 0), s')"
    "q_complete (b_max_len b) (r_task_id r) (TResult r) (r_tenant r) ?ms (missed_deadline r) (TNum (unix_milli now)) (k_worker_group ks) msg
      (qabs ks (view (n_db w))) (q_done (qabs ks (view (n_db w))) (r_task_id r) = None) (qabs ks (view s'))"
    using complete_run [OF t(1), of "r_task_id r" "TResult r" "r_tenant r" ?ms ?missed "TNum (unix_milli now)" "k_worker_group ks" msg "b_max_len b"]
    unfolding m by blast
  have "fst (send ?m w) = Inr (if q_done (qabs ks (view (n_db w))) (r_task_id r) = None then 1 else 0)" "n_db (snd (send ?m w)) = s'"
    using t(2) r(1) by (simp_all add: send_fst send_runs)
  then have "fst (complete call b r msg now w) = Inr (q_done (qabs ks (view (n_db w))) (r_task_id r) = None)"
    "n_db (snd (complete call b r msg now w)) = s'"
    by (auto simp: complete_def p b key_def Let_def split: prod.splits sum.splits if_splits)
  then show ?thesis using r(2) by simp
qed

lemma retry_request:
  assumes b: "b_keys b = ks" and t: "typed ks (view (n_db w))" "fate w = Answered 0"
    and p: "task_times_ok t" "json_time_ok failed_at"
  shows "\<exists>out. fst (retry_or_dead_letter call b t budget reason msg failed_at now w) = Inr (retry_outcome_of out, next_attempt t budget) \<and>
    q_retry (b_max_len b) (t_id t) (TTask (next_attempt t budget))
      (TDead \<lparr>d_task = t, d_reason = reason, d_attempts = i64 (t_retry t + 1), d_last_attempt = t_attempt t, d_failed_at = failed_at\<rparr>)
      (budget < t_retry (next_attempt t budget)) (TNum (unix_milli now)) (k_worker_group ks) msg (qabs ks (view (n_db w))) out
      (qabs ks (view (n_db (snd (retry_or_dead_letter call b t budget reason msg failed_at now w))))) \<and>
    typed ks (view (n_db (snd (retry_or_dead_letter call b t budget reason msg failed_at now w)))) \<and>
    n_faults (snd (retry_or_dead_letter call b t budget reason msg failed_at now w)) = snd (next_fault (n_faults w))"
proof -
  let ?n = "next_attempt t budget"
  let ?d = "\<lparr>d_task = t, d_reason = reason, d_attempts = i64 (t_retry t + 1), d_last_attempt = t_attempt t, d_failed_at = failed_at\<rparr>"
  let ?dead = "if budget < t_retry ?n then 1 else 0 :: int"
  let ?m = "retry_script call (k_name ks Done) (k_name ks Payloads) (k_name ks Exec) (k_name ks DeadLetter) (k_name ks Stats)
    (k_name ks InFlight) (t_id t) (TTask ?n) (TDead ?d) ?dead (TNum (unix_milli now)) (k_worker_group ks) msg (b_max_len b)"
  have mp: "marshal_task ?n = Inr (TTask ?n)" "marshal_dead ?d = Inr (TDead ?d)"
    using p by (auto simp: marshal_task_def marshal_dead_def task_times_ok_def next_attempt_def Let_def)
  have m: "(?dead = 1) = (budget < t_retry ?n)"
    by simp
  obtain out s' where r: "?m (n_db w) = (Inr out, s')" "typed ks (view s')"
    "q_retry (b_max_len b) (t_id t) (TTask ?n) (TDead ?d) (budget < t_retry ?n) (TNum (unix_milli now)) (k_worker_group ks) msg
      (qabs ks (view (n_db w))) out (qabs ks (view s'))"
    using retry_run [OF t(1), of "t_id t" "TTask ?n" "TDead ?d" ?dead "TNum (unix_milli now)" "k_worker_group ks" msg "b_max_len b"]
    unfolding m by blast
  have "fst (send ?m w) = Inr out" "n_db (snd (send ?m w)) = s'"
    using t(2) r(1) by (simp_all add: send_fst send_runs)
  then obtain w' where w': "send ?m w = (Inr out, w')" "n_db w' = s'" "n_faults w' = snd (next_fault (n_faults w))"
    using send_faults [of ?m w] by (metis prod.collapse)
  have "retry_or_dead_letter call b t budget reason msg failed_at now w = (Inr (retry_outcome_of out, ?n), w')"
    unfolding retry_or_dead_letter_def Let_def mp b key_def sum.case w'(1) by simp
  then show ?thesis using r(2,3) w'(2,3) by auto
qed

lemma save_request:
  assumes b: "b_keys b = ks" "st \<noteq> []" and t: "typed ks (view (n_db w))" "fate w = Answered 0" "\<not> refused e (qabs ks (view (n_db w)))"
  shows "fst (save_scheduler_state call b st e w) = Inr () \<and>
    typed ks (view (n_db (snd (save_scheduler_state call b st e w)))) \<and>
    qabs ks (view (n_db (snd (save_scheduler_state call b st e w)))) = q_save st (raised e (qabs ks (view (n_db w)))) \<and>
    n_faults (snd (save_scheduler_state call b st e w)) = snd (next_fault (n_faults w))"
proof -
  let ?m = "save_state_script call (k_name ks SchedState) (k_name ks Fence) (TNum e) st"
  obtain s' where r: "?m (n_db w) = (Inr (int (length st)), s')" "typed ks (view s')"
    "qabs ks (view s') = q_save st (raised e (qabs ks (view (n_db w))))"
    using save_run [OF t(1), of e st] t(3) by auto
  have "fst (send ?m w) = Inr (int (length st))" "n_db (snd (send ?m w)) = s'"
    using t(2) r(1) by (simp_all add: send_fst send_runs)
  then have "fst (save_scheduler_state call b st e w) = Inr ()" "n_db (snd (save_scheduler_state call b st e w)) = s'"
    "n_faults (snd (save_scheduler_state call b st e w)) = snd (next_fault (n_faults w))"
    using b(2) send_faults [of ?m w] by (auto simp: save_scheduler_state_def b(1) key_def split: prod.splits sum.splits)
  then show ?thesis using r by simp
qed

lemma reset_request:
  assumes b: "b_keys b = ks" and t: "typed ks (view (n_db w))" "fate w = Answered 0"
  shows "fst (reset_ns call b w) = Inr () \<and> qabs ks (view (n_db (snd (reset_ns call b w)))) = q_reset (qabs ks (view (n_db w)))"
proof -
  let ?m = "rcall call (DEL (all_keys ks))"
  obtain r where r: "?m (n_db w) = (Inr r, after call (DEL (all_keys ks)) (n_db w))"
    using run_DEL(1) by blast
  have "fst (send ?m w) = Inr r" "n_db (snd (send ?m w)) = after call (DEL (all_keys ks)) (n_db w)"
    using t(2) r by (simp_all add: send_fst send_runs)
  then have "fst (reset_ns call b w) = Inr ()" "n_db (snd (reset_ns call b w)) = after call (DEL (all_keys ks)) (n_db w)"
    by (auto simp: reset_ns_def b split: prod.splits sum.splits)
  then show ?thesis using reset_run [OF t(1)] by simp
qed

end

end
