(* ===== verification/PolicyProps.thy ===== *)
theory PolicyProps
  imports Queue
begin

text \<open>
  What the policies promise, over the in-memory queue: the order in which each of them serves tasks, the tags of weighted fair
  queuing, saved state, and the errors of construction.
\<close>

section \<open>Any policy\<close>

lemma pol_new_queue_inv: "pol_inv p \<Longrightarrow> \<forall>t \<in> set ts. task_fits t \<Longrightarrow> pol.queue_inv (admit_all pol_rank (new_queue p) ts)"
  by (intro pol.admit_all_inv pol.new_queue_inv)


definition sample_task :: "string \<Rightarrow> int \<Rightarrow> int \<Rightarrow> int \<Rightarrow> task" where
  "sample_task i ms prio due = \<lparr>t_id = i, t_tenant = ''A'', t_submitted = from_unix_milli ms, t_exec_ms = 50, t_priority = prio,
     t_deadline = from_unix_milli due, t_retry = 0, t_max_retries = 3, t_attempt = i @ ''#0''\<rparr>"

lemma sample_fits [simp]: "task_fits (sample_task i ms prio due)"
  by (simp add: task_fits_def sample_task_def in_i64_def)


section \<open>The stateless policies against a reference\<close>

text \<open>Least key first, written as a plain insertion sort: the reference the heap is compared with.\<close>

definition static_key :: "policy \<Rightarrow> task \<Rightarrow> key" where
  "static_key p t = fst (pol_rank p t)"

fun place :: "(task \<Rightarrow> key) \<Rightarrow> task \<Rightarrow> task list \<Rightarrow> task list" where
  "place f t [] = [t]"
| "place f t (u # us) = (if key_less (f u) (f t) then u # place f t us else t # u # us)"

definition arrange :: "(task \<Rightarrow> key) \<Rightarrow> task list \<Rightarrow> task list" where
  "arrange f ts = foldr (place f) ts []"

lemma place_mset [simp]: "mset (place f t us) = add_mset t (mset us)"
  by (induction us) auto

lemma arrange_mset: "mset (arrange f ts) = mset ts"
  by (induction ts) (auto simp: arrange_def)

lemma place_sorted:
  assumes "sorted_wrt (\<lambda>a b. key_less (f a) (f b)) us" "\<forall>u \<in> set us. f u \<noteq> f t" "\<forall>u \<in> set us. key_ok (f u)" "key_ok (f t)"
  shows "sorted_wrt (\<lambda>a b. key_less (f a) (f b)) (place f t us)"
  using assms
proof (induction us)
  case (Cons u us)
  have s: "set (place f t us) = insert t (set us)"
    by (metis place_mset set_mset_add_mset_insert set_mset_mset)
  show ?case
  proof (cases "key_less (f u) (f t)")
    case True
    then show ?thesis using Cons s by auto
  next
    case False
    then have "key_less (f t) (f u)"
      using key_less_total [of "f u" "f t"] Cons.prems by auto
    then show ?thesis using Cons.prems False by (auto intro: key_less_trans)
  qed
qed simp

lemma arrange_sorted:
  assumes "distinct (map f ts)" "\<forall>t \<in> set ts. key_ok (f t)"
  shows "sorted_wrt (\<lambda>a b. key_less (f a) (f b)) (arrange f ts)"
  using assms
proof (induction ts)
  case (Cons t ts)
  have "set (arrange f ts) = set ts"
    by (metis arrange_mset set_mset_mset)
  moreover have "\<forall>u \<in> set ts. f u \<noteq> f t"
    using Cons.prems(1) by (auto simp: rev_image_eqI)
  ultimately have "sorted_wrt (\<lambda>a b. key_less (f a) (f b)) (place f t (arrange f ts))"
    using Cons by (intro place_sorted) auto
  then show ?case by (simp add: arrange_def)
qed (simp add: arrange_def)

lemma sorted_keys_unique:
  assumes "sorted_wrt (\<lambda>a b. key_less (f a) (f b)) xs" "sorted_wrt (\<lambda>a b. key_less (f a) (f b)) ys" "mset xs = mset ys"
  shows "xs = ys"
  using assms
proof (induction xs arbitrary: ys)
  case (Cons x xs)
  then obtain y ys' where y: "ys = y # ys'"
    by (cases ys) auto
  have "x \<in> set ys" "y \<in> set (x # xs)"
    using mset_eq_setD [OF Cons.prems(3)] y by auto
  then have "x = y"
    using Cons.prems(1,2) y key_less_asym by auto
  then show ?case using Cons y by auto
qed simp

text \<open>A stateless policy's key depends on the task alone.\<close>

definition stateless :: "policy \<Rightarrow> bool" where
  "stateless p \<longleftrightarrow> (case p of WfqP _ \<Rightarrow> False | _ \<Rightarrow> True)"

lemma stateless_rank: "stateless p \<Longrightarrow> pol_rank p t = (static_key p t, p)"
  by (cases p) (simp_all add: stateless_def static_key_def)

lemma stateless_notify: "stateless p \<Longrightarrow> pol_notify p k = p"
  by (cases p) (simp_all add: stateless_def)

lemma stateless_admit_all:
  assumes "stateless p" "q_policy q = p"
  shows "mset (q_heap (admit_all pol_rank q ts)) = mset (q_heap q) + mset (map (\<lambda>t. \<lparr>e_key = static_key p t, e_task = t\<rparr>) ts)"
  using assms(2)
proof (induction ts arbitrary: q)
  case (Cons t ts)
  have "q_policy (snd (queue_admit pol_rank q t)) = p"
    using Cons.prems by (simp add: queue_admit_def stateless_rank [OF assms(1)])
  from Cons.IH [OF this] show ?case
    using Cons.prems by (simp add: pol.queue_admit_mset stateless_rank [OF assms(1)])
qed simp

text \<open>
  C29: for fifo, priority and edf the heap-based queue serves distinct tasks exactly as the reference insertion sort of
  their keys arranges them, whatever the order of admission.
\<close>

theorem stateless_drain_is_arrange:
  assumes "stateless p" "\<forall>t \<in> set ts. task_fits t" "distinct (map t_id ts)"
  shows "queue_drain pol_notify (admit_all pol_rank (new_queue p) ts) = arrange (static_key p) ts"
proof -
  let ?q = "admit_all pol_rank (new_queue p) ts" and ?f = "static_key p"
  have pinv: "pol_inv p"
    using assms(1) by (cases p) (simp_all add: stateless_def)
  obtain es where es: "mset es = mset (q_heap ?q)" "queue_drain pol_notify ?q = map e_task es" "key_sorted es"
    using pol.queue_drain_sorted [OF pol_new_queue_inv [OF pinv assms(2)]] by blast
  have m: "mset es = mset (map (\<lambda>t. \<lparr>e_key = ?f t, e_task = t\<rparr>) ts)"
    using es(1) stateless_admit_all [OF assms(1), of "new_queue p" ts] by (simp add: new_queue_def)
  have keys: "e_key e = ?f (e_task e)" "e_task e \<in> set ts" if "e \<in> set es" for e
    using mset_eq_setD [OF m] that by auto
  have ok: "key_ok (?f t)" if "t \<in> set ts" for t
    using pol.rank_ok [OF pinv] assms(2) that by (simp add: static_key_def)
  have inj: "distinct (map ?f ts)"
  proof -
    have "t_id a = t_id b" if "?f a = ?f b" for a b
      using arg_cong [OF that, of k_member] member_for_inj_id [of a b] by (simp add: static_key_def pol.rank_member)
    then show ?thesis using assms(3) unfolding distinct_map inj_on_def by blast
  qed
  have tasks: "mset (map e_task es) = mset ts"
    using arg_cong [OF m, of "image_mset e_task"] by (simp add: image_mset.compositionality comp_def)
  have "distinct (map ?f (map e_task es))"
    using inj mset_eq_imp_distinct_iff [of "map ?f (map e_task es)" "map ?f ts"] tasks by (metis mset_map)
  moreover have "map e_key es = map ?f (map e_task es)"
    using keys(1) by simp
  ultimately have dk: "distinct (map e_key es)"
    by presburger
  have strict: "key_less (e_key a) (e_key b)" if "\<not> key_less (e_key b) (e_key a)" "e_key a \<noteq> e_key b" "a \<in> set es" "b \<in> set es" for a b
    using that keys ok key_less_total by metis
  have "sorted_wrt (\<lambda>a b. key_less (e_key a) (e_key b)) es"
    using es(3) dk strict unfolding key_sorted_def entry_less_def
    by (auto simp: sorted_wrt_iff_nth_less distinct_conv_nth)
  then have "sorted_wrt (\<lambda>a b. key_less (?f a) (?f b)) (map e_task es)"
    using keys(1) by (auto simp: sorted_wrt_map sorted_wrt_iff_nth_less)
  moreover have "sorted_wrt (\<lambda>a b. key_less (?f a) (?f b)) (arrange ?f ts)"
    using arrange_sorted [OF inj] ok by blast
  ultimately have "map e_task es = arrange ?f ts"
    by (rule sorted_keys_unique) (simp only: tasks arrange_mset)
  then show ?thesis using es(2) by simp
qed

theorem stateless_drain_is_arrange_witness:
  "queue_drain pol_notify (admit_all pol_rank (new_queue EdfP) [sample_task ''x'' 2 0 9, sample_task ''y'' 1 0 7])
     = arrange (static_key EdfP) [sample_task ''x'' 2 0 9, sample_task ''y'' 1 0 7]"
  by (rule stateless_drain_is_arrange) (simp_all add: stateless_def, simp add: sample_task_def)

section \<open>The order each policy serves in\<close>

lemma append_less_cancel: "(xs @ a < xs @ (b :: string)) = (a < b)"
  by (induction xs) simp_all

lemma member_order: "submitted_ms a = submitted_ms b \<Longrightarrow> (member_for a < member_for b) = (t_id a < t_id b)"
  using append_less_cancel [of "show_pad 13 (submitted_ms b) @ ''|''" "t_id a" "t_id b"] by (simp add: member_for_def)

definition ms_exact :: "int \<Rightarrow> bool" where
  "ms_exact n \<longleftrightarrow> \<bar>n\<bar> \<le> 2 ^ 53"

lemma key_less_ints:
  "k_score x = Fin (of_int m) \<Longrightarrow> k_score y = Fin (of_int n) \<Longrightarrow> key_less x y = (m < n \<or> m = n \<and> k_member x < k_member y)"
  by (auto simp: key_less_def feq_def)

lemma f64_of_exact: "ms_exact n \<Longrightarrow> f64_of_int n = Fin (of_int n)"
  by (simp add: ms_exact_def f64_of_int_exact)

text \<open>
  Fifo serves by submission time to the millisecond, and by task id within a millisecond, for all times up to
  \<open>2 ^ 53\<close> milliseconds from the epoch.
\<close>

theorem fifo_order:
  assumes "ms_exact (submitted_ms a)" "ms_exact (submitted_ms b)"
  shows "key_less (fifo_rank a) (fifo_rank b) \<longleftrightarrow>
    submitted_ms a < submitted_ms b \<or> submitted_ms a = submitted_ms b \<and> t_id a < t_id b"
  using assms member_order [of a b] by (auto simp: fifo_rank_def key_less_ints f64_of_exact)

theorem fifo_order_witness: "key_less (fifo_rank (sample_task ''y'' 1 0 9)) (fifo_rank (sample_task ''x'' 2 0 9))"
  using fifo_order [of "sample_task ''y'' 1 0 9" "sample_task ''x'' 2 0 9"]
  by (simp add: sample_task_def ms_exact_def submitted_ms_def unix_milli_from in_i64_def)

lemma band_pair:
  fixes s u x y :: int
  assumes "0 \<le> s" "s < 10 ^ 13" "0 \<le> u" "u < 10 ^ 13"
  shows "x * 10 ^ 13 + s < y * 10 ^ 13 + u \<longleftrightarrow> x < y \<or> x = y \<and> s < u"
    "x * 10 ^ 13 + s = y * 10 ^ 13 + u \<longleftrightarrow> x = y \<and> s = u"
  using assms by (cases x y rule: linorder_cases; auto)+

text \<open>
  Strict priority serves every higher priority before any lower one, then by submission time and id, for all submissions
  from 1970 until the bands would meet in the year 2286; priorities outside the accepted range count as its ends.
\<close>

theorem priority_order:
  assumes "ms_in_band a" "ms_in_band b"
  shows "key_less (priority_rank a) (priority_rank b) \<longleftrightarrow>
    clamp_priority (t_priority b) < clamp_priority (t_priority a) \<or>
    clamp_priority (t_priority a) = clamp_priority (t_priority b) \<and>
      (submitted_ms a < submitted_ms b \<or> submitted_ms a = submitted_ms b \<and> t_id a < t_id b)"
proof -
  let ?x = "max_priority - clamp_priority (t_priority a)" and ?y = "max_priority - clamp_priority (t_priority b)"
  have ms: "0 \<le> submitted_ms a" "submitted_ms a < 10 ^ 13" "0 \<le> submitted_ms b" "submitted_ms b < 10 ^ 13"
    using assms by (auto simp: ms_in_band_def)
  note B = band_pair [of "submitted_ms a" "submitted_ms b" ?x ?y]
  have band: "?x * 10 ^ 13 + submitted_ms a < ?y * 10 ^ 13 + submitted_ms b \<longleftrightarrow> ?x < ?y \<or> ?x = ?y \<and> submitted_ms a < submitted_ms b"
    "?x * 10 ^ 13 + submitted_ms a = ?y * 10 ^ 13 + submitted_ms b \<longleftrightarrow> ?x = ?y \<and> submitted_ms a = submitted_ms b"
    using B ms by simp_all
  show ?thesis
    unfolding key_less_ints [OF priority_score_exact [OF assms(1)] priority_score_exact [OF assms(2)]] band priority_rank_simps
    using member_order [of a b] by auto
qed

theorem priority_order_witness:
  "key_less (priority_rank (sample_task ''x'' 2 7 9)) (priority_rank (sample_task ''y'' 1 3 9))"
  using priority_order [of "sample_task ''x'' 2 7 9" "sample_task ''y'' 1 3 9"]
  by (simp add: sample_task_def ms_in_band_def submitted_ms_def unix_milli_from in_i64_def clamp_priority_def max_priority_def)

text \<open>The deadline as the policy reads it: none is later than any real one.\<close>

definition due_ms :: "task \<Rightarrow> int" where
  "due_ms t = (if deadline_ms t = 0 then 10 ^ 15 else deadline_ms t)"

lemma edf_score: "ms_exact (deadline_ms t) \<Longrightarrow> k_score (edf_rank t) = Fin (of_int (due_ms t))"
  by (simp add: edf_rank_def due_ms_def f64_of_exact no_deadline_score_def)

text \<open>
  Earliest deadline first serves by deadline to the millisecond, tasks without one after every deadline before the
  year 33658, and ties by member (submission time, then id).
\<close>

theorem edf_order:
  assumes "ms_exact (deadline_ms a)" "ms_exact (deadline_ms b)"
  shows "key_less (edf_rank a) (edf_rank b) \<longleftrightarrow> due_ms a < due_ms b \<or> due_ms a = due_ms b \<and> member_for a < member_for b"
  unfolding key_less_ints [OF edf_score [OF assms(1)] edf_score [OF assms(2)]] by simp

theorem edf_order_witness: "key_less (edf_rank (sample_task ''y'' 9 0 5)) (edf_rank (sample_task ''x'' 2 0 8))"
  using edf_order [of "sample_task ''y'' 9 0 5" "sample_task ''x'' 2 0 8"]
  by (simp add: sample_task_def ms_exact_def deadline_ms_def due_ms_def unix_milli_from in_i64_def from_unix_milli_def zero_time_def is_zero_time_def unix_milli_def i64_id)

text \<open>
  A pending member names its task: the id the dispatch script cuts out of it is the task's own, whatever bars the id
  contains, so a popped member always finds the payload it was admitted with.
\<close>

theorem member_names_task: "task_id_from_member (member_for t) = Inr (t_id t) \<and> (member_for t = member_for u \<longrightarrow> t_id t = t_id u)"
  using member_for_inj_id [of t u] by simp

theorem member_names_task_witness:
  "member_for (sample_task ''x|y'' 2 0 9) = member_for (sample_task ''x|y'' 2 3 9) \<and>
   task_id_from_member (member_for (sample_task ''x|y'' 2 0 9)) = Inr ''x|y''"
proof
  show "member_for (sample_task ''x|y'' 2 0 9) = member_for (sample_task ''x|y'' 2 3 9)"
    by (simp only: sample_task_def member_for_def submitted_ms_def task.select_convs)
  show "task_id_from_member (member_for (sample_task ''x|y'' 2 0 9)) = Inr ''x|y''"
    using conjunct1 [OF member_names_task [of "sample_task ''x|y'' 2 0 9" "sample_task ''x|y'' 2 3 9"]]
    by (simp only: sample_task_def task.select_convs)
qed

section \<open>Weighted fair queuing\<close>

text \<open>The policy under a history of admissions and dispatches; the result pairs each admitted task with its key.\<close>

datatype wfq_event = Ranked task | Dispatched key

fun wfq_history :: "wfq \<Rightarrow> wfq_event list \<Rightarrow> (task \<times> key) list \<times> wfq" where
  "wfq_history p [] = ([], p)"
| "wfq_history p (Ranked t # es) =
     (case wfq_rank p t of (k, p') \<Rightarrow> (case wfq_history p' es of (ks, p'') \<Rightarrow> ((t, k) # ks, p'')))"
| "wfq_history p (Dispatched k # es) = wfq_history (wfq_notify p k) es"

fun event_ok :: "wfq_event \<Rightarrow> bool" where
  "event_ok (Ranked t) = task_fits t"
| "event_ok (Dispatched k) = f64_ok (k_score k)"

lemma wfq_history_after:
  assumes "wfq_inv p" "\<forall>e \<in> set es. event_ok e"
  shows "\<forall>(t, k) \<in> set (fst (wfq_history p es)).
      fle (w_vtime p) (k_score k) \<and> (\<forall>f. map_of (w_last p) (t_tenant t) = Some f \<longrightarrow> fle f (k_score k))"
  using assms
proof (induction p es rule: wfq_history.induct)
  case (2 p t es)
  obtain k p' where r: "wfq_rank p t = (k, p')"
    by (metis surj_pair)
  have i: "in_i64 (t_exec_ms t)"
    using "2.prems" by (simp add: task_fits_def)
  have p': "wfq_inv p'" "w_vtime p' = w_vtime p"
    "map_of (w_last p') a = (if a = t_tenant t then Some (k_score k) else map_of (w_last p) a)" for a
    using wfq_rank_inv [OF "2.prems"(1) i] wfq_rank_state [of p t] wfq_rank_last [of p t] r by simp_all
  have s: "fle (wfq_start p (t_tenant t)) (k_score k)"
    using wfq_finish_ge_start(1) [OF "2.prems"(1) i] r by simp
  have k: "fle (w_vtime p) (k_score k)" "map_of (w_last p) (t_tenant t) = Some f \<Longrightarrow> fle f (k_score k)" for f
    using fle_trans [OF wfq_start_ge_vtime [OF "2.prems"(1)] s] fle_trans [OF wfq_start_ge_last [OF "2.prems"(1)] s] by blast+
  have later: "fle (w_vtime p) (k_score k')" "\<forall>f. map_of (w_last p') (t_tenant t') = Some f \<longrightarrow> fle f (k_score k')"
    if "(t', k') \<in> set (fst (wfq_history p' es))" for t' k'
    using "2.IH" [OF r [symmetric] p'(1)] "2.prems" that p'(2) by (auto simp: case_prod_beta)
  have "fle f (k_score k')" if "(t', k') \<in> set (fst (wfq_history p' es))" "map_of (w_last p) (t_tenant t') = Some f" for t' k' f
    using later(2) [OF that(1)] that(2) k(2) p'(3) fle_trans by (cases "t_tenant t' = t_tenant t") auto
  then show ?case
    using k later(1) r by (auto split: prod.splits)
next
  case (3 p k es)
  have i: "wfq_inv (wfq_notify p k)" and v: "fle (w_vtime p) (w_vtime (wfq_notify p k))"
    using "3.prems" wfq_notify_inv wfq_notify_mono by auto
  have "w_last (wfq_notify p k) = w_last p"
    by (simp add: wfq_notify_def)
  then show ?case
    using "3.IH" [OF i] "3.prems" fle_trans [OF v] by fastforce
qed simp

lemma wfq_history_inv:
  "wfq_inv p \<Longrightarrow> \<forall>e \<in> set es. event_ok e \<Longrightarrow>
   wfq_inv (snd (wfq_history p es)) \<and> fle (w_vtime p) (w_vtime (snd (wfq_history p es)))"
proof (induction p es rule: wfq_history.induct)
  case (1 p)
  then show ?case by (auto simp: wfq_inv_def fle_def feq_def dest: tag_ok_not_NaN)
next
  case (2 p t es)
  obtain k p' where r: "wfq_rank p t = (k, p')"
    by (metis surj_pair)
  then have "wfq_inv p'" "w_vtime p' = w_vtime p"
    using wfq_rank_inv [of p t] wfq_rank_state [of p t] "2.prems" by (simp_all add: task_fits_def)
  then show ?case
    using "2.IH" [OF r [symmetric]] "2.prems" r by (auto split: prod.splits)
next
  case (3 p k es)
  have "wfq_inv (wfq_notify p k)" "fle (w_vtime p) (w_vtime (wfq_notify p k))"
    using "3.prems" wfq_notify_inv wfq_notify_mono by auto
  then show ?case
    using "3.IH" "3.prems" fle_trans by fastforce
qed

lemma wfq_history_tenant_order:
  assumes "wfq_inv p" "\<forall>e \<in> set es. event_ok e"
  shows "sorted_wrt (\<lambda>a b. t_tenant (fst a) = t_tenant (fst b) \<longrightarrow> fle (k_score (snd a)) (k_score (snd b))) (fst (wfq_history p es))"
  using assms
proof (induction p es rule: wfq_history.induct)
  case (2 p t es)
  obtain k p' where r: "wfq_rank p t = (k, p')"
    by (metis surj_pair)
  have p': "wfq_inv p'" "map_of (w_last p') (t_tenant t) = Some (k_score k)"
    using wfq_rank_inv [of p t] wfq_rank_last [of p t "t_tenant t"] "2.prems" r by (simp_all add: task_fits_def)
  have later: "fle (k_score k) (k_score k')" if "(t', k') \<in> set (fst (wfq_history p' es))" "t_tenant t = t_tenant t'" for t' k'
    using wfq_history_after [OF p'(1), of es] "2.prems"(2) that p'(2) by auto
  have "sorted_wrt (\<lambda>a b. t_tenant (fst a) = t_tenant (fst b) \<longrightarrow> fle (k_score (snd a)) (k_score (snd b))) (fst (wfq_history p' es))"
    using "2.IH" [OF r [symmetric] p'(1)] "2.prems"(2) by simp
  then show ?case
    using later r by (auto split: prod.splits)
next
  case (3 p k es)
  then show ?case using wfq_notify_inv by simp
qed simp

text \<open>
  C30: virtual time never goes back and a tenant is served in its own order. Over any history of admissions and dispatches,
  under rounding: a tenant's finish tags never decrease from one of its tasks to a later one, every tag is at least
  the virtual clock the history started from, and so is the clock at its end.
\<close>

theorem wfq_tags_monotone:
  assumes "wfq_inv p" "\<forall>e \<in> set es. event_ok e"
  shows "sorted_wrt (\<lambda>a b. t_tenant (fst a) = t_tenant (fst b) \<longrightarrow> fle (k_score (snd a)) (k_score (snd b)))
      (fst (wfq_history p es)) \<and>
    (\<forall>(t, k) \<in> set (fst (wfq_history p es)). fle (w_vtime p) (k_score k)) \<and>
    fle (w_vtime p) (w_vtime (snd (wfq_history p es)))"
  using wfq_history_tenant_order [OF assms] wfq_history_after [OF assms] wfq_history_inv [OF assms] by blast

definition demo_wfq :: wfq where
  "demo_wfq = \<lparr>w_weights = [(''A'', Fin 2)], w_default = Fin 1, w_vtime = Fin 0, w_last = []\<rparr>"

lemma demo_wfq_inv: "wfq_inv demo_wfq"
  by (auto simp: demo_wfq_def wfq_inv_def tag_ok_def f64_ok_def fle_def feq_def pos_weight_def split: if_splits)

theorem wfq_tags_monotone_witness:
  "map (\<lambda>x. k_score (snd x)) (fst (wfq_history demo_wfq [Ranked (sample_task ''x'' 1 0 9), Ranked (sample_task ''y'' 2 0 9)])) = [Fin 25, Fin 50] \<and>
   fle (w_vtime demo_wfq) (w_vtime (snd (wfq_history demo_wfq [Ranked (sample_task ''x'' 1 0 9), Ranked (sample_task ''y'' 2 0 9)])))"
proof
  show "map (\<lambda>x. k_score (snd x)) (fst (wfq_history demo_wfq [Ranked (sample_task ''x'' 1 0 9), Ranked (sample_task ''y'' 2 0 9)])) = [Fin 25, Fin 50]"
    by code_simp
  show "fle (w_vtime demo_wfq) (w_vtime (snd (wfq_history demo_wfq [Ranked (sample_task ''x'' 1 0 9), Ranked (sample_task ''y'' 2 0 9)])))"
    using wfq_tags_monotone [OF demo_wfq_inv, of "[Ranked (sample_task ''x'' 1 0 9), Ranked (sample_task ''y'' 2 0 9)]"] by simp
qed

text \<open>
  Weighted fair queuing survives a scheduler restart exactly. Restoring what \<open>State\<close> saved, into any policy and from
  the hash in any order, gives back the virtual clock and every tenant's finish tag, and leaves the weights.
\<close>

theorem wfq_restart_roundtrip:
  assumes "distinct (map fst (w_last p))"
  shows "\<exists>q'. wfq_restore (wfq_state p) q = (None, q') \<and> w_vtime q' = w_vtime p \<and>
    map_of (w_last q') = map_of (w_last p) \<and> w_weights q' = w_weights q \<and> w_default q' = w_default q"
  by (rule wfq_restore_state [OF assms])

theorem wfq_restart_roundtrip_witness:
  "\<exists>q'. wfq_restore (wfq_state (demo_wfq\<lparr>w_vtime := Fin 3, w_last := [(''A'', Fin 25)]\<rparr>)) demo_wfq = (None, q') \<and> w_vtime q' = Fin 3"
  using wfq_restart_roundtrip [of "demo_wfq\<lparr>w_vtime := Fin 3, w_last := [(''A'', Fin 25)]\<rparr>" demo_wfq] by auto

text \<open>
  Construction refuses exactly a non-positive default or tenant weight (a default left at zero counts as one), and a policy
  built from weights none of which is NaN satisfies the invariant the ordering theorems need.
\<close>

theorem wfq_new_checks:
  "((\<exists>p. wfq_new ws d = Inr p) \<longleftrightarrow>
      \<not> fle (if feq d (Fin 0) then Fin 1 else d) (Fin 0) \<and> (\<forall>(a, w) \<in> set ws. \<not> fle w (Fin 0))) \<and>
   (\<forall>p. wfq_new ws d = Inr p \<and> d \<noteq> NaN \<and> (\<forall>(a, w) \<in> set ws. w \<noteq> NaN) \<longrightarrow> wfq_inv p)"
proof
  show "(\<exists>p. wfq_new ws d = Inr p) \<longleftrightarrow>
      \<not> fle (if feq d (Fin 0) then Fin 1 else d) (Fin 0) \<and> (\<forall>(a, w) \<in> set ws. \<not> fle w (Fin 0))"
    using check_weights_None [of ws] by (cases "check_weights ws") (auto simp: wfq_new_def Let_def)
  show "\<forall>p. wfq_new ws d = Inr p \<and> d \<noteq> NaN \<and> (\<forall>(a, w) \<in> set ws. w \<noteq> NaN) \<longrightarrow> wfq_inv p"
    using wfq_new_inv by blast
qed

theorem wfq_new_checks_witness:
  "\<exists>p. wfq_new [(''A'', Fin 2)] (Fin 0) = Inr p \<and> wfq_inv p"
  using wfq_new_checks [of "[(''A'', Fin 2)]" "Fin 0"] by (auto simp: feq_def fle_def)

end
