(* ===== verification/BrokerTheorems.thy ===== *)
theory BrokerTheorems
  imports BrokerProps PolicyProps
begin

text \<open>
  What the broker's clients may rely on, over any Redis that keeps its documentation: admission under every fate of the request,
  the fence, what a dispatch takes and leaves, completion, the retry budget, saved state, reset, and the lease.
\<close>

section \<open>Every reachable state\<close>

lemma reach_winv:
  assumes "redis call view" "keys_ok (b_keys b)" "reach call view b w H"
  shows "winv (k_worker_group (b_keys b)) (b_max_len b) (world_of (b_keys b) view (n_db w) H)"
  using queue_store.reach_inv [OF queue_storeI [OF assms(1,2)] assms(3) refl] by blast

lemma reach_typed:
  assumes "redis call view" "keys_ok (b_keys b)" "reach call view b w H"
  shows "typed (b_keys b) (view (n_db w))"
  using queue_store.reach_inv [OF queue_storeI [OF assms(1,2)] assms(3) refl] by blast

lemma reach_ids:
  assumes "redis call view" "keys_ok (b_keys b)" "reach call view b w H"
  shows "inv_ids (queue_at view b w)"
  using reach_winv [OF assms] by (simp add: winv_def world_of_def)

section \<open>Admission\<close>

text \<open>
  C8: a task is admitted at most once, whatever the network does. The admission request may be lost, answered late or
  resent any number of times: the queue changes as if it had run once (not at all, if no copy arrived), and only an
  answer to the first copy can say that the task is new. An epoch the fence has passed is refused, with no change.
\<close>

theorem admit_any_fate:
  assumes "redis call view" "keys_ok (b_keys b)" "typed (b_keys b) (view (n_db w))" "task_times_ok t" "k_score k \<noteq> NaN"
  shows "queue_at view b (snd (admit call b t k e w)) =
      (if runs (fate w) = 0 then queue_at view b w else admitted_state e t k (queue_at view b w)) \<and>
    fst (admit call b t k e w) =
      (case fate w of
         Unanswered n \<Rightarrow> Inl (ErrRedis ''admit task'' NoReply)
       | Answered n \<Rightarrow>
           if refused e (queue_at view b w) then Inl ErrFenced
           else Inr (n = 0 \<and> \<not> q_known (t_id t) (queue_at view b w)))"
  using queue_store.admit_request [OF queue_storeI [OF assms(1,2)] refl assms(3-5)] by blast

theorem admit_any_fate_witness:
  "fst (admit mem_call demo_broker (demo_task ''b'' 2000) (fifo_rank (demo_task ''b'' 2000)) 7 (demo1\<lparr>n_faults := [Answered 3]\<rparr>)) = Inr False"
proof -
  have "fst (admit mem_call demo_broker (demo_task ''b'' 2000) (fifo_rank (demo_task ''b'' 2000)) 7 (demo1\<lparr>n_faults := [Answered 3]\<rparr>)) =
      (if refused 7 (queue_at mem_view demo_broker demo1) then Inl ErrFenced else Inr False)"
    using admit_any_fate [OF demo_redis demo_keys, of "demo1\<lparr>n_faults := [Answered 3]\<rparr>" "demo_task ''b'' 2000" "fifo_rank (demo_task ''b'' 2000)" 7]
      demo_typed(2)
    by (simp add: next_fault_def demo_task_times demo_score)
  moreover have "\<not> refused 7 (queue_at mem_view demo_broker demo1)"
    by (simp add: demo1_fence refused_def)
  ultimately show ?thesis by simp
qed

text \<open>
  C5: a superseded scheduler can do nothing. With an epoch below the fence an admission, a dispatch or a saved policy
  state leaves the queue as it was, whatever happens to the request, and the caller is told that it was fenced
  or gets no answer.
\<close>

theorem stale_epoch_powerless:
  assumes "redis call view" "keys_ok (b_keys b)" "typed (b_keys b) (view (n_db w))" "refused e (queue_at view b w)"
    and "task_times_ok t" "k_score k \<noteq> NaN" "st \<noteq> []"
  shows "queue_at view b (snd (admit call b t k e w)) = queue_at view b w \<and>
    fst (admit call b t k e w) \<in> {Inl ErrFenced, Inl (ErrRedis ''admit task'' NoReply)} \<and>
    queue_at view b (snd (dispatch call b mx cap now e w)) = queue_at view b w \<and>
    fst (dispatch call b mx cap now e w) \<in> {Inl ErrFenced, Inl (ErrRedis ''dispatch'' NoReply)} \<and>
    queue_at view b (snd (save_scheduler_state call b st e w)) = queue_at view b w \<and>
    fst (save_scheduler_state call b st e w) \<in> {Inl ErrFenced, Inl (ErrRedis ''save scheduler state'' NoReply)}"
proof -
  note qs = queue_storeI [OF assms(1,2)]
  have "queue_at view b (snd (admit call b t k e w)) = queue_at view b w"
    "fst (admit call b t k e w) \<in> {Inl ErrFenced, Inl (ErrRedis ''admit task'' NoReply)}"
    using queue_store.admit_request [OF qs refl assms(3,5,6), of e] assms(4) by (auto simp: admitted_state_def split: delivery.splits)
  then show ?thesis
    using queue_store.stale_dispatch [OF qs refl assms(3,4), of mx cap now]
      queue_store.stale_save [OF qs refl assms(7,3,4)] by blast
qed

theorem stale_epoch_powerless_witness:
  "queue_at mem_view demo_broker (snd (dispatch mem_call demo_broker 1 10 (from_unix_milli 5000) 6 demo1)) = queue_at mem_view demo_broker demo1"
proof -
  have "refused 6 (queue_at mem_view demo_broker demo1)"
    by (simp add: demo1_fence refused_def lua_number_exact)
  from stale_epoch_powerless [OF demo_redis demo_keys demo_typed(2) this, of "demo_task ''b'' 2000" "fifo_rank (demo_task ''b'' 2000)" "[(''x'', TNum 1)]"]
  show ?thesis by (simp add: demo_task_times demo_score)
qed



section \<open>Dispatch\<close>

lemma raised_simps [simp]:
  "q_payloads (raised e q) = q_payloads q" "q_pending (raised e q) = q_pending q" "q_done (raised e q) = q_done q"
  "q_exec (raised e q) = q_exec q" "q_inflight (raised e q) = q_inflight q" "q_sched (raised e q) = q_sched q"
  by (simp_all add: raised_def)

text \<open>A returned task as the script's reply lists it.\<close>

definition as_triple :: "dispatched \<Rightarrow> triple" where
  "as_triple d = (k_member (fst d), k_score (fst d), TTask (snd d))"

lemma parse_dispatched_tasks:
  "\<forall>x \<in> set ts. \<exists>t. snd (snd x) = TTask t \<Longrightarrow> \<exists>ds. parse_dispatched ts = Inr ds \<and> ts = map as_triple ds"
proof (induction ts rule: parse_dispatched.induct)
  case (2 m f p ts)
  then obtain t where t: "p = TTask t"
    by auto
  obtain ds where "parse_dispatched ts = Inr ds" "ts = map as_triple ds"
    using "2.IH" [of t] "2.prems" t by auto
  then show ?case
    using t by (intro exI [of _ "(\<lparr>k_score = f, k_member = m\<rparr>, t) # ds"]) (simp add: as_triple_def)
qed simp

lemma q_dispatch_payloads:
  "q_dispatch cap now ml e n q ts q' \<Longrightarrow>
     q_payloads q' = q_payloads q \<and>
     (\<forall>x \<in> set ts. \<exists>i. after_first (CHR ''|'') (fst x) = Some i \<and> q_payloads q i = Some (snd (snd x)))"
proof (induction rule: q_dispatch.induct)
  case (pop cap q m f now ml e ts q1 n out q2)
  then show ?case using q_launch_out [OF pop(3)] by fastforce
qed simp_all

text \<open>
  C13: the dispatch script implements the abstract dispatch. In every reachable state an answered request of an epoch that
  passes the fence succeeds: every payload it takes out parses, and the tasks returned are those the abstract
  queue takes, which removes the least pending member as long as the cap allows.
\<close>

theorem dispatch_refines:
  assumes "redis call view" "keys_ok (b_keys b)" "reach call view b w H" "fate w = Answered 0" "\<not> refused e (queue_at view b w)"
  shows "\<exists>ds. fst (dispatch call b mx cap now e w) = Inr ds \<and>
    q_dispatch cap (TNum (unix_milli now)) (b_max_len b) (TNum e) (nat mx) (raised e (queue_at view b w))
      (map as_triple ds) (queue_at view b (snd (dispatch call b mx cap now e w)))"
proof -
  obtain ts where ts: "q_dispatch cap (TNum (unix_milli now)) (b_max_len b) (TNum e) (nat mx) (raised e (queue_at view b w)) ts
      (queue_at view b (snd (dispatch call b mx cap now e w)))" "fst (dispatch call b mx cap now e w) = parse_dispatched ts"
    using queue_store.dispatch_request [OF queue_storeI [OF assms(1,2)] refl reach_typed [OF assms(1-3)] assms(4,5)] by blast
  have "\<exists>t. snd (snd x) = TTask t" if "x \<in> set ts" for x
  proof -
    obtain i where "q_payloads (queue_at view b w) i = Some (snd (snd x))"
      using q_dispatch_payloads [OF ts(1)] \<open>x \<in> set ts\<close> by auto
    then show ?thesis
      using inv_idsD(6) [OF reach_ids [OF assms(1-3)]] by blast
  qed
  then have "\<forall>x \<in> set ts. \<exists>t. snd (snd x) = TTask t"
    by blast
  from parse_dispatched_tasks [OF this] show ?thesis using ts by auto
qed

lemma demo1_dispatch: "fate demo1 = Answered 0" "\<not> refused 7 (queue_at mem_view demo_broker demo1)"
  by (simp add: demo1_val demo_mem_def next_fault_def) (simp add: refused_def demo1_fence)

theorem dispatch_refines_witness:
  "\<exists>ds q'. q_dispatch 10 (TNum (unix_milli (from_unix_milli 5000))) (b_max_len demo_broker) (TNum 7) (nat 1)
     (raised 7 (queue_at mem_view demo_broker demo1)) (map as_triple ds) q'"
  using dispatch_refines [OF demo_redis demo_keys demo1_reach demo1_dispatch, of 1 10 "from_unix_milli 5000"] by blast

text \<open>
  C7: what a dispatch takes. In every reachable state the tasks returned come in the order of Redis (least score, then
  least member), each was pending with that score and carries its own stored payload, none is pending any more, no
  task left pending comes before one taken, and the in-flight count grows by their number.
\<close>

theorem dispatch_takes_least:
  assumes "redis call view" "keys_ok (b_keys b)" "reach call view b w H" "fate w = Answered 0" "\<not> refused e (queue_at view b w)"
  shows "\<exists>ds w'. dispatch call b mx cap now e w = (Inr ds, w') \<and> length ds \<le> nat mx \<and>
    sorted_wrt (\<lambda>x y. no_later (slot (as_triple x)) (slot (as_triple y))) ds \<and>
    (\<forall>(k, t) \<in> set ds. q_pending (queue_at view b w) (k_member k) = Some (k_score k) \<and>
       after_first (CHR ''|'') (k_member k) = Some (t_id t) \<and> q_payloads (queue_at view b w) (t_id t) = Some (TTask t) \<and>
       q_pending (queue_at view b w') (k_member k) = None) \<and>
    (\<forall>m f. q_pending (queue_at view b w') m = Some f \<longrightarrow> (\<forall>x \<in> set ds. no_later (slot (as_triple x)) (m, f))) \<and>
    q_inflight (queue_at view b w') = q_inflight (queue_at view b w) + int (length ds)"
proof -
  let ?q = "queue_at view b w" and ?w = "snd (dispatch call b mx cap now e w)"
  obtain ds where ds: "fst (dispatch call b mx cap now e w) = Inr ds"
    "q_dispatch cap (TNum (unix_milli now)) (b_max_len b) (TNum e) (nat mx) (raised e ?q) (map as_triple ds) (queue_at view b ?w)"
    using dispatch_refines [OF assms] by blast
  note o = q_dispatch_order [OF ds(2)] and p = q_dispatch_payloads [OF ds(2)] and c = q_dispatch_count [OF ds(2)]
  have own: "q_pending ?q (k_member k) = Some (k_score k) \<and> after_first (CHR ''|'') (k_member k) = Some (t_id t) \<and>
      q_payloads ?q (t_id t) = Some (TTask t) \<and> q_pending (queue_at view b ?w) (k_member k) = None"
    if "(k, t) \<in> set ds" for k t
  proof -
    have m: "as_triple (k, t) \<in> set (map as_triple ds)"
      using that by simp
    obtain i where i: "after_first (CHR ''|'') (k_member k) = Some i" "q_payloads ?q i = Some (TTask t)"
      using p m by (fastforce simp: as_triple_def)
    then have "t_id t = i"
      using inv_idsD(6) [OF reach_ids [OF assms(1-3)]] by fastforce
    moreover have "q_pending ?q (k_member k) = Some (k_score k)"
      using o m by (fastforce simp: as_triple_def)
    moreover have "q_pending (queue_at view b ?w) (k_member k) = None"
      using o m by (cases "q_pending (queue_at view b ?w) (k_member k)") (fastforce simp: as_triple_def)+
    ultimately show ?thesis using i by simp
  qed
  have "sorted_wrt (\<lambda>x y. no_later (slot (as_triple x)) (slot (as_triple y))) ds"
    using o by (simp add: sorted_wrt_map)
  moreover have "\<forall>m f. q_pending (queue_at view b ?w) m = Some f \<longrightarrow> (\<forall>x \<in> set ds. no_later (slot (as_triple x)) (m, f))"
    using o by simp
  ultimately show ?thesis
    using own c ds(1) by (intro exI [of _ ds] exI [of _ ?w]) (auto simp: prod_eq_iff)
qed

theorem dispatch_takes_least_witness:
  "\<exists>ds w'. dispatch mem_call demo_broker 1 10 (from_unix_milli 5000) 7 demo1 = (Inr ds, w') \<and> length ds \<le> 1"
  using dispatch_takes_least [OF demo_redis demo_keys demo1_reach demo1_dispatch, of 1 10 "from_unix_milli 5000"] by auto

lemma full_reached: "q_full cap q \<Longrightarrow> cap \<le> 2 ^ 53 \<Longrightarrow> cap \<le> q_inflight q"
  using lua_number_mono [of "q_inflight q" "cap - 1"] lua_number_exact [of "cap - 1"] by (force simp: q_full_def)

text \<open>
  C6: dispatch keeps the in-flight cap and leaves no room unused. In every reachable state a dispatch with a positive cap
  never takes the in-flight count above the larger of \<open>cap\<close> and what it was, and it returns fewer tasks than asked for only
  when the cap is reached or nothing is pending. The cap is compared in float64: exact to \<open>2 ^ 53\<close>.
\<close>

theorem dispatch_within_cap:
  assumes "redis call view" "keys_ok (b_keys b)" "reach call view b w H" "fate w = Answered 0" "\<not> refused e (queue_at view b w)"
    and "0 < cap" "cap \<le> 2 ^ 53"
  shows "\<exists>ds w'. dispatch call b mx cap now e w = (Inr ds, w') \<and>
    q_inflight (queue_at view b w') \<le> max (q_inflight (queue_at view b w)) cap \<and>
    (length ds < nat mx \<longrightarrow> cap \<le> q_inflight (queue_at view b w') \<or> q_pending (queue_at view b w') = Map.empty)"
proof -
  let ?q = "queue_at view b w" and ?w = "snd (dispatch call b mx cap now e w)"
  obtain ds where ds: "fst (dispatch call b mx cap now e w) = Inr ds"
    "q_dispatch cap (TNum (unix_milli now)) (b_max_len b) (TNum e) (nat mx) (raised e ?q) (map as_triple ds) (queue_at view b ?w)"
    using dispatch_refines [OF assms(1-5)] by blast
  have "all_backed (raised e ?q)"
    using inv_ids_backed [OF reach_ids [OF assms(1-3)]] by (simp add: all_backed_def raised_def)
  note busy = q_dispatch_busy [OF ds(2) this]
  have "cap \<le> q_inflight (queue_at view b ?w)" if "q_full cap (queue_at view b ?w)"
    using full_reached [OF that assms(7)] .
  moreover have "q_inflight (queue_at view b ?w) \<le> max (q_inflight ?q) cap"
    using q_dispatch_cap [OF ds(2) assms(6,7)] by simp
  ultimately show ?thesis
    using busy ds(1) by (intro exI [of _ ds] exI [of _ ?w]) (auto simp: prod_eq_iff)
qed

theorem dispatch_within_cap_witness:
  "\<exists>ds w'. dispatch mem_call demo_broker 5 1 (from_unix_milli 5000) 7 demo1 = (Inr ds, w') \<and>
    q_inflight (queue_at mem_view demo_broker w') \<le> max (q_inflight (queue_at mem_view demo_broker demo1)) 1"
  using dispatch_within_cap [OF demo_redis demo_keys demo1_reach demo1_dispatch, of 1 5 "from_unix_milli 5000"] by auto

section \<open>Completion and retry\<close>

lemma q_ack_same [simp]:
  "q_done (q_ack gn i q) = q_done q" "q_payloads (q_ack gn i q) = q_payloads q" "q_results (q_ack gn i q) = q_results q"
  "q_inflight (q_ack gn i q) = q_inflight q" "q_service (q_ack gn i q) = q_service q" "q_dead (q_ack gn i q) = q_dead q"
  "q_pending (q_ack gn i q) = q_pending q"
  by (simp_all add: q_ack_def split: option.splits)


definition demo_result :: result where
  "demo_result = result_of ''w1'' demo_msg (from_unix_milli 6000) (from_unix_milli 6050)"

lemma demo3_fate: "fate demo3 = Answered 0" "n_faults demo3 = []"
  by (simp_all add: demo3_def demo3_val demo_mem_def next_fault_def)

lemma demo3_done: "q_done (queue_at mem_view demo_broker demo3) ''b'' = None"
  unfolding demo3_def demo3_val snd_conv qabs_def qstate.select_convs by code_simp


lemma retry_any:
  assumes "redis call view" "keys_ok (b_keys b)" "typed (b_keys b) (view (n_db w))" "fate w = Answered 0"
    and "task_times_ok t" "json_time_ok failed_at"
  shows "\<exists>out w'. retry_or_dead_letter call b t budget reason msg failed_at now w = (Inr (out, next_attempt t budget), w') \<and>
    out = (if q_done (queue_at view b w) (t_id t) \<noteq> None then RetryAlreadyTerminal
           else if budget < i64 (t_retry t + 1) then RetryDeadLettered else RetryRedelivered) \<and>
    (out = RetryRedelivered \<longrightarrow> q_done (queue_at view b w') = q_done (queue_at view b w) \<and>
       q_inflight (queue_at view b w') = q_inflight (queue_at view b w) \<and>
       q_payloads (queue_at view b w') (t_id t) = Some (TTask (next_attempt t budget))) \<and>
    (out = RetryDeadLettered \<longrightarrow> q_done (queue_at view b w') (t_id t) \<noteq> None \<and> q_payloads (queue_at view b w') (t_id t) = None \<and>
       q_inflight (queue_at view b w') = q_inflight (queue_at view b w) - 1 \<and>
       appended None [(''record'', TDead \<lparr>d_task = t, d_reason = reason, d_attempts = i64 (t_retry t + 1), d_last_attempt = t_attempt t, d_failed_at = failed_at\<rparr>)]
         (q_dead (queue_at view b w)) (q_dead (queue_at view b w'))) \<and>
    (out = RetryAlreadyTerminal \<longrightarrow> q_done (queue_at view b w') = q_done (queue_at view b w) \<and>
       q_inflight (queue_at view b w') = q_inflight (queue_at view b w) \<and> q_dead (queue_at view b w') = q_dead (queue_at view b w))"
proof -
  let ?w = "snd (retry_or_dead_letter call b t budget reason msg failed_at now w)"
  have n: "t_retry (next_attempt t budget) = i64 (t_retry t + 1)"
    by (simp add: next_attempt_def Let_def)
  obtain k where k: "fst (retry_or_dead_letter call b t budget reason msg failed_at now w) = Inr (retry_outcome_of k, next_attempt t budget)"
    "q_retry (b_max_len b) (t_id t) (TTask (next_attempt t budget))
      (TDead \<lparr>d_task = t, d_reason = reason, d_attempts = i64 (t_retry t + 1), d_last_attempt = t_attempt t, d_failed_at = failed_at\<rparr>)
      (budget < i64 (t_retry t + 1)) (TNum (unix_milli now)) (k_worker_group (b_keys b)) msg (queue_at view b w) k (queue_at view b ?w)"
    using queue_store.retry_request [OF queue_storeI [OF assms(1,2)] refl assms(3-6), of budget reason msg now] unfolding n by blast
  have "retry_or_dead_letter call b t budget reason msg failed_at now w = (Inr (retry_outcome_of k, next_attempt t budget), ?w)"
    using k(1) by (simp add: prod_eq_iff)
  then show ?thesis
    using k(2) by (intro exI [of _ "retry_outcome_of k"] exI [of _ ?w])
      (auto simp: q_retry_def retry_outcome_of_def q_retire_def q_redeliver_def bump_def split: if_splits)
qed

text \<open>
  The retry budget. An answered retry of a task that is not terminal delivers it again with its retry number raised
  by one while that stays within the budget; past it the task is dead-lettered: recorded terminal, its payload
  removed, its slot freed, with one record of the last attempt. A terminal task is only acknowledged.
\<close>

theorem retry_within_budget:
  assumes "redis call view" "keys_ok (b_keys b)" "typed (b_keys b) (view (n_db w))" "fate w = Answered 0"
    and "task_times_ok t" "json_time_ok failed_at"
  shows "\<exists>out w'. retry_or_dead_letter call b t budget reason msg failed_at now w = (Inr (out, next_attempt t budget), w') \<and>
    out = (if q_done (queue_at view b w) (t_id t) \<noteq> None then RetryAlreadyTerminal
           else if budget < i64 (t_retry t + 1) then RetryDeadLettered else RetryRedelivered) \<and>
    (out = RetryRedelivered \<longrightarrow> q_done (queue_at view b w') = q_done (queue_at view b w) \<and>
       q_inflight (queue_at view b w') = q_inflight (queue_at view b w) \<and>
       q_payloads (queue_at view b w') (t_id t) = Some (TTask (next_attempt t budget))) \<and>
    (out = RetryDeadLettered \<longrightarrow> q_done (queue_at view b w') (t_id t) \<noteq> None \<and> q_payloads (queue_at view b w') (t_id t) = None \<and>
       q_inflight (queue_at view b w') = q_inflight (queue_at view b w) - 1 \<and>
       appended None [(''record'', TDead \<lparr>d_task = t, d_reason = reason, d_attempts = i64 (t_retry t + 1), d_last_attempt = t_attempt t, d_failed_at = failed_at\<rparr>)]
         (q_dead (queue_at view b w)) (q_dead (queue_at view b w'))) \<and>
    (out = RetryAlreadyTerminal \<longrightarrow> q_done (queue_at view b w') = q_done (queue_at view b w) \<and>
       q_inflight (queue_at view b w') = q_inflight (queue_at view b w) \<and> q_dead (queue_at view b w') = q_dead (queue_at view b w))"
  by (rule retry_any [OF assms])

theorem retry_within_budget_witness:
  "\<exists>w'. retry_or_dead_letter mem_call demo_broker (demo_task ''b'' 2000) 0 ''boom'' (Some (1, 0)) (from_unix_milli 6000) (from_unix_milli 6000) demo3
     = (Inr (RetryDeadLettered, next_attempt (demo_task ''b'' 2000) 0), w') \<and> q_done (queue_at mem_view demo_broker w') ''b'' \<noteq> None"
proof -
  have "json_time_ok (from_unix_milli 6000)"
    by code_simp
  moreover have "i64 (t_retry (demo_task ''b'' 2000) + 1) = 1" "t_id (demo_task ''b'' 2000) = ''b''"
    by (simp_all add: demo_task_def i64_id in_i64_def)
  ultimately show ?thesis
    using retry_within_budget [OF demo_redis demo_keys demo_typed(4) demo3_fate(1) demo_task_times [of "''b''"],
        of "from_unix_milli 6000" 0 "''boom''" "Some (1, 0)" "from_unix_milli 6000"] demo3_done by auto
qed

text \<open>
  A task every attempt of which fails: each failure is reported with the task as its last delivery carried it. The list
  has, for each failure, the delivery acknowledged, the time of the failure and the clock.
\<close>

fun keeps_failing ::
  "(cmd \<Rightarrow> 's \<Rightarrow> reply \<times> 's) \<Rightarrow> broker \<Rightarrow> int \<Rightarrow> string \<Rightarrow> task \<Rightarrow> (sid option \<times> time \<times> time) list \<Rightarrow> 's net \<Rightarrow>
   retry_outcome list \<times> 's net" where
  "keeps_failing call b budget reason t [] w = ([], w)"
| "keeps_failing call b budget reason t ((msg, failed_at, now) # xs) w =
     (case retry_or_dead_letter call b t budget reason msg failed_at now w of
        (Inl _, w') \<Rightarrow> ([], w')
      | (Inr (out, next), w') \<Rightarrow> (case keeps_failing call b budget reason next xs w' of (outs, w'') \<Rightarrow> (out # outs, w'')))"

definition attempts_left :: "int \<Rightarrow> task \<Rightarrow> nat" where
  "attempts_left budget t = nat (budget - t_retry t)"

lemma next_attempt_simps [simp]:
  "t_id (next_attempt t budget) = t_id t" "task_times_ok (next_attempt t budget) = task_times_ok t"
  "t_retry (next_attempt t budget) = i64 (t_retry t + 1)"
  by (simp_all add: next_attempt_def Let_def task_times_ok_def)

lemma retry_next:
  assumes "redis call view" "keys_ok (b_keys b)" "typed (b_keys b) (view (n_db w))" "n_faults w = []" "task_times_ok t" "json_time_ok f"
  obtains out w' where "retry_or_dead_letter call b t budget reason msg f now w = (Inr (out, next_attempt t budget), w')"
    "typed (b_keys b) (view (n_db w'))" "n_faults w' = []"
    "out = (if q_done (queue_at view b w) (t_id t) \<noteq> None then RetryAlreadyTerminal
       else if budget < i64 (t_retry t + 1) then RetryDeadLettered else RetryRedelivered)"
    "q_done (queue_at view b w') (t_id t) = None \<longleftrightarrow> out = RetryRedelivered"
proof -
  let ?r = "retry_or_dead_letter call b t budget reason msg f now w"
  have fate: "fate w = Answered 0" "snd (next_fault (n_faults w)) = []"
    using assms(4) by (simp_all add: next_fault_def)
  have st: "typed (b_keys b) (view (n_db (snd ?r)))" "n_faults (snd ?r) = []"
    using queue_store.retry_request [OF queue_storeI [OF assms(1,2)] refl assms(3) fate(1) assms(5,6), of budget reason msg now] fate(2)
    by auto
  show ?thesis
    using retry_any [OF assms(1-3) fate(1) assms(5,6), of budget reason msg now] st
    by (auto intro!: that split: if_splits)
qed

lemma take_more_replicate [simp]: "take n (z # replicate n z) = replicate n z"
  unfolding replicate_Suc [symmetric] take_replicate by simp

lemma take_one_more: "take (n - k) (y # z # replicate n z) = take (n - k) (y # replicate n z)"
proof (cases "n - k")
  case (Suc j)
  then have "min j n = j" "min j (Suc n) = j"
    by simp_all
  then show ?thesis
    unfolding replicate_Suc [symmetric] Suc take_Suc_Cons take_replicate by simp
qed simp

lemma terminal_stays:
  "\<lbrakk>redis call view; keys_ok (b_keys b); typed (b_keys b) (view (n_db w)); n_faults w = []; task_times_ok t;
    \<forall>(msg, f, now) \<in> set xs. json_time_ok f; q_done (queue_at view b w) (t_id t) \<noteq> None\<rbrakk>
   \<Longrightarrow> fst (keeps_failing call b budget reason t xs w) = replicate (length xs) RetryAlreadyTerminal"
proof (induction xs arbitrary: t w)
  case (Cons x xs)
  obtain msg f now where x: "x = (msg, f, now)"
    by (cases x)
  have f: "json_time_ok f"
    using Cons.prems(6) x by simp
  obtain out w' where r: "retry_or_dead_letter call b t budget reason msg f now w = (Inr (out, next_attempt t budget), w')"
    "typed (b_keys b) (view (n_db w'))" "n_faults w' = []" "out = RetryAlreadyTerminal" "q_done (queue_at view b w') (t_id t) \<noteq> None"
    using retry_next [OF Cons.prems(1-5) f, of budget reason msg now] Cons.prems(7) by (metis retry_outcome.distinct(1))
  show ?case
    using Cons.IH [OF Cons.prems(1,2) r(2,3), of "next_attempt t budget"] Cons.prems(5,6) r(1,4,5) x by (auto split: prod.splits)
qed simp

text \<open>
  C9: a task that always fails is tried again exactly as often as its budget has room for, then dead-lettered exactly once,
  and every later report finds it terminal.
\<close>

theorem failing_task_dead_lettered:
  assumes "redis call view" "keys_ok (b_keys b)" "typed (b_keys b) (view (n_db w))" "n_faults w = []" "task_times_ok t"
    and "\<forall>(msg, f, now) \<in> set xs. json_time_ok f" "q_done (queue_at view b w) (t_id t) = None"
    and "0 \<le> t_retry t" "t_retry t \<le> budget" "budget < 2 ^ 63 - 1"
  shows "fst (keeps_failing call b budget reason t xs w) =
    take (length xs) (replicate (attempts_left budget t) RetryRedelivered @ RetryDeadLettered # replicate (length xs) RetryAlreadyTerminal)"
  using assms(3-10)
proof (induction xs arbitrary: t w)
  case (Cons x xs)
  obtain msg f now where x: "x = (msg, f, now)"
    by (cases x)
  have f: "json_time_ok f"
    using Cons.prems(4) x by simp
  have i: "i64 (t_retry t + 1) = t_retry t + 1"
    using Cons.prems(6-8) by (intro i64_id) (simp add: in_i64_def)
  obtain out w' where r: "retry_or_dead_letter call b t budget reason msg f now w = (Inr (out, next_attempt t budget), w')"
    "typed (b_keys b) (view (n_db w'))" "n_faults w' = []"
    "out = (if budget < t_retry t + 1 then RetryDeadLettered else RetryRedelivered)"
    "q_done (queue_at view b w') (t_id t) = None \<longleftrightarrow> out = RetryRedelivered"
    using retry_next [OF assms(1,2) Cons.prems(1-3) f, of budget reason msg now] Cons.prems(5) unfolding i by metis
  show ?case
  proof (cases "budget < t_retry t + 1")
    case True
    have "fst (keeps_failing call b budget reason (next_attempt t budget) xs w') = replicate (length xs) RetryAlreadyTerminal"
      using terminal_stays [OF assms(1,2) r(2,3), of "next_attempt t budget" xs] Cons.prems(3,4) r(4,5) True by simp
    moreover have "attempts_left budget t = 0"
      using True by (simp add: attempts_left_def)
    ultimately show ?thesis
      using r(1,4) True x by (auto split: prod.splits)
  next
    case False
    then have left: "attempts_left budget t = Suc (attempts_left budget (next_attempt t budget))"
      by (simp add: attempts_left_def i)
    have "fst (keeps_failing call b budget reason (next_attempt t budget) xs w') =
        take (length xs) (replicate (attempts_left budget (next_attempt t budget)) RetryRedelivered @ RetryDeadLettered # replicate (length xs) RetryAlreadyTerminal)"
      using Cons.IH [OF r(2,3), of "next_attempt t budget"] Cons.prems False r(4,5) i by simp
    then show ?thesis
      using r(1,4) False left x by (auto simp: take_one_more split: prod.splits)
  qed
qed simp

theorem failing_task_dead_lettered_witness:
  "fst (keeps_failing mem_call demo_broker 1 ''boom'' (demo_task ''b'' 2000) (replicate 3 (Some (1, 0), from_unix_milli 6000, from_unix_milli 6000)) demo3)
     = [RetryRedelivered, RetryDeadLettered, RetryAlreadyTerminal]"
proof -
  have "json_time_ok (from_unix_milli 6000)"
    by code_simp
  moreover have "t_retry (demo_task ''b'' 2000) = 0" "t_id (demo_task ''b'' 2000) = ''b''"
    by (simp_all add: demo_task_def)
  ultimately show ?thesis
    using failing_task_dead_lettered [OF demo_redis demo_keys demo_typed(4) demo3_fate(2) demo_task_times [of "''b''"],
        of "replicate 3 (Some (1, 0), from_unix_milli 6000, from_unix_milli 6000)" 1 "''boom''"] demo3_done
    by (simp add: attempts_left_def numeral_3_eq_3)
qed

section \<open>Saved policy state, and reset\<close>

text \<open>The order in which a map is listed does not matter to \<open>Restore\<close>: it sorts the keys.\<close>

lemma wfq_restore_order:
  assumes "distinct (map fst xs)" "distinct (map fst ys)" "map_of xs = map_of ys"
  shows "wfq_restore xs p = wfq_restore ys p"
proof -
  have "set xs = set ys"
    using assms by (simp add: map_of_inject_set)
  then have "mset xs = mset ys"
    using assms by (simp add: set_eq_iff_mset_eq_distinct distinct_map)
  moreover have "inj_on fst (set (sort_key fst ys))"
    using assms(2) by (simp add: distinct_map)
  ultimately have "sort_key fst xs = sort_key fst ys"
    using sort_key_inj_key_eq [of xs "sort_key fst ys" fst] assms(1) by (simp add: distinct_map)
  then show ?thesis
    by (simp add: wfq_restore_def)
qed

lemma load_request:
  assumes "redis call view" "typed (b_keys b) (view (n_db w))" "fate w = Answered 0"
  shows "\<exists>xs w'. load_scheduler_state call b w = (Inr xs, w') \<and> distinct (map fst xs) \<and> map_of xs = q_sched (queue_at view b w) \<and>
    view (n_db w') = view (n_db w)"
proof -
  let ?k = "k_name (b_keys b) SchedState" and ?c = "HGETALL (k_name (b_keys b) SchedState)"
  have "is_hash (view (n_db w)) ?k"
    using assms(2) by (simp add: typed_def)
  then obtain xs where d: "fst (call ?c (n_db w)) = RFields xs" "distinct (map fst xs)" "map_of xs = hash_at (view (n_db w)) ?k"
    "view (after call ?c (n_db w)) = view (n_db w)"
    using redis.doc_after [OF assms(1), of ?c "n_db w"] by auto
  have r: "rcall call ?c (n_db w) = (Inr (RFields xs), after call ?c (n_db w))"
    using d(1) by (intro rcall_reply_fst [of call ?c "n_db w" "RFields xs"]) simp_all
  have s: "fst (send (rcall call ?c) w) = Inr (RFields xs)" "n_db (snd (send (rcall call ?c) w)) = after call ?c (n_db w)"
    using assms(3) r by (simp_all add: send_fst send_runs)
  have "fst (load_scheduler_state call b w) = Inr xs" "n_db (snd (load_scheduler_state call b w)) = after call ?c (n_db w)"
    using s unfolding load_scheduler_state_def get_all_def key_def by (auto split: prod.splits)
  then show ?thesis
    using d by (intro exI [of _ xs] exI [of _ "snd (load_scheduler_state call b w)"]) (simp add: prod_eq_iff qabs_def)
qed

text \<open>
  C31: weighted fair queuing survives a change of leader. What one scheduler saved through Redis, the next one loads and
  restores, in whatever order the hash is listed: the same virtual clock and finish tags, under its own weights.
\<close>

theorem state_survives_failover:
  assumes "redis call view" "keys_ok (b_keys b)" "typed (b_keys b) (view (n_db w))" "n_faults w = []"
    and "\<not> refused e (queue_at view b w)" "distinct (map fst (w_last p))"
  shows "\<exists>w1 st w2 q'. save_scheduler_state call b (wfq_state p) e w = (Inr (), w1) \<and>
    load_scheduler_state call b w1 = (Inr st, w2) \<and> wfq_restore st q = (None, q') \<and>
    w_vtime q' = w_vtime p \<and> map_of (w_last q') = map_of (w_last p) \<and> w_weights q' = w_weights q \<and> w_default q' = w_default q"
proof -
  have fate: "fate w = Answered 0" "snd (next_fault (n_faults w)) = []" and ne: "wfq_state p \<noteq> []"
    using assms(4) by (simp_all add: next_fault_def wfq_state_def)
  let ?w = "snd (save_scheduler_state call b (wfq_state p) e w)"
  have s: "save_scheduler_state call b (wfq_state p) e w = (Inr (), ?w)" "typed (b_keys b) (view (n_db ?w))" "n_faults ?w = []"
    "q_sched (queue_at view b ?w) = map_of (rev (wfq_state p))"
    using queue_store.save_request [OF queue_storeI [OF assms(1,2)] refl ne assms(3) fate(1) assms(5)] fate(2) ne
    by (simp_all add: prod_eq_iff q_save_def)
  note d = wfq_state_distinct [OF assms(6)]
  have f: "fate ?w = Answered 0"
    by (simp add: s(3) next_fault_def)
  obtain xs w2 where l: "load_scheduler_state call b ?w = (Inr xs, w2)" "distinct (map fst xs)" "map_of xs = map_of (rev (wfq_state p))"
    using load_request [OF assms(1) s(2) f] s(4) by auto
  have "map_of xs = map_of (wfq_state p)"
    using l(3) d map_of_inject_set [of "rev (wfq_state p)" "wfq_state p"] by (simp add: rev_map [symmetric])
  then have "wfq_restore xs q = wfq_restore (wfq_state p) q"
    by (rule wfq_restore_order [OF l(2) d])
  then show ?thesis
    using wfq_restore_state [OF assms(6), of q] s(1) l(1) by metis
qed

theorem state_survives_failover_witness:
  "\<exists>w1 st w2 q'. save_scheduler_state mem_call demo_broker (wfq_state (demo_wfq\<lparr>w_vtime := Fin 3, w_last := [(''A'', Fin 25)]\<rparr>)) 7 demo3 = (Inr (), w1) \<and>
    load_scheduler_state mem_call demo_broker w1 = (Inr st, w2) \<and> wfq_restore st demo_wfq = (None, q') \<and> w_vtime q' = Fin 3"
proof -
  have "\<not> refused 7 (queue_at mem_view demo_broker demo3)"
    unfolding demo3_def demo3_val snd_conv qabs_def refused_def qstate.select_convs by code_simp
  from state_survives_failover [OF demo_redis demo_keys demo_typed(4) demo3_fate(2) this,
      of "demo_wfq\<lparr>w_vtime := Fin 3, w_last := [(''A'', Fin 25)]\<rparr>" demo_wfq]
  show ?thesis by auto
qed

text \<open>
  A reset empties the namespace but never opens the fence. After an answered reset nothing is pending, stored, terminal
  or counted, while the fence and the epoch counter keep their values, so an epoch refused before is refused after.
\<close>

theorem reset_keeps_fence:
  assumes "redis call view" "keys_ok (b_keys b)" "typed (b_keys b) (view (n_db w))" "fate w = Answered 0"
  shows "\<exists>w'. reset_ns call b w = (Inr (), w') \<and> queue_at view b w' = q_reset (queue_at view b w) \<and>
    q_fence (queue_at view b w') = q_fence (queue_at view b w) \<and> q_epoch (queue_at view b w') = q_epoch (queue_at view b w) \<and>
    refused e (queue_at view b w') = refused e (queue_at view b w) \<and>
    q_payloads (queue_at view b w') = Map.empty \<and> q_pending (queue_at view b w') = Map.empty \<and> q_inflight (queue_at view b w') = 0"
  using queue_store.reset_request [OF queue_storeI [OF assms(1,2)] refl assms(3,4)]
  by (intro exI [of _ "snd (reset_ns call b w)"]) (simp add: prod_eq_iff q_reset_def refused_def)

theorem reset_keeps_fence_witness:
  "\<exists>w'. reset_ns mem_call demo_broker demo3 = (Inr (), w') \<and> q_payloads (queue_at mem_view demo_broker w') = Map.empty \<and>
    refused 6 (queue_at mem_view demo_broker w') = refused 6 (queue_at mem_view demo_broker demo3)"
  using reset_keeps_fence [OF demo_redis demo_keys demo_typed(4) demo3_fate(1), of 6] by blast

section \<open>The lease\<close>

text \<open>The state one acquisition leaves: the lease granted if it was free.\<close>

definition granted :: "string \<Rightarrow> qstate \<Rightarrow> qstate" where
  "granted owner q =
     (if q_holder q \<noteq> None then q
      else q\<lparr>q_epoch := q_epoch q + 1, q_holder := Some (TStr (grant_value owner (q_epoch q + 1)))\<rparr>)"

lemma granted_idem [simp]: "granted owner (granted owner q) = granted owner q" "q_holder (granted owner q) \<noteq> None"
  by (simp_all add: granted_def)

lemma acquire_one:
  assumes "redis call view" "keys_ok ks" "typed ks (view s)" "0 < ttl"
  shows "typed ks (view (snd (acquire_script call (k_name ks Leader) (k_name ks LeaderEpoch) owner ttl s))) \<and>
    qabs ks (view (snd (acquire_script call (k_name ks Leader) (k_name ks LeaderEpoch) owner ttl s))) = granted owner (qabs ks (view s)) \<and>
    fst (acquire_script call (k_name ks Leader) (k_name ks LeaderEpoch) owner ttl s) =
      Inr (if q_holder (qabs ks (view s)) \<noteq> None then (0, [])
        else (q_epoch (qabs ks (view s)) + 1, grant_value owner (q_epoch (qabs ks (view s)) + 1)))"
  using queue_store.acquire_run [OF queue_storeI [OF assms(1,2)] assms(3), of owner ttl] assms(4) by (auto simp: granted_def)


definition demo_lease :: lease where
  "demo_lease = \<lparr>ls_holder = k_name (b_keys demo_broker) Leader, ls_counter = k_name (b_keys demo_broker) LeaderEpoch, ls_owner = ''s1'',
     ls_ttl = 5 * second, ls_renew = 1 * second, ls_retry = 1 * second, ls_wait = 0, ls_wait_timeout = 0, ls_value = [], ls_epoch = no_epoch\<rparr>"

lemma demo_lease_simps: "lease_on (b_keys demo_broker) demo_lease" "0 < dur_millis (ls_ttl demo_lease)" "ls_wait demo_lease \<le> 0"
  by (simp_all add: demo_lease_def lease_on_def) code_simp

lemma demo3_lease: "q_epoch (queue_at mem_view demo_broker demo3) = 0" "q_holder (queue_at mem_view demo_broker demo3) = None"
  unfolding demo3_def demo3_val snd_conv qabs_def qstate.select_convs by code_simp+


definition released :: "string \<Rightarrow> qstate \<Rightarrow> qstate" where
  "released v q = (if q_holder q = Some (TStr v) then q\<lparr>q_holder := None\<rparr> else q)"

lemma released_idem: "released v (released v q) = released v q"
  by (simp add: released_def)

text \<open>
  C12: a process renews and releases only its own grant. Whatever happens to the request, a renewal changes nothing in the
  queue and succeeds only while the lease still has this process's value; a release removes the lease in that case
  and changes nothing otherwise.
\<close>

theorem lease_own_grant_only:
  assumes "redis call view" "keys_ok (b_keys b)" "typed (b_keys b) (view (n_db w))" "lease_on (b_keys b) l"
    and "0 < dur_millis (ls_ttl l)" "ls_value l \<noteq> []"
  shows "queue_at view b (snd (snd (renew call l w))) = queue_at view b w \<and>
    fst (renew call l w) = (case fate w of Unanswered n \<Rightarrow> Inl NoReply
      | Answered n \<Rightarrow> Inr (q_holder (queue_at view b w) = Some (TStr (ls_value l)))) \<and>
    queue_at view b (snd (snd (release call l w))) =
      (if runs (fate w) \<noteq> 0 \<and> q_holder (queue_at view b w) = Some (TStr (ls_value l))
       then (queue_at view b w)\<lparr>q_holder := None\<rparr> else queue_at view b w) \<and>
    ls_value (fst (snd (release call l w))) = []"
proof -
  let ?ks = "b_keys b" and ?q = "queue_at view b w" and ?v = "ls_value l"
  let ?m = "renew_script call (k_name ?ks Leader) ?v (dur_millis (ls_ttl l))" and ?r = "release_script call (k_name ?ks Leader) ?v"
  note qs = queue_storeI [OF assms(1,2)]
  have k: "ls_holder l = k_name ?ks Leader"
    using assms(4) by (simp add: lease_on_def)
  have "typed ?ks (view (snd (?m s))) \<and> qabs ?ks (view (snd (?m s))) = id (qabs ?ks (view s))" if "typed ?ks (view s)" for s
    using queue_store.renew_run [OF qs that assms(5), of ?v] that by auto
  note renews = resend_fun [of ?ks view ?m id, OF this assms(3)]
  have reply: "fst (?m (resend n ?m (n_db w))) = Inr (if q_holder ?q = Some (TStr ?v) then 1 else 0)" for n
    using queue_store.renew_run [OF qs conjunct1 [OF renews [of n]] assms(5), of ?v] renews [of n] by auto
  have R: "queue_at view b (snd (snd (renew call l w))) = ?q"
    "fst (renew call l w) = (case fate w of Unanswered n \<Rightarrow> Inl NoReply | Answered n \<Rightarrow> Inr (q_holder ?q = Some (TStr ?v)))"
    using assms(6) send_runs [of ?m w] renews send_fst [of ?m w] reply
    by (cases "send ?m w"; auto simp: renew_def k split: delivery.splits)+
  have "typed ?ks (view (snd (?r s))) \<and> qabs ?ks (view (snd (?r s))) = released ?v (qabs ?ks (view s))" if "typed ?ks (view s)" for s
    using queue_store.release_run [OF qs that, of ?v] by (auto simp: released_def)
  note releases = resend_fun [of ?ks view ?r "released ?v", OF this assms(3)]
  have "queue_at view b (snd (snd (release call l w))) = (if runs (fate w) = 0 then ?q else released ?v ?q)"
    using assms(6) send_runs [of ?r w] releases funpow_idem [of "released ?v", OF released_idem]
    by (cases "send ?r w") (auto simp: release_def k)
  then have "queue_at view b (snd (snd (release call l w))) =
      (if runs (fate w) \<noteq> 0 \<and> q_holder ?q = Some (TStr ?v) then ?q\<lparr>q_holder := None\<rparr> else ?q)"
    by (simp add: released_def)
  moreover have "ls_value (fst (snd (release call l w))) = []"
    using assms(6) by (cases "send ?r w") (simp add: release_def k forget_def)
  ultimately show ?thesis using R by blast
qed

theorem lease_own_grant_only_witness:
  "fst (renew mem_call (demo_lease\<lparr>ls_value := ''s0|1''\<rparr>) demo3) = Inr False"
  using lease_own_grant_only [OF demo_redis demo_keys demo_typed(4), of "demo_lease\<lparr>ls_value := ''s0|1''\<rparr>"] demo_lease_simps demo3_lease demo3_fate
  by (simp add: lease_on_def)

text \<open>What the observer of a campaign hears: leadership gained and lost in turn, beginning with none.\<close>

fun alternates :: "bool \<Rightarrow> (bool \<times> int) list \<Rightarrow> bool" where
  "alternates before [] = True"
| "alternates before ((leads, epoch) # os) = (leads \<noteq> before \<and> (leads \<or> epoch = no_epoch) \<and> alternates leads os)"

fun final_word :: "bool \<Rightarrow> (bool \<times> int) list \<Rightarrow> bool" where
  "final_word before [] = before"
| "final_word before ((leads, epoch) # os) = final_word leads os"

lemma observed_append:
  "alternates before (os @ os') = (alternates before os \<and> alternates (final_word before os) os')"
  "final_word before (os @ os') = final_word (final_word before os) os'"
  by (induction before os rule: alternates.induct) auto

definition told :: "campaign_end option \<Rightarrow> (bool \<times> int) list \<Rightarrow> bool" where
  "told r os \<longleftrightarrow> alternates False os \<and> (r = None \<or> final_word False os = False)"

lemma campaign_round_told: "case campaign_round call c l w of (r, os, _) \<Rightarrow> told r os"
  by (auto simp: campaign_round_def told_def split: prod.splits option.splits sum.splits)

lemma campaign_rounds_told: "case campaign_rounds call cs l w of (r, os, _) \<Rightarrow> told r os"
proof (induction cs arbitrary: l w)
  case (Cons c cs)
  obtain r os l1 w1 where c: "campaign_round call c l w = (r, os, l1, w1)"
    by (metis surj_pair)
  obtain r' os' l2 w2 where cs: "campaign_rounds call cs l1 w1 = (r', os', l2, w2)"
    by (metis surj_pair)
  show ?case
    using campaign_round_told [of call c l w] Cons.IH [of l1 w1] c cs
    by (auto simp: told_def observed_append split: option.splits campaign_end.splits)
qed (simp add: told_def)

text \<open>
  A campaign tells its observer the truth about turns: it begins by saying that this process does not lead, then gains
  and losses alternate, a loss carries no epoch, and when the campaign ends, or waits for its next attempt, the last
  word was a loss.
\<close>

theorem campaign_observed:
  "case campaign call cs l w of (r, os, _) \<Rightarrow> alternates True os \<and> os \<noteq> [] \<and> (r = None \<or> final_word True os = False)"
  using campaign_rounds_told [of call cs l w] by (auto simp: campaign_def told_def split: prod.splits)

end
