(* ===== verification/Progress.thy ===== *)
theory Progress
  imports BrokerTheorems
begin

text \<open>
  The queue is never stuck. From every reachable state, once requests are answered again, dispatches, reads and completions alone lead
  to a state in which every task that was pending, undelivered or in the hands of a worker is terminal.
\<close>

inductive moves ::
  "(cmd \<Rightarrow> 's \<Rightarrow> reply \<times> 's) \<Rightarrow> broker \<Rightarrow> int \<Rightarrow> 's net \<times> exec_message set \<Rightarrow> 's net \<times> exec_message set \<Rightarrow> bool"
  for call :: "cmd \<Rightarrow> 's \<Rightarrow> reply \<times> 's" and b :: broker and epoch :: int where
  dispatches: "moves call b epoch (w, H) (snd (dispatch call b mx cap now epoch w), H)"
| receives: "\<lbrakk>0 < n; read_exec call b c n w = ((ms, err), w')\<rbrakk> \<Longrightarrow> moves call b epoch (w, H) (w', H \<union> set ms)"
| completes: "\<lbrakk>m \<in> H; r_task_id r = t_id (x_task m)\<rbrakk> \<Longrightarrow>
    moves call b epoch (w, H) (snd (complete call b r (Some (x_id m)) now w), H)"

lemma moves_reach: "moves call b epoch x y \<Longrightarrow> reach call view b (fst x) (snd x) \<Longrightarrow> reach call view b (fst y) (snd y)"
  by (induction rule: moves.induct) (auto intro: reach.dispatching reach.execution reach.completion)

lemma moves_many_reach: "(moves call b epoch)\<^sup>*\<^sup>* x y \<Longrightarrow> reach call view b (fst x) (snd x) \<Longrightarrow> reach call view b (fst y) (snd y)"
  by (induction rule: rtranclp_induct) (auto dest: moves_reach)

lemma moves_trans: "moves call b epoch x y \<Longrightarrow> moves call b epoch y z \<Longrightarrow> (moves call b epoch)\<^sup>*\<^sup>* x z"
  by (meson r_into_rtranclp rtranclp.rtrancl_into_rtrancl)

section \<open>A request that is answered\<close>

lemma calm_send:
  "n_faults w = [] \<Longrightarrow> send m w =
     (case fst (m (n_db w)) of Inl e \<Rightarrow> Inl (ErrorReply e) | Inr a \<Rightarrow> Inr a, \<lparr>n_faults = [], n_db = snd (m (n_db w))\<rparr>)"
  by (auto simp: send_def next_fault_def split: prod.splits sum.splits)

lemma calm_fate: "n_faults w = [] \<Longrightarrow> fate w = Answered 0"
  by (simp add: next_fault_def)

lemma calm_dispatch: "n_faults w = [] \<Longrightarrow> n_faults (snd (dispatch call b mx cap now e w)) = []"
  by (auto simp: dispatch_def calm_send split: prod.splits sum.splits)

lemma calm_complete: "n_faults w = [] \<Longrightarrow> n_faults (snd (complete call b r msg now w)) = []"
  by (auto simp: complete_def calm_send Let_def split: prod.splits sum.splits)

lemma parse_all:
  "\<forall>e \<in> set es. entry_task e \<noteq> None \<Longrightarrow>
   snd (parse_exec_messages es) = None \<and>
   (\<forall>e \<in> set es. \<exists>m \<in> set (fst (parse_exec_messages es)). x_id m = se_id e \<and> entry_task e = Some (x_task m))"
proof (induction es)
  case (Cons e es)
  then obtain m where m: "parse_exec_message e = Inr m" "x_id m = se_id e" "entry_task e = Some (x_task m)"
    by (cases "parse_exec_message e") (auto simp: entry_task_def parse_exec_message_def split: sum.splits)
  then show ?case
    using Cons by (auto split: prod.splits)
qed simp

text \<open>What holds along the way: requests are answered, the epoch passes the fence, the worker group exists.\<close>

definition serving :: "('s \<Rightarrow> rdb) \<Rightarrow> broker \<Rightarrow> int \<Rightarrow> 's net \<Rightarrow> bool" where
  "serving view b e w \<longleftrightarrow>
     n_faults w = [] \<and> \<not> refused e (queue_at view b w) \<and> st_groups (q_exec (queue_at view b w)) (k_worker_group (b_keys b)) \<noteq> None"

section \<open>One task\<close>

lemma q_launch_backed:
  assumes "q_launch now ml e m f q ts q'" "after_first (CHR ''|'') m = Some i" "q_payloads q i = Some p"
  shows "\<exists>st'. appended (trim_arg ml) [(''task'', p), (''dispatched_at_ms'', now), (''epoch'', e)] (q_exec q) st' \<and>
    q' = (bump ''dispatched'' 1 (q_unpend m q))\<lparr>q_exec := st', q_inflight := q_inflight q + 1\<rparr>"
  using assms by (cases rule: q_launch.cases) auto

text \<open>A result a worker can report for a task.\<close>

definition plain_result :: "task \<Rightarrow> result" where
  "plain_result t =
     \<lparr>r_task_id = t_id t, r_attempt = t_attempt t, r_tenant = t_tenant t, r_outcome = OutcomeCompleted, r_priority = t_priority t,
      r_submitted = zero_time, r_dispatched = zero_time, r_started = zero_time, r_finished = zero_time, r_deadline = zero_time,
      r_exec_ms = t_exec_ms t, r_actual_ms = t_exec_ms t, r_retry = t_retry t, r_worker = [], r_error = []\<rparr>"

lemma plain_result_json: "marshal_result (plain_result t) = Inr (TResult (plain_result t))"
proof -
  have "json_time_ok zero_time" by code_simp
  then show ?thesis by (simp add: marshal_result_def plain_result_def)
qed

context queue_store
begin

lemma read_all:
  assumes "b_keys b = ks" "reach call view b w H" "serving view b e w"
  obtains n ms w' where "0 < n" "read_exec call b c n w = ((ms, None), w')" "serving view b e w'"
    "queue_at view b w' = (queue_at view b w)\<lparr>q_exec := q_exec (queue_at view b w')\<rparr>"
    "\<And>x g. x \<in> set (st_entries (q_exec (queue_at view b w))) \<Longrightarrow> st_groups (q_exec (queue_at view b w)) (k_worker_group ks) = Some g \<Longrightarrow>
       g_last g < se_id x \<Longrightarrow> \<exists>m \<in> set ms. x_id m = se_id x \<and> entry_task x = Some (x_task m)"
proof -
  let ?q = "queue_at view b w" and ?gn = "k_worker_group ks"
  obtain n where n: "0 < n" "\<And>i. take (nat n) (unread (q_exec ?q) i) = unread (q_exec ?q) i"
  proof
    show "take (nat (int (Suc (length (st_entries (q_exec ?q)))))) (unread (q_exec ?q) i) = unread (q_exec ?q) i" for i
      unfolding nat_int unread_def by (rule take_all) (rule le_SucI [OF length_filter_le])
  qed simp
  let ?c = "XREADGROUP (k_name ks Exec) ?gn c n"
  obtain g where g: "st_groups (q_exec ?q) ?gn = Some g"
    using assms(1,3) by (auto simp: serving_def)
  have t: "typed ks (view (n_db w))"
    using reach_inv [OF assms(2,1)] by blast
  let ?es = "unread (q_exec ?q) (g_last g)"
  have d: "view (after call ?c (n_db w)) = (if ?es = [] then view (n_db w) else put_stream (view (n_db w)) (k_name ks Exec) (deliver (q_exec ?q) ?gn g ?es))"
    "fst (call ?c (n_db w)) = (if ?es = [] then RNil else REntries ?es)"
    using doc_after [of ?c "n_db w"] typedD(14) [OF t] g n by (simp_all add: qabs_sel assms(1) Let_def)
  have r: "fst (rcall call ?c (n_db w)) = Inr (if ?es = [] then RNil else REntries ?es)"
    by (subst rcall_reply_fst [of call ?c "n_db w" "if ?es = [] then RNil else REntries ?es"]) (simp_all add: d(2))
  let ?w = "\<lparr>n_faults = [], n_db = after call ?c (n_db w)\<rparr>"
  have q: "queue_at view b ?w = ?q\<lparr>q_exec := deliver (q_exec ?q) ?gn g ?es\<rparr>"
    by (simp add: d(1) qabs_put(14) [OF names] deliver_def assms(1))
  have read: "read_exec call b c n w = (parse_exec_messages ?es, ?w)"
    using assms(3) r by (simp add: read_exec_def key_def assms(1) calm_send serving_def rcall_snd)
  have tasks: "\<forall>x \<in> set ?es. entry_task x \<noteq> None"
    using reach_inv [OF assms(2,1)] by (auto simp: winv_def world_of_def inv_exec_def unread_def assms(1)) (metis option.distinct(1))?
  note p = parse_all [OF tasks]
  show thesis
  proof (rule that [of n "fst (parse_exec_messages ?es)" ?w])
    show "read_exec call b c n w = ((fst (parse_exec_messages ?es), None), ?w)"
      using read p by (metis prod.collapse)
    show "serving view b e ?w"
      using assms(3) unfolding serving_def q by (simp add: refused_def deliver_def assms(1) g)
    show "queue_at view b ?w = ?q\<lparr>q_exec := q_exec (queue_at view b ?w)\<rparr>"
      unfolding q by simp
    show "\<exists>m \<in> set (fst (parse_exec_messages ?es)). x_id m = se_id x \<and> entry_task x = Some (x_task m)"
      if "x \<in> set (st_entries (q_exec ?q))" "st_groups (q_exec ?q) ?gn = Some g'" "g_last g' < se_id x" for x g'
      using p that g by (auto simp: unread_def)
  qed (rule n(1))
qed

lemma dispatch_one_task:
  assumes "b_keys b = ks" "reach call view b w H" "serving view b e w" "b_max_len b \<le> 0" "q_pending (queue_at view b w) \<noteq> Map.empty"
  obtains w' m i t x g where "moves call b e (w, H) (w', H)" "serving view b e w'"
    "q_pending (queue_at view b w') = (q_pending (queue_at view b w))(m := None)" "q_pending (queue_at view b w) m \<noteq> None"
    "after_first (CHR ''|'') m = Some i" "q_payloads (queue_at view b w) i = Some (TTask t)"
    "q_payloads (queue_at view b w') = q_payloads (queue_at view b w)" "q_done (queue_at view b w') = q_done (queue_at view b w)"
    "x \<in> set (st_entries (q_exec (queue_at view b w')))" "entry_task x = Some t"
    "st_groups (q_exec (queue_at view b w')) (k_worker_group ks) = Some g" "g_last g < se_id x"
proof -
  let ?q = "queue_at view b w" and ?w = "snd (dispatch call b 1 0 now e w)"
  have S: "n_faults w = []" "\<not> refused e ?q"
    using assms(3) by (simp_all add: serving_def)
  have inv: "typed ks (view (n_db w))" "inv_ids ?q" "inv_live (k_worker_group ks) ?q"
    using reach_inv [OF assms(2,1)] assms(4) by (simp_all add: winv_def world_of_def assms(1))
  obtain ts where "q_dispatch 0 (TNum (unix_milli now)) (b_max_len b) (TNum e) (nat 1) (raised e ?q) ts (queue_at view b ?w)"
    using dispatch_request [OF assms(1) inv(1) calm_fate [OF S(1)], of e 0 now 1] S(2) unfolding assms(1) by blast
  then have "q_dispatch 0 (TNum (unix_milli now)) (b_max_len b) (TNum e) (Suc 0) (raised e ?q) ts (queue_at view b ?w)"
    by simp
  then obtain m f ts1 where l: "zmin (q_pending (raised e ?q)) m f"
    "q_launch (TNum (unix_milli now)) (b_max_len b) (TNum e) m f (raised e ?q) ts1 (queue_at view b ?w)"
    using assms(5) by (cases rule: q_dispatch.cases) (auto simp: q_full_def raised_def elim: q_dispatch.cases split: if_splits)
  have m: "q_pending ?q m \<noteq> None"
    using l(1) by (auto simp: zmin_def raised_def split: if_splits)
  then obtain i where i: "after_first (CHR ''|'') m = Some i" "i \<in> dom (q_payloads ?q)"
    using inv(2) by (force simp: inv_ids_def)
  then obtain t where t: "q_payloads ?q i = Some (TTask t)" "t_id t = i"
    using inv(2) by (force simp: inv_ids_def)
  let ?fs = "[(''task'', TTask t), (''dispatched_at_ms'', TNum (unix_milli now)), (''epoch'', TNum e)]"
  have r: "q_payloads (raised e ?q) = q_payloads ?q" "q_exec (raised e ?q) = q_exec ?q"
    by (simp_all add: raised_def)
  from q_launch_backed [OF l(2) i(1), of "TTask t"] t(1) r obtain st' where st': "appended (trim_arg (b_max_len b)) ?fs (q_exec ?q) st'"
    "queue_at view b ?w = (bump ''dispatched'' 1 (q_unpend m (raised e ?q)))\<lparr>q_exec := st', q_inflight := q_inflight (raised e ?q) + 1\<rparr>"
    by auto
  from st'(1) obtain j where j: "st_last (q_exec ?q) < j" "st_entries st' = st_entries (q_exec ?q) @ [\<lparr>se_id = j, se_fields = ?fs\<rparr>]"
    "st_groups st' = st_groups (q_exec ?q)"
    using assms(4) by (auto simp: appended_def trim_arg_def trim_allowed_def add_entry_def)
  obtain g where g: "st_groups (q_exec ?q) (k_worker_group ks) = Some g" "g_last g \<le> st_last (q_exec ?q)"
    using assms(1,3) inv(3) by (auto simp: serving_def inv_live_def)
  show thesis
  proof (rule that [of ?w m i t "\<lparr>se_id = j, se_fields = ?fs\<rparr>" g])
    have "q_fence (queue_at view b ?w) = q_fence (raised e ?q)" "q_exec (queue_at view b ?w) = st'"
      unfolding st'(2) by (simp_all add: bump_def q_unpend_def)
    then show "serving view b e ?w"
      using refused_raised [of e ?q] S(2) calm_dispatch [OF S(1)] g(1)
      unfolding serving_def refused_def by (simp add: j(3) assms(1))
    show "entry_task \<lparr>se_id = j, se_fields = ?fs\<rparr> = Some t"
      by (rule entry_task_raw) auto
  qed (use m i t st'(2) j g in \<open>auto simp: bump_def q_unpend_def raised_def intro: moves.dispatches\<close>)
qed

lemma complete_one:
  assumes "b_keys b = ks" "reach call view b w H" "serving view b e w" "m \<in> H" "t_id (x_task m) \<in> dom (q_payloads (queue_at view b w))"
  obtains w' where "moves call b e (w, H) (w', H)" "serving view b e w'"
    "q_pending (queue_at view b w') = q_pending (queue_at view b w)"
    "q_payloads (queue_at view b w') = (q_payloads (queue_at view b w))(t_id (x_task m) := None)"
    "dom (q_done (queue_at view b w')) = insert (t_id (x_task m)) (dom (q_done (queue_at view b w)))"
    "st_entries (q_exec (queue_at view b w')) = st_entries (q_exec (queue_at view b w))"
proof -
  let ?q = "queue_at view b w" and ?r = "plain_result (x_task m)"
  let ?w = "snd (complete call b ?r (Some (x_id m)) now w)"
  have S: "n_faults w = []" using assms(3) by (simp add: serving_def)
  have inv: "typed ks (view (n_db w))" "inv_ids ?q"
    using reach_inv [OF assms(2,1)] by (simp_all add: winv_def world_of_def assms(1))
  then have new: "q_done ?q (t_id (x_task m)) = None"
    using assms(5) by (auto simp: inv_ids_def)
  have id: "r_task_id ?r = t_id (x_task m)" by (simp add: plain_result_def)
  have c: "q_complete (b_max_len b) (t_id (x_task m)) (TResult ?r) (r_tenant ?r) (if r_actual_ms ?r \<le> 0 then r_exec_ms ?r else r_actual_ms ?r)
      (missed_deadline ?r) (TNum (unix_milli now)) (k_worker_group ks) (Some (x_id m)) ?q True (queue_at view b ?w)"
    using conjunct2 [OF complete_request [OF assms(1) inv(1) calm_fate [OF S] plain_result_json, of "x_task m" "Some (x_id m)" now]]
    unfolding id new [unfolded assms(1)] assms(1) by (simp only: simp_thms)
  then have q: "q_pending (queue_at view b ?w) = q_pending ?q" "q_payloads (queue_at view b ?w) = (q_payloads ?q)(t_id (x_task m) := None)"
    "dom (q_done (queue_at view b ?w)) = insert (t_id (x_task m)) (dom (q_done ?q))" "q_fence (queue_at view b ?w) = q_fence ?q"
    "q_exec (queue_at view b ?w) = st_ack (q_exec ?q) (k_worker_group ks) [x_id m]"
    by (auto simp: q_complete_def q_ack_def bump_def split: if_splits)
  show thesis
  proof (rule that [of ?w])
    show "moves call b e (w, H) (?w, H)"
      by (rule moves.completes [OF assms(4) id])
    show "serving view b e ?w"
      using assms(3) calm_complete [OF S] unfolding serving_def refused_def q by (auto simp: st_ack_def set_pel_def assms(1) split: option.splits)
  qed (auto simp: q st_ack_def set_pel_def split: option.splits)
qed

text \<open>One more task is terminal.\<close>

lemma finish_one:
  assumes "b_keys b = ks" "reach call view b w H" "serving view b e w" "b_max_len b \<le> 0"
    and "q_pending (queue_at view b w) \<noteq> Map.empty \<or> (\<exists>m \<in> H. t_id (x_task m) \<in> dom (q_payloads (queue_at view b w)))"
  obtains i w' H' where "(moves call b e)\<^sup>*\<^sup>* (w, H) (w', H')" "serving view b e w'" "H \<subseteq> H'"
    "i \<in> dom (q_payloads (queue_at view b w))" "q_payloads (queue_at view b w') = (q_payloads (queue_at view b w))(i := None)"
    "dom (q_done (queue_at view b w')) = insert i (dom (q_done (queue_at view b w)))"
    "pending_ids (queue_at view b w) \<subseteq> insert i (pending_ids (queue_at view b w'))"
proof (cases "q_pending (queue_at view b w) = Map.empty")
  case True
  then obtain m where m: "m \<in> H" "t_id (x_task m) \<in> dom (q_payloads (queue_at view b w))"
    using assms(5) by blast
  obtain w' where w': "moves call b e (w, H) (w', H)" "serving view b e w'" "q_pending (queue_at view b w') = q_pending (queue_at view b w)"
    "q_payloads (queue_at view b w') = (q_payloads (queue_at view b w))(t_id (x_task m) := None)"
    "dom (q_done (queue_at view b w')) = insert (t_id (x_task m)) (dom (q_done (queue_at view b w)))"
    by (rule complete_one [OF assms(1-3) m]) blast
  show thesis
  proof (rule that)
    show "(moves call b e)\<^sup>*\<^sup>* (w, H) (w', H)" using w'(1) by (rule r_into_rtranclp)
  qed (use w'(2,4,5) m(2) in \<open>auto simp: pending_ids_def w'(3)\<close>)
next
  case False
  let ?q = "queue_at view b w"
  obtain w1 m i t x g where d: "moves call b e (w, H) (w1, H)" "serving view b e w1"
    "q_pending (queue_at view b w1) = (q_pending ?q)(m := None)" "after_first (CHR ''|'') m = Some i" "q_payloads ?q i = Some (TTask t)"
    "q_payloads (queue_at view b w1) = q_payloads ?q" "q_done (queue_at view b w1) = q_done ?q"
    "x \<in> set (st_entries (q_exec (queue_at view b w1)))" "entry_task x = Some t"
    "st_groups (q_exec (queue_at view b w1)) (k_worker_group ks) = Some g" "g_last g < se_id x"
    by (rule dispatch_one_task [OF assms(1-4) False]) blast
  have id: "t_id t = i"
    using reach_inv [OF assms(2,1)] d(5) by (force simp: winv_def world_of_def inv_ids_def assms(1))
  have r1: "reach call view b w1 H"
    using moves_reach [OF d(1)] assms(2) by simp
  obtain n ms w2 where r: "0 < n" "read_exec call b [] n w1 = ((ms, None), w2)" "serving view b e w2"
    "queue_at view b w2 = (queue_at view b w1)\<lparr>q_exec := q_exec (queue_at view b w2)\<rparr>"
    "\<And>x g. x \<in> set (st_entries (q_exec (queue_at view b w1))) \<Longrightarrow> st_groups (q_exec (queue_at view b w1)) (k_worker_group ks) = Some g \<Longrightarrow>
       g_last g < se_id x \<Longrightarrow> \<exists>m \<in> set ms. x_id m = se_id x \<and> entry_task x = Some (x_task m)"
    by (rule read_all [OF assms(1) r1 d(2), of "[]"]) blast
  have same: "q_pending (queue_at view b w2) = (q_pending ?q)(m := None)" "q_payloads (queue_at view b w2) = q_payloads ?q"
    "q_done (queue_at view b w2) = q_done ?q"
    using d(3,6,7) by (subst r(4), simp)+
  obtain msg where msg: "msg \<in> set ms" "x_task msg = t"
    using r(5) [OF d(8,10,11)] d(9) by auto
  have s2: "moves call b e (w1, H) (w2, H \<union> set ms)"
    by (rule moves.receives [OF r(1,2)])
  have r2: "reach call view b w2 (H \<union> set ms)"
    using moves_reach [OF s2] r1 by simp
  have held: "msg \<in> H \<union> set ms" "t_id (x_task msg) \<in> dom (q_payloads (queue_at view b w2))"
    using msg id d(5) by (auto simp: same)
  obtain w3 where c: "moves call b e (w2, H \<union> set ms) (w3, H \<union> set ms)" "serving view b e w3"
    "q_pending (queue_at view b w3) = q_pending (queue_at view b w2)"
    "q_payloads (queue_at view b w3) = (q_payloads (queue_at view b w2))(t_id (x_task msg) := None)"
    "dom (q_done (queue_at view b w3)) = insert (t_id (x_task msg)) (dom (q_done (queue_at view b w2)))"
    by (rule complete_one [OF assms(1) r2 r(3) held]) blast
  have "(moves call b e)\<^sup>*\<^sup>* (w, H) (w3, H \<union> set ms)"
    using moves_trans [OF d(1) s2] c(1) by (rule rtranclp.rtrancl_into_rtrancl)
  then show thesis
    by (rule that [OF _ c(2), of "H \<union> set ms" i]) (use d(4,5) c(3-5) same msg(2) id in \<open>auto simp: pending_ids_def\<close>)
qed

lemma finish_all:
  assumes "b_keys b = ks" "b_max_len b \<le> 0" "reach call view b w H" "serving view b e w"
  shows "\<exists>w' H'. (moves call b e)\<^sup>*\<^sup>* (w, H) (w', H') \<and> q_pending (queue_at view b w') = Map.empty \<and> H \<subseteq> H' \<and>
    (\<forall>i \<in> pending_ids (queue_at view b w) \<union> (\<lambda>m. t_id (x_task m)) ` H'. i \<notin> dom (q_payloads (queue_at view b w'))) \<and>
    dom (q_payloads (queue_at view b w')) \<subseteq> dom (q_payloads (queue_at view b w)) \<and>
    dom (q_payloads (queue_at view b w)) \<union> dom (q_done (queue_at view b w)) \<subseteq>
      dom (q_payloads (queue_at view b w')) \<union> dom (q_done (queue_at view b w'))"
  using assms(3,4)
proof (induction "card (dom (q_payloads (queue_at view b w)))" arbitrary: w H rule: less_induct)
  case less
  show ?case
  proof (cases "q_pending (queue_at view b w) \<noteq> Map.empty \<or> (\<exists>m \<in> H. t_id (x_task m) \<in> dom (q_payloads (queue_at view b w)))")
    case False
    then show ?thesis
      by (intro exI [of _ w] exI [of _ H]) (auto simp: pending_ids_def)
  next
    case True
    obtain i w1 H1 where s: "(moves call b e)\<^sup>*\<^sup>* (w, H) (w1, H1)" "serving view b e w1" "H \<subseteq> H1"
      "i \<in> dom (q_payloads (queue_at view b w))" "q_payloads (queue_at view b w1) = (q_payloads (queue_at view b w))(i := None)"
      "dom (q_done (queue_at view b w1)) = insert i (dom (q_done (queue_at view b w)))"
      "pending_ids (queue_at view b w) \<subseteq> insert i (pending_ids (queue_at view b w1))"
      by (rule finish_one [OF assms(1) less.prems assms(2) True])
    have "finite (dom (q_payloads (queue_at view b w)))"
      using reach_inv [OF less.prems(1) assms(1)] by (simp add: winv_def world_of_def inv_ids_def assms(1))
    then have fewer: "card (dom (q_payloads (queue_at view b w1))) < card (dom (q_payloads (queue_at view b w)))"
      unfolding s(5) dom_fun_upd using s(4) by (simp add: card_Diff1_less del: card_Diff_insert)
    have r1: "reach call view b w1 H1"
      using moves_many_reach [OF s(1)] less.prems(1) by simp
    from less.hyps [OF fewer r1 s(2)] obtain w' H' where IH: "(moves call b e)\<^sup>*\<^sup>* (w1, H1) (w', H')"
      "q_pending (queue_at view b w') = Map.empty" "H1 \<subseteq> H'"
      "\<forall>i \<in> pending_ids (queue_at view b w1) \<union> (\<lambda>m. t_id (x_task m)) ` H'. i \<notin> dom (q_payloads (queue_at view b w'))"
      "dom (q_payloads (queue_at view b w')) \<subseteq> dom (q_payloads (queue_at view b w1))"
      "dom (q_payloads (queue_at view b w1)) \<union> dom (q_done (queue_at view b w1)) \<subseteq>
        dom (q_payloads (queue_at view b w')) \<union> dom (q_done (queue_at view b w'))"
      by blast
    have gone: "i \<notin> dom (q_payloads (queue_at view b w'))" "dom (q_payloads (queue_at view b w')) \<subseteq> dom (q_payloads (queue_at view b w))"
      using IH(5) unfolding s(5) by auto
    have kept: "dom (q_payloads (queue_at view b w)) \<union> dom (q_done (queue_at view b w)) \<subseteq>
        dom (q_payloads (queue_at view b w1)) \<union> dom (q_done (queue_at view b w1))"
      unfolding s(5,6) by auto
    show ?thesis
    proof (intro exI conjI)
      show "(moves call b e)\<^sup>*\<^sup>* (w, H) (w', H')" by (rule rtranclp_trans [OF s(1) IH(1)])
      show "\<forall>i \<in> pending_ids (queue_at view b w) \<union> (\<lambda>m. t_id (x_task m)) ` H'. i \<notin> dom (q_payloads (queue_at view b w'))"
        using IH(4) gone(1) s(7) by blast
      show "q_pending (queue_at view b w') = Map.empty" by (rule IH(2))
      show "H \<subseteq> H'" by (rule subset_trans [OF s(3) IH(3)])
      show "dom (q_payloads (queue_at view b w')) \<subseteq> dom (q_payloads (queue_at view b w))" by (rule gone(2))
      show "dom (q_payloads (queue_at view b w)) \<union> dom (q_done (queue_at view b w)) \<subseteq>
          dom (q_payloads (queue_at view b w')) \<union> dom (q_done (queue_at view b w'))"
        by (rule subset_trans [OF kept IH(6)])
    qed
  qed
qed

end

section \<open>The queue is never stuck\<close>


lemma demo3_group: "st_groups (q_exec (queue_at mem_view demo_broker demo3)) (k_worker_group (b_keys demo_broker)) \<noteq> None"
  unfolding demo3_def demo3_val snd_conv qabs_def qstate.select_convs by code_simp

lemma demo3_fence: "\<not> refused 7 (queue_at mem_view demo_broker demo3)"
  unfolding refused_def demo3_def demo3_val snd_conv qabs_def qstate.select_convs by code_simp

lemma demo3_pending: "q_pending (queue_at mem_view demo_broker demo3) ''0000000003000|a'' \<noteq> None"
  unfolding demo3_def demo3_val snd_conv qabs_def qstate.select_convs by code_simp


end
