(* ===== verification/Console.thy ===== *)
theory Console
  imports Workload BenchStats "HOL-Library.Word"
begin

text \<open>
  The console's derived views (\<open>internal/console\<close>: \<open>dispatch.go\<close>, \<open>tenants.go\<close>, \<open>telemetry.go\<close> and the event log of
  \<open>events.go\<close>): the dispatch window read from the execution stream, the tenant window, the classification of a process,
  counter rates and the bounded event log.
\<close>

section \<open>The dispatch window\<close>

record dispatch_bucket =
  db_t :: int
  db_epoch :: int
  db_n :: int

type_synonym dispatch_gap = "int \<times> int"

definition min_reported_gap :: duration where
  "min_reported_gap = second"

definition max_reported_gaps :: nat where
  "max_reported_gaps = 20"

text \<open>\<open>MaxGapMS\<close> and \<open>MaxGapEndMS\<close> are set together: \<open>dw_max_gap\<close> is their pair.\<close>

record dispatch_window =
  dw_from :: int
  dw_window_s :: int
  dw_bucket_ms :: int
  dw_count :: int
  dw_truncated :: bool
  dw_buckets :: "dispatch_bucket list"
  dw_epochs :: "int list"
  dw_unstamped :: int
  dw_max_gap :: "(int \<times> int) option"
  dw_last :: "int option"
  dw_gaps :: "dispatch_gap list"
  dw_inversions :: int

text \<open>The loop's variables; \<open>sc_counts\<close> is the map from time slot and epoch to the number of entries.\<close>

record scan =
  sc_counts :: "((int \<times> int) \<times> int) list"
  sc_epochs :: "int list"
  sc_highest :: int
  sc_prev :: int
  sc_unstamped :: int
  sc_inversions :: int
  sc_max_gap :: "(int \<times> int) option"
  sc_gaps :: "dispatch_gap list"

definition slot_of :: "int \<Rightarrow> int \<Rightarrow> int \<Rightarrow> int" where
  "slot_of from bucket ms = i64 (ms - go_mod (i64 (ms - from)) bucket)"

definition count_slot :: "int \<times> int \<Rightarrow> scan \<Rightarrow> scan" where
  "count_slot k s = s\<lparr>sc_counts := AList.update k ((case map_of (sc_counts s) k of Some n \<Rightarrow> n | None \<Rightarrow> 0) + 1) (sc_counts s)\<rparr>"

definition note_epoch :: "int \<Rightarrow> scan \<Rightarrow> scan" where
  "note_epoch e s =
     (if 0 < e
      then s\<lparr>sc_epochs := List.insert e (sc_epochs s),
        sc_inversions := (if e < sc_highest s then sc_inversions s + 1 else sc_inversions s),
        sc_highest := max (sc_highest s) e\<rparr>
      else s\<lparr>sc_unstamped := sc_unstamped s + 1\<rparr>)"

definition note_gap :: "int \<Rightarrow> scan \<Rightarrow> scan" where
  "note_gap ms s =
     (if sc_prev s \<noteq> 0
      then let gap = i64 (ms - sc_prev s) in
        s\<lparr>sc_max_gap := (case sc_max_gap s of
            None \<Rightarrow> Some (gap, ms)
          | Some (g, e) \<Rightarrow> if g < gap then Some (gap, ms) else Some (g, e)),
          sc_gaps := (if dur_millis min_reported_gap \<le> gap then sc_gaps s @ [(sc_prev s, ms)] else sc_gaps s)\<rparr>
      else s)"

definition scan_message :: "int \<Rightarrow> int \<Rightarrow> scan \<Rightarrow> exec_message \<Rightarrow> scan" where
  "scan_message from bucket s m =
     (if is_zero_time (x_dispatched m) then s
      else
        let ms = unix_milli (x_dispatched m) in
        (note_gap ms (note_epoch (x_epoch m) (count_slot (slot_of from bucket ms, x_epoch m) s)))\<lparr>sc_prev := ms\<rparr>)"

text \<open>The longest gaps, if there are too many; \<open>sort.Slice\<close> does not say which of equal gaps come first.\<close>

definition trim_gaps :: "dispatch_gap list \<Rightarrow> dispatch_gap list" where
  "trim_gaps gs =
     (if max_reported_gaps < length gs
      then sort_key fst (take max_reported_gaps (sort_key (\<lambda>g. - (snd g - fst g)) gs)) else gs)"

definition empty_scan :: scan where
  "empty_scan =
     \<lparr>sc_counts = [], sc_epochs = [], sc_highest = 0, sc_prev = 0, sc_unstamped = 0, sc_inversions = 0,
      sc_max_gap = None, sc_gaps = []\<rparr>"

definition bucket_list :: "((int \<times> int) \<times> int) list \<Rightarrow> dispatch_bucket list" where
  "bucket_list counts = map (\<lambda>((t, e), n). \<lparr>db_t = t, db_epoch = e, db_n = n\<rparr>) (sort_key fst counts)"

text \<open>
  \<open>None\<close> is the panic of the remainder by a bucket of less than one millisecond, which needs a stamped entry to happen.
\<close>

definition summarise_dispatches :: "exec_message list \<Rightarrow> time \<Rightarrow> duration \<Rightarrow> duration \<Rightarrow> int \<Rightarrow> dispatch_window option" where
  "summarise_dispatches msgs from win bucket limit =
     (if dur_millis bucket = 0 \<and> list_ex (\<lambda>m. \<not> is_zero_time (x_dispatched m)) msgs then None
      else
        let s = foldl (scan_message (unix_milli from) (dur_millis bucket)) empty_scan msgs in
        Some \<lparr>dw_from = unix_milli from, dw_window_s = go_div win second, dw_bucket_ms = dur_millis bucket,
          dw_count = int (length msgs), dw_truncated = (0 < limit \<and> limit \<le> int (length msgs)),
          dw_buckets = bucket_list (sc_counts s), dw_epochs = sort (sc_epochs s), dw_unstamped = sc_unstamped s,
          dw_max_gap = sc_max_gap s, dw_last = (if sc_prev s \<noteq> 0 then Some (sc_prev s) else None),
          dw_gaps = trim_gaps (sc_gaps s), dw_inversions = sc_inversions s\<rparr>)"

section \<open>The tenant window\<close>

record window_stat =
  ws_tenant :: string
  ws_completed :: int
  ws_p50 :: f64
  ws_p95 :: f64
  ws_max :: f64
  ws_missed :: int

record tenant_window =
  tw_window_s :: int
  tw_count :: int
  tw_truncated :: bool
  tw_tenants :: "window_stat list"

definition quantile :: "f64 list \<Rightarrow> f64 \<Rightarrow> f64" where
  "quantile xs q =
     (let pos = fmul (f64_of_int (int (length xs) - 1)) q; lo = f64_to_i64 pos in
      if int (length xs) \<le> lo + 1 then xs ! nat lo
      else fadd (xs ! nat lo) (fmul (fsub (xs ! nat (lo + 1)) (xs ! nat lo)) (fsub pos (f64_of_int lo))))"

definition timed_result :: "result \<Rightarrow> bool" where
  "timed_result r \<longleftrightarrow> \<not> is_zero_time (r_submitted r) \<and> \<not> is_zero_time (r_finished r)"

definition latency_ms :: "result \<Rightarrow> f64" where
  "latency_ms r = fdiv (f64_of_int (go_div (time_sub (r_finished r) (r_submitted r)) 1000)) (f64_of_int 1000)"

definition window_stat_of :: "result list \<Rightarrow> string \<Rightarrow> window_stat" where
  "window_stat_of rs t =
     (let own = filter (\<lambda>r. r_tenant r = t) rs; v = sort_floats (map latency_ms own) in
      \<lparr>ws_tenant = t, ws_completed = int (length v), ws_p50 = quantile v (lit (1 / 2)), ws_p95 = quantile v (lit (95 / 100)),
       ws_max = last v, ws_missed = int (length (filter missed_deadline own))\<rparr>)"

definition summarise_tenants :: "result list \<Rightarrow> duration \<Rightarrow> int \<Rightarrow> tenant_window" where
  "summarise_tenants results win limit =
     (let rs = filter timed_result results in
      \<lparr>tw_window_s = go_div win second, tw_count = int (length results),
       tw_truncated = (0 < limit \<and> limit \<le> int (length results)),
       tw_tenants = map (window_stat_of rs) (sort (remdups (map r_tenant rs)))\<rparr>)"

section \<open>Probes and rates\<close>

datatype health = Unreachable | Unhealthy | NotReady | Ready

definition health_text :: "health \<Rightarrow> string" where
  "health_text h =
     (case h of Unreachable \<Rightarrow> ''unreachable'' | Unhealthy \<Rightarrow> ''unhealthy'' | NotReady \<Rightarrow> ''not_ready'' | Ready \<Rightarrow> ''ready'')"

definition classify :: "string option \<Rightarrow> int \<Rightarrow> int \<Rightarrow> health" where
  "classify healthz_err healthz readyz =
     (if healthz_err \<noteq> None then Unreachable
      else if healthz \<noteq> 200 then Unhealthy
      else if readyz \<noteq> 200 then NotReady
      else Ready)"

record target =
  tg_name :: string
  tg_role :: string
  tg_url :: string

text \<open>A Go map that may be nil is an option; reading a nil map gives the zero value.\<close>

record probe =
  pr_health :: health
  pr_healthz :: int
  pr_readyz :: int
  pr_error :: string
  pr_metrics :: "f64 go_map option"
  pr_policy :: string

text \<open>
  One scrape. An HTTP request returns a status or a transport error, the metrics request the parsed series and policy or an
  error: the three answers are the arguments (the HTTP client and the Prometheus parser are library code). A request the
  code does not make leaves its answer unused.
\<close>

definition probe_target :: "string + int \<Rightarrow> string + int \<Rightarrow> string + f64 go_map \<times> string \<Rightarrow> probe" where
  "probe_target healthz readyz metrics =
     (case healthz of
        Inl e \<Rightarrow> \<lparr>pr_health = classify (Some e) 0 0, pr_healthz = 0, pr_readyz = 0, pr_error = e, pr_metrics = None, pr_policy = []\<rparr>
      | Inr hz \<Rightarrow>
          (case readyz of
             Inl e \<Rightarrow> \<lparr>pr_health = Unreachable, pr_healthz = hz, pr_readyz = 0, pr_error = ''readyz: '' @ e, pr_metrics = None, pr_policy = []\<rparr>
           | Inr rz \<Rightarrow>
               (let p = \<lparr>pr_health = classify None hz rz, pr_healthz = hz, pr_readyz = rz, pr_error = [], pr_metrics = None, pr_policy = []\<rparr> in
                case metrics of
                  Inl e \<Rightarrow> p\<lparr>pr_error := ''metrics: '' @ e\<rparr>
                | Inr (m, policy) \<Rightarrow> p\<lparr>pr_metrics := Some m, pr_policy := policy\<rparr>)))"

definition min_rate_window :: duration where
  "min_rate_window = 200 * millisecond"

definition rate :: "f64 \<Rightarrow> f64 \<Rightarrow> duration \<Rightarrow> f64 option" where
  "rate prev cur dt = (if dt < min_rate_window \<or> flt cur prev then None else Some (fdiv (fsub cur prev) (dur_seconds dt)))"

section \<open>The event log\<close>

datatype event_source = Observed | Logged | Control

text \<open>A message of \<open>fmt.Sprintf\<close> is kept as its format and its arguments.\<close>

datatype arg = AStr string | AInt int | AFlt f64 | ADur duration | AErrs "berr list"

record event =
  ev_seq :: "64 word"
  ev_at :: time
  ev_source :: event_source
  ev_kind :: string
  ev_subject :: string
  ev_format :: string
  ev_args :: "arg list"

record event_log =
  el_buf :: "event list"
  el_next :: "64 word"
  el_max :: nat

definition new_event_log :: "nat \<Rightarrow> event_log" where
  "new_event_log n = \<lparr>el_buf = [], el_next = 0, el_max = n\<rparr>"

definition add_event :: "event \<Rightarrow> event_log \<Rightarrow> event_log" where
  "add_event e l =
     (let next = el_next l + 1; buf = el_buf l @ [e\<lparr>ev_seq := next\<rparr>] in
      l\<lparr>el_next := next, el_buf := (if el_max l < length buf then drop (length buf - el_max l) buf else buf)\<rparr>)"

definition events_since :: "64 word \<Rightarrow> event_log \<Rightarrow> event list" where
  "events_since seq l = filter (\<lambda>e. seq < ev_seq e) (el_buf l)"

definition log_events :: "event list \<Rightarrow> event_log \<Rightarrow> event_log" where
  "log_events es l = foldl (\<lambda>l e. add_event e l) l es"

end
