(* ===== verification/Supervisor.thy ===== *)
theory Supervisor
  imports Console
begin

text \<open>
  The demo cluster's supervisor (\<open>internal/console/supervisor.go\<close>): the processes it starts, the faults it injects and how they end.

  The operating system is the map \<open>sv_os\<close> from a command, the handle \<open>exec.Cmd\<close> of one started process, to what that process
  does. A request, the end of a process, the goroutine that waits for it and the timer of a fault each take the process's lock, so
  each is one step; a restart gives the lock up between its check and its launch, so it is two.
\<close>

section \<open>Requests\<close>

definition allowed :: "string \<Rightarrow> string list" where
  "allowed role =
     (if role = ''scheduler'' then [''kill'', ''terminate'', ''freeze'', ''partition'', ''restart'']
      else if role = ''worker'' then [''kill'', ''freeze'', ''restart''] else [])"

definition min_fault :: duration where
  "min_fault = second"

definition max_fault :: duration where
  "max_fault = 30 * second"

datatype proc_state = StRunning | StStopped | StExited

record fault_request =
  fr_action :: string
  fr_target :: string
  fr_duration_ms :: int

datatype sup_error =
    BadOption string int
  | BadLease duration duration
  | NoBinary string
  | UnknownAction string
  | NoTarget
  | FaultDuration string
  | TakesNoDuration string
  | NoHolder
  | UnknownTarget string
  | NotAvailable string string
  | WrongState string proc_state
  | FaultInProgress string string
  | NoProxy string
  | SignalFailed string
  | StartFailed string string
  | Unhandled string

text \<open>\<open>errors.Is(err, ErrRejected)\<close>.\<close>

definition rejected :: "sup_error \<Rightarrow> bool" where
  "rejected e = (case e of NoHolder \<Rightarrow> True | WrongState _ _ \<Rightarrow> True | FaultInProgress _ _ \<Rightarrow> True | _ \<Rightarrow> False)"

text \<open>The product of the request's milliseconds is taken in 64 bits; what is checked is the product.\<close>

definition validate_fault :: "fault_request \<Rightarrow> sup_error + duration" where
  "validate_fault r =
     (let d = i64 (fr_duration_ms r * millisecond); timed = fr_action r \<in> {''freeze'', ''partition''} in
      if fr_action r \<notin> set (allowed ''scheduler'' @ allowed ''worker'') then Inl (UnknownAction (fr_action r))
      else if fr_target r = [] then Inl NoTarget
      else if timed \<and> (d < min_fault \<or> max_fault < d) then Inl (FaultDuration (fr_action r))
      else if \<not> timed \<and> fr_duration_ms r \<noteq> 0 then Inl (TakesNoDuration (fr_action r))
      else Inr d)"

section \<open>Processes\<close>

text \<open>
  A fault is identified by \<open>af_id\<close>, as the code identifies it by its pointer. The two closures that undo a fault are \<open>Resume\<close>
  (continue the process) and \<open>Heal\<close> (restore its link).
\<close>

datatype undo = Resume | Heal

record active_fault =
  af_id :: nat
  af_action :: string
  af_started :: time
  af_until :: time

datatype arg_text = ArgS string | ArgD duration

record proc =
  pc_name :: string
  pc_role :: string
  pc_bin :: string
  pc_args :: "arg_text list"
  pc_addr :: string
  pc_link :: "bool option"
  pc_cmd :: "nat option"
  pc_pid :: int
  pc_state :: proc_state
  pc_exit :: "int option"
  pc_fault :: "active_fault option"
  pc_undo :: "undo option"
  pc_starts :: int

text \<open>\<open>pc_link\<close> is \<open>None\<close> without a proxy, otherwise whether the proxy is cut.\<close>

datatype os_status = Live | Paused | Gone

record sup_options =
  so_bin :: string
  so_redis :: string
  so_namespace :: string
  so_policy :: string
  so_schedulers :: int
  so_workers :: int
  so_concurrency :: int
  so_ttl :: duration
  so_renew :: duration
  so_port :: int

text \<open>
  \<open>sv_timers\<close> are the timers that may still fire, with the closure each runs; \<open>sv_waiters\<close> the goroutines waiting for a process to
  end; \<open>sv_restarting\<close> the restart requests between their check and their launch.
\<close>

record supervisor =
  sv_opt :: sup_options
  sv_procs :: "proc list"
  sv_os :: "nat \<Rightarrow> os_status"
  sv_timers :: "(string \<times> nat \<times> undo) list"
  sv_waiters :: "(string \<times> nat) list"
  sv_restarting :: "string list"
  sv_next_cmd :: nat
  sv_next_fault :: nat
  sv_events :: "event list"

definition find_proc :: "string \<Rightarrow> supervisor \<Rightarrow> proc option" where
  "find_proc n s = List.find (\<lambda>p. pc_name p = n) (sv_procs s)"

definition upd_proc :: "string \<Rightarrow> (proc \<Rightarrow> proc) \<Rightarrow> supervisor \<Rightarrow> supervisor" where
  "upd_proc n f s = s\<lparr>sv_procs := map (\<lambda>p. if pc_name p = n then f p else p) (sv_procs s)\<rparr>"

definition say :: "event_source \<Rightarrow> string \<Rightarrow> string \<Rightarrow> string \<Rightarrow> arg list \<Rightarrow> time \<Rightarrow> supervisor \<Rightarrow> supervisor" where
  "say src kind subject fmt args now s =
     s\<lparr>sv_events := sv_events s @ [\<lparr>ev_seq = 0, ev_at = now, ev_source = src, ev_kind = kind, ev_subject = subject,
       ev_format = fmt, ev_args = args\<rparr>]\<rparr>"

section \<open>Construction\<close>

definition new_proc :: "string \<Rightarrow> string \<Rightarrow> string \<Rightarrow> string \<Rightarrow> arg_text list \<Rightarrow> proc" where
  "new_proc name role bin addr args =
     \<lparr>pc_name = name, pc_role = role, pc_bin = bin, pc_args = args, pc_addr = addr, pc_link = None, pc_cmd = None, pc_pid = 0,
      pc_state = StExited, pc_exit = None, pc_fault = None, pc_undo = None, pc_starts = 0\<rparr>"

definition loopback :: "int \<Rightarrow> string" where
  "loopback port = ''127.0.0.1:'' @ show_int port"

definition scheduler_proc :: "sup_options \<Rightarrow> string \<Rightarrow> nat \<Rightarrow> proc" where
  "scheduler_proc o' bin i =
     (let name = ''sched-'' @ show_int (int i); addr = loopback (so_port o' + int i) in
      new_proc name ''scheduler'' bin addr
        [ArgS ''--namespace'', ArgS (so_namespace o'), ArgS ''--policy'', ArgS (so_policy o'), ArgS ''--consumer'', ArgS name,
         ArgS ''--metrics-addr'', ArgS addr, ArgS ''--leader-election'', ArgS ''true'', ArgS ''--lease-ttl'', ArgD (so_ttl o'),
         ArgS ''--lease-renew'', ArgD (so_renew o'), ArgS ''--log-level'', ArgS ''info'', ArgS ''--log-format'', ArgS ''json''])"

definition worker_proc :: "sup_options \<Rightarrow> string \<Rightarrow> nat \<Rightarrow> proc" where
  "worker_proc o' bin i =
     (let name = ''worker-'' @ show_int (int i); addr = loopback (so_port o' + so_schedulers o' + int i) in
      new_proc name ''worker'' bin addr
        [ArgS ''--redis-addr'', ArgS (so_redis o'), ArgS ''--namespace'', ArgS (so_namespace o'), ArgS ''--name'', ArgS name,
         ArgS ''--concurrency'', ArgS (show_int (so_concurrency o')), ArgS ''--metrics-addr'', ArgS addr,
         ArgS ''--log-level'', ArgS ''warn'', ArgS ''--log-format'', ArgS ''json''])"

text \<open>\<open>resolve_bin dir name\<close> is the absolute path of an executable, or the error of looking for it.\<close>

definition new_supervisor :: "(string \<Rightarrow> string \<Rightarrow> sup_error + string) \<Rightarrow> sup_options \<Rightarrow> sup_error + supervisor" where
  "new_supervisor resolve_bin o' =
     (if so_schedulers o' < 1 \<or> 3 < so_schedulers o' then Inl (BadOption ''schedulers'' (so_schedulers o'))
      else if so_workers o' < 1 \<or> 4 < so_workers o' then Inl (BadOption ''workers'' (so_workers o'))
      else if so_concurrency o' < 1 \<or> 16 < so_concurrency o' then Inl (BadOption ''concurrency'' (so_concurrency o'))
      else if so_renew o' \<le> 0 \<or> so_ttl o' \<le> so_renew o' then Inl (BadLease (so_renew o') (so_ttl o'))
      else case resolve_bin (so_bin o') ''scheduler'' of
        Inl e \<Rightarrow> Inl e
      | Inr sb \<Rightarrow>
          (case resolve_bin (so_bin o') ''worker'' of
             Inl e \<Rightarrow> Inl e
           | Inr wb \<Rightarrow> Inr
               \<lparr>sv_opt = o', sv_procs = map (scheduler_proc o' sb) [0..<nat (so_schedulers o')] @ map (worker_proc o' wb) [0..<nat (so_workers o')],
                sv_os = (\<lambda>_. Gone), sv_timers = [], sv_waiters = [], sv_restarting = [], sv_next_cmd = 0, sv_next_fault = 0, sv_events = []\<rparr>))"

definition slots :: "supervisor \<Rightarrow> int" where
  "slots s = so_workers (sv_opt s) * so_concurrency (sv_opt s)"

definition targets :: "supervisor \<Rightarrow> target list" where
  "targets s = map (\<lambda>p. \<lparr>tg_name = pc_name p, tg_role = pc_role p, tg_url = ''http://'' @ pc_addr p\<rparr>) (sv_procs s)"

section \<open>Starting and ending processes\<close>

text \<open>Starting a command gives its process id, or fails.\<close>

definition launch :: "string \<Rightarrow> string + int \<Rightarrow> time \<Rightarrow> supervisor \<Rightarrow> sup_error option \<times> supervisor" where
  "launch n started now s =
     (case started of
        Inl e \<Rightarrow> (Some (StartFailed n e), s)
      | Inr pid \<Rightarrow>
          (let c = sv_next_cmd s;
               s1 = upd_proc n (\<lambda>p. p\<lparr>pc_cmd := Some c, pc_pid := pid, pc_state := StRunning, pc_exit := None, pc_starts := pc_starts p + 1\<rparr>) s;
               s2 = s1\<lparr>sv_os := (sv_os s1)(c := Live), sv_next_cmd := Suc c, sv_waiters := (n, c) # sv_waiters s1\<rparr> in
           (None, say Control ''process_started'' n ''%s started (pid %d)'' [AStr n, AInt pid] now s2)))"

definition continue_os :: "nat option \<Rightarrow> (nat \<Rightarrow> os_status) \<Rightarrow> nat \<Rightarrow> os_status" where
  "continue_os c os = (case c of Some c \<Rightarrow> if os c = Paused then os(c := Live) else os | None \<Rightarrow> os)"

text \<open>Running the closure of a fault on its process: the command it continues is the one the process has then.\<close>

definition undo_proc :: "undo \<Rightarrow> proc \<Rightarrow> proc" where
  "undo_proc u p =
     (case u of
        Resume \<Rightarrow> if pc_state p = StStopped then p\<lparr>pc_state := StRunning\<rparr> else p
      | Heal \<Rightarrow> p\<lparr>pc_link := map_option (\<lambda>_. False) (pc_link p)\<rparr>)"

definition undo_os :: "undo \<Rightarrow> nat option \<Rightarrow> (nat \<Rightarrow> os_status) \<Rightarrow> nat \<Rightarrow> os_status" where
  "undo_os u c os = (case u of Resume \<Rightarrow> continue_os c os | Heal \<Rightarrow> os)"

definition run_undo :: "undo \<Rightarrow> proc \<Rightarrow> supervisor \<Rightarrow> supervisor" where
  "run_undo u p s = upd_proc (pc_name p) (undo_proc u) (s\<lparr>sv_os := undo_os u (pc_cmd p) (sv_os s)\<rparr>)"

text \<open>\<open>timer.Stop\<close> does not recall a timer that has begun to fire, so clearing a fault leaves its timer in the list.\<close>

definition forget_fault :: "proc \<Rightarrow> proc" where
  "forget_fault p = p\<lparr>pc_fault := None, pc_undo := None\<rparr>"

definition clear_fault :: "string \<Rightarrow> supervisor \<Rightarrow> string option \<times> supervisor" where
  "clear_fault n s =
     (case find_proc n s of
        None \<Rightarrow> (None, s)
      | Some p \<Rightarrow>
          (case pc_fault p of
             None \<Rightarrow> (None, s)
           | Some f \<Rightarrow>
               (let s1 = (case pc_undo p of Some u \<Rightarrow> run_undo u p s | None \<Rightarrow> s) in
                (Some (af_action f), upd_proc n forget_fault s1))))"

text \<open>What \<open>Wait\<close> reports: the exit code, the signal if one ended the process, an error otherwise.\<close>

record wait_status =
  wt_code :: int
  wt_signal :: "string option"
  wt_error :: "string option"

definition exit_event :: "string \<Rightarrow> wait_status \<Rightarrow> string \<times> arg list" where
  "exit_event n wt =
     (case wt_signal wt of
        Some sg \<Rightarrow> (''%s exited on %s'', [AStr n, AStr sg])
      | None \<Rightarrow>
          (case wt_error wt of
             Some e \<Rightarrow> if wt_code wt = - 1 then (''%s exited: %v'', [AStr n, AStr e]) else (''%s exited (code %d)'', [AStr n, AInt (wt_code wt)])
           | None \<Rightarrow> (''%s exited (code %d)'', [AStr n, AInt (wt_code wt)])))"

definition exited_proc :: "wait_status \<Rightarrow> proc \<Rightarrow> proc" where
  "exited_proc wt p = p\<lparr>pc_state := StExited, pc_exit := Some (wt_code wt)\<rparr>"

definition waited :: "string \<Rightarrow> nat \<Rightarrow> wait_status \<Rightarrow> time \<Rightarrow> supervisor \<Rightarrow> supervisor" where
  "waited n c wt now s =
     (let s0 = s\<lparr>sv_waiters := removeAll (n, c) (sv_waiters s)\<rparr>;
          s1 = (case find_proc n s0 of
             Some p \<Rightarrow>
               (if pc_cmd p = Some c
                then snd (clear_fault n (upd_proc n (exited_proc wt) s0)) else s0)
           | None \<Rightarrow> s0) in
      say Observed ''process_exited'' n (fst (exit_event n wt)) (snd (exit_event n wt)) now s1)"

section \<open>Faults\<close>

definition resolve :: "string \<Rightarrow> string \<Rightarrow> supervisor \<Rightarrow> sup_error + proc" where
  "resolve target owner s =
     (if target = ''leader'' \<and> owner = [] then Inl NoHolder
      else let n = (if target = ''leader'' then owner else target) in
        case find_proc n s of Some p \<Rightarrow> Inr p | None \<Rightarrow> Inl (UnknownTarget n))"

definition arm :: "string \<Rightarrow> string \<Rightarrow> duration \<Rightarrow> undo \<Rightarrow> time \<Rightarrow> supervisor \<Rightarrow> supervisor" where
  "arm n action d u now s =
     (let i = sv_next_fault s; s1 = upd_proc n (\<lambda>p. p\<lparr>pc_fault := Some \<lparr>af_id = i, af_action = action, af_started = now, af_until = now + d\<rparr>, pc_undo := Some u\<rparr>) s in
      s1\<lparr>sv_timers := (n, i, u) # sv_timers s1, sv_next_fault := Suc i\<rparr>)"

definition fire :: "string \<Rightarrow> nat \<Rightarrow> undo \<Rightarrow> duration \<Rightarrow> time \<Rightarrow> supervisor \<Rightarrow> supervisor" where
  "fire n i u d now s =
     (let s0 = s\<lparr>sv_timers := removeAll (n, i, u) (sv_timers s)\<rparr> in
      case find_proc n s0 of
        None \<Rightarrow> s0
      | Some p \<Rightarrow>
          (case pc_fault p of
             None \<Rightarrow> s0
           | Some f \<Rightarrow>
               if af_id f \<noteq> i then s0
               else say Control (af_action f @ ''_ended'') n ''%s on %s ended after %s'' [AStr (af_action f), AStr n, ADur d] now
                 (upd_proc n (\<lambda>p. p\<lparr>pc_fault := None\<rparr>) (run_undo u p s0))))"

datatype applied = Restarted string | Killed string int | Terminated string int | Frozen string int "string option" duration | Cut string duration

text \<open>The part of \<open>Apply\<close> before it acts: the process it is about, and the fault's duration.\<close>

definition apply_check :: "fault_request \<Rightarrow> string \<Rightarrow> supervisor \<Rightarrow> sup_error + duration \<times> proc" where
  "apply_check r owner s =
     (case validate_fault r of
        Inl e \<Rightarrow> Inl e
      | Inr d \<Rightarrow>
          (case resolve (fr_target r) owner s of
             Inl e \<Rightarrow> Inl e
           | Inr p \<Rightarrow>
               if fr_action r \<notin> set (allowed (pc_role p)) then Inl (NotAvailable (fr_action r) (pc_role p))
               else if fr_action r = ''restart'' then (if pc_state p \<noteq> StExited then Inl (WrongState (pc_name p) (pc_state p)) else Inr (d, p))
               else if pc_state p \<noteq> StRunning \<or> pc_cmd p = None then Inl (WrongState (pc_name p) (pc_state p))
               else case pc_fault p of
                 Some f \<Rightarrow> Inl (FaultInProgress (pc_name p) (af_action f))
               | None \<Rightarrow> Inr (d, p)))"

definition stop_os :: "nat option \<Rightarrow> (nat \<Rightarrow> os_status) \<Rightarrow> nat \<Rightarrow> os_status" where
  "stop_os c os = (case c of Some c \<Rightarrow> if os c = Live then os(c := Paused) else os | None \<Rightarrow> os)"

definition kill_os :: "nat option \<Rightarrow> (nat \<Rightarrow> os_status) \<Rightarrow> nat \<Rightarrow> os_status" where
  "kill_os c os = (case c of Some c \<Rightarrow> os(c := Gone) | None \<Rightarrow> os)"

text \<open>
  The part that acts, for every action but a restart. \<open>sig_err\<close> is the error of the signal, \<open>ps\<close> the state the process table
  reports, if it could be read. A terminated process ends by itself, in a later step.
\<close>

definition inject :: "string \<Rightarrow> duration \<Rightarrow> proc \<Rightarrow> string option \<Rightarrow> string option \<Rightarrow> time \<Rightarrow> supervisor \<Rightarrow> (sup_error + applied) \<times> supervisor" where
  "inject action d p sig_err ps now s =
     (if action = ''partition'' then
        (if pc_link p = None then (Inl (NoProxy (pc_name p)), s)
         else (Inr (Cut (pc_name p) d),
           arm (pc_name p) action d Heal now (upd_proc (pc_name p) (\<lambda>p. p\<lparr>pc_link := map_option (\<lambda>_. True) (pc_link p)\<rparr>) s)))
      else if action \<in> {''kill'', ''terminate'', ''freeze''} then
        (case sig_err of
           Some e \<Rightarrow> (Inl (SignalFailed e), s)
         | None \<Rightarrow>
             if action = ''kill'' then (Inr (Killed (pc_name p) (pc_pid p)), s\<lparr>sv_os := kill_os (pc_cmd p) (sv_os s)\<rparr>)
             else if action = ''terminate'' then (Inr (Terminated (pc_name p) (pc_pid p)), s)
             else
               let s1 = s\<lparr>sv_os := stop_os (pc_cmd p) (sv_os s)\<rparr>;
                   seen = (case ps of Some (c # _) \<Rightarrow> c = CHR ''T'' | _ \<Rightarrow> False);
                   s2 = (if seen then upd_proc (pc_name p) (\<lambda>p. p\<lparr>pc_state := StStopped\<rparr>) s1 else s1) in
               (Inr (Frozen (pc_name p) (pc_pid p) ps d), arm (pc_name p) action d Resume now s2))
      else (Inl (Unhandled action), s))"

text \<open>The whole handler, when nothing comes between the two parts of a restart.\<close>

definition apply_fault ::
  "fault_request \<Rightarrow> string \<Rightarrow> string option \<Rightarrow> string option \<Rightarrow> string + int \<Rightarrow> time \<Rightarrow> supervisor \<Rightarrow> (sup_error + applied) \<times> supervisor" where
  "apply_fault r owner sig_err ps started now s =
     (case apply_check r owner s of
        Inl e \<Rightarrow> (Inl e, s)
      | Inr (d, p) \<Rightarrow>
          if fr_action r = ''restart'' then
            (case launch (pc_name p) started now s of
               (Some e, s') \<Rightarrow> (Inl e, s')
             | (None, s') \<Rightarrow> (Inr (Restarted (pc_name p)), s'))
          else inject (fr_action r) d p sig_err ps now s)"

definition clear_step :: "(string \<times> string) list \<times> supervisor \<Rightarrow> string \<Rightarrow> (string \<times> string) list \<times> supervisor" where
  "clear_step x n = (case clear_fault n (snd x) of (None, s') \<Rightarrow> (fst x, s') | (Some a, s') \<Rightarrow> (fst x @ [(a, n)], s'))"

definition clear_all :: "supervisor \<Rightarrow> (string \<times> string) list \<times> supervisor" where
  "clear_all s = foldl clear_step ([], s) (map pc_name (sv_procs s))"

record process_state =
  st_pid :: int
  st_state :: proc_state
  st_exit :: "int option"
  st_link :: string
  st_fault :: "active_fault option"
  st_restarts :: int

definition state_of :: "proc \<Rightarrow> process_state" where
  "state_of p =
     \<lparr>st_pid = (if pc_cmd p \<noteq> None \<and> pc_state p \<noteq> StExited then pc_pid p else 0), st_state = pc_state p, st_exit = pc_exit p,
      st_link = (case pc_link p of None \<Rightarrow> [] | Some severed \<Rightarrow> if severed then ''partitioned'' else ''connected''),
      st_fault = pc_fault p, st_restarts = max (pc_starts p - 1) 0\<rparr>"

definition states :: "supervisor \<Rightarrow> (string \<times> process_state) list" where
  "states s = map (\<lambda>p. (pc_name p, state_of p)) (sv_procs s)"

section \<open>Starting and stopping the cluster\<close>

text \<open>\<open>Stop\<close> as it begins: every fault ended, every process told to continue and to terminate.\<close>

definition stop_signals :: "supervisor \<Rightarrow> supervisor" where
  "stop_signals s =
     (let s1 = snd (clear_all s) in
      foldl (\<lambda>s n. case find_proc n s of
          Some p \<Rightarrow> if pc_cmd p \<noteq> None \<and> pc_state p \<noteq> StExited then s\<lparr>sv_os := continue_os (pc_cmd p) (sv_os s)\<rparr> else s
        | None \<Rightarrow> s) s1 (map pc_name (sv_procs s1)))"

text \<open>At the deadline, a process that has not ended is killed.\<close>

definition stop_kill :: "string \<Rightarrow> supervisor \<Rightarrow> supervisor" where
  "stop_kill n s =
     (case find_proc n s of
        Some p \<Rightarrow> if pc_state p \<noteq> StExited then s\<lparr>sv_os := kill_os (pc_cmd p) (sv_os s)\<rparr> else s
      | None \<Rightarrow> s)"

text \<open>The proxy of a scheduler and the process, in order, for every process until one fails; a failure stops the cluster.\<close>

fun start_all :: "(string \<times> sup_error option \<times> (string + int)) list \<Rightarrow> time \<Rightarrow> supervisor \<Rightarrow> sup_error option \<times> supervisor" where
  "start_all [] now s = (None, s)"
| "start_all ((n, proxy_err, started) # xs) now s =
     (let sched = (case find_proc n s of Some p \<Rightarrow> pc_role p = ''scheduler'' | None \<Rightarrow> False) in
      if sched \<and> proxy_err \<noteq> None then (proxy_err, stop_signals s)
      else
        let s1 = (if sched then upd_proc n (\<lambda>p. p\<lparr>pc_link := Some False\<rparr>) s else s) in
        case launch n started now s1 of
          (Some e, s2) \<Rightarrow> (Some e, stop_signals s2)
        | (None, s2) \<Rightarrow> start_all xs now s2)"

section \<open>The schedulers' logs\<close>

definition leadership_logs :: "(string \<times> string) list" where
  "leadership_logs =
     [(''became scheduler leader'', ''lease_acquired''), (''lost the scheduler lease'', ''lease_lost''),
      (''fenced out by a newer scheduler epoch, standing down'', ''fenced''),
      (''lease renewal failed, will retry'', ''renewal_failed''),
      (''reclaimed ingress entries stranded by a previous scheduler'', ''ingress_reclaimed''),
      (''lease release failed, standby will wait out the ttl'', ''release_failed''),
      (''campaigning for the scheduler lease'', ''campaigning'')]"

text \<open>A line that parses as an object: its \<open>msg\<close> if it is a string, its \<open>time\<close> if it is one that parses, its \<open>epoch\<close> as \<open>%v\<close> prints it.\<close>

record log_line =
  ll_msg :: "string option"
  ll_time :: "time option"
  ll_epoch :: "string option"

definition parse_log_line :: "string \<Rightarrow> log_line option \<Rightarrow> time \<Rightarrow> event option" where
  "parse_log_line name line now =
     (case line of
        None \<Rightarrow> None
      | Some l \<Rightarrow>
          (let msg = (case ll_msg l of Some m \<Rightarrow> m | None \<Rightarrow> []) in
           case map_of leadership_logs msg of
             None \<Rightarrow> None
           | Some kind \<Rightarrow> Some
               \<lparr>ev_seq = 0, ev_at = (case ll_time l of Some t \<Rightarrow> t | None \<Rightarrow> now), ev_source = Logged, ev_kind = kind, ev_subject = name,
                ev_format = (case ll_epoch l of Some _ \<Rightarrow> ''%s (epoch %v)'' | None \<Rightarrow> ''%s''),
                ev_args = (case ll_epoch l of Some e \<Rightarrow> [AStr msg, AStr e] | None \<Rightarrow> [AStr msg])\<rparr>))"

end
