(* ===== verification/ConsolePoll.thy ===== *)
theory ConsolePoll
  imports Supervisor
begin

text \<open>
  One poll of the console (\<open>internal/console/console.go\<close>): reading the queue from Redis, the leader sum over the scraped processes,
  the snapshot and its history, the events derived from two consecutive snapshots (\<open>Diff\<close> in \<open>events.go\<close>), and the presets a
  visitor may submit (\<open>workload.go\<close>). The answers of the HTTP probes and the readings of the clock are arguments.
\<close>

section \<open>Snapshots\<close>

text \<open>A non-empty \<open>rs_errors\<close> is the error text, \<open>errors.Join\<close> of its elements.\<close>

record redis_state =
  rs_ok :: bool
  rs_errors :: "berr list"
  rs_latency :: f64
  rs_namespace :: string

record leadership_view =
  lv_held :: bool
  lv_owner :: string
  lv_epoch :: int
  lv_remaining_ms :: int
  lv_fence :: "int option"
  lv_counter :: "int option"

record queue_view =
  qv_pending :: int
  qv_in_flight :: int
  qv_unacked :: int
  qv_dead :: int
  qv_oldest_wait :: "f64 option"
  qv_not_admitted :: int
  qv_capped :: bool
  qv_counters :: "int go_map"
  qv_completed :: "int go_map"

record rates =
  rt_window :: f64
  rt_admitted :: "f64 option"
  rt_dispatched :: "f64 option"
  rt_completed :: "f64 option"

record component =
  cm_target :: target
  cm_probe :: probe
  cm_last_ok :: "time option"
  cm_process :: "process_state option"

record snapshot =
  sn_seq :: "64 word"
  sn_at :: time
  sn_redis :: redis_state
  sn_leadership :: leadership_view
  sn_queue :: "queue_view option"
  sn_rates :: rates
  sn_components :: "component list"
  sn_leader_sum :: "int option"
  sn_policy :: string

record sample =
  sa_at :: time
  sa_redis_ok :: bool
  sa_pending :: "int option"
  sa_not_admitted :: "int option"
  sa_in_flight :: "int option"
  sa_dispatched :: "f64 option"
  sa_completed :: "f64 option"
  sa_owner :: string
  sa_epoch :: int
  sa_leader_sum :: "int option"

definition backlog_limit :: int where
  "backlog_limit = 10000"

record console =
  cn_broker :: broker
  cn_targets :: "target list"
  cn_poll :: duration
  cn_history_max :: nat
  cn_events :: event_log
  cn_timeout :: duration
  cn_latest :: "snapshot option"
  cn_history :: "sample list"
  cn_last_ok :: "time go_map"
  cn_prev :: "int go_map option"
  cn_prev_at :: time
  cn_seq :: "64 word"

text \<open>\<open>New\<close>; a history length of at most 0 is the default.\<close>

definition new_console :: "broker \<Rightarrow> target list \<Rightarrow> duration \<Rightarrow> int \<Rightarrow> event_log option \<Rightarrow> console" where
  "new_console b ts poll history events =
     (let p = (if poll \<le> 0 then second else poll) in
      \<lparr>cn_broker = b, cn_targets = ts, cn_poll = p, cn_history_max = nat (if history \<le> 0 then 600 else history),
       cn_events = (case events of Some l \<Rightarrow> l | None \<Rightarrow> new_event_log 300), cn_timeout = min (go_div (i64 (p * 8)) 10) (2 * second),
       cn_latest = None, cn_history = [], cn_last_ok = [], cn_prev = None, cn_prev_at = zero_time, cn_seq = 0\<rparr>)"

section \<open>Reading the queue\<close>

text \<open>A read whose error is collected and does not stop the ones after it.\<close>

definition collect :: "'a \<Rightarrow> ('s, berr, 'a) go \<Rightarrow> berr list \<times> 's net \<Rightarrow> 'a \<times> berr list \<times> 's net" where
  "collect d m x = (case m (snd x) of (Inl e, w) \<Rightarrow> (d, fst x @ [e], w) | (Inr a, w) \<Rightarrow> (a, fst x, w))"

definition read_int :: "(cmd \<Rightarrow> 's \<Rightarrow> reply \<times> 's) \<Rightarrow> rkey \<Rightarrow> berr list \<times> 's net \<Rightarrow> int option \<times> berr list \<times> 's net" where
  "read_int call k x =
     (case send (rcall call (GET k)) (snd x) of
        (Inl e, w) \<Rightarrow> (None, fst x @ [ErrRedis ''read'' e], w)
      | (Inr (RText t), w) \<Rightarrow>
          (case text_int t of Some n \<Rightarrow> (Some n, fst x, w) | None \<Rightarrow> (None, fst x @ [ErrNumber ''not an integer'' t], w))
      | (Inr _, w) \<Rightarrow> (None, fst x, w))"

definition rate_of :: "int go_map \<Rightarrow> int go_map \<Rightarrow> duration \<Rightarrow> string \<Rightarrow> f64 option" where
  "rate_of prev cur dt k = rate (f64_of_int (map_get 0 prev k)) (f64_of_int (map_get 0 cur k)) dt"

definition no_rates :: rates where
  "no_rates = \<lparr>rt_window = Fin 0, rt_admitted = None, rt_dispatched = None, rt_completed = None\<rparr>"

definition rates_of :: "int go_map option \<Rightarrow> time \<Rightarrow> int go_map \<Rightarrow> time \<Rightarrow> rates" where
  "rates_of prev prev_at cur now =
     (case prev of
        None \<Rightarrow> no_rates
      | Some p \<Rightarrow>
          (let dt = time_sub now prev_at in
           \<lparr>rt_window = dur_seconds dt, rt_admitted = rate_of p cur dt ''admitted'', rt_dispatched = rate_of p cur dt ''dispatched'',
            rt_completed = rate_of p cur dt ''completed''\<rparr>))"

record redis_reading =
  rr_redis :: redis_state
  rr_leadership :: leadership_view
  rr_queue :: "queue_view option"
  rr_rates :: rates

definition no_leadership :: leadership_view where
  "no_leadership = \<lparr>lv_held = False, lv_owner = [], lv_epoch = 0, lv_remaining_ms = 0, lv_fence = None, lv_counter = None\<rparr>"

definition leadership_view_of :: "leadership_report option \<Rightarrow> leadership_view" where
  "leadership_view_of r =
     (case r of
        None \<Rightarrow> no_leadership
      | Some l \<Rightarrow> no_leadership\<lparr>lv_held := True, lv_owner := l_owner l, lv_epoch := l_epoch l, lv_remaining_ms := l_ttl_ms l\<rparr>)"

text \<open>The reads in the order of the code; the clock readings are those of the latency and of the oldest wait.\<close>

definition read_queue ::
  "(cmd \<Rightarrow> 's \<Rightarrow> reply \<times> 's) \<Rightarrow> broker \<Rightarrow> time \<Rightarrow> 's net \<Rightarrow> (queue_view \<times> leadership_view) \<times> berr list \<times> 's net" where
  "read_queue call b clock w0 =
     (let (counters, x1) = collect [] (stats call b) ([], w0);
          (pending, x2) = collect 0 (pending_count call b) x1;
          (flight, x3) = collect 0 (in_flight call b) x2;
          (unacked, x4) = collect 0 (exec_pending call b) x3;
          (dead, x5) = collect 0 (dead_letter_count call b) x4;
          ((unread, unacked_in, capped), x6) = collect (0, 0, False) (ingress_backlog call b backlog_limit) x5;
          ((_, completed), x7) = collect ([], []) (tenant_service call b) x6;
          (oldest, x8) = collect None (oldest_pending_submit call b) x7;
          (report, x9) = collect None (leadership call b) x8;
          (fence, x10) = read_int call (key b Fence) x9;
          (counter, x11) = read_int call (key b LeaderEpoch) x10
      in ((\<lparr>qv_pending = pending, qv_in_flight = flight, qv_unacked = unacked, qv_dead = dead,
            qv_oldest_wait = map_option (\<lambda>t. dur_seconds (time_sub clock t)) oldest,
            qv_not_admitted = i64 (unread + unacked_in), qv_capped = capped, qv_counters = counters, qv_completed = completed\<rparr>,
           (leadership_view_of report)\<lparr>lv_fence := fence, lv_counter := counter\<rparr>), x11))"

definition read_redis ::
  "(cmd \<Rightarrow> 's \<Rightarrow> reply \<times> 's) \<Rightarrow> console \<Rightarrow> time \<Rightarrow> duration \<Rightarrow> time \<Rightarrow> 's net \<Rightarrow> redis_reading \<times> console \<times> 's net" where
  "read_redis call c now elapsed clock w =
     (let b = cn_broker c; ns = k_namespace (b_keys b) in
      case ping call w of
        (Inl e, w1) \<Rightarrow>
          (\<lparr>rr_redis = \<lparr>rs_ok = False, rs_errors = [e], rs_latency = Fin 0, rs_namespace = ns\<rparr>, rr_leadership = no_leadership,
            rr_queue = None, rr_rates = no_rates\<rparr>, c\<lparr>cn_prev := None\<rparr>, w1)
      | (Inr _, w1) \<Rightarrow>
          (let lat = fdiv (f64_of_int (go_div elapsed 1000)) (f64_of_int 1000);
               ((q, lead), errs, w2) = read_queue call b clock w1 in
           if errs \<noteq> [] then
             (\<lparr>rr_redis = \<lparr>rs_ok = False, rs_errors = errs, rs_latency = lat, rs_namespace = ns\<rparr>, rr_leadership = lead,
               rr_queue = None, rr_rates = no_rates\<rparr>, c\<lparr>cn_prev := None\<rparr>, w2)
           else
             (\<lparr>rr_redis = \<lparr>rs_ok = True, rs_errors = [], rs_latency = lat, rs_namespace = ns\<rparr>, rr_leadership = lead,
               rr_queue = Some q, rr_rates = rates_of (cn_prev c) (cn_prev_at c) (qv_counters q) now\<rparr>,
              c\<lparr>cn_prev := Some (qv_counters q), cn_prev_at := now\<rparr>, w2)))"

section \<open>The scraped processes\<close>

definition metric :: "component \<Rightarrow> string \<Rightarrow> f64 option" where
  "metric c n = (case pr_metrics (cm_probe c) of Some m \<Rightarrow> map_of m n | None \<Rightarrow> None)"

definition is_scheduler :: "component \<Rightarrow> bool" where
  "is_scheduler c \<longleftrightarrow> tg_role (cm_target c) = ''scheduler''"

text \<open>One turn of the loop over the components: when each was last reached, and what the supervisor knows of it.\<close>

definition note_component ::
  "(string \<times> process_state) list \<Rightarrow> time \<Rightarrow> time go_map \<times> component list \<Rightarrow> target \<times> probe \<Rightarrow> time go_map \<times> component list" where
  "note_component sts now x tp =
     (let n = tg_name (fst tp); m = (if pr_health (snd tp) \<noteq> Unreachable then AList.update n now (fst x) else fst x) in
      (m, snd x @ [\<lparr>cm_target = fst tp, cm_probe = snd tp, cm_last_ok = map_of m n, cm_process = map_of sts n\<rparr>]))"

text \<open>The number of leaders so far and whether it is known.\<close>

definition count_leader :: "int \<times> bool \<Rightarrow> component \<Rightarrow> int \<times> bool" where
  "count_leader x c =
     (if is_scheduler c then
        (case metric c ''tq_scheduler_is_leader'' of
           Some v \<Rightarrow> (if fle (Fin 1) v then fst x + 1 else fst x, snd x)
         | None \<Rightarrow>
             (case cm_process c of
                Some st \<Rightarrow> if st_state st = StExited then x else (fst x, False)
              | None \<Rightarrow> (fst x, False)))
      else x)"

definition leader_sum :: "component list \<Rightarrow> int option" where
  "leader_sum cs = (case foldl count_leader (0, True) cs of (n, all_known) \<Rightarrow> if all_known then Some n else None)"

definition policy_shown :: "component list \<Rightarrow> string" where
  "policy_shown cs = foldl (\<lambda>p c. if pr_policy (cm_probe c) \<noteq> [] \<and> is_scheduler c then pr_policy (cm_probe c) else p) [] cs"

definition sample_of :: "snapshot \<Rightarrow> sample" where
  "sample_of s =
     \<lparr>sa_at = sn_at s, sa_redis_ok = rs_ok (sn_redis s), sa_pending = map_option qv_pending (sn_queue s),
      sa_not_admitted = map_option qv_not_admitted (sn_queue s), sa_in_flight = map_option qv_in_flight (sn_queue s),
      sa_dispatched = rt_dispatched (sn_rates s), sa_completed = rt_completed (sn_rates s),
      sa_owner = (if lv_held (sn_leadership s) then lv_owner (sn_leadership s) else []),
      sa_epoch = (if lv_held (sn_leadership s) then lv_epoch (sn_leadership s) else 0), sa_leader_sum = sn_leader_sum s\<rparr>"

section \<open>What changed\<close>

definition observed :: "time \<Rightarrow> string \<Rightarrow> string \<Rightarrow> string \<Rightarrow> arg list \<Rightarrow> event" where
  "observed t kind subject fmt args =
     \<lparr>ev_seq = 0, ev_at = t, ev_source = Observed, ev_kind = kind, ev_subject = subject, ev_format = fmt, ev_args = args\<rparr>"

definition diff_redis :: "snapshot \<Rightarrow> snapshot \<Rightarrow> event list" where
  "diff_redis prev cur =
     (if rs_ok (sn_redis prev) = rs_ok (sn_redis cur) then []
      else if rs_ok (sn_redis cur) then [observed (sn_at cur) ''redis_reachable'' ''redis'' ''Redis answered again'' []]
      else [observed (sn_at cur) ''redis_unreachable'' ''redis'' ''Redis did not answer: %s'' [AErrs (rs_errors (sn_redis cur))]])"

definition diff_lease :: "snapshot \<Rightarrow> snapshot \<Rightarrow> event list" where
  "diff_lease prev cur =
     (let pl = sn_leadership prev; cl = sn_leadership cur in
      if lv_held pl \<and> \<not> lv_held cl then
        [observed (sn_at cur) ''lease_vacant'' (lv_owner pl) ''the lease is free: no scheduler holds it (was %s, epoch %d)''
          [AStr (lv_owner pl), AInt (lv_epoch pl)]]
      else if lv_held cl \<and> (\<not> lv_held pl \<or> lv_owner pl \<noteq> lv_owner cl \<or> lv_epoch pl \<noteq> lv_epoch cl) then
        [observed (sn_at cur) ''lease_holder'' (lv_owner cl) ''the lease is held by %s, epoch %d'' [AStr (lv_owner cl), AInt (lv_epoch cl)]]
      else [])"

definition diff_fence :: "snapshot \<Rightarrow> snapshot \<Rightarrow> event list" where
  "diff_fence prev cur =
     (case (lv_fence (sn_leadership prev), lv_fence (sn_leadership cur)) of
        (Some p, Some c) \<Rightarrow>
          (if c \<noteq> p then [observed (sn_at cur) ''fence_advanced'' ''redis''
             ''the fence moved from epoch %d to %d: the first write of a new term'' [AInt p, AInt c]] else [])
      | _ \<Rightarrow> [])"

definition arrow :: string where
  "arrow = [CHR 0xE2, CHR 0x86, CHR 0x92]"

definition metric_or_zero :: "component \<Rightarrow> string \<Rightarrow> f64" where
  "metric_or_zero c n = (case metric c n of Some v \<Rightarrow> v | None \<Rightarrow> Fin 0)"

definition diff_component :: "time \<Rightarrow> component \<Rightarrow> component \<Rightarrow> event list" where
  "diff_component t p c =
     (let n = tg_name (cm_target c); fenced = ''tq_scheduler_fenced_operations_total'' in
      (if pr_health (cm_probe p) \<noteq> pr_health (cm_probe c)
       then [observed t ''health_changed'' n (''%s: %s '' @ arrow @ '' %s'')
          [AStr n, AStr (health_text (pr_health (cm_probe p))), AStr (health_text (pr_health (cm_probe c)))]] else []) @
      (if pr_metrics (cm_probe c) \<noteq> None \<and> pr_metrics (cm_probe p) \<noteq> None \<and> fgt (metric_or_zero c fenced) (metric_or_zero p fenced)
       then [observed t ''fenced_write'' n ''%s attempted a write under a superseded epoch and Redis refused it'' [AStr n]] else []) @
      (case (cm_process p, cm_process c) of
         (Some sp, Some sc) \<Rightarrow>
           (if st_link sp \<noteq> st_link sc \<and> st_link sc \<noteq> [] then [observed t (''link_'' @ st_link sc) n ''%s's path to Redis is %s'' [AStr n, AStr (st_link sc)]]
            else [])
       | _ \<Rightarrow> []))"

definition diff_components :: "snapshot \<Rightarrow> snapshot \<Rightarrow> event list" where
  "diff_components prev cur =
     (let prevs = map_of (rev (map (\<lambda>c. (tg_name (cm_target c), c)) (sn_components prev))) in
      concat (map (\<lambda>c. case prevs (tg_name (cm_target c)) of None \<Rightarrow> [] | Some p \<Rightarrow> diff_component (sn_at cur) p c) (sn_components cur)))"

definition diff_leaders :: "snapshot \<Rightarrow> snapshot \<Rightarrow> event list" where
  "diff_leaders prev cur =
     (case (sn_leader_sum prev, sn_leader_sum cur) of
        (Some p, Some n) \<Rightarrow>
          (if p = n then []
           else if n = 0 then [observed (sn_at cur) ''no_leader'' ''schedulers'' ''no scheduler reports itself leader: nothing is dispatching'' []]
           else if n = 1 then [observed (sn_at cur) ''one_leader'' ''schedulers'' ''exactly one scheduler reports itself leader'' []]
           else [observed (sn_at cur) ''several_leaders'' ''schedulers'' ''%d schedulers report themselves leader at this poll'' [AInt n]])
      | _ \<Rightarrow> [])"

definition diff :: "snapshot option \<Rightarrow> snapshot option \<Rightarrow> event list" where
  "diff prev cur =
     (case (prev, cur) of
        (Some p, Some c) \<Rightarrow>
          diff_redis p c @ (if rs_ok (sn_redis c) \<and> rs_ok (sn_redis p) then diff_lease p c @ diff_fence p c else []) @
          diff_components p c @ diff_leaders p c
      | _ \<Rightarrow> [])"

section \<open>A poll\<close>

text \<open>
  The probes come in the order of the targets; \<open>sts\<close> is the supervisor's report, empty without one. The probes run beside the reads and
  share nothing with them.
\<close>

definition keep_last :: "nat \<Rightarrow> 'a list \<Rightarrow> 'a list" where
  "keep_last n xs = (if n < length xs then drop (length xs - n) xs else xs)"

definition poll_once ::
  "(cmd \<Rightarrow> 's \<Rightarrow> reply \<times> 's) \<Rightarrow> console \<Rightarrow> probe list \<Rightarrow> (string \<times> process_state) list \<Rightarrow> time \<Rightarrow> duration \<Rightarrow> time \<Rightarrow> 's net \<Rightarrow> console \<times> 's net" where
  "poll_once call c probes sts now elapsed clock w =
     (case read_redis call c now elapsed clock w of
        (r, c1, w') \<Rightarrow>
          (let (last_ok, comps) = foldl (note_component sts now) (cn_last_ok c1, []) (zip (cn_targets c1) probes);
               seq = cn_seq c1 + 1;
               snap = \<lparr>sn_seq = seq, sn_at = now, sn_redis = rr_redis r, sn_leadership = rr_leadership r, sn_queue = rr_queue r,
                 sn_rates = rr_rates r, sn_components = comps, sn_leader_sum = leader_sum comps, sn_policy = policy_shown comps\<rparr>
           in (c1\<lparr>cn_seq := seq, cn_latest := Some snap, cn_last_ok := last_ok,
                 cn_history := keep_last (cn_history_max c1) (cn_history c1 @ [sample_of snap]),
                 cn_events := log_events (diff (cn_latest c1) (Some snap)) (cn_events c1)\<rparr>, w')))"

definition lease_owner :: "console \<Rightarrow> string" where
  "lease_owner c =
     (case cn_latest c of
        Some s \<Rightarrow> if rs_ok (sn_redis s) \<and> lv_held (sn_leadership s) then lv_owner (sn_leadership s) else []
      | None \<Rightarrow> [])"

end
