(* ===== verification/Loops.thy ===== *)
theory Loops
  imports BrokerProps
begin

text \<open>
  The loops of the engine, the worker and the recovery loop stay inside the reachable states of \<open>System\<close>: every pass is
  a sequence of its steps, so every invariant of a reachable state holds after any passes in any order.
\<close>

section \<open>Policies whose scores are numbers\<close>

definition nonneg :: "f64 \<Rightarrow> bool" where
  "nonneg x \<longleftrightarrow> fle (Fin 0) x"

definition weight_ok :: "f64 \<Rightarrow> bool" where
  "weight_ok x \<longleftrightarrow> (\<exists>q. x = Fin q \<and> 0 < q)"

text \<open>Unlike \<open>pol_inv\<close> this needs nothing of the tasks ranked or of the scores reported: no rank ever gives NaN.\<close>

fun pol_safe :: "policy \<Rightarrow> bool" where
  "pol_safe (WfqP p) =
     (nonneg (w_vtime p) \<and> (\<forall>a f. map_of (w_last p) a = Some f \<longrightarrow> nonneg f) \<and> weight_ok (w_default p) \<and>
      (\<forall>a x. map_of (w_weights p) a = Some x \<longrightarrow> weight_ok x))"
| "pol_safe p = True"

lemma nonneg_not_NaN: "nonneg x \<Longrightarrow> x \<noteq> NaN"
  by (auto simp: nonneg_def dest: fle_not_NaN)

lemma nonneg_cases: "nonneg x \<longleftrightarrow> x = PInf \<or> (\<exists>q. x = Fin q \<and> 0 \<le> q)"
  by (cases x) (auto simp: nonneg_def fle_def feq_def)

lemma f64_round_nonneg: "0 \<le> q \<Longrightarrow> nonneg (f64_round q)"
  using f64_round_mono [of 0 q] by (simp add: nonneg_def f64_round_def [of 0] Let_def)

lemma nonneg_fadd: "nonneg x \<Longrightarrow> nonneg y \<Longrightarrow> nonneg (fadd x y)"
  by (auto simp: nonneg_cases [of x] nonneg_cases [of y] f64_round_nonneg) (auto simp: nonneg_cases)

lemma nonneg_cost: "nonneg (wfq_cost t)"
  by (cases "f64_of_int (t_exec_ms t)") (auto simp: wfq_cost_def Let_def nonneg_cases fle_def feq_def)

lemma nonneg_service: "weight_ok x \<Longrightarrow> nonneg (fdiv (wfq_cost t) x)"
  using nonneg_cost [of t] by (auto simp: nonneg_cases [of "wfq_cost t"] weight_ok_def f64_round_nonneg) (auto simp: nonneg_cases)

lemma safe_rank:
  assumes "pol_safe p" "pol_rank p t = (k, p')"
  shows "k_member k = member_for t" "k_score k \<noteq> NaN" "pol_safe p'"
proof -
  show "k_member k = member_for t"
    using pol.rank_member [of p t] assms(2) by simp
  show "k_score k \<noteq> NaN"
  proof (cases p)
    case (WfqP q)
    then have "nonneg (wfq_start q (t_tenant t))" "weight_ok (wfq_weight q (t_tenant t))"
      using assms(1) by (auto simp: wfq_start_def wfq_weight_def split: option.splits)
    from nonneg_not_NaN [OF nonneg_fadd [OF this(1) nonneg_service [OF this(2)]]]
    show ?thesis using assms(2) WfqP by (auto simp: wfq_rank_def Let_def)
  qed (use assms(2) pol.rank_ok [of p "t\<lparr>t_exec_ms := 0\<rparr>"] priority_key_ok [of t] in
      \<open>auto simp: fifo_rank_def edf_rank_def no_deadline_score_def f64_of_int_not_NaN key_ok_def split: if_splits\<close>)
  show "pol_safe p'"
  proof (cases p)
    case (WfqP q)
    then have "nonneg (wfq_start q (t_tenant t))" "weight_ok (wfq_weight q (t_tenant t))"
      using assms(1) by (auto simp: wfq_start_def wfq_weight_def split: option.splits)
    from nonneg_fadd [OF this(1) nonneg_service [OF this(2)]]
    show ?thesis using assms WfqP by (auto simp: wfq_rank_def Let_def update_conv')
  qed (use assms(2) in auto)
qed

lemma safe_notify: "pol_safe p \<Longrightarrow> pol_safe (pol_notify p k)"
proof (cases p)
  case (WfqP q)
  moreover assume "pol_safe p"
  moreover have "nonneg (k_score k)" if "fgt (k_score k) (w_vtime q)" "nonneg (w_vtime q)"
    using that flt_trans [of "Fin 0" "w_vtime q" "k_score k"] by (auto simp: nonneg_def fle_def feq_def)
  ultimately show ?thesis by (auto simp: wfq_notify_def)
qed auto

lemma safe_notify_all: "pol_safe p \<Longrightarrow> pol_safe (notify_all p ds)"
  unfolding notify_all_def by (induction ds arbitrary: p) (simp_all add: safe_notify)

section \<open>Requests that only read\<close>

text \<open>A request whose command leaves the contents of every typed key space.\<close>

definition reads :: "(cmd \<Rightarrow> 's \<Rightarrow> reply \<times> 's) \<Rightarrow> ('s \<Rightarrow> rdb) \<Rightarrow> keys \<Rightarrow> ('s, 'a) lua \<Rightarrow> bool" where
  "reads call view ks m \<longleftrightarrow> (\<forall>s. typed ks (view s) \<longrightarrow> view (snd (m s)) = view s)"

lemma net_whole: "w\<lparr>n_faults := n_faults v, n_db := n_db v\<rparr> = v" for v :: "'s net"
  by (cases v; cases w) simp

context queue_store
begin

lemma reads_cmds:
  "reads call view ks (rcall call (HMGET (k_name ks Payloads) fs))" "reads call view ks (rcall call (HMGET (k_name ks Done) fs))"
  "reads call view ks (rcall call (ZCARD (k_name ks Pending)))" "reads call view ks (rcall call (GET (k_name ks InFlight)))"
  "reads call view ks (rcall call (ZFIRST (k_name ks PendingAge)))" "reads call view ks (rcall call (HGETALL (k_name ks SchedState)))"
  unfolding reads_def rcall_snd using typedD doc_after
  by (metis redis_doc.simps)+

lemma reach_query:
  assumes "reach call view b w H" "b_keys b = ks" "reads call view ks m"
  shows "reach call view b (snd (send m w)) H"
proof -
  let ?w = "snd (send m w)" and ?I = "\<lambda>s. typed ks (view s) \<and> view s = view (n_db w)"
  have t: "typed ks (view (n_db w))"
    using reach_inv [OF assms(1,2)] by blast
  have I: "?I (snd (m s))" if "?I s" for s
    using assms(3) that by (auto simp: reads_def)
  have "view (n_db ?w) = view (n_db w)"
    using send_inv(1) [of ?I m w, OF I] t by blast
  then have "reach call view b ((w\<lparr>n_faults := n_faults ?w\<rparr>)\<lparr>n_db := n_db ?w\<rparr>) H"
    by (intro reach.idle reach.network assms(1)) simp
  then show ?thesis
    unfolding net_whole .
qed

lemma pipeline_query:
  assumes "reach call view b w H" "b_keys b = ks" "\<forall>m \<in> set ms. reads call view ks m"
  shows "reach call view b (snd (pipeline ms w)) H"
  using assms(1,3)
proof (induction ms arbitrary: w)
  case (Cons m ms)
  have "reach call view b (snd (send m w)) H"
    by (rule reach_query [OF Cons.prems(1) assms(2)]) (use Cons.prems(2) in simp)
  from Cons.IH [OF this] show ?case
    using Cons.prems(2) by (auto split: prod.splits sum.splits)
qed simp

lemma known_reach: "reach call view b w H \<Longrightarrow> b_keys b = ks \<Longrightarrow> reach call view b (snd (known call b ids w)) H"
  using pipeline_query [of b w H "[rcall call (HMGET (key b Payloads) ids), rcall call (HMGET (key b Done) ids)]"] reads_cmds(1,2)
  by (auto simp: known_def key_name split: prod.splits sum.splits list.splits reply.splits)

section \<open>The engine\<close>

text \<open>An engine of this broker whose policy is safe and whose batch is positive, on a reachable state.\<close>

definition engine_at :: "broker \<Rightarrow> exec_message set \<Rightarrow> engine \<Rightarrow> 's net \<Rightarrow> bool" where
  "engine_at b H en w \<longleftrightarrow>
     reach call view b w H \<and> en_broker en = b \<and> pol_safe (en_pol en) \<and> 0 < sc_ingest_batch (en_cfg en)"

lemma admit_loop_at:
  "engine_at b H en w \<Longrightarrow> case admit_loop call epoch ids ms acks en w of (_, en', _, w') \<Rightarrow> engine_at b H en' w'"
proof (induction ms arbitrary: acks en w)
  case Nil
  then show ?case
    using reach.ingress_ack [of call view b w H acks] by (auto simp: engine_at_def split: prod.splits)
next
  case (Cons m ms)
  obtain k p where k: "pol_rank (en_pol en) (i_task m) = (k, p)"
    by (metis surj_pair)
  have e: "reach call view b w H" "en_broker en = b" "pol_safe (en_pol en)" "0 < sc_ingest_batch (en_cfg en)"
    using Cons.prems by (simp_all add: engine_at_def)
  note s = safe_rank [OF e(3) k]
  obtain r w1 where a: "admit call b (i_task m) k epoch w = (r, w1)"
    by (metis surj_pair)
  have "reach call view b w1 H"
    using reach.admission [OF e(1) s(1,2), of epoch] a by simp
  then have at: "engine_at b H (en\<lparr>en_pol := p\<rparr>) w1"
    using e s(3) by (simp add: engine_at_def)
  have "engine_at b H (en\<lparr>en_pol := p\<rparr>) (snd (ack_ingress call b acks w1))"
    using at reach.ingress_ack [of call view b w1 H acks] by (simp add: engine_at_def)
  then show ?case
    using Cons.IH [OF Cons.prems, of "acks @ [i_id m]"] Cons.IH [OF at, of "acks @ [i_id m]"] k a e(2)
    by (auto simp: Let_def split: prod.splits sum.splits)
qed

lemma admit_batch_at:
  assumes "engine_at b H en w" "b_keys b = ks"
  shows "case admit_batch call epoch ms en w of (_, en', _, w') \<Rightarrow> engine_at b H en' w'"
proof -
  obtain r w1 where k: "known call b (map (t_id \<circ> i_task) ms) w = (r, w1)"
    by (metis surj_pair)
  have "engine_at b H en w1"
    using assms known_reach [of b w H "map (t_id \<circ> i_task) ms"] k by (simp add: engine_at_def)
  from admit_loop_at [OF this] show ?thesis
    using k assms(1) by (cases r) (auto simp: admit_batch_def engine_at_def)
qed

lemma ingest_pass_at:
  assumes "engine_at b H en w" "b_keys b = ks"
  shows "case ingest_pass call epoch en w of (_, en', _, w') \<Rightarrow> engine_at b H en' w'"
proof -
  obtain ms err w1 where r: "read_ingress call b (en_name en) (sc_ingest_batch (en_cfg en)) w = ((ms, err), w1)"
    by (metis surj_pair)
  have "engine_at b H en w1"
    using assms(1) reach.ingress [of call view b w H "sc_ingest_batch (en_cfg en)" "en_name en"] r by (simp add: engine_at_def)
  from this admit_batch_at [OF this assms(2), of epoch ms] show ?thesis
    using r assms(1) by (auto simp: ingest_pass_def engine_at_def split: option.splits prod.splits)
qed

lemma reclaim_pass_at:
  assumes "engine_at b H en w" "b_keys b = ks"
  shows "case reclaim_pass call epoch cur en w of (_, _, en', _, w') \<Rightarrow> engine_at b H en' w'"
proof -
  obtain ms nx err w1 where r: "auto_claim_ingress call b (en_name en) (dur_millis (sc_reclaim_idle (en_cfg en))) cur
      (sc_ingest_batch (en_cfg en)) w = ((ms, nx, err), w1)"
    by (metis surj_pair)
  have "engine_at b H en w1"
    using assms(1) reach.ingress_claim [of call view b w H "sc_ingest_batch (en_cfg en)" "en_name en"
        "dur_millis (sc_reclaim_idle (en_cfg en))" cur] r by (simp add: engine_at_def)
  from this admit_batch_at [OF this assms(2), of epoch ms] show ?thesis
    using r assms(1) by (auto simp: reclaim_pass_def engine_at_def split: option.splits prod.splits)
qed

lemma dispatch_pass_at:
  assumes "engine_at b H en w"
  shows "case dispatch_pass call epoch now en w of (_, en', _, w') \<Rightarrow> engine_at b H en' w'"
proof -
  obtain r w1 where d: "dispatch call b (sc_dispatch_batch (en_cfg en)) (sc_max_in_flight (en_cfg en)) now epoch w = (r, w1)"
    by (metis surj_pair)
  have "engine_at b H (en\<lparr>en_pol := notify_all (en_pol en) ds\<rparr>) w1" "engine_at b H en w1" for ds
    using assms reach.dispatching [of call view b w H "sc_dispatch_batch (en_cfg en)" "sc_max_in_flight (en_cfg en)" now epoch] d
    by (simp_all add: engine_at_def safe_notify_all)
  then show ?thesis
    using d assms by (cases r) (auto simp: dispatch_pass_def engine_at_def)
qed

lemma refresh_gauges_at:
  assumes "engine_at b H en w" "b_keys b = ks"
  shows "case refresh_gauges call now en w of (en', _, w') \<Rightarrow> engine_at b H en' w'"
proof -
  note q = reach_query [OF _ assms(2)]
  obtain r1 w1 where 1: "pending_count call b w = (r1, w1)"
    by (metis surj_pair)
  have R1: "reach call view b w1 H"
    using q [OF _ reads_cmds(3), of w H] assms 1
    by (auto simp: engine_at_def pending_count_def int_query_def key_name split: prod.splits sum.splits option.splits)
  obtain r2 w2 where 2: "in_flight call b w1 = (r2, w2)"
    by (metis surj_pair)
  have R2: "reach call view b w2 H"
    using q [OF R1 reads_cmds(4)] 2 assms(2)
    by (auto simp: in_flight_def key_name split: prod.splits sum.splits option.splits reply.splits)
  obtain r3 w3 where 3: "oldest_pending_submit call b w2 = (r3, w3)"
    by (metis surj_pair)
  have R3: "reach call view b w3 H"
    using q [OF R2 reads_cmds(5)] 3 assms(2)
    by (auto simp: oldest_pending_submit_def key_name split: prod.splits sum.splits list.splits reply.splits)
  show ?thesis
    using assms(1) 1 2 3 R1 R2 R3
    by (auto simp: refresh_gauges_def engine_at_def Let_def split: sum.splits option.splits prod.splits)
qed

lemma flush_at:
  assumes "engine_at b H en w"
  shows "engine_at b H en (snd (flush_state call epoch en w))"
  using assms reach.saving [of call view b w H "pol_state (en_pol en)" epoch] by (simp add: engine_at_def flush_state_def)

lemma run_passes_at:
  assumes "engine_at b H en w" "b_keys b = ks"
  shows "case run_passes call epoch ps cur en w of (_, en', _, w') \<Rightarrow> engine_at b H en' w'"
  using assms(1)
proof (induction ps arbitrary: cur en w)
  case (Cons p ps)
  define step where "step = (case p of
      Ingest \<Rightarrow> (case ingest_pass call epoch en w of (r, en', ev, w') \<Rightarrow> (r, cur, en', ev, w'))
    | Reclaim \<Rightarrow> reclaim_pass call epoch cur en w
    | DispatchAt now \<Rightarrow> (case dispatch_pass call epoch now en w of (r, en', ev, w') \<Rightarrow> (r, cur, en', ev, w'))
    | Gauges now \<Rightarrow> (case refresh_gauges call now en w of (en', ev, w') \<Rightarrow> (Continue, cur, en', ev, w'))
    | Flush \<Rightarrow> (case flush_pass call epoch en w of (r, w') \<Rightarrow> (r, cur, en, [], w')))"
  have "case step of (_, _, en', _, w') \<Rightarrow> engine_at b H en' w'"
  proof (cases p)
    case Ingest
    then show ?thesis using ingest_pass_at [OF Cons.prems assms(2), of epoch] by (auto simp: step_def split: prod.splits)
  next
    case Reclaim
    then show ?thesis using reclaim_pass_at [OF Cons.prems assms(2), of epoch cur] by (auto simp: step_def)
  next
    case (DispatchAt now)
    then show ?thesis using dispatch_pass_at [OF Cons.prems, of epoch now] by (auto simp: step_def split: prod.splits)
  next
    case (Gauges now)
    then show ?thesis using refresh_gauges_at [OF Cons.prems assms(2), of now] by (auto simp: step_def split: prod.splits)
  next
    case Flush
    then show ?thesis using flush_at [OF Cons.prems, of epoch] by (auto simp: step_def flush_pass_def split: prod.splits sum.splits)
  qed
  then obtain r cur' en' ev w' where s: "step = (r, cur', en', ev, w')" "engine_at b H en' w'"
    by (metis (no_types, lifting) case_prod_conv surj_pair)
  have "case run_passes call epoch ps cur' en' w' of (_, en'', _, w'') \<Rightarrow> engine_at b H en'' w''"
    by (rule Cons.IH [OF s(2)])
  then show ?case
    using s by (cases r) (auto simp: step_def [symmetric] split: prod.splits)
qed simp

lemma serve_loops_at:
  assumes "engine_at b H en w" "b_keys b = ks"
  shows "case serve_loops call epoch ps en w of (en', _, w') \<Rightarrow> engine_at b H en' w'"
proof -
  obtain f en' ev w' where r: "run_passes call epoch ps (0, 0) en w = (f, en', ev, w')"
    by (metis surj_pair)
  then have "engine_at b H en' w'"
    using run_passes_at [OF assms, of epoch ps "(0, 0)"] by simp
  from this flush_at [OF this, of epoch] show ?thesis
    using r by (auto simp: serve_loops_def)
qed

section \<open>The worker and the recovery loop\<close>

lemma roll_broker: "wo_broker (snd (roll p wo)) = wo_broker wo"
  by (simp add: roll_def split: list.splits)

lemma execute_at:
  assumes "reach call view b w H" "m \<in> H" "wo_broker wo = b"
  shows "case execute call c m started finished now wo w of (_, wo', _, w') \<Rightarrow> reach call view b w' H \<and> wo_broker wo' = b"
proof -
  obtain f wo1 where r1: "roll (wk_fail_rate (wo_cfg wo)) wo = (f, wo1)"
    by (metis surj_pair)
  obtain a wo2 where r2: "roll (wk_abandon_rate (wo_cfg wo1)) wo1 = (a, wo2)"
    by (metis surj_pair)
  have b: "wo_broker wo2 = b"
    using roll_broker r1 r2 assms(3) by (metis snd_conv)
  have c: "reach call view b (snd (complete call b (result_of c m started finished) (Some (x_id m)) now w)) H"
    by (rule reach.completion [OF assms(1,2)]) (simp add: result_of_def Let_def)
  have r: "reach call view b (snd (retry_or_dead_letter call b (x_task m) n why (Some (x_id m)) now now w)) H" for n why
    by (rule reach.retrying [OF assms(1,2)])
  show ?thesis
    using assms(1,3) b c r [of "retry_budget (wo_rec wo) (t_max_retries (x_task m))" "''worker reported an application error''"] r1 r2
    by (auto simp: execute_def Let_def split: prod.splits sum.splits bool.splits retry_outcome.splits)
qed

lemma executions_at:
  assumes "set ms \<subseteq> H" "reach call view b w H" "wo_broker wo = b"
  shows "case foldl (\<lambda>(wo, ev, w) m. case execute call c m started finished now wo w of (_, wo', ev', w') \<Rightarrow> (wo', ev @ ev', w')) (wo, ev, w) ms of
    (wo', _, w') \<Rightarrow> reach call view b w' H \<and> wo_broker wo' = b"
  using assms
proof (induction ms arbitrary: wo ev w)
  case (Cons m ms)
  obtain e wo' ev' w' where x: "execute call c m started finished now wo w = (e, wo', ev', w')"
    by (metis surj_pair)
  have "reach call view b w' H" "wo_broker wo' = b"
    using execute_at [OF Cons.prems(2) _ Cons.prems(3), of m c started finished now] Cons.prems(1) x by simp_all
  from Cons.IH [OF _ this] show ?case
    using Cons.prems(1) x by simp
qed simp

lemma slot_pass_at:
  assumes "reach call view b w H" "wo_broker wo = b"
  shows "\<exists>H'. H \<subseteq> H' \<and> (case slot_pass call c started finished now wo w of (_, _, w') \<Rightarrow> reach call view b w' H')"
proof -
  obtain ms err w1 where r: "read_exec call b c 1 w = ((ms, err), w1)"
    by (metis surj_pair)
  have "reach call view b w1 (H \<union> set ms)"
    by (rule reach.execution [OF assms(1) _ r]) simp
  from this executions_at [OF _ this assms(2), of ms c started finished now "[]"] show ?thesis
    using r assms(2) by (intro exI [of _ "H \<union> set ms"]) (auto simp: slot_pass_def split: option.splits prod.splits)
qed

lemma recover_all_at:
  assumes "set ms \<subseteq> H" "reach call view b w H" "re_broker re = b"
  shows "case recover_all call re now ms n w of (_, _, w') \<Rightarrow> reach call view b w' H"
  using assms(1,2)
proof (induction ms arbitrary: n w)
  case (Cons m ms)
  obtain r w1 where x: "retry_or_dead_letter call b (x_task m) (retry_budget (re_cfg re) (t_max_retries (x_task m))) lost_reason
      (Some (x_id m)) now now w = (r, w1)"
    by (metis surj_pair)
  have "reach call view b w1 H"
    using reach.retrying [OF Cons.prems(2), of m "retry_budget (re_cfg re) (t_max_retries (x_task m))" lost_reason now now] Cons.prems(1) x by simp
  from this Cons.IH [OF _ this, of "n + 1"] show ?case
    using Cons.prems(1) x assms(3) by (auto split: sum.splits prod.splits)
qed simp

lemma recover_once_at:
  assumes "reach call view b w H" "re_broker re = b" "0 < rv_batch (re_cfg re)"
  shows "\<exists>H'. H \<subseteq> H' \<and> (case recover_once call now re w of (_, _, _, w') \<Rightarrow> reach call view b w' H')"
proof -
  obtain ms nx err w1 where r: "auto_claim call b (re_consumer re) (dur_millis (rv_min_idle (re_cfg re))) (re_cursor re)
      (rv_batch (re_cfg re)) w = ((ms, nx, err), w1)"
    by (metis surj_pair)
  have "reach call view b w1 (H \<union> set ms)"
    by (rule reach.exec_claim [OF assms(1,3) r])
  from this recover_all_at [OF _ this assms(2), of ms now 0] show ?thesis
    using r assms(2) by (intro exI [of _ "H \<union> set ms"]) (auto simp: recover_once_def split: option.splits prod.splits)
qed

end

section \<open>The loops are steps of the system\<close>


definition demo_engine :: engine where
  "demo_engine = \<lparr>en_broker = demo_broker, en_pol = FifoP, en_cfg = c_scheduler default_config, en_name = ''s1'', en_leader = True,
     en_epoch = 7, en_max_wait = 0\<rparr>"


text \<open>
  A worker slot is made of the system's steps: from a reachable state, reading a delivery and running it to whichever of
  its ends (completed, failed, abandoned, or a request lost) leads to a reachable state, with the deliveries held beside
  those held before.
\<close>

theorem worker_stays_reachable:
  assumes "redis call view" "keys_ok (b_keys (wo_broker wo))" "reach call view (wo_broker wo) w H"
  shows "\<exists>H'. H \<subseteq> H' \<and> (case slot_pass call c started finished now wo w of (_, _, w') \<Rightarrow> reach call view (wo_broker wo) w' H')"
  by (rule queue_store.slot_pass_at [OF queue_storeI [OF assms(1,2)] assms(3) refl])

definition demo_worker :: worker where
  "demo_worker = \<lparr>wo_broker = demo_broker, wo_cfg = c_worker default_config, wo_rec = c_recovery default_config, wo_name = ''w1'',
     wo_seed = 1, wo_rng = [], wo_iters = Fin 0, wo_busy = 0, wo_failures = 0\<rparr>"

theorem worker_stays_reachable_witness:
  "\<exists>H'. {} \<subseteq> H' \<and> (case slot_pass mem_call ''w1'' (from_unix_milli 6000) (from_unix_milli 6050) (from_unix_milli 6050) demo_worker demo2 of
     (_, _, w') \<Rightarrow> reach mem_call mem_view demo_broker w' H')"
  using worker_stays_reachable [OF demo_redis, of demo_worker demo2 "{}"] demo_keys demo2_reach by (simp add: demo_worker_def)

text \<open>
  A recovery pass is made of the system's steps: claiming the deliveries of dead workers and retrying or dead-lettering
  each of them leads from a reachable state to a reachable state.
\<close>

theorem recovery_stays_reachable:
  assumes "redis call view" "keys_ok (b_keys (re_broker re))" "reach call view (re_broker re) w H" "0 < rv_batch (re_cfg re)"
  shows "\<exists>H'. H \<subseteq> H' \<and> (case recover_once call now re w of (_, _, _, w') \<Rightarrow> reach call view (re_broker re) w' H')"
  by (rule queue_store.recover_once_at [OF queue_storeI [OF assms(1,2)] assms(3) refl assms(4)])

definition demo_recovery :: recovery where
  "demo_recovery = \<lparr>re_broker = demo_broker, re_cfg = c_recovery default_config, re_consumer = ''r1'', re_cursor = (0, 0)\<rparr>"

theorem recovery_stays_reachable_witness:
  "\<exists>H'. set demo_messages \<subseteq> H' \<and> (case recover_once mem_call (from_unix_milli 90000) demo_recovery demo3 of
     (_, _, _, w') \<Rightarrow> reach mem_call mem_view demo_broker w' H')"
  using recovery_stays_reachable [OF demo_redis, of demo_recovery demo3 "set demo_messages"] demo_keys demo3_reach
  by (simp add: demo_recovery_def default_config_def)

end
