(* ===== verification/PollProps.thy ===== *)
theory PollProps
  imports ConsolePoll Loops BrokerTheorems
begin

text \<open>
  What a poll of the console does: it changes nothing it looks at, its leader sum counts what the invariant is about, and the events
  it derives report every change of the lease and nothing else.
\<close>

section \<open>A poll only reads\<close>

definition quiet :: "(cmd \<Rightarrow> 's \<Rightarrow> reply \<times> 's) \<Rightarrow> ('s \<Rightarrow> rdb) \<Rightarrow> broker \<Rightarrow> exec_message set \<Rightarrow> 's net \<Rightarrow> 's net \<Rightarrow> bool" where
  "quiet call view b H w w' \<longleftrightarrow> reach call view b w H \<longrightarrow> reach call view b w' H \<and> view (n_db w') = view (n_db w)"

lemma quiet_refl [simp]: "quiet call view b H w w"
  by (simp add: quiet_def)

lemma quiet_trans: "quiet call view b H w w1 \<Longrightarrow> quiet call view b H w1 w2 \<Longrightarrow> quiet call view b H w w2"
  by (auto simp: quiet_def)

context queue_store
begin

lemma reads_more:
  "reads call view ks (rcall call PING)" "reads call view ks (rcall call (HGETALL (k_name ks Stats)))"
  "reads call view ks (rcall call (HGETALL (k_name ks TenantService)))" "reads call view ks (rcall call (HGETALL (k_name ks TenantCount)))"
  "reads call view ks (rcall call (XPENDING (k_name ks Exec) gn))" "reads call view ks (rcall call (XLEN (k_name ks DeadLetter)))"
  "reads call view ks (rcall call (XINFO_GROUPS (k_name ks Ingress)))" "reads call view ks (rcall call (XRANGE (k_name ks Ingress) bd n))"
  "reads call view ks (rcall call (GET (k_name ks Leader)))" "reads call view ks (rcall call (PTTL (k_name ks Leader)))"
  "reads call view ks (rcall call (GET (k_name ks Fence)))" "reads call view ks (rcall call (GET (k_name ks LeaderEpoch)))"
  unfolding reads_def rcall_snd using typedD doc_after
  by (metis redis_doc.simps)+

lemma quiet_send:
  assumes "b_keys b = ks" "reads call view ks m"
  shows "quiet call view b H w (snd (send m w))"
proof -
  have "view (n_db (snd (send m w))) = view (n_db w)" if "reach call view b w H"
  proof -
    let ?I = "\<lambda>s. typed ks (view s) \<and> view s = view (n_db w)"
    have "?I (snd (m s))" if "?I s" for s
      using assms(2) that by (auto simp: reads_def)
    then show ?thesis
      using send_inv(1) [of ?I m w] reach_inv [OF \<open>reach call view b w H\<close> assms(1)] by blast
  qed
  then show ?thesis
    using reach_query [OF _ assms] by (auto simp: quiet_def)
qed

lemma quiet_queries:
  assumes "b_keys b = ks"
  shows "quiet call view b H w (snd (ping call w))" "quiet call view b H w (snd (stats call b w))"
    "quiet call view b H w (snd (pending_count call b w))" "quiet call view b H w (snd (in_flight call b w))"
    "quiet call view b H w (snd (exec_pending call b w))" "quiet call view b H w (snd (dead_letter_count call b w))"
    "quiet call view b H w (snd (oldest_pending_submit call b w))"
proof -
  note q = quiet_send [OF assms, of _ H w]
  show "quiet call view b H w (snd (ping call w))"
    using q [OF reads_more(1)] by (auto simp: ping_def split: prod.splits sum.splits)
  show "quiet call view b H w (snd (stats call b w))"
    using q [OF reads_more(2)] by (auto simp: stats_def get_all_def key_def assms split: prod.splits sum.splits reply.splits)
  show "quiet call view b H w (snd (pending_count call b w))"
    using q [OF reads_cmds(3)] by (auto simp: pending_count_def int_query_def key_def assms split: prod.splits sum.splits option.splits)
  show "quiet call view b H w (snd (in_flight call b w))"
    using q [OF reads_cmds(4)] by (auto simp: in_flight_def key_def assms split: prod.splits sum.splits option.splits reply.splits)
  show "quiet call view b H w (snd (exec_pending call b w))"
    using q [OF reads_more(5), of "k_worker_group ks"] by (auto simp: exec_pending_def key_def assms split: prod.splits sum.splits option.splits reply.splits)
  show "quiet call view b H w (snd (dead_letter_count call b w))"
    using q [OF reads_more(6)] by (auto simp: dead_letter_count_def int_query_def key_def assms split: prod.splits sum.splits option.splits)
  show "quiet call view b H w (snd (oldest_pending_submit call b w))"
    using q [OF reads_cmds(5)] by (auto simp: oldest_pending_submit_def key_def assms split: prod.splits sum.splits reply.splits list.splits)
qed

lemma quiet_get_all:
  assumes "b_keys b = ks" "reads call view ks (rcall call (HGETALL k))" "get_all what call k w = (r, w')"
  shows "quiet call view b H w w'"
  using quiet_send [OF assms(1,2), of H w] assms(3) by (auto simp: get_all_def split: prod.splits sum.splits reply.splits)

lemma quiet_tenant_service:
  assumes "b_keys b = ks"
  shows "quiet call view b H w (snd (tenant_service call b w))"
proof -
  have k: "key b TenantService = k_name ks TenantService" "key b TenantCount = k_name ks TenantCount"
    by (simp_all add: key_def assms)
  show ?thesis
    unfolding tenant_service_def k
    by (auto split: prod.splits sum.splits dest: quiet_get_all [OF assms reads_more(3), where H = H] quiet_get_all [OF assms reads_more(4), where H = H]
        intro: quiet_trans [OF quiet_get_all [OF assms reads_more(3)] quiet_get_all [OF assms reads_more(4)]])
qed

lemma quiet_range:
  assumes "b_keys b = ks" "range_query what call (k_name ks Ingress) bd n w = (r, w')"
  shows "quiet call view b H w w'"
  using quiet_send [OF assms(1) reads_more(8), of H w bd n] assms(2) by (auto simp: range_query_def split: prod.splits sum.splits reply.splits)

lemma quiet_backlog:
  assumes "b_keys b = ks"
  shows "quiet call view b H w (snd (ingress_backlog call b n w))"
proof -
  have k: "key b Ingress = k_name ks Ingress"
    by (simp add: key_def assms)
  have q: "quiet call view b H w w1" if "send (rcall call (XINFO_GROUPS (k_name ks Ingress))) w = (r, w1)" for r w1
    using quiet_send [OF assms reads_more(7), of H w] that by simp
  show ?thesis
    unfolding ingress_backlog_def k
    using q quiet_range [OF assms, of _ _ _ _ _ _ H]
    by (auto intro: quiet_trans split: prod.splits sum.splits reply.splits option.splits)
qed

lemma quiet_leadership:
  assumes "b_keys b = ks"
  shows "quiet call view b H w (snd (leadership call b w))"
proof -
  have k: "key b Leader = k_name ks Leader"
    by (simp add: key_def assms)
  have q: "quiet call view b H w w1" if "send (rcall call (GET (k_name ks Leader))) w = (r, w1)" for r w1
    using quiet_send [OF assms reads_more(9), of H w] that by simp
  have q': "quiet call view b H w w1" if "send (rcall call (PTTL (k_name ks Leader))) w = (r, w1)" for r w w1
    using quiet_send [OF assms reads_more(10), of H w] that by simp
  show ?thesis
    unfolding leadership_def k
    using q q' by (auto intro: quiet_trans split: prod.splits sum.splits reply.splits rtext.splits)
qed

lemma quiet_collect:
  assumes "\<And>w. quiet call view b H w (snd (m w))" "quiet call view b H w0 (snd x)" "collect d m x = (a, x')"
  shows "quiet call view b H w0 (snd x')"
  using quiet_trans [OF assms(2) assms(1)] assms(3) by (auto simp: collect_def split: prod.splits sum.splits)

lemma quiet_read_int:
  assumes "b_keys b = ks" "f \<in> {Fence, LeaderEpoch}" "quiet call view b H w0 (snd x)" "read_int call (k_name ks f) x = (a, x')"
  shows "quiet call view b H w0 (snd x')"
proof -
  have "reads call view ks (rcall call (GET (k_name ks f)))"
    using assms(2) reads_more(11,12) by auto
  from quiet_trans [OF assms(3) quiet_send [OF assms(1) this]] show ?thesis
    using assms(4) by (auto simp: read_int_def split: prod.splits sum.splits reply.splits option.splits)
qed

text \<open>The states between the reads, and what a read without an error says.\<close>

lemma read_queue_steps:
  obtains v1 v2 v3 v4 v5 v6 v7 v8 v9 v10 v11 x1 x2 x3 x4 x5 x6 x7 x8 x9 x10 x11 where
    "collect [] (stats call b) ([], w) = (v1, x1)" "collect 0 (pending_count call b) x1 = (v2, x2)"
    "collect 0 (in_flight call b) x2 = (v3, x3)" "collect 0 (exec_pending call b) x3 = (v4, x4)"
    "collect 0 (dead_letter_count call b) x4 = (v5, x5)" "collect (0, 0, False) (ingress_backlog call b backlog_limit) x5 = (v6, x6)"
    "collect ([], []) (tenant_service call b) x6 = (v7, x7)" "collect None (oldest_pending_submit call b) x7 = (v8, x8)"
    "collect None (leadership call b) x8 = (v9, x9)" "read_int call (key b Fence) x9 = (v10, x10)"
    "read_int call (key b LeaderEpoch) x10 = (v11, x11)"
  by (metis surj_pair)

lemma quiet_read_queue:
  assumes "b_keys b = ks" "read_queue call b clock w = (r, errs, w')"
  shows "quiet call view b H w w'"
proof (rule read_queue_steps [of b w])
  fix v1 v2 v3 v4 v5 v6 v7 v8 v9 v10 v11 x1 x2 x3 x4 x5 x6 x7 x8 x9 x10 x11
  assume s: "collect [] (stats call b) ([], w) = (v1, x1)" "collect 0 (pending_count call b) x1 = (v2, x2)"
    "collect 0 (in_flight call b) x2 = (v3, x3)" "collect 0 (exec_pending call b) x3 = (v4, x4)"
    "collect 0 (dead_letter_count call b) x4 = (v5, x5)" "collect (0, 0, False) (ingress_backlog call b backlog_limit) x5 = (v6, x6)"
    "collect ([], []) (tenant_service call b) x6 = (v7, x7)" "collect None (oldest_pending_submit call b) x7 = (v8, x8)"
    "collect None (leadership call b) x8 = (v9, x9)" "read_int call (key b Fence) x9 = (v10, x10)"
    "read_int call (key b LeaderEpoch) x10 = (v11, x11)"
  have k: "key b f = k_name ks f" for f by (simp add: key_def assms(1))
  note q = quiet_queries [OF assms(1)] and c = quiet_collect
  have "quiet call view b H w (snd x11)"
    by (rule quiet_read_int [OF assms(1) _ quiet_read_int [OF assms(1) _ c [OF quiet_leadership [OF assms(1)] c [OF q(7)
          c [OF quiet_tenant_service [OF assms(1)] c [OF quiet_backlog [OF assms(1)] c [OF q(6) c [OF q(5) c [OF q(4) c [OF q(3) c [OF q(2) _
          s(1)] s(2)] s(3)] s(4)] s(5)] s(6)] s(7)] s(8)] s(9)] s(10) [unfolded k]] s(11) [unfolded k]]) simp_all
  moreover have "x11 = (errs, w')"
    using assms(2) s by (auto simp: read_queue_def Let_def split: prod.splits)
  ultimately show ?thesis by simp
qed

lemma quiet_poll:
  assumes "b_keys (cn_broker c) = ks"
  shows "quiet call view (cn_broker c) H w (snd (poll_once call c probes sts now elapsed clock w))"
proof -
  have "quiet call view (cn_broker c) H w w'" if "read_redis call c now elapsed clock w = (r, c1, w')" for r c1 w'
    using that quiet_queries(1) [OF assms, of H w]
    by (auto simp: read_redis_def Let_def split: prod.splits sum.splits if_splits dest!: quiet_read_queue [OF assms, where H = H] intro: quiet_trans)
  then show ?thesis
    by (auto simp: poll_once_def Let_def split: prod.splits)
qed

end

section \<open>A poll shows the queue\<close>

lemma collect_ok:
  assumes "collect d m x = (a, x')" "fst x' = []"
  shows "fst x = []" "fst (m (snd x)) = Inr a"
  using assms by (auto simp: collect_def split: prod.splits sum.splits)

lemma read_int_ok:
  assumes "read_int call k x = (a, x')" "fst x' = []"
  shows "fst x = []"
    "\<exists>r. fst (send (rcall call (GET k)) (snd x)) = Inr r \<and> (case r of RText t \<Rightarrow> text_int t = a \<and> a \<noteq> None | _ \<Rightarrow> a = None)"
  using assms by (auto simp: read_int_def split: prod.splits sum.splits option.splits reply.splits) (metis option.exhaust)?

lemma text_num: "text_int v = Some n \<Longrightarrow> int_text (Some v) = Some (num_text (Some v)) \<Longrightarrow> num_text (Some v) = n"
  by (auto simp: text_int_def int_text_def num_text_def split: rtext.splits if_splits)

lemma parse_counts_get:
  "parse_counts what xs = Inr m \<Longrightarrow> nums (map_of xs) \<Longrightarrow> distinct (map fst xs) \<Longrightarrow> map_get 0 m f = num_text (map_of xs f)"
proof (induction xs arbitrary: m)
  case Nil
  then show ?case by (simp add: map_get_def num_text_def)
next
  case (Cons x xs)
  obtain k v where x: "x = (k, v)" by (cases x)
  have n: "nums (map_of xs)"
    unfolding nums_def
  proof
    fix g
    have "k \<notin> fst ` set xs" using Cons.prems(3) x by simp
    then have "map_of xs k = None" by (simp add: map_of_eq_None_iff)
    then show "int_text (map_of xs g) \<noteq> None"
      using Cons.prems(2) x unfolding nums_def by (cases "g = k") (auto simp: int_text_def dest: spec [of _ g])
  qed
  have "int_text (Some v) = Some (num_text (Some v))"
    using nums_at [OF Cons.prems(2), of k] x by simp
  then show ?case
    using Cons.IH [OF _ n] Cons.prems x text_num [of v] by (auto simp: map_get_def split: option.splits sum.splits)
qed

text \<open>What a reading without an error says of the queue.\<close>

definition shows_queue :: "qstate \<Rightarrow> queue_view \<times> leadership_view \<Rightarrow> bool" where
  "shows_queue q r \<longleftrightarrow>
     qv_pending (fst r) = int (card (dom (q_pending q))) \<and> qv_in_flight (fst r) = q_inflight q \<and>
     qv_dead (fst r) = int (length (st_entries (q_dead q))) \<and> (\<forall>f. map_get 0 (qv_counters (fst r)) f = q_stats q f) \<and>
     (case lv_fence (snd r) of Some n \<Rightarrow> n | None \<Rightarrow> 0) = q_fence q \<and>
     (case lv_counter (snd r) of Some n \<Rightarrow> n | None \<Rightarrow> 0) = q_epoch q"

context queue_store
begin

lemma answer:
  assumes "b_keys b = ks" "reach call view b w H" "reads call view ks m" "fst (send m w) = Inr a"
  obtains s where "typed ks (view s)" "view s = view (n_db w)" "fst (m s) = Inr a"
proof -
  let ?I = "\<lambda>s. typed ks (view s) \<and> view s = view (n_db w)"
  have "?I (snd (m s))" if "?I s" for s
    using assms(3) that by (auto simp: reads_def)
  then have "fst (send m w) = Inl NoReply \<or> (\<exists>s. ?I s \<and> fst (send m w) = (case fst (m s) of Inl e \<Rightarrow> Inl (ErrorReply e) | Inr a \<Rightarrow> Inr a))"
    using send_inv(2) [of ?I m w] reach_inv [OF assms(2,1)] by blast
  with assms(4) obtain s where "?I s" "fst (m s) = Inr a"
    by (auto split: sum.splits) (metis old.sum.simps sum.exhaust)
  then show ?thesis
    using that by blast
qed

lemma get_answer:
  assumes "b_keys b = ks" "reach call view b w H" "fst (send (rcall call (GET (k_name ks f))) w) = Inr r" "f \<in> {InFlight, Fence, LeaderEpoch, Leader}"
  shows "r = (case str_at (view (n_db w)) (k_name ks f) of None \<Rightarrow> RNil | Some t \<Rightarrow> RText t)"
proof -
  have "reads call view ks (rcall call (GET (k_name ks f)))"
    using assms(4) reads_cmds(4) reads_more(9,11,12) by auto
  from answer [OF assms(1,2) this assms(3)] obtain s where
    s: "typed ks (view s)" "view s = view (n_db w)" "fst (rcall call (GET (k_name ks f)) s) = Inr r" .
  then have "is_str (view s) (k_name ks f)"
    using typedD [OF s(1)] assms(4) by auto
  from run_GET(1) [OF this] show ?thesis
    using s by simp
qed

text \<open>A counter kept under a string key: an absent key is 0.\<close>

lemma counter_answer:
  assumes "b_keys b = ks" "reach call view b w H" "fst (send (rcall call (GET (k_name ks f))) w) = Inr r" "f \<in> {InFlight, Fence, LeaderEpoch}"
  shows "r = RNil \<and> num_text (str_at (view (n_db w)) (k_name ks f)) = 0 \<or>
    (\<exists>t. r = RText t \<and> (\<forall>n. text_int t = Some n \<longrightarrow> n = num_text (str_at (view (n_db w)) (k_name ks f))))"
proof -
  have "int_text (str_at (view (n_db w)) (k_name ks f)) = Some (num_text (str_at (view (n_db w)) (k_name ks f)))"
    using reach_inv [OF assms(2,1)] typedD(20-22) assms(4) by blast
  moreover have "r = (case str_at (view (n_db w)) (k_name ks f) of None \<Rightarrow> RNil | Some t \<Rightarrow> RText t)"
    using get_answer [OF assms(1-3)] assms(4) by blast
  ultimately show ?thesis
    by (cases "str_at (view (n_db w)) (k_name ks f)") (simp_all add: num_text_def [of None] text_num [symmetric])
qed

lemma int_answer:
  assumes "b_keys b = ks" "reach call view b w H" "fst (int_query what call c w) = Inr n" "reads call view ks (rcall call c)"
    and "\<And>s. typed ks (view s) \<Longrightarrow> fst (call c s) = RInt (f (view s))"
  shows "n = f (view (n_db w))"
proof -
  obtain r where r: "fst (send (rcall call c) w) = Inr r" "as_int r = Some n"
    using assms(3) by (auto simp: int_query_def split: prod.splits sum.splits option.splits)
  from answer [OF assms(1,2,4) r(1)] obtain s where s: "typed ks (view s)" "view s = view (n_db w)" "fst (rcall call c s) = Inr r" .
  moreover have "rcall call c s = (Inr (RInt (f (view s))), after call c s)"
    using rcall_reply_fst [of call c s "RInt (f (view s))"] assms(5) [OF s(1)] by simp
  ultimately show ?thesis
    using r(2) by (auto simp: as_int_def)
qed

lemma stats_answer:
  assumes "b_keys b = ks" "reach call view b w H" "fst (stats call b w) = Inr m"
  shows "map_get 0 m f = q_stats (queue_at view b w) f"
proof -
  obtain xs where xs: "fst (send (rcall call (HGETALL (k_name ks Stats))) w) = Inr (RFields xs)" "parse_counts ''stats field'' xs = Inr m"
    using assms(1,3) by (auto simp: stats_def get_all_def key_def split: prod.splits sum.splits reply.splits)
  from answer [OF assms(1,2) reads_more(2) xs(1)] obtain s where
    s: "typed ks (view s)" "view s = view (n_db w)" "fst (rcall call (HGETALL (k_name ks Stats)) s) = Inr (RFields xs)" .
  have "\<exists>ys. fst (call (HGETALL (k_name ks Stats)) s) = RFields ys \<and> distinct (map fst ys) \<and> map_of ys = hash_at (view s) (k_name ks Stats)"
    using doc_after [of "HGETALL (k_name ks Stats)" s] typedD(6) [OF s(1)] by auto
  then have "distinct (map fst xs) \<and> map_of xs = hash_at (view s) (k_name ks Stats)"
    using s(3) rcall_reply_fst [of call "HGETALL (k_name ks Stats)" s] by auto
  then show ?thesis
    using parse_counts_get [OF xs(2)] typedD(17) [OF s(1)] s(2) by (simp add: qabs_def assms(1))
qed

lemma query_answers:
  assumes "b_keys b = ks" "reach call view b w H"
  shows "fst (pending_count call b w) = Inr n \<Longrightarrow> n = int (card (dom (q_pending (queue_at view b w))))"
    "fst (dead_letter_count call b w) = Inr n \<Longrightarrow> n = int (length (st_entries (q_dead (queue_at view b w))))"
    "fst (in_flight call b w) = Inr n \<Longrightarrow> n = q_inflight (queue_at view b w)"
proof -
  have z: "fst (call (ZCARD (k_name ks Pending)) s) = RInt (int (card (dom (zset_at (view s) (k_name ks Pending)))))" if "typed ks (view s)" for s
    using doc_after [of "ZCARD (k_name ks Pending)" s] typedD(4) [OF that] by simp
  have x: "fst (call (XLEN (k_name ks DeadLetter)) s) = RInt (int (length (st_entries (stream_at (view s) (k_name ks DeadLetter)))))"
    if "typed ks (view s)" for s
    using doc_after [of "XLEN (k_name ks DeadLetter)" s] typedD(16) [OF that] by simp
  show "n = int (card (dom (q_pending (queue_at view b w))))" if "fst (pending_count call b w) = Inr n"
    using int_answer [OF assms that [unfolded pending_count_def key_def assms(1)] reads_cmds(3) z] by (simp add: qabs_def assms(1))
  show "n = int (length (st_entries (q_dead (queue_at view b w))))" if "fst (dead_letter_count call b w) = Inr n"
    using int_answer [OF assms that [unfolded dead_letter_count_def key_def assms(1)] reads_more(6) x] by (simp add: qabs_def assms(1))
  show "n = q_inflight (queue_at view b w)" if "fst (in_flight call b w) = Inr n"
  proof -
    from that obtain r where r: "fst (send (rcall call (GET (k_name ks InFlight))) w) = Inr r" "r = RNil \<and> n = 0 \<or> as_int r = Some n"
      unfolding in_flight_def key_def assms(1)
      by (auto split: prod.splits sum.splits reply.splits option.splits)
    show ?thesis
      using counter_answer [OF assms r(1)] r(2) by (auto simp: as_int_def qabs_def assms(1))
  qed
qed

lemma read_int_answer:
  assumes "b_keys b = ks" "reach call view b (snd x) H" "read_int call (k_name ks f) x = (a, x')" "fst x' = []" "f \<in> {Fence, LeaderEpoch}"
  shows "(case a of Some n \<Rightarrow> n | None \<Rightarrow> 0) = num_text (str_at (view (n_db (snd x))) (k_name ks f))"
proof -
  from read_int_ok(2) [OF assms(3,4)] obtain r where
    r: "fst (send (rcall call (GET (k_name ks f))) (snd x)) = Inr r" "case r of RText t \<Rightarrow> text_int t = a \<and> a \<noteq> None | _ \<Rightarrow> a = None"
    by blast
  from counter_answer [OF assms(1,2) r(1)] show ?thesis
    using r(2) assms(5) by (auto split: reply.splits)
qed

lemma reading_shows_queue:
  assumes "b_keys b = ks" "reach call view b w H" "read_queue call b clock w = (r, [], w')"
  shows "shows_queue (queue_at view b w) r"
proof (rule read_queue_steps [of b w])
  fix v1 v2 v3 v4 v5 v6 v7 v8 v9 v10 v11 x1 x2 x3 x4 x5 x6 x7 x8 x9 x10 x11
  assume s: "collect [] (stats call b) ([], w) = (v1, x1)" "collect 0 (pending_count call b) x1 = (v2, x2)"
    "collect 0 (in_flight call b) x2 = (v3, x3)" "collect 0 (exec_pending call b) x3 = (v4, x4)"
    "collect 0 (dead_letter_count call b) x4 = (v5, x5)" "collect (0, 0, False) (ingress_backlog call b backlog_limit) x5 = (v6, x6)"
    "collect ([], []) (tenant_service call b) x6 = (v7, x7)" "collect None (oldest_pending_submit call b) x7 = (v8, x8)"
    "collect None (leadership call b) x8 = (v9, x9)" "read_int call (key b Fence) x9 = (v10, x10)"
    "read_int call (key b LeaderEpoch) x10 = (v11, x11)"
  have k: "key b f = k_name ks f" for f by (simp add: key_def assms(1))
  have out: "x11 = ([], w')" "qv_pending (fst r) = v2" "qv_in_flight (fst r) = v3" "qv_dead (fst r) = v5" "qv_counters (fst r) = v1"
      "lv_fence (snd r) = v10" "lv_counter (snd r) = v11"
    using assms(3) s by (auto simp: read_queue_def Let_def split: prod.splits)
  note q = quiet_queries [OF assms(1)] and c = quiet_collect
  have s1: "quiet call view b H w (snd x1)" by (rule c [OF q(2) _ s(1)]) simp
  note s2 = c [OF q(3) s1 s(2)]
  note s3 = c [OF q(4) s2 s(3)]
  note s4 = c [OF q(5) s3 s(4)]
  note s5 = c [OF q(6) s4 s(5)]
  note s9 = c [OF quiet_leadership [OF assms(1)] c [OF q(7) c [OF quiet_tenant_service [OF assms(1)] c [OF quiet_backlog [OF assms(1)] s5
    s(6)] s(7)] s(8)] s(9)]
  have s10: "quiet call view b H w (snd x10)" by (rule quiet_read_int [OF assms(1) _ s9 s(10) [unfolded k]]) simp
  have e10: "fst x10 = []" by (rule read_int_ok(1) [OF s(11)]) (simp add: out)
  note e9 = read_int_ok(1) [OF s(10) e10]
  note e5 = collect_ok(1) [OF s(6) collect_ok(1) [OF s(7) collect_ok(1) [OF s(8) collect_ok(1) [OF s(9) e9]]]]
  note e4 = collect_ok(1) [OF s(5) e5]
  note e3 = collect_ok(1) [OF s(4) e4]
  note e2 = collect_ok(1) [OF s(3) e3]
  note e1 = collect_ok(1) [OF s(2) e2]
  have same: "reach call view b (snd x) H" "queue_at view b (snd x) = queue_at view b w" if "quiet call view b H w (snd x)" for x :: "berr list \<times> 's net"
    using that assms(2) by (simp_all add: quiet_def)
  have "map_get 0 v1 f = q_stats (queue_at view b w) f" for f
    using stats_answer [OF assms(1,2)] collect_ok(2) [OF s(1) e1] by simp
  moreover have "v2 = int (card (dom (q_pending (queue_at view b w))))"
    using query_answers(1) [OF assms(1) same(1) [OF s1] collect_ok(2) [OF s(2) e2]] same(2) [OF s1] by simp
  moreover have "v3 = q_inflight (queue_at view b w)"
    using query_answers(3) [OF assms(1) same(1) [OF s2] collect_ok(2) [OF s(3) e3]] same(2) [OF s2] by simp
  moreover have "v5 = int (length (st_entries (q_dead (queue_at view b w))))"
    using query_answers(2) [OF assms(1) same(1) [OF s4] collect_ok(2) [OF s(5) e5]] same(2) [OF s4] by simp
  moreover have "(case v10 of Some n \<Rightarrow> n | None \<Rightarrow> 0) = q_fence (queue_at view b w)"
    using read_int_answer [OF assms(1) same(1) [OF s9] s(10) [unfolded k] e10] same(2) [OF s9] by (simp add: qabs_def assms(1))
  moreover have "(case v11 of Some n \<Rightarrow> n | None \<Rightarrow> 0) = q_epoch (queue_at view b w)"
    using read_int_answer [OF assms(1) same(1) [OF s10] s(11) [unfolded k]] same(2) [OF s10] by (simp add: qabs_def assms(1) out)
  ultimately show ?thesis
    by (simp add: shows_queue_def out)
qed

end

lemma poll_reading:
  assumes "cn_latest (fst (poll_once call c probes sts now elapsed clock w)) = Some s" "rs_ok (sn_redis s)"
  obtains w1 r w2 where "ping call w = (Inr (), w1)" "read_queue call (cn_broker c) clock w1 = (r, [], w2)"
    "sn_queue s = Some (fst r)" "sn_leadership s = snd r"
  using assms by (auto simp: poll_once_def read_redis_def Let_def split: prod.splits sum.splits if_splits)

definition demo_console :: console where
  "demo_console = new_console demo_broker [] second 0 None"

abbreviation demo_snap :: "snapshot option" where
  "demo_snap \<equiv> cn_latest (fst (poll_once mem_call demo_console [] [] 7000 9 8000 demo2))"

lemma demo_console_broker [simp]: "cn_broker demo_console = demo_broker"
  by (simp add: demo_console_def new_console_def Let_def)

lemma demo_poll: "\<exists>s v. demo_snap = Some s \<and> rs_ok (sn_redis s) \<and> sn_queue s = Some v \<and> qv_pending v = 1 \<and> qv_in_flight v = 1"
proof -
  have "(case demo_snap of Some s \<Rightarrow> rs_ok (sn_redis s) \<and> (case sn_queue s of Some v \<Rightarrow> qv_pending v = 1 \<and> qv_in_flight v = 1 | None \<Rightarrow> False) | None \<Rightarrow> False)"
    unfolding demo2_val by code_simp
  then show ?thesis by (auto split: option.splits)
qed

text \<open>
  Watching changes nothing. Whatever is lost or repeated on the way, a poll of the console leaves every key of the queue as it
  was, so the queue it watches is in a reachable state before and after.
\<close>

theorem poll_only_reads:
  assumes "redis call view" "keys_ok (b_keys (cn_broker c))" "reach call view (cn_broker c) w H"
  shows "view (n_db (snd (poll_once call c probes sts now elapsed clock w))) = view (n_db w) \<and>
    reach call view (cn_broker c) (snd (poll_once call c probes sts now elapsed clock w)) H"
  using queue_store.quiet_poll [OF queue_storeI [OF assms(1,2)] refl] assms(3) by (auto simp: quiet_def)

theorem poll_only_reads_witness:
  "mem_view (n_db (snd (poll_once mem_call demo_console [] [] 7000 9 8000 demo2))) = mem_view (n_db demo2) \<and>
    (\<exists>s. demo_snap = Some s \<and> rs_ok (sn_redis s))"
  using poll_only_reads [OF demo_redis, of demo_console demo2 "{}"] demo_keys demo2_reach demo_poll by auto



section \<open>The leader sum and the lease events\<close>

definition reports_leader :: "component \<Rightarrow> bool" where
  "reports_leader c \<longleftrightarrow> is_scheduler c \<and> (case metric c ''tq_scheduler_is_leader'' of Some v \<Rightarrow> fle (Fin 1) v | None \<Rightarrow> False)"

text \<open>A scheduler whose gauge was not read may still be leading, unless the supervisor knows its process has exited.\<close>

definition may_lead_unseen :: "component \<Rightarrow> bool" where
  "may_lead_unseen c \<longleftrightarrow> is_scheduler c \<and> metric c ''tq_scheduler_is_leader'' = None \<and> map_option st_state (cm_process c) \<noteq> Some StExited"

lemma count_leader_eq:
  "count_leader x c = (fst x + (if reports_leader c then 1 else 0), snd x \<and> \<not> may_lead_unseen c)"
  by (auto simp: count_leader_def reports_leader_def may_lead_unseen_def split: option.splits)

lemma count_leaders:
  "foldl count_leader x cs = (fst x + int (length (filter reports_leader cs)), snd x \<and> \<not> list_ex may_lead_unseen cs)"
  by (induction cs arbitrary: x) (auto simp: count_leader_eq)

text \<open>
  The leader sum is never a guess. It is the number of schedulers whose gauge reads at least 1, and it is withheld as soon as one
  scheduler could be leading unseen: its gauge was not read and its process is not known to have exited.
\<close>

theorem leader_sum_exact:
  "leader_sum cs = (if list_ex may_lead_unseen cs then None else Some (int (length (filter reports_leader cs))))"
  by (simp add: leader_sum_def count_leaders)

text \<open>The grant a snapshot shows.\<close>

definition grant_shown :: "snapshot \<Rightarrow> (string \<times> int) option" where
  "grant_shown s = (if lv_held (sn_leadership s) then Some (lv_owner (sn_leadership s), lv_epoch (sn_leadership s)) else None)"

definition lease_event :: "time \<Rightarrow> (string \<times> int) option \<Rightarrow> (string \<times> int) option \<Rightarrow> event" where
  "lease_event t old new =
     (case new of
        None \<Rightarrow> observed t ''lease_vacant'' (fst (the old)) ''the lease is free: no scheduler holds it (was %s, epoch %d)''
          [AStr (fst (the old)), AInt (snd (the old))]
      | Some g \<Rightarrow> observed t ''lease_holder'' (fst g) ''the lease is held by %s, epoch %d'' [AStr (fst g), AInt (snd g)])"

lemma diff_lease_eq:
  "diff_lease p c = (if grant_shown p = grant_shown c then [] else [lease_event (sn_at c) (grant_shown p) (grant_shown c)])"
  by (auto simp: diff_lease_def grant_shown_def lease_event_def Let_def)

end
