(* ===== verification/Submitter.thy ===== *)
theory Submitter
  imports Console Workload
begin

text \<open>
  The preset workloads a visitor of the console may submit (\<open>internal/console/workload.go\<close>). A submission is three steps: \<open>Start\<close> claims
  a number under the lock, builds the plan without it, takes it again to publish the status; and a goroutine records how the
  submission ended. Each critical section is one definition, so that the steps of two requests can interleave.
\<close>

section \<open>Presets and plans\<close>

record preset =
  pre_id :: string
  pre_label :: string
  pre_type :: string
  pre_count :: int
  pre_load :: f64

definition presets :: "preset list" where
  "presets =
     [\<lparr>pre_id = ''steady'', pre_label = ''Steady, below capacity'', pre_type = ''uniform'', pre_count = 1500, pre_load = lit (7/10)\<rparr>,
      \<lparr>pre_id = ''overload'', pre_label = ''Overload'', pre_type = ''uniform'', pre_count = 2000, pre_load = lit (3/2)\<rparr>,
      \<lparr>pre_id = ''tenant-skew'', pre_label = ''Noisy neighbour'', pre_type = ''multi_tenant'', pre_count = 2000, pre_load = lit (5/4)\<rparr>]"

definition find_preset :: "string \<Rightarrow> preset option" where
  "find_preset i = fold (\<lambda>p found. if pre_id p = i then Some p else found) presets None"

datatype start_error = UnknownPreset string | StillSubmitting string | PlanFailed plan_error | LoadFailed load_error

definition plan_prefix :: "preset \<Rightarrow> int \<Rightarrow> string" where
  "plan_prefix p seq = ''demo'' @ show_int seq @ ''-'' @ pre_id p"

definition preset_workload :: "preset \<Rightarrow> int \<Rightarrow> workload_cfg" where
  "preset_workload p seq =
     (c_workload default_config)\<lparr>wl_type := pre_type p, wl_count := pre_count p, wl_seed := i64 (1000 + seq), wl_prefix := plan_prefix p seq\<rparr>"

definition plan_preset :: "mathlib \<Rightarrow> (int \<Rightarrow> rng) \<Rightarrow> preset \<Rightarrow> int \<Rightarrow> int \<Rightarrow> start_error + spec list \<times> f64" where
  "plan_preset ml source p n_slots seq =
     (let cfg = preset_workload p seq in
      case generate ml source cfg of
        Inl e \<Rightarrow> Inl (PlanFailed e)
      | Inr specs \<Rightarrow>
          (case rate_for_load (pre_load p) (ps_mean_ms (summarise_plan specs)) n_slots of
             Inl e \<Rightarrow> Inl (LoadFailed e)
           | Inr rt \<Rightarrow>
               (case with_arrival_rate cfg rt of
                  Inl e \<Rightarrow> Inl (LoadFailed e)
                | Inr cfg' \<Rightarrow>
                    (case generate ml source cfg' of
                       Inl e \<Rightarrow> Inl (PlanFailed e)
                     | Inr specs' \<Rightarrow> Inr (specs', rt)))))"

section \<open>Submissions\<close>

text \<open>\<open>ss_finished\<close> is \<open>None\<close> while the submission runs; a failed one has an error beside its count.\<close>

record submission =
  ss_preset :: string
  ss_total :: int
  ss_rate :: f64
  ss_started :: time
  ss_finished :: "time option"
  ss_submitted :: int
  ss_error :: "submit_error option"
  ss_running :: bool

text \<open>
  A status is shared between \<open>Start\<close>, which publishes it, and the goroutine, which finishes it: \<open>sb_all\<close> holds every status in
  order of publication, \<open>sb_status\<close> which of them the submitter points to, \<open>sb_jobs\<close> the goroutines that have not finished, each with
  the index of its status and the tasks it submits.
\<close>

record submitter =
  sb_slots :: int
  sb_all :: "submission list"
  sb_status :: "nat option"
  sb_n :: int
  sb_jobs :: "(nat \<times> spec list) list"
  sb_events :: "event list"

definition new_submitter :: "int \<Rightarrow> submitter" where
  "new_submitter n_slots = \<lparr>sb_slots = n_slots, sb_all = [], sb_status = None, sb_n = 0, sb_jobs = [], sb_events = []\<rparr>"

definition status :: "submitter \<Rightarrow> submission option" where
  "status s = map_option (\<lambda>i. sb_all s ! i) (sb_status s)"

definition control :: "time \<Rightarrow> string \<Rightarrow> string \<Rightarrow> string \<Rightarrow> arg list \<Rightarrow> event" where
  "control t kind subject fmt args =
     \<lparr>ev_seq = 0, ev_at = t, ev_source = Control, ev_kind = kind, ev_subject = subject, ev_format = fmt, ev_args = args\<rparr>"

text \<open>The first critical section: refuse while a submission runs, otherwise take the next number.\<close>

definition claim :: "string \<Rightarrow> submitter \<Rightarrow> (start_error + preset \<times> int) \<times> submitter" where
  "claim i s =
     (case find_preset i of
        None \<Rightarrow> (Inl (UnknownPreset i), s)
      | Some p \<Rightarrow>
          (case status s of
             Some st \<Rightarrow> if ss_running st then (Inl (StillSubmitting (ss_preset st)), s) else (Inr (p, sb_n s + 1), s\<lparr>sb_n := sb_n s + 1\<rparr>)
           | None \<Rightarrow> (Inr (p, sb_n s + 1), s\<lparr>sb_n := sb_n s + 1\<rparr>)))"

text \<open>The second: publish the status of the plan and start the goroutine.\<close>

definition publish :: "preset \<Rightarrow> start_error + spec list \<times> f64 \<Rightarrow> time \<Rightarrow> submitter \<Rightarrow> (start_error + submission) \<times> submitter" where
  "publish p planned now s =
     (case planned of
        Inl e \<Rightarrow> (Inl e, s)
      | Inr (specs, rt) \<Rightarrow>
          (let st = \<lparr>ss_preset = pre_id p, ss_total = int (length specs), ss_rate = rt, ss_started = now, ss_finished = None,
                     ss_submitted = 0, ss_error = None, ss_running = True\<rparr>;
               i = length (sb_all s) in
           (Inr st, s\<lparr>sb_all := sb_all s @ [st], sb_status := Some i, sb_jobs := (i, specs) # sb_jobs s,
              sb_events := sb_events s @ [control now ''workload_started'' (pre_id p) ''submitting %d tasks (%s) at %.0f tasks/s, %.2gx capacity''
                [AInt (int (length specs)), AStr (pre_label p), AFlt rt, AFlt (pre_load p)]]\<rparr>)))"

text \<open>The goroutine's: what the producer reported, and when.\<close>

definition finish :: "nat \<times> spec list \<Rightarrow> int \<Rightarrow> submit_error option \<Rightarrow> time \<Rightarrow> submitter \<Rightarrow> submitter" where
  "finish job n err now s =
     (let st = sb_all s ! fst job;
          st' = st\<lparr>ss_running := False, ss_finished := Some now, ss_submitted := n, ss_error := err\<rparr> in
      s\<lparr>sb_all := (sb_all s)[fst job := st'], sb_jobs := removeAll job (sb_jobs s),
        sb_events := sb_events s @ [control now ''workload_finished'' (ss_preset st) (case err of None \<Rightarrow> ''submitted %d of %d tasks'' | Some _ \<Rightarrow> ''submitted %d of %d tasks: %v'')
          [AInt n, AInt (int (length (snd job)))]]\<rparr>)"

text \<open>The whole of \<open>Start\<close>, when nothing comes between its two sections.\<close>

definition start_preset :: "mathlib \<Rightarrow> (int \<Rightarrow> rng) \<Rightarrow> string \<Rightarrow> time \<Rightarrow> submitter \<Rightarrow> (start_error + submission) \<times> submitter" where
  "start_preset ml source i now s =
     (case claim i s of
        (Inl e, s') \<Rightarrow> (Inl e, s')
      | (Inr (p, seq), s') \<Rightarrow> publish p (plan_preset ml source p (sb_slots s') seq) now s')"

section \<open>Interleavings\<close>

text \<open>
  The submitter with the requests between their two sections (\<open>waiting\<close>) and the plans published so far. With \<open>serial\<close>, a request claims
  only when no other is between its sections.
\<close>

inductive submitting ::
  "mathlib \<Rightarrow> (int \<Rightarrow> rng) \<Rightarrow> bool \<Rightarrow> submitter \<Rightarrow> (preset \<times> int) list \<Rightarrow> spec list list \<Rightarrow> bool"
  for ml source serial where
  fresh: "submitting ml source serial (new_submitter n_slots) [] []"
| claims: "\<lbrakk>submitting ml source serial s ws ps; serial \<longrightarrow> ws = []; claim i s = (Inr x, s')\<rbrakk> \<Longrightarrow> submitting ml source serial s' (x # ws) ps"
| refused: "\<lbrakk>submitting ml source serial s ws ps; claim i s = (Inl e, s')\<rbrakk> \<Longrightarrow> submitting ml source serial s' ws ps"
| fails: "\<lbrakk>submitting ml source serial s ws ps; (p, seq) \<in> set ws; plan_preset ml source p (sb_slots s) seq = Inl e\<rbrakk> \<Longrightarrow>
    submitting ml source serial s (remove1 (p, seq) ws) ps"
| publishes: "\<lbrakk>submitting ml source serial s ws ps; (p, seq) \<in> set ws; plan_preset ml source p (sb_slots s) seq = Inr (specs, rt);
    publish p (Inr (specs, rt)) now s = (Inr st, s')\<rbrakk> \<Longrightarrow> submitting ml source serial s' (remove1 (p, seq) ws) (specs # ps)"
| finishes: "\<lbrakk>submitting ml source serial s ws ps; job \<in> set (sb_jobs s)\<rbrakk> \<Longrightarrow>
    submitting ml source serial (finish job n err now s) ws ps"

end
