(* ===== verification/Server.thy ===== *)
theory Server
  imports ConsolePoll Submitter
begin

text \<open>
  The console's HTTP layer (\<open>internal/console/server.go\<close>): the Host check on every request, the token and origin checks on every
  control request, and the handlers over the console, the supervisor and the submitter. A request is its method, its path as the
  router cleans it, the headers the code reads, its query and what its body decodes to; strings are bytes, and \<open>strings.ToLower\<close> is
  written out for the ASCII ones, the only ones a Host or an Origin has.
\<close>

section \<open>Construction\<close>

definition lower_char :: "char \<Rightarrow> char" where
  "lower_char c = (if 65 \<le> (of_char c :: nat) \<and> (of_char c :: nat) \<le> 90 then char_of ((of_char c :: nat) + 32) else c)"

definition to_lower :: "string \<Rightarrow> string" where
  "to_lower s = map lower_char s"

definition trim_right :: "char \<Rightarrow> string \<Rightarrow> string" where
  "trim_right c s = rev (dropWhile (\<lambda>d. d = c) (rev s))"

record server =
  srv_mode :: string
  srv_faults :: bool
  srv_token :: string
  srv_hosts :: "string list"
  srv_origins :: "string list"
  srv_extra :: "string list"
  srv_static :: bool
  srv_poll :: duration
  srv_started :: time

definition new_server :: "string \<Rightarrow> bool \<Rightarrow> string \<Rightarrow> string list \<Rightarrow> string list \<Rightarrow> bool \<Rightarrow> duration \<Rightarrow> time \<Rightarrow> server" where
  "new_server mode faults token hosts origins static poll now =
     (let hs = map to_lower hosts; ex = map (\<lambda>o'. to_lower (trim_right (CHR ''/'') o')) origins in
      \<lparr>srv_mode = mode, srv_faults = faults, srv_token = token, srv_hosts = hs, srv_origins = map (\<lambda>h. ''http://'' @ h) hs @ ex,
       srv_extra = ex, srv_static = static, srv_poll = poll, srv_started = now\<rparr>)"

text \<open>
  \<open>loopback_hosts\<close>: \<open>split\<close> is \<open>net.SplitHostPort\<close>, \<open>loop\<close> whether the text is an IP address of the loopback interface.
\<close>

datatype listen_error = BadAddress string | NotLoopback string

definition loopback_hosts :: "(string \<Rightarrow> string + string \<times> string) \<Rightarrow> (string \<Rightarrow> bool) \<Rightarrow> string \<Rightarrow> listen_error + string list" where
  "loopback_hosts split loop addr =
     (case split addr of
        Inl e \<Rightarrow> Inl (BadAddress e)
      | Inr (host, port) \<Rightarrow>
          if host \<noteq> ''localhost'' \<and> \<not> loop host then Inl (NotLoopback host)
          else Inr [''127.0.0.1:'' @ port, ''localhost:'' @ port, ''[::1]:'' @ port])"

section \<open>Requests and answers\<close>

text \<open>An absent header or query value is empty. The body decodes to a value of the type its handler reads, or not.\<close>

record http_request =
  rq_method :: string
  rq_path :: string
  rq_host :: string
  rq_origin :: string
  rq_site :: string
  rq_ctype :: string
  rq_token :: string
  rq_query :: "string \<Rightarrow> string"
  rq_fault :: "string + fault_request"
  rq_clear :: "string + unit"
  rq_preset :: "string + string"

record controls_info =
  ci_faults :: bool
  ci_reason :: string
  ci_actions :: "(string \<times> string list) list"
  ci_processes :: "(string \<times> process_state) list"
  ci_min_ms :: int
  ci_max_ms :: int
  ci_presets :: "preset list"
  ci_submission :: "submission option"

record console_info =
  cf_mode :: string
  cf_started :: time
  cf_server_time :: time
  cf_poll_ms :: int
  cf_faults :: bool

record dead_letter_entry =
  de_task :: string
  de_tenant :: string
  de_attempts :: int
  de_reason :: string
  de_failed_at :: time

datatype failure =
    UnexpectedHost | NoSuchEndpoint | MonitorMode | CrossOrigin | CrossSite | NotJson | WrongToken
  | ReadFailed string berr | FaultsOff | NoSubmitter | Malformed string | FaultError sup_error | StartError start_error

datatype payload =
    PStatus console_info "snapshot option"
  | PHistory console_info "sample list"
  | PEvents "event list"
  | PDispatches time "dispatch_window option"
  | PTenants time tenant_window
  | PDead time "dead_letter_entry list"
  | PControls controls_info
  | PApplied applied
  | PCleared "(string \<times> string) list"
  | PSubmission submission

text \<open>\<open>Page\<close> stands for what is served outside \<open>/api/\<close>: the built frontend, or the router's own not-found.\<close>

datatype response = Refused int failure | Served int payload | Page

section \<open>The checks\<close>

definition dev_origin :: "server \<Rightarrow> http_request \<Rightarrow> bool" where
  "dev_origin s r \<longleftrightarrow> rq_origin r \<noteq> [] \<and> to_lower (rq_origin r) \<in> set (srv_extra s)"

definition write_check :: "server \<Rightarrow> http_request \<Rightarrow> (int \<times> failure) option" where
  "write_check s r =
     (if srv_token s = [] then Some (403, MonitorMode)
      else if rq_origin r \<noteq> [] \<and> to_lower (rq_origin r) \<notin> set (srv_origins s) then Some (403, CrossOrigin)
      else if rq_site r \<noteq> [] \<and> rq_site r \<noteq> ''same-origin'' \<and> rq_site r \<noteq> ''none'' \<and> \<not> dev_origin s r then Some (403, CrossSite)
      else if \<not> has_prefix (rq_ctype r) ''application/json'' then Some (415, NotJson)
      else if rq_token r \<noteq> srv_token s then Some (401, WrongToken)
      else None)"

definition clamp_int :: "string \<Rightarrow> int \<Rightarrow> int \<Rightarrow> int \<Rightarrow> int" where
  "clamp_int s def lo hi = (case go_parse_int s of (n, ok) \<Rightarrow> if ok then min (max n lo) hi else def)"

text \<open>\<open>strconv.ParseUint\<close>, its error ignored: digits only, and the largest value when there are too many.\<close>

definition parse_since :: "string \<Rightarrow> 64 word" where
  "parse_since s =
     (if s = [] \<or> \<not> list_all is_digit s then 0
      else if 2 ^ 64 \<le> digits_val s then - 1 else of_nat (digits_val s))"

section \<open>Handlers\<close>

record app =
  ap_console :: console
  ap_sup :: "supervisor option"
  ap_sub :: "submitter option"

text \<open>What a request meets: the clock, the outcome of a signal, the process table, a started process, the random source.\<close>

record env =
  en_now :: time
  en_sig :: "string option"
  en_ps :: "string option"
  en_started :: "string + int"
  en_math :: mathlib
  en_source :: "int \<Rightarrow> rng"

definition info :: "server \<Rightarrow> env \<Rightarrow> console_info" where
  "info s e =
     \<lparr>cf_mode = srv_mode s, cf_started = srv_started s, cf_server_time = en_now e, cf_poll_ms = dur_millis (srv_poll s), cf_faults = srv_faults s\<rparr>"

definition log_all :: "event list \<Rightarrow> app \<Rightarrow> app" where
  "log_all es a = a\<lparr>ap_console := (ap_console a)\<lparr>cn_events := log_events es (cn_events (ap_console a))\<rparr>\<rparr>"

text \<open>The supervisor and the submitter write to the console's event log: what they recorded moves there at once.\<close>

definition put_sup :: "supervisor \<Rightarrow> app \<Rightarrow> app" where
  "put_sup v a = log_all (sv_events v) (a\<lparr>ap_sup := Some (v\<lparr>sv_events := []\<rparr>)\<rparr>)"

definition put_sub :: "submitter \<Rightarrow> app \<Rightarrow> app" where
  "put_sub v a = log_all (sb_events v) (a\<lparr>ap_sub := Some (v\<lparr>sb_events := []\<rparr>)\<rparr>)"

definition dispatch_cap :: int where
  "dispatch_cap = 60000"

definition results_cap :: int where
  "results_cap = 20000"

definition get_dispatches :: "(cmd \<Rightarrow> 's \<Rightarrow> reply \<times> 's) \<Rightarrow> env \<Rightarrow> http_request \<Rightarrow> broker \<Rightarrow> 's net \<Rightarrow> response \<times> 's net" where
  "get_dispatches call e r b w =
     (let win = clamp_int (rq_query r ''window_s'') 60 10 300 * second; from = en_now e - win in
      case dispatches_since call b from dispatch_cap w of
        ((_, Some err), w') \<Rightarrow> (Refused 502 (ReadFailed ''could not read the dispatch log from Redis'' err), w')
      | ((msgs, None), w') \<Rightarrow> (Served 200 (PDispatches (en_now e) (summarise_dispatches msgs from win (250 * millisecond) dispatch_cap)), w'))"

definition get_tenants :: "(cmd \<Rightarrow> 's \<Rightarrow> reply \<times> 's) \<Rightarrow> env \<Rightarrow> http_request \<Rightarrow> broker \<Rightarrow> 's net \<Rightarrow> response \<times> 's net" where
  "get_tenants call e r b w =
     (let win = clamp_int (rq_query r ''window_s'') 120 10 600 * second in
      case results_since call b (en_now e - win) results_cap w of
        ((_, Some err), w') \<Rightarrow> (Refused 502 (ReadFailed ''could not read the results stream'' err), w')
      | ((rs, None), w') \<Rightarrow> (Served 200 (PTenants (en_now e) (summarise_tenants rs win results_cap)), w'))"

definition dead_entry :: "dead_letter \<Rightarrow> dead_letter_entry" where
  "dead_entry d =
     \<lparr>de_task = t_id (d_task d), de_tenant = t_tenant (d_task d), de_attempts = d_attempts d, de_reason = d_reason d, de_failed_at = d_failed_at d\<rparr>"

definition get_dlq :: "(cmd \<Rightarrow> 's \<Rightarrow> reply \<times> 's) \<Rightarrow> env \<Rightarrow> http_request \<Rightarrow> broker \<Rightarrow> 's net \<Rightarrow> response \<times> 's net" where
  "get_dlq call e r b w =
     (case read_dead_letters call b (clamp_int (rq_query r ''limit'') 50 1 200) w of
        ((_, Some err), w') \<Rightarrow> (Refused 502 (ReadFailed ''could not read the dead-letter stream'' err), w')
      | ((ds, None), w') \<Rightarrow> (Served 200 (PDead (en_now e) (map dead_entry ds)), w'))"

definition action_order :: "string list" where
  "action_order = [''kill'', ''terminate'', ''freeze'', ''partition'', ''restart'']"

definition controls_of :: "server \<Rightarrow> app \<Rightarrow> controls_info" where
  "controls_of s a =
     \<lparr>ci_faults = (ap_sup a \<noteq> None \<and> srv_faults s),
      ci_reason = (if ap_sup a = None then ''monitor mode: the console did not start these processes, so it will not signal them''
        else if \<not> srv_faults s then ''fault injection is off; restart the console with --enable-faults to turn it on'' else []),
      ci_actions = (if ap_sup a = None then []
        else map (\<lambda>role. (role, filter (\<lambda>x. x \<in> set (allowed role)) action_order)) [''scheduler'', ''worker'']),
      ci_processes = (case ap_sup a of Some v \<Rightarrow> states v | None \<Rightarrow> []), ci_min_ms = dur_millis min_fault, ci_max_ms = dur_millis max_fault,
      ci_presets = (if ap_sub a = None then [] else presets),
      ci_submission = (case ap_sub a of Some v \<Rightarrow> status v | None \<Rightarrow> None)\<rparr>"

text \<open>The text \<open>Apply\<close> returns.\<close>

definition applied_text :: "applied \<Rightarrow> string \<times> arg list" where
  "applied_text x =
     (case x of
        Restarted n \<Rightarrow> (''restarted %s'', [AStr n])
      | Killed n pid \<Rightarrow> (''sent SIGKILL to %s (pid %d)'', [AStr n, AInt pid])
      | Terminated n pid \<Rightarrow> (''sent SIGTERM to %s (pid %d)'', [AStr n, AInt pid])
      | Frozen n pid ps d \<Rightarrow>
          (''sent SIGSTOP to %s (pid %d), %s; SIGCONT in %s'',
           [AStr n, AInt pid,
            AStr (case ps of
              None \<Rightarrow> ''stop not verified: ps unavailable''
            | Some st \<Rightarrow> if has_prefix st ''T'' then ''verified stopped (ps state '' @ st @ '')'' else ''ps reports state '' @ st @ '', not stopped''),
            ADur d])
      | Cut n d \<Rightarrow> (''cut %s off from Redis; heals in %s'', [AStr n, ADur d]))"

definition post_fault :: "server \<Rightarrow> env \<Rightarrow> http_request \<Rightarrow> app \<Rightarrow> response \<times> app" where
  "post_fault s e r a =
     (case ap_sup a of
        None \<Rightarrow> (Refused 403 FaultsOff, a)
      | Some v \<Rightarrow>
          if \<not> srv_faults s then (Refused 403 FaultsOff, a)
          else case rq_fault r of
            Inl m \<Rightarrow> (Refused 400 (Malformed m), a)
          | Inr f \<Rightarrow>
              (case apply_fault f (lease_owner (ap_console a)) (en_sig e) (en_ps e) (en_started e) (en_now e) v of
                 (Inl err, v') \<Rightarrow> (Refused (if rejected err then 409 else 400) (FaultError err), put_sup v' a)
               | (Inr x, v') \<Rightarrow>
                   (Served 200 (PApplied x),
                    log_all [control (en_now e) (''fault_'' @ fr_action f) (fr_target f) (fst (applied_text x)) (snd (applied_text x))] (put_sup v' a))))"

definition cleared_text :: "(string \<times> string) list \<Rightarrow> string" where
  "cleared_text done =
     (if done = [] then ''no timed faults were in progress''
      else concat (map (\<lambda>x. ''ended '' @ fst x @ '' on '' @ snd x @ ''; '') (butlast done)) @
        ''ended '' @ fst (last done) @ '' on '' @ snd (last done))"

definition post_clear :: "server \<Rightarrow> env \<Rightarrow> http_request \<Rightarrow> app \<Rightarrow> response \<times> app" where
  "post_clear s e r a =
     (case ap_sup a of
        None \<Rightarrow> (Refused 403 FaultsOff, a)
      | Some v \<Rightarrow>
          if \<not> srv_faults s then (Refused 403 FaultsOff, a)
          else case rq_clear r of
            Inl m \<Rightarrow> (Refused 400 (Malformed m), a)
          | Inr _ \<Rightarrow>
              (case clear_all v of
                 (done, v') \<Rightarrow>
                   (Served 200 (PCleared done),
                    log_all [control (en_now e) ''faults_cleared'' [] ''%s'' [AStr (cleared_text done)]] (put_sup v' a))))"

text \<open>When no other request for a preset comes between the two sections of \<open>Start\<close>.\<close>

definition post_workload :: "server \<Rightarrow> env \<Rightarrow> http_request \<Rightarrow> app \<Rightarrow> response \<times> app" where
  "post_workload s e r a =
     (case ap_sub a of
        None \<Rightarrow> (Refused 403 NoSubmitter, a)
      | Some v \<Rightarrow>
          (case rq_preset r of
             Inl m \<Rightarrow> (Refused 400 (Malformed m), a)
           | Inr i \<Rightarrow>
               (case start_preset (en_math e) (en_source e) i (en_now e) v of
                  (Inl err, v') \<Rightarrow>
                    (Refused (case err of StillSubmitting _ \<Rightarrow> 409 | _ \<Rightarrow> 400) (StartError err), put_sub v' a)
                | (Inr st, v') \<Rightarrow> (Served 202 (PSubmission st), put_sub v' a))))"

section \<open>Routing\<close>

text \<open>A \<open>GET\<close> pattern also matches \<open>HEAD\<close>; under \<open>/api/\<close> whatever matches no other pattern has no endpoint.\<close>

datatype endpoint = EStatus | EHistory | EEvents | EDispatches | EDlq | ETenants | EControls | EFault | EClear | EWorkload | ENone | EPage

definition route :: "http_request \<Rightarrow> endpoint" where
  "route r =
     (let get = rq_method r \<in> {''GET'', ''HEAD''}; post = rq_method r = ''POST''; p = rq_path r in
      if get \<and> p = ''/api/v1/status'' then EStatus
      else if get \<and> p = ''/api/v1/history'' then EHistory
      else if get \<and> p = ''/api/v1/events'' then EEvents
      else if get \<and> p = ''/api/v1/dispatches'' then EDispatches
      else if get \<and> p = ''/api/v1/dlq'' then EDlq
      else if get \<and> p = ''/api/v1/tenants'' then ETenants
      else if get \<and> p = ''/api/v1/controls'' then EControls
      else if post \<and> p = ''/api/v1/faults'' then EFault
      else if post \<and> p = ''/api/v1/faults/clear'' then EClear
      else if post \<and> p = ''/api/v1/workload'' then EWorkload
      else if has_prefix p ''/api/'' then ENone
      else EPage)"

definition guarded_write :: "server \<Rightarrow> http_request \<Rightarrow> (app \<Rightarrow> response \<times> app) \<Rightarrow> app \<Rightarrow> response \<times> app" where
  "guarded_write s r h a = (case write_check s r of Some (code, f) \<Rightarrow> (Refused code f, a) | None \<Rightarrow> h a)"

definition handle ::
  "(cmd \<Rightarrow> 's \<Rightarrow> reply \<times> 's) \<Rightarrow> server \<Rightarrow> env \<Rightarrow> http_request \<Rightarrow> app \<Rightarrow> 's net \<Rightarrow> response \<times> app \<times> 's net" where
  "handle call s e r a w =
     (let c = ap_console a; b = cn_broker c in
      if to_lower (rq_host r) \<notin> set (srv_hosts s) then (Refused 421 UnexpectedHost, a, w)
      else case route r of
        EStatus \<Rightarrow> (Served 200 (PStatus (info s e) (cn_latest c)), a, w)
      | EHistory \<Rightarrow> (Served 200 (PHistory (info s e) (cn_history c)), a, w)
      | EEvents \<Rightarrow> (Served 200 (PEvents (events_since (parse_since (rq_query r ''since'')) (cn_events c))), a, w)
      | EDispatches \<Rightarrow> (case get_dispatches call e r b w of (x, w') \<Rightarrow> (x, a, w'))
      | EDlq \<Rightarrow> (case get_dlq call e r b w of (x, w') \<Rightarrow> (x, a, w'))
      | ETenants \<Rightarrow> (case get_tenants call e r b w of (x, w') \<Rightarrow> (x, a, w'))
      | EControls \<Rightarrow> (Served 200 (PControls (controls_of s a)), a, w)
      | EFault \<Rightarrow> (case guarded_write s r (post_fault s e r) a of (x, a') \<Rightarrow> (x, a', w))
      | EClear \<Rightarrow> (case guarded_write s r (post_clear s e r) a of (x, a') \<Rightarrow> (x, a', w))
      | EWorkload \<Rightarrow> (case guarded_write s r (post_workload s e r) a of (x, a') \<Rightarrow> (x, a', w))
      | ENone \<Rightarrow> (Refused 404 NoSuchEndpoint, a, w)
      | EPage \<Rightarrow> (Page, a, w))"

end
