(* ===== verification/WorkloadProps.thy ===== *)
theory WorkloadProps
  imports Workload
begin

text \<open>
  What a generated plan promises: as many tasks as asked for, distinct ids, durations and priorities in range, every task one
  the scheduler accepts; and what the producer reports.
\<close>

section \<open>The random source and the library, as documented\<close>

definition unit_draw :: "f64 \<Rightarrow> bool" where
  "unit_draw u \<longleftrightarrow> (\<exists>q. u = Fin q \<and> 0 \<le> q \<and> q < 1)"

definition rng_ok :: "rng \<Rightarrow> bool" where
  "rng_ok r \<longleftrightarrow> (\<forall>i. unit_draw (r_float r i)) \<and> (\<forall>i n. 0 < n \<longrightarrow> 0 \<le> r_int r i n \<and> r_int r i n < n)"

text \<open>A number in the unit interval raised to a power that is not positive is at least 1.\<close>

definition pow_ok :: "mathlib \<Rightarrow> bool" where
  "pow_ok ml \<longleftrightarrow> (\<forall>q e. 0 < q \<longrightarrow> q \<le> 1 \<longrightarrow> fle e (Fin 0) \<longrightarrow> fle (Fin 1) (mf_pow ml (Fin q) e))"

lemma rng_step [simp]: "rng_ok (r\<lparr>r_pos := n\<rparr>) = rng_ok r"
  by (simp add: rng_ok_def)

lemma float64_draw: "rng_ok r \<Longrightarrow> float64 r = (u, r') \<Longrightarrow> unit_draw u \<and> rng_ok r'"
  by (auto simp: float64_def rng_ok_def)

lemma int63n_draw: "rng_ok r \<Longrightarrow> 0 < n \<Longrightarrow> int63n n r = (d, r') \<Longrightarrow> 0 \<le> d \<and> d < n \<and> rng_ok r'"
  by (auto simp: int63n_def rng_ok_def)

section \<open>The parts of a draw\<close>

lemma pick_from_range: "pick_from u i cs = Some j \<Longrightarrow> i \<le> j \<and> j < i + int (length cs)"
  by (induction u i cs rule: pick_from.induct) (auto split: if_splits)

lemma pick_range: "cdf \<noteq> [] \<Longrightarrow> 0 \<le> pick u cdf \<and> pick u cdf < int (length cdf)"
  using pick_from_range [of u 0 cdf] by (cases cdf) (auto simp: pick_def split: option.splits)

lemma length_cumulate [simp]: "length (cumulate tot acc ws) = length ws"
  by (induction ws arbitrary: acc) auto

lemma cumulate_Nil [simp]: "cumulate tot acc ws = [] \<longleftrightarrow> ws = []"
  by (cases ws) simp_all

lemma length_build_cdf [simp]: "length (build_cdf ws) = length ws"
  by (cases ws) (auto simp: build_cdf_def Let_def Suc_diff_1)

lemma smallest_nonzero: "\<exists>q. smallest_nonzero = Fin q \<and> 0 < q \<and> q \<le> 1"
proof -
  have "0 < (1 / 2 ^ n :: rat) \<and> 1 / 2 ^ n \<le> (1 :: rat)" for n
    by (simp add: field_simps)
  then show ?thesis unfolding smallest_nonzero_def by blast
qed

lemma not_zero_draw: "unit_draw u \<Longrightarrow> \<exists>q. not_zero_draw u = Fin q \<and> 0 < q \<and> q \<le> 1"
  using smallest_nonzero by (auto simp: unit_draw_def not_zero_draw_def fle_def feq_def)

lemma alpha_exponent: "\<not> fle a (Fin 0) \<Longrightarrow> a \<noteq> NaN \<Longrightarrow> fle (fdiv (Fin (- 1)) a) (Fin 0)"
proof (cases a)
  case (Fin q)
  moreover assume "\<not> fle a (Fin 0)"
  ultimately have "0 < q"
    by (auto simp: fle_def feq_def)
  then show ?thesis
    using Fin f64_round_mono [of "- 1 / q" 0] by (simp add: f64_round_def [of 0] Let_def)
qed (auto simp: fle_def feq_def)

lemma in_i64_between: "\<lbrakk>0 < a; a \<le> n; n \<le> b; b \<le> 2 ^ 53\<rbrakk> \<Longrightarrow> in_i64 n"
  by (simp add: in_i64_def)

lemma pareto_bounds:
  assumes "rng_ok r" "pow_ok ml" "\<not> fle (ht_alpha ht) (Fin 0)" "ht_alpha ht \<noteq> NaN"
    and "0 < ht_min ht" "ht_min ht \<le> ht_max ht" "ht_max ht \<le> 2 ^ 53" "pareto_millis ml ht r = (d, r')"
  shows "ht_min ht \<le> d \<and> d \<le> ht_max ht \<and> rng_ok r'"
proof -
  obtain u where u: "float64 r = (u, r')"
    using assms(8) by (auto simp: pareto_millis_def Let_def split: prod.splits)
  note d = float64_draw [OF assms(1) u]
  obtain q where q: "not_zero_draw u = Fin q" "0 < q" "q \<le> 1"
    using not_zero_draw d by blast
  define p where "p = mf_pow ml (Fin q) (fdiv (Fin (- 1)) (ht_alpha ht))"
  have p: "fle (Fin 1) p"
    using assms(2) q alpha_exponent [OF assms(3,4)] by (auto simp: pow_ok_def p_def)
  have m: "f64_of_int (ht_min ht) = Fin (of_int (ht_min ht))" "f64_of_int (ht_max ht) = Fin (of_int (ht_max ht))"
    using assms(5-7) by (simp_all add: f64_of_int_exact)
  let ?v = "fmul (Fin (of_int (ht_min ht))) p"
  have v: "fle (Fin (of_int (ht_min ht))) ?v"
  proof (cases p)
    case (Fin x)
    then have "of_int (ht_min ht) \<le> of_int (ht_min ht) * x"
      using p assms(5) by (auto simp: fle_def feq_def)
    from f64_round_mono [OF this] show ?thesis
      using Fin m(1) by (simp add: f64_of_int_def)
  qed (use p assms(5) in \<open>auto simp: fle_def feq_def\<close>)
  have dd: "d = (if fgt ?v (Fin (of_int (ht_max ht))) then ht_max ht else f64_to_i64 ?v)"
    using assms(8) unfolding pareto_millis_def u Let_def case_prod_conv q(1) m p_def by simp
  have "ht_min ht \<le> f64_to_i64 ?v \<and> f64_to_i64 ?v \<le> ht_max ht" if ng: "\<not> fgt ?v (Fin (of_int (ht_max ht)))"
  proof -
    obtain y where y: "?v = Fin y" "of_int (ht_min ht) \<le> y" "y \<le> of_int (ht_max ht)"
      using ng v by (cases ?v) (auto simp: fle_def feq_def)
    have "ht_min ht \<le> \<lfloor>y\<rfloor>" "\<lfloor>y\<rfloor> \<le> ht_max ht"
      using y(2,3) by (simp_all add: le_floor_iff floor_le_iff)
    moreover have "0 \<le> y" using y(2) assms(5) by (metis of_int_0_le_iff order.trans order_less_imp_le)
    moreover have "in_i64 \<lfloor>y\<rfloor>"
      using in_i64_between [OF assms(5) calculation(1,2) assms(7)] .
    ultimately show ?thesis using y(1) by (simp add: f64_to_i64_def Let_def)
  qed
  then show ?thesis using dd d assms(6) by auto
qed

lemma next_exec_bounds:
  assumes "rng_ok r" "pow_ok ml" "next_exec_millis ml w r = (d, r')"
    and "wl_type w = ''heavy_tailed'' \<longrightarrow> \<not> fle (ht_alpha (wl_heavy w)) (Fin 0) \<and> ht_alpha (wl_heavy w) \<noteq> NaN \<and>
      0 < ht_min (wl_heavy w) \<and> ht_min (wl_heavy w) \<le> ht_max (wl_heavy w) \<and> ht_max (wl_heavy w) \<le> 2 ^ 53"
    and "0 \<le> ex_min (wl_exec w)" "ex_min (wl_exec w) \<le> ex_max (wl_exec w)" "ex_max (wl_exec w) \<le> 2 ^ 53"
  shows "(if wl_type w = ''heavy_tailed'' then ht_min (wl_heavy w) \<le> d \<and> d \<le> ht_max (wl_heavy w)
    else ex_min (wl_exec w) \<le> d \<and> d \<le> ex_max (wl_exec w)) \<and> rng_ok r'"
proof (cases "wl_type w = ''heavy_tailed''")
  case True
  then show ?thesis
    using pareto_bounds [OF assms(1,2), of "wl_heavy w" d r'] assms(3,4) by (simp add: next_exec_millis_def)
next
  case False
  have s: "i64 (ex_max (wl_exec w) - ex_min (wl_exec w)) = ex_max (wl_exec w) - ex_min (wl_exec w)"
    "i64 (ex_max (wl_exec w) - ex_min (wl_exec w) + 1) = ex_max (wl_exec w) - ex_min (wl_exec w) + 1"
    using assms(5-7) by (simp_all add: i64_id in_i64_def)
  have i: "i64 (ex_min (wl_exec w) + n) = ex_min (wl_exec w) + n" if "0 \<le> n" "n \<le> 2 ^ 53" for n
    using assms(5-7) that by (simp add: i64_id in_i64_def)
  obtain n r1 where n: "int63n (ex_max (wl_exec w) - ex_min (wl_exec w) + 1) r = (n, r1)"
    by (metis surj_pair)
  show ?thesis
    using assms(1,3,5-7) False s i int63n_draw [OF assms(1) _ n] n by (auto simp: next_exec_millis_def Let_def split: if_splits)
qed

lemma next_gap_rng: "rng_ok r \<Longrightarrow> next_gap ml w e r = (g, r') \<Longrightarrow> rng_ok r'"
  by (auto simp: next_gap_def exponential_def dest: float64_draw split: if_splits prod.splits)

section \<open>A valid configuration\<close>

lemma check_shares_ids: "check_shares f seen ts = [] \<Longrightarrow> t \<in> set ts \<Longrightarrow> ts_id t \<noteq> []"
  by (induction f seen ts rule: check_shares.induct) (auto simp: check_def split: if_splits)

lemma valid_workload_parts:
  assumes "validate_workload w = []"
  shows "valid_workload (wl_type w)" "0 < wl_count w" "wl_prefix w \<noteq> []" "0 \<le> wl_max_retries w"
    "0 \<le> ex_min (wl_exec w)" "ex_min (wl_exec w) \<le> ex_max (wl_exec w)" "wl_weights w \<noteq> []"
    "int (length (wl_weights w)) \<le> max_priority + 1" "wl_tenants w \<noteq> []"
    "validate_shares ''workload.tenants'' (wl_tenants w) = []"
    "wl_type w = ''multi_tenant'' \<Longrightarrow> wl_skew w \<noteq> [] \<and> validate_shares ''workload.skew_tenants'' (wl_skew w) = []"
    "wl_type w = ''heavy_tailed'' \<Longrightarrow> 0 < ht_min (wl_heavy w) \<and> ht_min (wl_heavy w) \<le> ht_max (wl_heavy w) \<and> \<not> fle (ht_alpha (wl_heavy w)) (Fin 0)"
  using assms unfolding validate_workload_def append_is_Nil_conv check_Nil by simp_all

lemma active_tenants_ok:
  assumes "validate_workload w = []"
  shows "active_tenants w \<noteq> []" "t \<in> set (active_tenants w) \<Longrightarrow> ts_id t \<noteq> []"
proof -
  have shares: "ts_id t \<noteq> []" if "validate_shares f ts = []" "t \<in> set ts" for f ts
    using that check_shares_ids by (fastforce simp: validate_shares_def split: if_splits)
  show "active_tenants w \<noteq> []"
    using valid_workload_parts(9) [OF assms] by (simp add: active_tenants_def)
  show "t \<in> set (active_tenants w) \<Longrightarrow> ts_id t \<noteq> []"
    using shares valid_workload_parts(10,11) [OF assms] by (auto simp: active_tenants_def split: if_splits)
qed

section \<open>A plan\<close>

lemma digits_val_zeros: "digits_val (replicate n (CHR ''0'') @ s) = digits_val s"
proof -
  have "foldl (\<lambda>v c. 10 * v + (of_char c - 48)) 0 (replicate n (CHR ''0'')) = (0 :: nat)"
    by (induction n) simp_all
  then show ?thesis by (simp add: digits_val_def)
qed

lemma show_pad_inj: "0 \<le> i \<Longrightarrow> 0 \<le> j \<Longrightarrow> show_pad n i = show_pad n j \<Longrightarrow> i = j"
proof -
  assume ij: "0 \<le> i" "0 \<le> j" "show_pad n i = show_pad n j"
  have "digits_val (show_pad n k) = nat k" if "0 \<le> k" for k
    using that by (simp add: show_pad_def pad0_def digits_val_zeros digits_val_nat)
  then show "i = j" using ij by (metis nat_eq_iff2 nat_0_le)
qed

text \<open>What every task of a plan has.\<close>

definition spec_ok :: "workload_cfg \<Rightarrow> spec \<Rightarrow> bool" where
  "spec_ok w s \<longleftrightarrow>
     sp_tenant s \<in> set (tenant_ids w) \<and> 0 \<le> sp_priority s \<and> sp_priority s < int (length (wl_weights w)) \<and>
     sp_max_retries s = wl_max_retries w \<and>
     (if wl_type w = ''heavy_tailed'' then ht_min (wl_heavy w) \<le> sp_exec_ms s \<and> sp_exec_ms s \<le> ht_max (wl_heavy w)
      else ex_min (wl_exec w) \<le> sp_exec_ms s \<and> sp_exec_ms s \<le> ex_max (wl_exec w))"

definition plan_widths :: "workload_cfg \<Rightarrow> bool" where
  "plan_widths w \<longleftrightarrow>
     ex_max (wl_exec w) \<le> 2 ^ 53 \<and> ht_max (wl_heavy w) \<le> 2 ^ 53 \<and> ht_alpha (wl_heavy w) \<noteq> NaN \<and> dl_jitter (wl_deadline w) < 2 ^ 63 - 1"

lemma next_spec_ok:
  assumes "validate_workload w = []" "plan_widths w" "pow_ok ml" "rng_ok r0"
    and "next_spec ml w (build_cdf (shares_of (active_tenants w))) (build_cdf (wl_weights w)) i e r0 = (s, e', r')"
  shows "spec_ok w s" "sp_id s = wl_prefix w @ ''-'' @ show_pad 6 i" "rng_ok r'"
proof -
  note v = valid_workload_parts [OF assms(1)] and a = active_tenants_ok [OF assms(1)]
  obtain e1 r1 where 1: "(if 0 < i \<or> arrival_is_stochastic (wl_type w)
      then (case next_gap ml w e r0 of (g, r) \<Rightarrow> (i64 (e + g), r)) else (e, r0)) = (e1, r1)"
    by (metis surj_pair)
  have R1: "rng_ok r1"
    using 1 assms(4) next_gap_rng by (auto split: if_splits prod.splits)
  obtain ut r2 where 2: "float64 r1 = (ut, r2)"
    by (metis surj_pair)
  obtain d r3 where 3: "next_exec_millis ml w r2 = (d, r3)"
    by (metis surj_pair)
  have D: "(if wl_type w = ''heavy_tailed'' then ht_min (wl_heavy w) \<le> d \<and> d \<le> ht_max (wl_heavy w)
      else ex_min (wl_exec w) \<le> d \<and> d \<le> ex_max (wl_exec w)) \<and> rng_ok r3"
    using float64_draw [OF R1 2] v(12) assms(2) by (intro next_exec_bounds [OF _ assms(3) 3 _ v(5,6)]) (auto simp: plan_widths_def)
  obtain up r4 where 4: "float64 r3 = (up, r4)"
    by (metis surj_pair)
  have R4: "rng_ok r4"
    using D float64_draw 4 by blast
  obtain j r5 where 5: "(if 0 < dl_jitter (wl_deadline w) then int63n (i64 (dl_jitter (wl_deadline w) + 1)) r4 else (0, r4)) = (j, r5)"
    by (metis surj_pair)
  have "i64 (dl_jitter (wl_deadline w) + 1) = dl_jitter (wl_deadline w) + 1" if "0 < dl_jitter (wl_deadline w)"
    using that assms(2) by (simp add: plan_widths_def i64_id in_i64_def)
  then have R5: "rng_ok r5"
    using 5 R4 int63n_draw [OF R4, of "dl_jitter (wl_deadline w) + 1" j r5] by (auto split: if_splits)
  have cdf: "build_cdf (shares_of (active_tenants w)) \<noteq> []" "build_cdf (wl_weights w) \<noteq> []"
    using a(1) v(7) length_build_cdf by (metis length_0_conv shares_of_def map_is_Nil_conv)+
  have "nat (pick ut (build_cdf (shares_of (active_tenants w)))) < length (active_tenants w)"
    using pick_range [OF cdf(1), of ut] by (simp add: shares_of_def nat_less_iff)
  then have T: "ts_id (active_tenants w ! nat (pick ut (build_cdf (shares_of (active_tenants w))))) \<in> set (tenant_ids w)"
    by (simp add: tenant_ids_def)
  have P: "0 \<le> pick up (build_cdf (wl_weights w))" "pick up (build_cdf (wl_weights w)) < int (length (wl_weights w))"
    using pick_range [OF cdf(2), of up] by simp_all
  have s: "s = \<lparr>sp_id = wl_prefix w @ ''-'' @ show_pad 6 i,
      sp_tenant = ts_id (active_tenants w ! nat (pick ut (build_cdf (shares_of (active_tenants w))))), sp_offset = e1, sp_exec_ms = d,
      sp_priority = pick up (build_cdf (wl_weights w)),
      sp_slack_ms = i64 (i64 (dl_base (wl_deadline w) + f64_to_i64 (f64_round_int (fmul (f64_of_int d) (dl_mult (wl_deadline w))))) + j),
      sp_max_retries = wl_max_retries w\<rparr>" "r' = r5"
    using assms(5) unfolding next_spec_def 1 2 3 4 5 Let_def case_prod_conv by auto
  show "spec_ok w s" "sp_id s = wl_prefix w @ ''-'' @ show_pad 6 i" "rng_ok r'"
    using T P D R5 by (simp_all add: s spec_ok_def)
qed

lemma gen_specs_ok:
  assumes "validate_workload w = []" "plan_widths w" "pow_ok ml" "rng_ok r"
  shows "map sp_id (gen_specs ml w (build_cdf (shares_of (active_tenants w))) (build_cdf (wl_weights w)) n i e r)
      = map (\<lambda>k. wl_prefix w @ ''-'' @ show_pad 6 (i + int k)) [0..<n] \<and>
    (\<forall>s \<in> set (gen_specs ml w (build_cdf (shares_of (active_tenants w))) (build_cdf (wl_weights w)) n i e r). spec_ok w s)"
  using assms(4)
proof (induction n arbitrary: i e r)
  case (Suc n)
  obtain s e' r' where s: "next_spec ml w (build_cdf (shares_of (active_tenants w))) (build_cdf (wl_weights w)) i e r = (s, e', r')"
    by (metis surj_pair)
  note o = next_spec_ok [OF assms(1-3) Suc.prems s]
  have "map (\<lambda>k. wl_prefix w @ ''-'' @ show_pad 6 (i + int k)) [0..<Suc n]
      = (wl_prefix w @ ''-'' @ show_pad 6 i) # map (\<lambda>k. wl_prefix w @ ''-'' @ show_pad 6 (i + 1 + int k)) [0..<n]"
    by (simp add: upt_conv_Cons map_Suc_upt [symmetric] comp_def add.assoc del: upt_Suc)
  then show ?case
    using Suc.IH [OF o(3), of "i + 1" e'] o s by simp
qed simp

lemma spec_ok_valid:
  assumes "validate_workload w = []" "spec_ok w s" "sp_id s \<noteq> []" "\<not> is_zero_time now"
  shows "validate_task (task_at s now) = None"
proof -
  note v = valid_workload_parts [OF assms(1)]
  have "sp_tenant s \<noteq> []"
    using active_tenants_ok(2) [OF assms(1)] assms(2) by (force simp: spec_ok_def tenant_ids_def)
  moreover have "0 \<le> sp_exec_ms s"
    using assms(2) v(5,12) by (auto simp: spec_ok_def split: if_splits)
  ultimately show ?thesis
    using assms(2-4) v(4,8) by (simp add: validate_task_None task_at_def spec_ok_def)
qed

lemma generate_valid:
  assumes "validate_workload w = []" "plan_widths w" "pow_ok ml" "rng_ok (source (wl_seed w))"
  shows "\<exists>specs. generate ml source w = Inr specs \<and> length specs = nat (wl_count w) \<and> distinct (map sp_id specs) \<and>
    (\<forall>s \<in> set specs. spec_ok w s \<and> (\<forall>now. \<not> is_zero_time now \<longrightarrow> validate_task (task_at s now) = None))"
proof -
  note v = valid_workload_parts [OF assms(1)] and a = active_tenants_ok [OF assms(1)]
  let ?g = "gen_specs ml w (build_cdf (shares_of (active_tenants w))) (build_cdf (wl_weights w)) (nat (wl_count w)) 0 0 (source (wl_seed w))"
  note g = gen_specs_ok [OF assms, of "nat (wl_count w)" 0 0]
  have "generate ml source w = Inr ?g"
    using v(1,2,7) a(1) by (simp add: generate_def validate_plan_def)
  moreover have "length ?g = nat (wl_count w)"
    using arg_cong [OF conjunct1 [OF g], of length] by simp
  moreover have "distinct (map sp_id ?g)"
    unfolding conjunct1 [OF g] using show_pad_inj [of "int x" "int y" 6 for x y] by (auto simp: distinct_map inj_on_def)
  moreover have "sp_id s \<noteq> []" if "s \<in> set ?g" for s
  proof -
    have "sp_id s \<in> set (map sp_id ?g)"
      using that by simp
    then show ?thesis unfolding conjunct1 [OF g] by auto
  qed
  ultimately show ?thesis
    using g spec_ok_valid [OF assms(1)] by blast
qed

text \<open>
  C40: a valid workload generates a plan the scheduler accepts in full: as many tasks as configured, with distinct ids, each of
  an active tenant, with a duration within the configured bounds and a priority that has a weight; and every one passes
  task validation, whenever it is submitted. Millisecond bounds up to \<open>2 ^ 53\<close>; the Pareto exponent is a number.
\<close>

theorem generated_plan_accepted:
  assumes "validate_workload w = []" "plan_widths w" "pow_ok ml" "rng_ok (source (wl_seed w))"
  shows "\<exists>specs. generate ml source w = Inr specs \<and> length specs = nat (wl_count w) \<and> distinct (map sp_id specs) \<and>
    (\<forall>s \<in> set specs. spec_ok w s \<and> (\<forall>now. \<not> is_zero_time now \<longrightarrow> validate_task (task_at s now) = None))"
  using generate_valid [of w ml source] assms by simp

text \<open>A random source and a library for the witness: every draw is the least, every power is 1.\<close>

definition least_draws :: rng where
  "least_draws = \<lparr>r_float = (\<lambda>i. Fin 0), r_int = (\<lambda>i n. 0), r_pos = 0\<rparr>"

definition flat_math :: mathlib where
  "flat_math = \<lparr>mf_log = (\<lambda>x. Fin 0), mf_pow = (\<lambda>x y. Fin 1)\<rparr>"

theorem generated_plan_accepted_witness:
  "\<exists>specs. generate flat_math (\<lambda>_. least_draws) (c_workload default_config) = Inr specs \<and> length specs = 500 \<and> distinct (map sp_id specs)"
proof -
  have "validate_workload (c_workload default_config) = []"
    by code_simp
  moreover have "wl_count (c_workload default_config) = 500"
    by (simp add: default_config_def)
  moreover have "plan_widths (c_workload default_config)"
    by code_simp
  moreover have "pow_ok flat_math" "rng_ok least_draws"
    by (auto simp: pow_ok_def flat_math_def rng_ok_def least_draws_def unit_draw_def)
  ultimately show ?thesis
    using generated_plan_accepted [of "c_workload default_config" flat_math "\<lambda>_. least_draws"] by auto
qed

section \<open>The producer\<close>

lemma flush_count:
  assumes "flush_batch call b batch st w = (e, st', w')"
  shows "su_submitted st' = su_submitted st + (if e = None then int (length batch) else 0)" "su_start st' = su_start st"
    "su_max_lag st' = su_max_lag st"
  using assms by (auto simp: flush_batch_def split: if_splits prod.splits sum.splits)

lemma submit_loop_count:
  "submit_loop call p xs batch st lag w = (e, st', lag', w') \<Longrightarrow>
     (e = None \<longrightarrow> su_submitted st' = su_submitted st + int (length batch) + int (length xs)) \<and>
     su_submitted st \<le> su_submitted st' \<and> su_submitted st' \<le> su_submitted st + int (length batch) + int (length xs) \<and>
     su_max_lag st \<le> su_max_lag st'"
proof (induction xs arbitrary: batch st lag w)
  case Nil
  obtain e1 st1 w1 where f: "flush_batch call (pr_broker p) batch st w = (e1, st1, w1)"
    by (metis surj_pair)
  show ?case
    using Nil f flush_count [OF f] by (auto split: if_splits)
next
  case (Cons x xs)
  obtain s a where x: "x = (s, a)"
    by (cases x)
  define waits where "waits \<longleftrightarrow> 0 < time_sub (su_start st + sp_offset s) (ar_before a)"
  define l where "l = lag_of (ar_now a) (su_start st + sp_offset s)"
  define rest where "rest = (if waits then [] else batch) @ [task_at s (ar_now a)]"
  obtain e1 st1 w1 where f1: "(if waits then flush_batch call (pr_broker p) batch st w else (None, st, w)) = (e1, st1, w1)"
    by (metis surj_pair)
  have c1: "su_submitted st1 = su_submitted st + (if waits \<and> e1 = None then int (length batch) else 0)" "su_max_lag st1 = su_max_lag st"
    using f1 flush_count [of call "pr_broker p" batch st w] by (auto split: if_splits)
  have len: "length rest = (if waits then 0 else length batch) + 1"
    by (simp add: rest_def)
  define st2 where "st2 = st1\<lparr>su_max_lag := max (su_max_lag st1) l\<rparr>"
  have s2: "su_submitted st2 = su_submitted st1" "su_max_lag st1 \<le> su_max_lag st2"
    by (simp_all add: st2_def)
  note step = Cons.prems [unfolded x submit_loop.simps Let_def, folded waits_def, unfolded f1 prod.case, folded l_def rest_def, folded st2_def]
  show ?case
  proof (cases "e1 \<noteq> None \<or> waits \<and> \<not> ar_woken a")
    case True
    then have "st' = st1 \<and> e \<noteq> None"
      using step by (cases e1) (auto split: if_splits)
    then show ?thesis using c1 by (simp split: if_splits)
  next
    case False
    then have e1: "e1 = None" "\<not> (waits \<and> \<not> ar_woken a)"
      by simp_all
    note step = step [unfolded e1(1) option.case if_not_P [OF e1(2)]]
    show ?thesis
    proof (cases "pr_batch p \<le> length rest")
      case full: True
      obtain e2 st3 w2 where f2: "flush_batch call (pr_broker p) rest st2 w1 = (e2, st3, w2)"
        by (metis surj_pair)
      note c2 = flush_count [OF f2]
      show ?thesis
      proof (cases e2)
        case None
        then have "submit_loop call p xs [] st3 (i64 (lag + l)) w2 = (e, st', lag', w')"
          using step full f2 by simp
        from Cons.IH [OF this] show ?thesis
          using c1 c2 s2 len None e1 by (simp split: if_splits)
      next
        case (Some x)
        then have "st' = st3 \<and> e \<noteq> None"
          using step full f2 by auto
        then show ?thesis using c1 c2 s2 Some e1 by (simp split: if_splits)
      qed
    next
      case False
      then have "submit_loop call p xs rest st2 (i64 (lag + l)) w1 = (e, st', lag', w')"
        using step by simp
      from Cons.IH [OF this] show ?thesis
        using c1 s2 len e1 by (simp split: if_splits)
    qed
  qed
qed

text \<open>
  The producer's count is exact: a replay that ends without an error has submitted every task of the plan, and one that
  fails or is interrupted never reports more than the plan holds; the lag it reports is never negative.
\<close>

theorem producer_count_exact:
  assumes "submit_plan call p xs start finish w = (e, st, w')"
  shows "(e = None \<longrightarrow> su_submitted st = int (length xs)) \<and> 0 \<le> su_submitted st \<and> su_submitted st \<le> int (length xs) \<and> 0 \<le> su_max_lag st"
proof -
  let ?st = "\<lparr>su_submitted = 0, su_start = start, su_end = zero_time, su_max_lag = 0, su_mean_lag = 0\<rparr>"
  obtain e1 st1 l w1 where r: "submit_loop call p xs [] ?st 0 w = (e1, st1, l, w1)"
    by (metis surj_pair)
  from submit_loop_count [OF this] show ?thesis
    using assms r by (auto simp: submit_plan_def Let_def split: if_splits option.splits)
qed

theorem producer_count_exact_witness:
  "\<exists>e st w'. submit_plan (\<lambda>c s. (RErr ''down'', s)) (new_producer (new_broker (c_streams default_config)) 0) [] 5 9 \<lparr>n_faults = [], n_db = ()\<rparr> = (e, st, w') \<and>
    su_submitted st = 0"
proof -
  obtain e st w' where r: "submit_plan (\<lambda>c s. (RErr ''down'', s)) (new_producer (new_broker (c_streams default_config)) 0) [] 5 9
      \<lparr>n_faults = [], n_db = ()\<rparr> = (e, st, w')"
    by (metis surj_pair)
  from producer_count_exact [OF this] r show ?thesis by auto
qed

end
