(* ===== verification/SubmitterProps.thy ===== *)
theory SubmitterProps
  imports Submitter WorkloadProps
begin

text \<open>
  The presets: each can be planned, no two submissions of a console share a task id, and, where two requests do not overlap, only one
  submission runs at a time.
\<close>

section \<open>Every preset can be planned\<close>

lemma f64_between:
  assumes "rnd a = a" "rnd b = b" "a \<le> q" "q \<le> b" "- (2 ^ 1024) < a" "b < 2 ^ 1024"
  obtains r where "f64_round q = Fin r" "a \<le> r" "r \<le> b"
proof -
  have "a \<le> rnd q" "rnd q \<le> b"
    using rnd_mono [OF assms(3)] rnd_mono [OF assms(4)] assms(1,2) by simp_all
  then show ?thesis
    using that assms(5,6) by (auto simp: f64_round_def Let_def)
qed

lemma total_between:
  assumes "\<forall>s \<in> set specs. a \<le> sp_exec_ms s \<and> sp_exec_ms s \<le> b" "0 \<le> a" "0 \<le> ps_total_ms z"
    and "ps_total_ms z + b * int (length specs) \<le> 2 ^ 53" "0 \<le> b"
  shows "ps_total_ms z + a * int (length specs) \<le> ps_total_ms (foldl count_spec z specs) \<and>
    ps_total_ms (foldl count_spec z specs) \<le> ps_total_ms z + b * int (length specs)"
  using assms
proof (induction specs arbitrary: z)
  case (Cons s specs)
  have b: "0 \<le> b * int (length specs)"
    using Cons.prems(5) by simp
  have s: "a \<le> sp_exec_ms s" "sp_exec_ms s \<le> b"
    using Cons.prems(1) by simp_all
  have e: "b * int (length (s # specs)) = b + b * int (length specs)" "a * int (length (s # specs)) = a + a * int (length specs)"
    by (simp_all add: algebra_simps)
  have "ps_total_ms (count_spec z s) = ps_total_ms z + sp_exec_ms s"
  proof -
    have "0 \<le> ps_total_ms z + sp_exec_ms s" "ps_total_ms z + sp_exec_ms s \<le> 2 ^ 53"
      using Cons.prems(2-4) s b e by linarith+
    then show ?thesis by (simp add: count_spec_def i64_id in_i64_def)
  qed
  then show ?case
    using Cons.IH [of "count_spec z s"] Cons.prems s e by simp
qed simp

lemma mean_between:
  assumes "\<forall>s \<in> set specs. 40 \<le> sp_exec_ms s \<and> sp_exec_ms s \<le> 60" "specs \<noteq> []" "length specs \<le> 2000"
  obtains m where "ps_mean_ms (summarise_plan specs) = Fin m" "40 \<le> m" "m \<le> 60"
proof -
  let ?z = "\<lparr>ps_count = int (length specs), ps_span = 0, ps_total_ms = 0, ps_mean_ms = Fin 0, ps_max_ms = 0, ps_tenants = (\<lambda>_. 0)\<rparr>"
  let ?t = "ps_total_ms (foldl count_spec ?z specs)" and ?n = "int (length specs)"
  have t: "40 * ?n \<le> ?t" "?t \<le> 60 * ?n" and n: "0 < ?n" "?n \<le> 2000"
    using total_between [OF assms(1), of ?z] assms(2,3) by simp_all
  have "40 * rat_of_int ?n \<le> of_int ?t" "of_int ?t \<le> 60 * rat_of_int ?n"
    using of_int_le_iff [of "40 * ?n" ?t, where 'a = rat] of_int_le_iff [of ?t "60 * ?n", where 'a = rat] t by (simp_all only: of_int_mult of_int_numeral)
  then have q: "40 \<le> of_int ?t / rat_of_int ?n" "of_int ?t / rat_of_int ?n \<le> 60"
    using n(1) by (simp_all add: le_divide_eq divide_le_eq)
  have "rnd 40 = 40" "rnd 60 = 60"
    using rnd_int [of 40] rnd_int [of 60] by simp_all
  from f64_between [OF this q] obtain m where m: "f64_round (of_int ?t / rat_of_int ?n) = Fin m" "40 \<le> m" "m \<le> 60"
    by auto
  have "f64_of_int ?t = Fin (of_int ?t)" "f64_of_int ?n = Fin (of_int ?n)"
    using t n by (simp_all add: f64_of_int_exact)
  then have "ps_mean_ms (summarise_plan specs) = f64_round (of_int ?t / rat_of_int ?n)"
    using assms(2) n(1) by (simp add: summarise_plan_def Let_def)
  then show ?thesis
    using that m by simp
qed

lemma rate_positive:
  assumes "40 \<le> m" "m \<le> 60" "1 \<le> n_slots" "n_slots \<le> 1000" "fle (Fin (1/2)) l" "fle l (Fin 2)"
  obtains r where "rate_for_load l (Fin m) n_slots = Inr (Fin r)" "0 < r"
proof -
  have h: "rnd (1/32) = 1/32" "rnd (1/16) = 1/16" "rnd 4 = 4" "rnd 65536 = 65536"
    by code_simp+
  obtain s where s: "f64_round (m / 1000) = Fin s" "1/32 \<le> s" "s \<le> 1/16"
    using f64_between [OF h(1,2), of "m / 1000"] assms(1,2) by auto
  have k: "1 \<le> rat_of_int n_slots" "rat_of_int n_slots \<le> 1000"
    using assms(3,4) by simp_all
  have "16 \<le> rat_of_int n_slots / s" "rat_of_int n_slots / s \<le> 32000"
    using s k by (simp_all add: le_divide_eq divide_le_eq)
  then obtain c where c: "f64_round (rat_of_int n_slots / s) = Fin c" "4 \<le> c" "c \<le> 65536"
    using f64_between [OF h(3,4), of "rat_of_int n_slots / s"] by auto
  obtain q where q: "l = Fin q" "1/2 \<le> q" "q \<le> 2"
    using assms(5,6) by (cases l) (auto simp: fle_def feq_def)
  have "rnd (1/2) = 1/2" "rnd 131072 = 131072"
    by code_simp+
  moreover have "1/2 \<le> q * c" "q * c \<le> 131072"
    using mult_mono [of "1/2" q 1 c] mult_mono [of q 2 c 65536] q c by simp_all
  ultimately obtain r where r: "f64_round (q * c) = Fin r" "1/2 \<le> r"
    using f64_between [of "1/2" 131072 "q * c"] by auto
  have "capacity (Fin m) n_slots = Fin c"
    using assms(1,3,4) s c(1) by (simp add: capacity_def fle_def feq_def f64_of_int_exact)
  then show ?thesis
    using that [of r] r c q by (simp add: rate_for_load_def fle_def feq_def Let_def)
qed

lemma validate_other:
  assumes "validate_workload w = []" "q \<noteq> []" "\<not> fle r (Fin 0)"
  shows "validate_workload (w\<lparr>wl_prefix := q, wl_seed := sd, wl_rate := r\<rparr>) = []"
  using assms unfolding validate_workload_def append_is_Nil_conv check_Nil by (simp split del: if_split cong: if_cong)

lemma preset_cases:
  assumes "p \<in> set presets"
  obtains "pre_type p = ''uniform''" "pre_count p = 1500" "pre_load p = lit (7/10)"
    | "pre_type p = ''uniform''" "pre_count p = 2000" "pre_load p = lit (3/2)"
    | "pre_type p = ''multi_tenant''" "pre_count p = 2000" "pre_load p = lit (5/4)"
  using assms by (auto simp: presets_def)

lemma presets_valid: "list_all (\<lambda>p. validate_workload (preset_workload p 1) = []) presets"
  by code_simp

lemma preset_widths: "plan_widths (preset_workload p seq)" "wl_exec (preset_workload p seq) = \<lparr>ex_min = 40, ex_max = 60\<rparr>"
    "wl_type (preset_workload p seq) = pre_type p" "wl_count (preset_workload p seq) = pre_count p"
    "wl_prefix (preset_workload p seq) = plan_prefix p seq"
proof -
  have "plan_widths (c_workload default_config)"
    by code_simp
  then show "plan_widths (preset_workload p seq)"
    by (simp add: preset_workload_def plan_widths_def)
qed (simp_all add: preset_workload_def default_config_def)

lemma preset_loads: "list_all (\<lambda>p. fle (Fin (1/2)) (pre_load p) \<and> fle (pre_load p) (Fin 2)) presets"
  by code_simp

lemma preset_valid:
  assumes "p \<in> set presets" "\<not> fle r (Fin 0)"
  shows "validate_workload (preset_workload p seq) = []" "validate_workload ((preset_workload p seq)\<lparr>wl_rate := r\<rparr>) = []"
proof -
  have v: "validate_workload (preset_workload p 1) = []"
    using presets_valid assms(1) by (simp add: list_all_iff)
  have n: "plan_prefix p seq \<noteq> []"
    by (simp add: plan_prefix_def)
  have e: "(preset_workload p seq)\<lparr>wl_rate := s\<rparr> =
      (preset_workload p 1)\<lparr>wl_prefix := plan_prefix p seq, wl_seed := i64 (1000 + seq), wl_rate := s\<rparr>" for s
    by (simp add: preset_workload_def)
  show "validate_workload ((preset_workload p seq)\<lparr>wl_rate := r\<rparr>) = []"
    using validate_other [OF v n assms(2)] by (simp add: e)
  have "\<not> fle (wl_rate (preset_workload p seq)) (Fin 0)"
    using v by (simp add: validate_workload_def check_def preset_workload_def split: if_splits)
  moreover have "(preset_workload p seq)\<lparr>wl_rate := wl_rate (preset_workload p seq)\<rparr> = preset_workload p seq"
    by simp
  ultimately show "validate_workload (preset_workload p seq) = []"
    using validate_other [OF v n] e [of "wl_rate (preset_workload p seq)"] by metis
qed

text \<open>What a plan of a preset is: its tasks carry the ids of its number, and the scheduler accepts every one.\<close>

definition plan_ids :: "preset \<Rightarrow> int \<Rightarrow> nat \<Rightarrow> string list" where
  "plan_ids p seq n = map (\<lambda>k. plan_prefix p seq @ ''-'' @ show_pad 6 (int k)) [0..<n]"

lemma preset_generates:
  assumes "p \<in> set presets" "pow_ok ml" "\<And>n. rng_ok (source n)" "\<not> fle r (Fin 0)"
    and "w = preset_workload p seq \<or> w = (preset_workload p seq)\<lparr>wl_rate := r\<rparr>"
  shows "\<exists>specs. generate ml source w = Inr specs \<and> length specs = nat (pre_count p) \<and>
    (\<forall>s \<in> set specs. 40 \<le> sp_exec_ms s \<and> sp_exec_ms s \<le> 60 \<and> (\<forall>now. \<not> is_zero_time now \<longrightarrow> validate_task (task_at s now) = None))"
proof -
  have "validate_workload w = []" "plan_widths w"
    using preset_valid [OF assms(1,4)] preset_widths(1) assms(5) by (auto simp: plan_widths_def)
  then obtain specs where
    s: "generate ml source w = Inr specs" "length specs = nat (wl_count w)"
      "\<forall>s \<in> set specs. spec_ok w s \<and> (\<forall>now. \<not> is_zero_time now \<longrightarrow> validate_task (task_at s now) = None)"
    using generate_valid [of w ml source, OF _ _ assms(2) assms(3)] by blast
  have "wl_type w \<noteq> ''heavy_tailed''" "wl_exec w = \<lparr>ex_min = 40, ex_max = 60\<rparr>" "wl_count w = pre_count p"
    using assms(1,5) preset_widths by (auto elim: preset_cases)
  then show ?thesis
    using s by (intro exI [of _ specs]) (auto simp: spec_ok_def)
qed

lemma preset_planned:
  assumes "p \<in> set presets" "pow_ok ml" "\<And>n. rng_ok (source n)" "1 \<le> n_slots" "n_slots \<le> 1000"
  shows "\<exists>specs r. plan_preset ml source p n_slots seq = Inr (specs, Fin r) \<and> 0 < r \<and> length specs = nat (pre_count p) \<and>
    (\<forall>s \<in> set specs. \<forall>now. \<not> is_zero_time now \<longrightarrow> validate_task (task_at s now) = None)"
proof -
  have "\<not> fle (Fin 1) (Fin 0)" by (simp add: fle_def feq_def)
  from preset_generates [of p ml source "Fin 1" "preset_workload p seq" seq, OF assms(1-3) this] obtain specs where
    s: "generate ml source (preset_workload p seq) = Inr specs" "length specs = nat (pre_count p)"
      "\<forall>s \<in> set specs. 40 \<le> sp_exec_ms s \<and> sp_exec_ms s \<le> 60"
    by blast
  have c: "0 < pre_count p" "pre_count p \<le> 2000" "pre_type p \<noteq> ''bursty''"
    using assms(1) by (auto elim: preset_cases)
  then have "specs \<noteq> []" "length specs \<le> 2000"
    using s(2) by auto
  from mean_between [OF s(3) this] obtain m where m: "ps_mean_ms (summarise_plan specs) = Fin m" "40 \<le> m" "m \<le> 60" .
  have "fle (Fin (1/2)) (pre_load p)" "fle (pre_load p) (Fin 2)"
    using preset_loads assms(1) by (simp_all only: list_all_iff)
  from rate_positive [OF m(2,3) assms(4,5) this] obtain r where r: "rate_for_load (pre_load p) (Fin m) n_slots = Inr (Fin r)" "0 < r" .
  have nr: "\<not> fle (Fin r) (Fin 0)"
    using r(2) by (simp add: fle_def feq_def)
  from preset_generates [of p ml source "Fin r" "(preset_workload p seq)\<lparr>wl_rate := Fin r\<rparr>" seq, OF assms(1-3) nr] obtain specs' where
    s': "generate ml source ((preset_workload p seq)\<lparr>wl_rate := Fin r\<rparr>) = Inr specs'" "length specs' = nat (pre_count p)"
      "\<forall>s \<in> set specs'. \<forall>now. \<not> is_zero_time now \<longrightarrow> validate_task (task_at s now) = None"
    by blast
  have "with_arrival_rate (preset_workload p seq) (Fin r) = Inr ((preset_workload p seq)\<lparr>wl_rate := Fin r\<rparr>)"
    using nr c(3) by (simp add: with_arrival_rate_def preset_widths)
  then have "plan_preset ml source p n_slots seq = Inr (specs', Fin r)"
    by (simp add: plan_preset_def Let_def s(1) m(1) r(1) s'(1))
  then show ?thesis
    using r(2) s'(2,3) by blast
qed

text \<open>
  Every preset the page offers can be submitted. On a cluster of 1 to 1000 slots its plan is built without an error, has the
  preset's number of tasks, and every task of it, submitted at any time, passes \<open>Task.Validate\<close>.
\<close>

theorem presets_plan:
  assumes "p \<in> set presets" "pow_ok ml" "\<And>n. rng_ok (source n)" "1 \<le> n_slots" "n_slots \<le> 1000"
  shows "\<exists>specs r. plan_preset ml source p n_slots seq = Inr (specs, Fin r) \<and> 0 < r \<and> length specs = nat (pre_count p) \<and>
    (\<forall>s \<in> set specs. \<forall>now. \<not> is_zero_time now \<longrightarrow> validate_task (task_at s now) = None)"
  by (rule preset_planned [OF assms])

theorem presets_plan_witness:
  "\<exists>specs r. plan_preset flat_math (\<lambda>_. least_draws) (presets ! 2) 8 1 = Inr (specs, Fin r) \<and> 0 < r \<and> length specs = 2000"
proof -
  have "presets ! 2 \<in> set presets" "pre_count (presets ! 2) = 2000" "pow_ok flat_math" "rng_ok least_draws"
    by (auto simp: presets_def pow_ok_def flat_math_def rng_ok_def least_draws_def unit_draw_def)
  then show ?thesis
    using presets_plan [of "presets ! 2" flat_math "\<lambda>_. least_draws" 8 1] by fastforce
qed

section \<open>The ids of a submission\<close>

lemma next_spec_id: "next_spec ml w a b i e r = (s, e', r') \<Longrightarrow> sp_id s = wl_prefix w @ ''-'' @ show_pad 6 i"
  by (auto simp: next_spec_def Let_def split: prod.splits)

lemma gen_ids: "map sp_id (gen_specs ml w a b n i e r) = map (\<lambda>k. wl_prefix w @ ''-'' @ show_pad 6 (i + int k)) [0..<n]"
proof (induction n arbitrary: i e r)
  case (Suc n)
  obtain s e' r' where s: "next_spec ml w a b i e r = (s, e', r')"
    by (metis surj_pair)
  have "map (\<lambda>k. wl_prefix w @ ''-'' @ show_pad 6 (i + int k)) [0..<Suc n]
      = (wl_prefix w @ ''-'' @ show_pad 6 i) # map (\<lambda>k. wl_prefix w @ ''-'' @ show_pad 6 (i + 1 + int k)) [0..<n]"
    by (simp add: upt_conv_Cons map_Suc_upt [symmetric] comp_def add.assoc del: upt_Suc)
  then show ?case
    using Suc.IH [of "i + 1" e' r'] next_spec_id [OF s] s by simp
qed simp

lemma plan_preset_ids: "plan_preset ml source p n_slots seq = Inr (specs, r) \<Longrightarrow> map sp_id specs = plan_ids p seq (length specs)"
proof -
  have g: "map sp_id specs = map (\<lambda>k. wl_prefix w @ ''-'' @ show_pad 6 (int k)) [0..<length specs]" if "generate ml source w = Inr specs" for w
  proof -
    from that obtain a b n r0 where s: "specs = gen_specs ml w a b n 0 0 r0"
      by (auto simp: generate_def split: option.splits)
    have "length specs = n"
      using arg_cong [OF gen_ids [of ml w a b n 0 0 r0], of length] s by simp
    then show ?thesis
      using gen_ids [of ml w a b n 0 0 r0] s by simp
  qed
  have "wl_prefix w' = wl_prefix w" if "with_arrival_rate w r = Inr w'" for w w' r
    using that by (auto simp: with_arrival_rate_def Let_def split: if_splits)
  moreover assume "plan_preset ml source p n_slots seq = Inr (specs, r)"
  ultimately show ?thesis
    using g preset_widths(5) [of p seq] by (auto simp: plan_preset_def plan_ids_def Let_def split: sum.splits)
qed

lemma dash_notin_digits [simp]: "CHR ''-'' \<notin> set (digits_nat n)"
  using digits_nat_range [of "CHR ''-''" n] by auto

lemma split_at: "xs @ c # ys = xs' @ c # ys' \<Longrightarrow> c \<notin> set xs \<Longrightarrow> c \<notin> set xs' \<Longrightarrow> xs = xs' \<and> ys = ys'"
proof (induction xs arbitrary: xs')
  case Nil
  then show ?case by (cases xs') auto
next
  case (Cons x xs)
  then show ?case by (cases xs') auto
qed

lemma plan_ids_seq:
  assumes "i \<in> set (plan_ids p seq n)" "i \<in> set (plan_ids p' seq' n')" "0 \<le> seq" "0 \<le> seq'"
  shows "seq = seq'"
proof -
  obtain k k' where "show_int seq @ CHR ''-'' # pre_id p @ ''-'' @ show_pad 6 (int k) = show_int seq' @ CHR ''-'' # pre_id p' @ ''-'' @ show_pad 6 (int k')"
    using assms(1,2) by (auto simp: plan_ids_def plan_prefix_def)
  then have "digits_nat (nat seq) = digits_nat (nat seq')"
    using split_at assms(3,4) by (fastforce simp: show_int_def)
  then have "nat seq = nat seq'"
    by (metis digits_val_nat)
  then show ?thesis
    using assms(3,4) by (simp add: eq_nat_nat_iff)
qed

lemma plan_ids_distinct: "distinct (plan_ids p seq n)"
  using show_pad_inj [of "int x" "int y" 6 for x y] by (auto simp: plan_ids_def distinct_map inj_on_def)

text \<open>The numbers of the plans published and of the requests under way are distinct, and none exceeds the counter.\<close>

definition numbered_ok :: "submitter \<Rightarrow> (preset \<times> int) list \<Rightarrow> spec list list \<Rightarrow> (preset \<times> int) list \<Rightarrow> bool" where
  "numbered_ok s ws ps qs \<longleftrightarrow>
     list_all2 (\<lambda>(p, seq) specs. map sp_id specs = plan_ids p seq (length specs)) qs ps \<and>
     distinct (map snd (ws @ qs)) \<and> (\<forall>x \<in> set (ws @ qs). 1 \<le> snd x \<and> snd x \<le> sb_n s) \<and> 0 \<le> sb_n s"

lemma claimD: "claim i s = (Inr x, s') \<Longrightarrow> sb_n s' = sb_n s + 1 \<and> snd x = sb_n s + 1 \<and> s' = s\<lparr>sb_n := sb_n s + 1\<rparr>"
    "claim i s = (Inl e, s') \<Longrightarrow> s' = s"
  by (auto simp: claim_def split: option.splits if_splits)

lemma numbered: "submitting ml source serial s ws ps \<Longrightarrow> \<exists>qs. numbered_ok s ws ps qs"
proof (induction rule: submitting.induct)
  case (fresh n_slots)
  show ?case by (rule exI [of _ "[]"]) (simp add: numbered_ok_def new_submitter_def)
next
  case (claims s ws ps i x s')
  then obtain qs where q: "numbered_ok s ws ps qs" by blast
  have c: "sb_n s' = sb_n s + 1" "snd x = sb_n s + 1"
    using claimD(1) [OF claims(3)] by simp_all
  moreover have "\<forall>y \<in> set (ws @ qs). 1 \<le> snd y \<and> snd y \<le> sb_n s" "0 \<le> sb_n s"
    using q by (simp_all add: numbered_ok_def)
  ultimately have "snd x \<notin> snd ` set (ws @ qs)" "\<forall>y \<in> set ((x # ws) @ qs). 1 \<le> snd y \<and> snd y \<le> sb_n s'" "0 \<le> sb_n s'"
    by force+
  then have "numbered_ok s' (x # ws) ps qs"
    using q by (simp add: numbered_ok_def image_Un)
  then show ?case ..
next
  case (refused s ws ps i e s')
  then show ?case using claimD(2) by metis
next
  case (fails s ws ps p seq e)
  then obtain qs where q: "numbered_ok s ws ps qs" by blast
  have "distinct (map snd (remove1 (p, seq) ws @ qs))"
    using q set_remove1_subset [of "(p, seq)" ws] by (auto simp: numbered_ok_def distinct_map distinct_remove1 inj_on_def)
  moreover have "set (remove1 (p, seq) ws) \<subseteq> set ws"
    by (rule set_remove1_subset)
  ultimately have "numbered_ok s (remove1 (p, seq) ws) ps qs"
    using q by (auto simp: numbered_ok_def)
  then show ?case ..
next
  case (publishes s ws ps p seq specs r now st s')
  then obtain qs where q: "numbered_ok s ws ps qs" by blast
  have n: "sb_n s' = sb_n s"
    using publishes(4) by (auto simp: publish_def Let_def)
  have "mset (remove1 (p, seq) ws @ (p, seq) # qs) = mset (ws @ qs)"
    using publishes(2) by simp
  then have "mset (map snd (remove1 (p, seq) ws @ (p, seq) # qs)) = mset (map snd (ws @ qs))"
    by (simp only: mset_map)
  then have "distinct (map snd (remove1 (p, seq) ws @ (p, seq) # qs))"
    using q mset_eq_imp_distinct_iff by (metis numbered_ok_def)
  moreover have "set (remove1 (p, seq) ws) \<subseteq> set ws"
    by (rule set_remove1_subset)
  moreover have "1 \<le> seq" "seq \<le> sb_n s"
    using q publishes(2) by (force simp: numbered_ok_def)+
  ultimately have "numbered_ok s' (remove1 (p, seq) ws) (specs # ps) ((p, seq) # qs)"
    using q n publishes(2) plan_preset_ids [OF publishes(3)] by (auto simp: numbered_ok_def)
  then show ?case ..
next
  case (finishes s ws ps job n err now)
  then obtain qs where "numbered_ok s ws ps qs" by blast
  then have "numbered_ok (finish job n err now s) ws ps qs"
    by (simp add: numbered_ok_def finish_def Let_def)
  then show ?case ..
qed

text \<open>
  C32: no task id is used twice. However requests to submit a preset interleave, the plans one console publishes have no task id in
  common and none twice, so the admit script takes no task of a later submission for one it has seen.
\<close>

theorem submissions_disjoint:
  assumes "submitting ml source serial s ws ps"
  shows "distinct (map sp_id (concat ps))"
proof -
  obtain qs where q: "numbered_ok s ws ps qs"
    using numbered [OF assms] by blast
  then have "list_all2 (\<lambda>(p, seq) specs. map sp_id specs = plan_ids p seq (length specs)) qs ps" "distinct (map snd qs)"
      "\<forall>x \<in> set qs. 1 \<le> snd x"
    by (simp_all add: numbered_ok_def)
  then show ?thesis
  proof (induction rule: list_all2_induct)
    case (Cons x qs specs ps)
    obtain p seq where x: "x = (p, seq)" by (cases x)
    have s: "map sp_id specs = plan_ids p seq (length specs)"
      using Cons.hyps(1) x by simp
    have "set (map sp_id specs) \<inter> set (map sp_id (concat ps)) = {}"
    proof (rule ccontr)
      assume "\<not> ?thesis"
      then obtain specs' i where i: "specs' \<in> set ps" "i \<in> set (map sp_id specs)" "i \<in> set (map sp_id specs')"
        by auto
      from i(1) obtain k where "k < length ps" "specs' = ps ! k"
        by (auto simp: in_set_conv_nth)
      then obtain y where y: "y \<in> set qs" "map sp_id specs' = plan_ids (fst y) (snd y) (length specs')"
        using Cons.hyps(2) by (intro that [of "qs ! k"]) (simp_all add: list_all2_conv_all_nth split_beta)
      have "seq = snd y"
        using plan_ids_seq [of i p seq "length specs" "fst y" "snd y" "length specs'"] i s y Cons.prems(2) x by fastforce
      then show False
        using Cons.prems(1) y(1) x by force
    qed
    then show ?case
      using Cons s plan_ids_distinct [of p seq "length specs"] by (auto simp: distinct_append)
  qed simp
qed

section \<open>One submission at a time\<close>

definition jobs_ok :: "bool \<Rightarrow> submitter \<Rightarrow> (preset \<times> int) list \<Rightarrow> bool" where
  "jobs_ok serial s ws \<longleftrightarrow>
     (\<forall>i < length (sb_all s). ss_running (sb_all s ! i) \<longleftrightarrow> i \<in> fst ` set (sb_jobs s)) \<and>
     fst ` set (sb_jobs s) \<subseteq> {..<length (sb_all s)} \<and> distinct (map fst (sb_jobs s)) \<and>
     sb_status s = (if sb_all s = [] then None else Some (length (sb_all s) - 1)) \<and>
     (serial \<longrightarrow> (ws \<noteq> [] \<longrightarrow> sb_jobs s = []) \<and> length ws \<le> 1 \<and> (\<forall>j \<in> set (sb_jobs s). fst j = length (sb_all s) - 1))"

lemma claim_idle:
  assumes "claim i s = (Inr x, s')" "jobs_ok serial s ws" "serial"
  shows "sb_jobs s = []"
proof (rule ccontr)
  assume "sb_jobs s \<noteq> []"
  then obtain j where "j \<in> set (sb_jobs s)"
    by (cases "sb_jobs s") auto
  then have "sb_status s = Some (length (sb_all s) - 1)" "ss_running (sb_all s ! (length (sb_all s) - 1))"
    using assms(2,3) by (auto simp: jobs_ok_def)
  then show False
    using assms(1) by (auto simp: claim_def status_def split: option.splits if_splits)
qed

lemma jobs: "submitting ml source serial s ws ps \<Longrightarrow> jobs_ok serial s ws"
proof (induction rule: submitting.induct)
  case (fresh n_slots)
  show ?case by (simp add: jobs_ok_def new_submitter_def)
next
  case (claims s ws ps i x s')
  have "s' = s\<lparr>sb_n := sb_n s + 1\<rparr>"
    using claimD(1) [OF claims(3)] by simp
  then show ?case
    using claims(2,4) claim_idle [OF claims(3,4)] by (simp add: jobs_ok_def)
next
  case (refused s ws ps i e s')
  then show ?case using claimD(2) by metis
next
  case (fails s ws ps p seq e)
  then show ?case
    by (auto simp: jobs_ok_def length_remove1)
next
  case (publishes s ws ps p seq specs r now st s')
  let ?n = "length (sb_all s)"
  obtain st' where s': "sb_all s' = sb_all s @ [st']" "ss_running st'" "sb_status s' = Some ?n" "sb_jobs s' = (?n, specs) # sb_jobs s"
    using publishes(4) by (auto simp: publish_def Let_def)
  have J: "\<forall>i < ?n. ss_running (sb_all s ! i) \<longleftrightarrow> i \<in> fst ` set (sb_jobs s)" "fst ` set (sb_jobs s) \<subseteq> {..<?n}" "distinct (map fst (sb_jobs s))"
      "serial \<longrightarrow> sb_jobs s = [] \<and> length ws \<le> 1"
    using publishes(2,5) by (auto simp: jobs_ok_def)
  have "ss_running (sb_all s' ! i) \<longleftrightarrow> i \<in> fst ` set (sb_jobs s')" if "i < length (sb_all s')" for i
    using that s' J(1,2) by (cases "i = ?n") (auto simp: nth_append)
  moreover have "fst ` set (sb_jobs s') \<subseteq> {..<length (sb_all s')}" "distinct (map fst (sb_jobs s'))"
    using s' J(2,3) by auto
  moreover have "serial \<longrightarrow> remove1 (p, seq) ws = []"
    using J(4) publishes(2) by (cases ws) auto
  ultimately show ?case
    using s' J(4) by (simp add: jobs_ok_def)
next
  case (finishes s ws ps job n err now)
  let ?s = "finish job n err now s" and ?i = "fst job"
  have i: "?i < length (sb_all s)"
    using finishes(2,3) by (auto simp: jobs_ok_def)
  have s: "length (sb_all ?s) = length (sb_all s)" "sb_status ?s = sb_status s" "sb_jobs ?s = removeAll job (sb_jobs s)"
      "\<And>k. k < length (sb_all s) \<Longrightarrow> ss_running (sb_all ?s ! k) \<longleftrightarrow> k \<noteq> ?i \<and> ss_running (sb_all s ! k)"
    using i by (auto simp: finish_def Let_def nth_list_update)
  have D: "distinct (map fst (sb_jobs s))"
    using finishes(3) by (simp add: jobs_ok_def)
  have f: "fst ` set (removeAll job (sb_jobs s)) = fst ` set (sb_jobs s) - {?i}"
    using D finishes(2) by (force simp: distinct_map inj_on_def)
  have "distinct (map fst (removeAll job (sb_jobs s)))"
    using D by (auto simp: distinct_map distinct_removeAll inj_on_def)
  moreover have "sb_all ?s = [] \<longleftrightarrow> sb_all s = []"
    using s(1) by (metis length_0_conv)
  ultimately show ?case
    using finishes(3) s f unfolding jobs_ok_def by auto
qed

text \<open>
  One submission at a time. As long as no request to submit a preset arrives while another is between its check and the
  publication of its status, at most one submission runs, it is the one whose status the page shows, and \<open>Start\<close> refuses
  exactly while it runs.
\<close>

theorem one_submission_at_a_time:
  assumes "submitting ml source True s ws ps"
  shows "length (filter ss_running (sb_all s)) \<le> 1 \<and> length (sb_jobs s) \<le> 1 \<and>
    (sb_jobs s \<noteq> [] \<longleftrightarrow> (\<exists>st. status s = Some st \<and> ss_running st)) \<and>
    (\<exists>e. fst (claim ''overload'' s) = Inl e) = (sb_jobs s \<noteq> [])"
proof -
  note J = jobs [OF assms, unfolded jobs_ok_def, simplified]
  let ?n = "length (sb_all s)"
  have "{i. i < ?n \<and> ss_running (sb_all s ! i)} \<subseteq> {?n - 1}"
    using J by auto
  from card_mono [OF _ this] have a: "length (filter ss_running (sb_all s)) \<le> 1"
    by (simp add: length_filter_conv_card)
  have "fst ` set (sb_jobs s) \<subseteq> {?n - 1}"
    using J by auto
  from card_mono [OF _ this] have "card (set (map fst (sb_jobs s))) \<le> 1"
    by simp
  then have b: "length (sb_jobs s) \<le> 1"
    using J distinct_card [of "map fst (sb_jobs s)"] by simp
  have c: "sb_jobs s \<noteq> [] \<longleftrightarrow> (\<exists>st. status s = Some st \<and> ss_running st)"
  proof (cases "sb_jobs s")
    case Nil
    then show ?thesis using J by (auto simp: status_def)
  next
    case (Cons j js)
    then have "fst j = ?n - 1" "0 < ?n" "fst j \<in> fst ` set (sb_jobs s)"
      using J by auto
    then show ?thesis
      using J Cons by (auto simp: status_def)
  qed
  have "find_preset ''overload'' = Some (presets ! 1)"
    by (simp add: find_preset_def presets_def)
  then have "(\<exists>e. fst (claim ''overload'' s) = Inl e) = (\<exists>st. status s = Some st \<and> ss_running st)"
    by (auto simp: claim_def split: option.splits)
  with a b c show ?thesis by simp
qed

text \<open>Two requests at once: both pass the check before either publishes.\<close>

definition both_claimed :: submitter where
  "both_claimed = snd (claim ''steady'' (snd (claim ''overload'' (new_submitter 8))))"

lemma both_claimed: "submitting ml source False both_claimed [(presets ! 0, 2), (presets ! 1, 1)] []"
proof -
  have "claim ''overload'' (new_submitter 8) = (Inr (presets ! 1, 1), snd (claim ''overload'' (new_submitter 8)))"
    "claim ''steady'' (snd (claim ''overload'' (new_submitter 8))) = (Inr (presets ! 0, 2), both_claimed)"
    by (simp_all add: both_claimed_def claim_def status_def new_submitter_def find_preset_def presets_def)
  then show ?thesis
    using submitting.claims [OF submitting.claims [OF submitting.fresh [of ml source False 8]]] by simp
qed

lemma both_published:
  "\<exists>s a b. submitting flat_math (\<lambda>_. least_draws) False s [] [b, a] \<and> length (filter ss_running (sb_all s)) = 2 \<and> length a = 2000 \<and> length b = 1500"
proof -
  let ?S = "submitting flat_math (\<lambda>_. least_draws) False" and ?p = "plan_preset flat_math (\<lambda>_. least_draws)"
  have ok: "pow_ok flat_math" "rng_ok least_draws" "presets ! 0 \<in> set presets" "presets ! 1 \<in> set presets"
    by (auto simp: presets_def pow_ok_def flat_math_def rng_ok_def least_draws_def unit_draw_def)
  obtain a ra b rb where plans: "?p (presets ! 1) 8 1 = Inr (a, ra)" "?p (presets ! 0) 8 2 = Inr (b, rb)"
    using preset_planned [OF ok(4,1), of "\<lambda>_. least_draws" 8 1] preset_planned [OF ok(3,1), of "\<lambda>_. least_draws" 8 2] ok(2) by fastforce
  have pa: "length a = 2000" "length b = 1500"
    using preset_planned [OF ok(4,1), of "\<lambda>_. least_draws" 8 1] preset_planned [OF ok(3,1), of "\<lambda>_. least_draws" 8 2] ok(2) plans
    by (auto simp: presets_def)
  have sl: "sb_slots both_claimed = 8" "sb_all both_claimed = []"
    by (simp_all add: both_claimed_def claim_def status_def new_submitter_def find_preset_def presets_def)
  obtain st1 s1 where 1: "publish (presets ! 1) (Inr (a, ra)) 0 both_claimed = (Inr st1, s1)" "sb_slots s1 = 8" "sb_all s1 = [st1]" "ss_running st1"
    using sl by (simp add: publish_def Let_def)
  obtain st2 s2 where 2: "publish (presets ! 0) (Inr (b, rb)) 0 s1 = (Inr st2, s2)" "sb_all s2 = [st1, st2]" "ss_running st2"
    using 1 by (simp add: publish_def Let_def)
  have "?S s1 (remove1 (presets ! 1, 1) [(presets ! 0, 2), (presets ! 1, 1)]) [a]"
    by (rule submitting.publishes [OF both_claimed _ _ 1(1)]) (use sl plans in simp_all)
  then have "?S s1 [(presets ! 0, 2)] [a]"
    by simp
  from submitting.publishes [OF this _ _ 2(1)] have "?S s2 [] [b, a]"
    using 1(2) plans by simp
  then show ?thesis
    using 1 2 pa by (intro exI [of _ s2] exI [of _ a] exI [of _ b]) auto
qed


theorem submissions_disjoint_witness:
  "\<exists>a b :: spec list. length a = 2000 \<and> length b = 1500 \<and> distinct (map sp_id (concat [b, a]))"
proof -
  obtain s a b where r: "submitting flat_math (\<lambda>_. least_draws) False s [] [b, a]" "length a = 2000" "length b = 1500"
    using both_published by blast
  show ?thesis
    by (intro exI [of _ a] exI [of _ b] conjI r(2,3) submissions_disjoint [OF r(1)])
qed

theorem one_submission_at_a_time_witness:
  "\<exists>s. sb_jobs s \<noteq> [] \<and> length (filter ss_running (sb_all s)) \<le> 1 \<and> (\<exists>e. fst (claim ''overload'' s) = Inl e)"
proof -
  let ?S = "submitting flat_math (\<lambda>_. least_draws) True" and ?c = "snd (claim ''overload'' (new_submitter 8))"
  have ok: "pow_ok flat_math" "rng_ok least_draws" "presets ! 1 \<in> set presets"
    by (auto simp: presets_def pow_ok_def flat_math_def rng_ok_def least_draws_def unit_draw_def)
  have c: "claim ''overload'' (new_submitter 8) = (Inr (presets ! 1, 1), ?c)" "sb_slots ?c = 8"
    by (simp_all add: claim_def status_def new_submitter_def find_preset_def presets_def)
  obtain a ra where a: "plan_preset flat_math (\<lambda>_. least_draws) (presets ! 1) 8 1 = Inr (a, ra)"
    using preset_planned [OF ok(3,1), of "\<lambda>_. least_draws" 8 1] ok(2) by fastforce
  obtain st s where s: "publish (presets ! 1) (Inr (a, ra)) 0 ?c = (Inr st, s)" "sb_jobs s \<noteq> []"
    by (simp add: publish_def Let_def)
  have "?S ?c [(presets ! 1, 1)] []"
    using submitting.claims [OF submitting.fresh [of flat_math "\<lambda>_. least_draws" True 8] _ c(1)] by simp
  from submitting.publishes [OF this _ _ s(1)] have "?S s [] [a]"
    using a c(2) by simp
  from one_submission_at_a_time [OF this] show ?thesis
    using s(2) by blast
qed

end
