(* ===== verification/SupervisorProps.thy ===== *)
theory SupervisorProps
  imports Supervisor
begin

text \<open>
  The supervised cluster in every interleaving of requests, process ends, waiting goroutines and timers. When restarts of a process
  do not overlap, every paused process and every cut link belongs to a fault in progress whose timer will end it, and clearing the
  faults leaves nothing paused or cut. When two restarts of one process overlap, a process can stay paused for good.
\<close>

section \<open>Reachable clusters\<close>

text \<open>With \<open>serial\<close> a restart is not begun while another of the same process is between its check and its launch.\<close>

inductive cluster :: "bool \<Rightarrow> supervisor \<Rightarrow> bool" for serial :: bool where
  built: "\<lbrakk>distinct (map pc_name ps); \<forall>p \<in> set ps. \<exists>n r b a xs l. p = (new_proc n r b a xs)\<lparr>pc_link := l\<rparr> \<and> l \<noteq> Some True\<rbrakk> \<Longrightarrow>
    cluster serial \<lparr>sv_opt = o', sv_procs = ps, sv_os = (\<lambda>_. Gone), sv_timers = [], sv_waiters = [],
      sv_restarting = map pc_name ps, sv_next_cmd = 0, sv_next_fault = 0, sv_events = []\<rparr>"
| request: "\<lbrakk>cluster serial s; apply_check r owner s = Inr (d, p); fr_action r \<noteq> ''restart''\<rbrakk> \<Longrightarrow>
    cluster serial (snd (inject (fr_action r) d p sig_err ps now s))"
| restart_begins: "\<lbrakk>cluster serial s; apply_check r owner s = Inr (d, p); fr_action r = ''restart'';
    serial \<longrightarrow> pc_name p \<notin> set (sv_restarting s)\<rbrakk> \<Longrightarrow>
    cluster serial (s\<lparr>sv_restarting := pc_name p # sv_restarting s\<rparr>)"
| restart_launches: "\<lbrakk>cluster serial s; n \<in> set (sv_restarting s)\<rbrakk> \<Longrightarrow>
    cluster serial ((snd (launch n started now s))\<lparr>sv_restarting := remove1 n (sv_restarting s)\<rparr>)"
| ends: "cluster serial s \<Longrightarrow> cluster serial (s\<lparr>sv_os := (sv_os s)(c := Gone)\<rparr>)"
| reaped: "\<lbrakk>cluster serial s; (n, c) \<in> set (sv_waiters s); sv_os s c = Gone\<rbrakk> \<Longrightarrow> cluster serial (waited n c wt now s)"
| timer: "\<lbrakk>cluster serial s; (n, i, u) \<in> set (sv_timers s)\<rbrakk> \<Longrightarrow> cluster serial (fire n i u d now s)"
| cleared: "cluster serial s \<Longrightarrow> cluster serial (snd (clear_fault n s))"
| continued: "cluster serial s \<Longrightarrow> cluster serial (s\<lparr>sv_os := continue_os c (sv_os s)\<rparr>)"
| killed: "cluster serial s \<Longrightarrow> cluster serial (stop_kill n s)"

section \<open>The invariant\<close>

definition undo_of :: "string \<Rightarrow> undo" where
  "undo_of action = (if action = ''freeze'' then Resume else Heal)"

text \<open>A fault in progress: timed, of bounded length, with the closure that ends it armed.\<close>

definition fault_ok :: "supervisor \<Rightarrow> proc \<Rightarrow> active_fault \<Rightarrow> bool" where
  "fault_ok s p f \<longleftrightarrow>
     af_action f \<in> {''freeze'', ''partition''} \<and> min_fault \<le> af_until f - af_started f \<and> af_until f - af_started f \<le> max_fault \<and>
     pc_undo p = Some (undo_of (af_action f)) \<and>
     (\<forall>u. (pc_name p, af_id f, u) \<in> set (sv_timers s) \<longleftrightarrow> u = undo_of (af_action f))"

definition proc_ok :: "supervisor \<Rightarrow> proc \<Rightarrow> bool" where
  "proc_ok s p \<longleftrightarrow>
     (pc_state p = StExited \<longrightarrow> pc_fault p = None \<and> (\<forall>c. pc_cmd p = Some c \<longrightarrow> sv_os s c = Gone)) \<and>
     (pc_state p \<noteq> StExited \<longrightarrow> pc_cmd p \<noteq> None) \<and>
     (pc_state p = StStopped \<longrightarrow> (\<exists>f. pc_fault p = Some f \<and> af_action f = ''freeze'')) \<and>
     (pc_link p = Some True \<longrightarrow> (\<exists>f. pc_fault p = Some f \<and> af_action f = ''partition'')) \<and>
     (\<forall>f. pc_fault p = Some f \<longrightarrow> fault_ok s p f) \<and>
     (\<forall>c. pc_cmd p = Some c \<longrightarrow> c < sv_next_cmd s \<and>
        (sv_os s c = Paused \<longrightarrow> (\<exists>f. pc_fault p = Some f \<and> af_action f = ''freeze'')))"

definition cluster_ok :: "supervisor \<Rightarrow> bool" where
  "cluster_ok s \<longleftrightarrow>
     distinct (map pc_name (sv_procs s)) \<and> (\<forall>p \<in> set (sv_procs s). proc_ok s p) \<and>
     (\<forall>p \<in> set (sv_procs s). \<forall>q \<in> set (sv_procs s). pc_cmd p \<noteq> None \<longrightarrow> pc_cmd p = pc_cmd q \<longrightarrow> p = q) \<and>
     (\<forall>c. sv_os s c \<noteq> Gone \<longrightarrow> (\<exists>p \<in> set (sv_procs s). pc_cmd p = Some c \<and> pc_state p \<noteq> StExited)) \<and>
     (\<forall>t \<in> set (sv_timers s). fst (snd t) < sv_next_fault s) \<and>
     distinct (sv_restarting s) \<and> (\<forall>p \<in> set (sv_procs s). pc_name p \<in> set (sv_restarting s) \<longrightarrow> pc_state p = StExited) \<and>
     set (sv_restarting s) \<subseteq> pc_name ` set (sv_procs s)"

lemma cluster_okD:
  assumes "cluster_ok s"
  shows "distinct (map pc_name (sv_procs s))" "p \<in> set (sv_procs s) \<Longrightarrow> proc_ok s p"
    "p \<in> set (sv_procs s) \<Longrightarrow> q \<in> set (sv_procs s) \<Longrightarrow> pc_cmd p = Some c \<Longrightarrow> pc_cmd q = Some c \<Longrightarrow> p = q"
    "sv_os s c \<noteq> Gone \<Longrightarrow> \<exists>p \<in> set (sv_procs s). pc_cmd p = Some c \<and> pc_state p \<noteq> StExited"
    "(m, i, u) \<in> set (sv_timers s) \<Longrightarrow> i < sv_next_fault s"
    "distinct (sv_restarting s)" "p \<in> set (sv_procs s) \<Longrightarrow> pc_name p \<in> set (sv_restarting s) \<Longrightarrow> pc_state p = StExited"
    "set (sv_restarting s) \<subseteq> pc_name ` set (sv_procs s)"
  using assms by (auto simp: cluster_ok_def)

lemma same_name: "cluster_ok s \<Longrightarrow> p \<in> set (sv_procs s) \<Longrightarrow> q \<in> set (sv_procs s) \<Longrightarrow> pc_name p = pc_name q \<Longrightarrow> p = q"
  by (auto simp: cluster_ok_def distinct_map dest: inj_onD)

lemma find_procD: "find_proc n s = Some p \<Longrightarrow> p \<in> set (sv_procs s) \<and> pc_name p = n"
  by (auto simp: find_proc_def find_Some_iff)

lemma find_proc_fields [simp]:
  "find_proc n (s\<lparr>sv_timers := t\<rparr>) = find_proc n s" "find_proc n (s\<lparr>sv_waiters := w\<rparr>) = find_proc n s"
  "find_proc n (s\<lparr>sv_os := os\<rparr>) = find_proc n s" "find_proc n (say src k m fmt xs now s) = find_proc n s"
  by (simp_all add: find_proc_def say_def)

text \<open>A process whose fields are as they were, when its command only ended, and its timer still stands.\<close>

lemma proc_ok_frame:
  assumes "proc_ok s p" "\<And>c. pc_cmd p = Some c \<Longrightarrow> sv_os s' c = sv_os s c \<or> sv_os s' c = Gone"
    and "sv_next_cmd s \<le> sv_next_cmd s'"
    and "\<And>f u. pc_fault p = Some f \<Longrightarrow> (pc_name p, af_id f, u) \<in> set (sv_timers s') \<longleftrightarrow> (pc_name p, af_id f, u) \<in> set (sv_timers s)"
  shows "proc_ok s' p"
proof -
  have "fault_ok s' p f" if "pc_fault p = Some f" for f
    using assms(1,4) that by (simp add: proc_ok_def fault_ok_def)
  moreover have "c < sv_next_cmd s' \<and> (sv_os s' c = Paused \<longrightarrow> (\<exists>f. pc_fault p = Some f \<and> af_action f = ''freeze''))" if "pc_cmd p = Some c" for c
    using assms(1,3) assms(2) [OF that] that by (auto simp: proc_ok_def)
  moreover have "sv_os s' c = Gone" if "pc_state p = StExited" "pc_cmd p = Some c" for c
    using assms(1) assms(2) [OF that(2)] that by (auto simp: proc_ok_def)
  ultimately show ?thesis
    using assms(1) unfolding proc_ok_def by blast
qed

text \<open>A step on one process: it is shown to be well again, the rest is untouched.\<close>

lemma step_ok:
  assumes ok: "cluster_ok s"
    and procs: "sv_procs s' = map (\<lambda>p. if pc_name p = n then f p else p) (sv_procs s)" "\<And>p. pc_name (f p) = pc_name p"
    and new: "\<And>p. p \<in> set (sv_procs s) \<Longrightarrow> pc_name p = n \<Longrightarrow> proc_ok s' (f p)"
    and cmd: "\<And>p c. p \<in> set (sv_procs s) \<Longrightarrow> pc_name p = n \<Longrightarrow> pc_cmd (f p) = Some c \<Longrightarrow> pc_cmd p = Some c \<or> sv_next_cmd s \<le> c"
    and os: "\<And>c. sv_os s' c = sv_os s c \<or> sv_os s' c = Gone \<or>
      (\<exists>p \<in> set (sv_procs s). pc_name p = n \<and> pc_cmd (f p) = Some c \<and> pc_state (f p) \<noteq> StExited)"
    and kept: "\<And>p c. p \<in> set (sv_procs s) \<Longrightarrow> pc_name p = n \<Longrightarrow> pc_cmd p = Some c \<Longrightarrow> pc_state p \<noteq> StExited \<Longrightarrow> sv_os s' c \<noteq> Gone \<Longrightarrow>
      pc_cmd (f p) = Some c \<and> pc_state (f p) \<noteq> StExited"
    and nexts: "sv_next_cmd s \<le> sv_next_cmd s'"
    and timers: "\<And>m i u. m \<noteq> n \<Longrightarrow> (m, i, u) \<in> set (sv_timers s') \<longleftrightarrow> (m, i, u) \<in> set (sv_timers s)"
      "\<And>m i u. (m, i, u) \<in> set (sv_timers s') \<Longrightarrow> i < sv_next_fault s'"
    and restarting: "distinct (sv_restarting s')" "\<And>m. m \<in> set (sv_restarting s') \<Longrightarrow> m \<in> set (sv_restarting s)"
      "\<And>p. p \<in> set (sv_procs s) \<Longrightarrow> pc_name p = n \<Longrightarrow> n \<in> set (sv_restarting s') \<Longrightarrow> pc_state (f p) = StExited"
  shows "cluster_ok s'"
proof -
  note D = cluster_okD [OF ok]
  have old: "sv_os s' c = sv_os s c \<or> sv_os s' c = Gone" if "q \<in> set (sv_procs s)" "pc_name q \<noteq> n" "pc_cmd q = Some c" for q c
  proof (rule ccontr)
    assume "\<not> ?thesis"
    then obtain p where p: "p \<in> set (sv_procs s)" "pc_name p = n" "pc_cmd (f p) = Some c"
      using os [of c] by blast
    have "c < sv_next_cmd s"
      using D(2) [OF that(1)] that(3) by (simp add: proc_ok_def)
    then have "pc_cmd p = Some c"
      using cmd [OF p] by simp
    then show False
      using D(3) [OF p(1) that(1)] that p(2) by auto
  qed
  have others: "proc_ok s' q" if "q \<in> set (sv_procs s)" "pc_name q \<noteq> n" for q
    by (rule proc_ok_frame [OF D(2) [OF that(1)] old [OF that] nexts timers(1) [OF that(2)]])
  have fresh: "pc_cmd q \<noteq> Some c" if "q \<in> set (sv_procs s)" "sv_next_cmd s \<le> c" for q c
    using D(2) [OF that(1)] that(2) by (auto simp: proc_ok_def)
  have image: "\<exists>p0 \<in> set (sv_procs s). p = (if pc_name p0 = n then f p0 else p0)" if "p \<in> set (sv_procs s')" for p
    using that unfolding procs(1) by auto
  have unique: "p = q" if "p \<in> set (sv_procs s')" "q \<in> set (sv_procs s')" "pc_cmd p = Some c" "pc_cmd q = Some c" for p q c
  proof -
    from image [OF that(1)] image [OF that(2)] obtain p0 q0 where pq: "p0 \<in> set (sv_procs s)" "p = (if pc_name p0 = n then f p0 else p0)"
        "q0 \<in> set (sv_procs s)" "q = (if pc_name q0 = n then f q0 else q0)"
      by blast
    have "p0 = q0"
      using that(3,4) pq cmd [of p0 c] cmd [of q0 c] fresh [of p0 c] fresh [of q0 c] D(3) [of p0 q0 c] same_name [OF ok, of p0 q0]
      by (cases "pc_name p0 = n"; cases "pc_name q0 = n") auto
    then show ?thesis using pq by simp
  qed
  have owner: "\<exists>p \<in> set (sv_procs s'). pc_cmd p = Some c \<and> pc_state p \<noteq> StExited" if "sv_os s' c \<noteq> Gone" for c
  proof (cases "\<exists>p \<in> set (sv_procs s). pc_name p = n \<and> pc_cmd (f p) = Some c \<and> pc_state (f p) \<noteq> StExited")
    case False
    then have "sv_os s c \<noteq> Gone"
      using os [of c] that by auto
    then obtain p where "p \<in> set (sv_procs s)" "pc_cmd p = Some c" "pc_state p \<noteq> StExited"
      using D(4) by blast
    then show ?thesis
      using kept [of p c] that unfolding procs(1) by (cases "pc_name p = n") (force, force)
  qed (auto simp: procs(1))
  have names: "map pc_name (sv_procs s') = map pc_name (sv_procs s)"
    by (simp add: procs)
  then have "distinct (map pc_name (sv_procs s'))"
    using D(1) by (simp only:)
  moreover have "\<forall>p \<in> set (sv_procs s'). proc_ok s' p"
    using new others by (auto simp: procs(1))
  moreover have "\<forall>p \<in> set (sv_procs s'). \<forall>q \<in> set (sv_procs s'). pc_cmd p \<noteq> None \<longrightarrow> pc_cmd p = pc_cmd q \<longrightarrow> p = q"
    using unique by (metis not_None_eq)
  moreover have "\<forall>t \<in> set (sv_timers s'). fst (snd t) < sv_next_fault s'"
    using timers(2) by auto
  moreover have "\<forall>p \<in> set (sv_procs s'). pc_name p \<in> set (sv_restarting s') \<longrightarrow> pc_state p = StExited"
    using restarting(2,3) D(7) by (auto simp: procs)
  moreover have "set (sv_restarting s') \<subseteq> pc_name ` set (sv_procs s')"
    using restarting(2) D(8) arg_cong [OF names, of set] by auto
  ultimately show ?thesis
    unfolding cluster_ok_def using owner restarting(1) by (intro conjI) blast+
qed

section \<open>Every step keeps it\<close>

lemma upd_proc_simps [simp]:
  "sv_procs (upd_proc n f s) = map (\<lambda>p. if pc_name p = n then f p else p) (sv_procs s)" "sv_os (upd_proc n f s) = sv_os s"
  "sv_timers (upd_proc n f s) = sv_timers s" "sv_waiters (upd_proc n f s) = sv_waiters s"
  "sv_restarting (upd_proc n f s) = sv_restarting s" "sv_next_cmd (upd_proc n f s) = sv_next_cmd s"
  "sv_next_fault (upd_proc n f s) = sv_next_fault s"
  by (simp_all add: upd_proc_def)

lemma say_simps [simp]:
  "sv_procs (say src k n f xs t s) = sv_procs s" "sv_os (say src k n f xs t s) = sv_os s" "sv_timers (say src k n f xs t s) = sv_timers s"
  "sv_waiters (say src k n f xs t s) = sv_waiters s" "sv_restarting (say src k n f xs t s) = sv_restarting s"
  "sv_next_cmd (say src k n f xs t s) = sv_next_cmd s" "sv_next_fault (say src k n f xs t s) = sv_next_fault s"
  by (simp_all add: say_def)

lemma undo_proc_simps [simp]:
  "pc_name (undo_proc u p) = pc_name p" "pc_cmd (undo_proc u p) = pc_cmd p" "pc_fault (undo_proc u p) = pc_fault p"
  "pc_undo (undo_proc u p) = pc_undo p" "pc_state (undo_proc u p) = StExited \<longleftrightarrow> pc_state p = StExited"
  by (auto simp: undo_proc_def split: undo.splits)

lemma exited_proc_simps [simp]:
  "pc_name (exited_proc wt p) = pc_name p" "pc_cmd (exited_proc wt p) = pc_cmd p" "pc_fault (exited_proc wt p) = pc_fault p"
  "pc_undo (exited_proc wt p) = pc_undo p" "pc_state (exited_proc wt p) = StExited" "pc_link (exited_proc wt p) = pc_link p"
  by (simp_all add: exited_proc_def)

lemma forget_fault_simps [simp]:
  "pc_name (forget_fault p) = pc_name p" "pc_cmd (forget_fault p) = pc_cmd p" "pc_fault (forget_fault p) = None"
  "pc_state (forget_fault p) = pc_state p" "pc_link (forget_fault p) = pc_link p"
  by (simp_all add: forget_fault_def)

lemma run_undo_simps [simp]:
  "sv_timers (run_undo u p s) = sv_timers s" "sv_waiters (run_undo u p s) = sv_waiters s" "sv_restarting (run_undo u p s) = sv_restarting s"
  "sv_next_cmd (run_undo u p s) = sv_next_cmd s" "sv_next_fault (run_undo u p s) = sv_next_fault s"
  "sv_os (run_undo u p s) = undo_os u (pc_cmd p) (sv_os s)"
  "sv_procs (run_undo u p s) = map (\<lambda>q. if pc_name q = pc_name p then undo_proc u q else q) (sv_procs s)"
  by (simp_all add: run_undo_def)

lemma continue_os_cases: "continue_os c os k = os k \<or> (c = Some k \<and> os k = Paused \<and> continue_os c os k = Live)"
  by (auto simp: continue_os_def split: option.splits)

lemma continue_os_owner [simp]: "continue_os (Some c) os c = (if os c = Paused then Live else os c)"
  by (simp add: continue_os_def)

text \<open>A fault of a process that is not known to have ended is undone and forgotten.\<close>

lemma undo_os_cases: "undo_os u c os k = os k \<or> (c = Some k \<and> os k = Paused \<and> undo_os u c os k = Live)"
  using continue_os_cases [of c os k] by (auto simp: undo_os_def split: undo.splits)

lemma undone_ok:
  assumes "cluster_ok s" "p \<in> set (sv_procs s)" "pc_fault p = Some f" "u = undo_of (af_action f)"
    and "sv_procs s' = map (\<lambda>q. if pc_name q = pc_name p then h q else q) (sv_procs (run_undo u p s))"
    and "\<And>q. pc_name (h q) = pc_name q" "\<And>q. pc_fault (h q) = None" "\<And>q. pc_cmd (h q) = pc_cmd q" "\<And>q. pc_state (h q) = pc_state q"
      "\<And>q. pc_link (h q) = pc_link q"
    and "sv_os s' = undo_os u (pc_cmd p) (sv_os s)" "sv_next_cmd s' = sv_next_cmd s" "sv_next_fault s' = sv_next_fault s"
    and "set (sv_timers s') \<subseteq> set (sv_timers s)" "\<And>m i u. m \<noteq> pc_name p \<Longrightarrow> (m, i, u) \<in> set (sv_timers s) \<Longrightarrow> (m, i, u) \<in> set (sv_timers s')"
    and "sv_restarting s' = sv_restarting s"
  shows "cluster_ok s'"
proof -
  note D = cluster_okD [OF assms(1)]
  have P: "proc_ok s p"
    by (rule D(2) [OF assms(2)])
  have only: "q = p" if "q \<in> set (sv_procs s)" "pc_name q = pc_name p" for q
    by (rule same_name [OF assms(1) that(1) assms(2) that(2)])
  have alive: "pc_state p \<noteq> StExited"
    using P assms(3) by (auto simp: proc_ok_def)
  have new: "proc_ok s' (h (undo_proc u p))"
    using P assms(3,4,6-13) alive
    by (auto simp: proc_ok_def fault_ok_def undo_of_def undo_os_def undo_proc_def continue_os_def split: undo.splits if_splits option.splits)
  show ?thesis
  proof (rule step_ok [OF assms(1), where n = "pc_name p" and f = "\<lambda>q. h (undo_proc u q)"])
    show "sv_procs s' = map (\<lambda>q. if pc_name q = pc_name p then h (undo_proc u q) else q) (sv_procs s)"
      unfolding assms(5) by auto
    show "sv_os s' c = sv_os s c \<or> sv_os s' c = Gone \<or>
        (\<exists>q \<in> set (sv_procs s). pc_name q = pc_name p \<and> pc_cmd (h (undo_proc u q)) = Some c \<and> pc_state (h (undo_proc u q)) \<noteq> StExited)" for c
      using assms(2,8,9,11) alive undo_os_cases [of u "pc_cmd p" "sv_os s" c] by (auto intro!: bexI [of _ p])
    show "(m, i, u) \<in> set (sv_timers s') \<longleftrightarrow> (m, i, u) \<in> set (sv_timers s)" if "m \<noteq> pc_name p" for m i u
      using assms(14,15) that by auto
    show "i < sv_next_fault s'" if "(m, i, u) \<in> set (sv_timers s')" for m i u
      using D(5) [of m i u] assms(13,14) that by auto
    show "proc_ok s' (h (undo_proc u q))" if "q \<in> set (sv_procs s)" "pc_name q = pc_name p" for q
      unfolding only [OF that] by (rule new)
    show "pc_state (h (undo_proc u q)) = StExited" if "q \<in> set (sv_procs s)" "pc_name q = pc_name p" "pc_name p \<in> set (sv_restarting s')" for q
      using D(7) [OF assms(2)] alive that(3) assms(16) by simp
  qed (use assms(6,8,9,12,16) D(6) in auto)
qed

lemma clear_fault_ok: "cluster_ok s \<Longrightarrow> cluster_ok (snd (clear_fault n s))"
proof -
  assume ok: "cluster_ok s"
  show ?thesis
  proof (cases "\<exists>p f. find_proc n s = Some p \<and> pc_fault p = Some f")
    case True
    then obtain p f where p: "find_proc n s = Some p" "pc_fault p = Some f"
      by blast
    note q = find_procD [OF p(1)]
    have "pc_undo p = Some (undo_of (af_action f))"
      using cluster_okD(2) [OF ok conjunct1 [OF q]] p(2) by (simp add: proc_ok_def fault_ok_def)
    then show ?thesis
      using q p by (intro undone_ok [OF ok conjunct1 [OF q] p(2) refl, where h = forget_fault])
        (simp_all add: clear_fault_def Let_def)
  qed (use ok in \<open>auto simp: clear_fault_def split: option.splits\<close>)
qed

lemma find_proc_Some: "cluster_ok s \<Longrightarrow> p \<in> set (sv_procs s) \<Longrightarrow> find_proc (pc_name p) s = Some p"
proof -
  assume ok: "cluster_ok s" and p: "p \<in> set (sv_procs s)"
  then have "find_proc (pc_name p) s \<noteq> None"
    by (auto simp: find_proc_def find_None_iff)
  then obtain q where q: "find_proc (pc_name p) s = Some q"
    by blast
  have "q \<in> set (sv_procs s)" "pc_name p = pc_name q"
    using find_procD [OF q] by auto
  then have "p = q"
    by (rule same_name [OF ok p])
  then show ?thesis
    using q by (simp only:)
qed

lemma fire_ok:
  assumes ok: "cluster_ok s" and "(n, i, u) \<in> set (sv_timers s)"
  shows "cluster_ok (fire n i u d now s)"
proof -
  let ?s0 = "s\<lparr>sv_timers := removeAll (n, i, u) (sv_timers s)\<rparr>"
  show ?thesis
  proof (cases "\<exists>p f. find_proc n s = Some p \<and> pc_fault p = Some f \<and> af_id f = i")
    case True
    then obtain p f where p: "find_proc n s = Some p" "pc_fault p = Some f" "af_id f = i"
      by blast
    note q = find_procD [OF p(1)]
    have "u = undo_of (af_action f)"
      using cluster_okD(2) [OF ok conjunct1 [OF q]] p(2,3) q assms(2) by (auto simp: proc_ok_def fault_ok_def)
    then show ?thesis
      using q p by (intro undone_ok [OF ok conjunct1 [OF q] p(2), where h = "\<lambda>p. p\<lparr>pc_fault := None\<rparr>" and u = u])
        (auto simp: fire_def Let_def)
  next
    case False
    then have "fire n i u d now s = ?s0"
      by (auto simp: fire_def Let_def split: option.splits)
    moreover have "proc_ok ?s0 p" if p: "p \<in> set (sv_procs s)" for p
    proof (rule proc_ok_frame [OF cluster_okD(2) [OF ok p]])
      fix f v assume f: "pc_fault p = Some f"
      then show "(pc_name p, af_id f, v) \<in> set (sv_timers ?s0) \<longleftrightarrow> (pc_name p, af_id f, v) \<in> set (sv_timers s)"
        using False find_proc_Some [OF ok p] by auto
    qed simp_all
    ultimately show ?thesis
      using ok by (auto simp: cluster_ok_def)
  qed
qed

lemma find_upd: "(\<And>p. pc_name (f p) = pc_name p) \<Longrightarrow> find_proc n (upd_proc n f s) = map_option f (find_proc n s)"
proof -
  assume f: "\<And>p. pc_name (f p) = pc_name p"
  have "List.find (\<lambda>p. pc_name p = n) (map (\<lambda>p. if pc_name p = n then f p else p) xs) = map_option f (List.find (\<lambda>p. pc_name p = n) xs)" for xs
    by (induction xs) (auto simp: f)
  then show ?thesis by (simp add: find_proc_def)
qed

lemma same_cluster:
  assumes "sv_procs s' = sv_procs s" "sv_os s' = sv_os s" "sv_timers s' = sv_timers s" "sv_restarting s' = sv_restarting s"
    "sv_next_cmd s' = sv_next_cmd s" "sv_next_fault s' = sv_next_fault s"
  shows "cluster_ok s' \<longleftrightarrow> cluster_ok s"
  using assms by (simp add: cluster_ok_def proc_ok_def fault_ok_def)

lemma waited_ok:
  assumes ok: "cluster_ok s" and gone: "sv_os s c = Gone"
  shows "cluster_ok (waited n c wt now s)"
proof -
  note D = cluster_okD [OF ok]
  let ?s0 = "s\<lparr>sv_waiters := removeAll (n, c) (sv_waiters s)\<rparr>"
  show ?thesis
  proof (cases "\<exists>p. find_proc n s = Some p \<and> pc_cmd p = Some c")
    case False
    then have "waited n c wt now s = say Observed ''process_exited'' n (fst (exit_event n wt)) (snd (exit_event n wt)) now ?s0"
      by (auto simp: waited_def Let_def split: option.splits)
    then show ?thesis
      using ok by (subst same_cluster [of _ s]) simp_all
  next
    case True
    then obtain p where p: "find_proc n s = Some p" "pc_cmd p = Some c"
      by blast
    note q = find_procD [OF p(1)]
    have P: "proc_ok s p"
      by (rule D(2)) (simp add: q)
    have only: "x = p" if "x \<in> set (sv_procs s)" "pc_name x = n" for x
      using same_name [OF ok that(1), of p] q that(2) by simp
    let ?s1 = "upd_proc n (exited_proc wt) ?s0"
    let ?f = "case pc_fault p of None \<Rightarrow> exited_proc wt | Some f \<Rightarrow> (\<lambda>x. forget_fault (undo_proc (undo_of (af_action f)) (exited_proc wt x)))"
    have find1: "find_proc n ?s1 = Some (exited_proc wt p)"
      using p(1) by (simp add: find_upd)
    have undo: "pc_undo p = Some (undo_of (af_action f))" if "pc_fault p = Some f" for f
      using P that by (simp add: proc_ok_def fault_ok_def)
    have os: "undo_os u (Some c) (sv_os s) = sv_os s" for u
      using gone by (auto simp: undo_os_def continue_os_def split: undo.splits)
    have s2: "sv_procs (snd (clear_fault n ?s1)) = map (\<lambda>x. if pc_name x = n then ?f x else x) (sv_procs s)"
      "sv_os (snd (clear_fault n ?s1)) = sv_os s" "sv_timers (snd (clear_fault n ?s1)) = sv_timers s"
      "sv_restarting (snd (clear_fault n ?s1)) = sv_restarting s" "sv_next_cmd (snd (clear_fault n ?s1)) = sv_next_cmd s"
      "sv_next_fault (snd (clear_fault n ?s1)) = sv_next_fault s"
      using p q undo os by (auto simp: clear_fault_def find1 Let_def split: option.splits)
    have "cluster_ok (snd (clear_fault n ?s1))"
    proof (rule step_ok [OF ok s2(1)])
      show "proc_ok (snd (clear_fault n ?s1)) (?f x)" if "x \<in> set (sv_procs s)" "pc_name x = n" for x
        unfolding only [OF that] using P p(2) gone
        by (auto simp: proc_ok_def fault_ok_def s2 undo_of_def undo_proc_def split: option.splits)
      show "(m, i, u) \<in> set (sv_timers (snd (clear_fault n ?s1))) \<Longrightarrow> i < sv_next_fault (snd (clear_fault n ?s1))" for m i u
        using D(5) [of m i u] by (simp add: s2)
      show "x \<in> set (sv_procs s) \<Longrightarrow> pc_name x = n \<Longrightarrow> pc_cmd x = Some d \<Longrightarrow> pc_state x \<noteq> StExited \<Longrightarrow>
          sv_os (snd (clear_fault n ?s1)) d \<noteq> Gone \<Longrightarrow> pc_cmd (?f x) = Some d \<and> pc_state (?f x) \<noteq> StExited" for x d
        using only [of x] p(2) gone by (simp add: s2)
    qed (use D(6) in \<open>auto simp: s2 split: option.splits\<close>)
    moreover have "waited n c wt now s = say Observed ''process_exited'' n (fst (exit_event n wt)) (snd (exit_event n wt)) now (snd (clear_fault n ?s1))"
      using p by (simp add: waited_def Let_def)
    ultimately show ?thesis
      by (subst same_cluster [of _ "snd (clear_fault n ?s1)"]) simp_all
  qed
qed

lemma ends_ok: "cluster_ok s \<Longrightarrow> cluster_ok (s\<lparr>sv_os := (sv_os s)(c := Gone)\<rparr>)"
proof -
  assume ok: "cluster_ok s"
  have "proc_ok (s\<lparr>sv_os := (sv_os s)(c := Gone)\<rparr>) p" if "p \<in> set (sv_procs s)" for p
    by (rule proc_ok_frame [OF cluster_okD(2) [OF ok that]]) simp_all
  then show ?thesis
    using ok by (auto simp: cluster_ok_def)
qed

lemma stop_kill_ok: "cluster_ok s \<Longrightarrow> cluster_ok (stop_kill n s)"
  using ends_ok by (auto simp: stop_kill_def kill_os_def split: option.splits)

lemma continued_ok: "cluster_ok s \<Longrightarrow> cluster_ok (s\<lparr>sv_os := continue_os c (sv_os s)\<rparr>)"
proof -
  assume ok: "cluster_ok s"
  let ?s' = "s\<lparr>sv_os := continue_os c (sv_os s)\<rparr>"
  note cases = continue_os_cases [of c "sv_os s"]
  have "proc_ok ?s' p" if "p \<in> set (sv_procs s)" for p
  proof -
    have "continue_os c (sv_os s) k = Gone" if "sv_os s k = Gone" for k
      using cases [of k] that by auto
    moreover have "sv_os s k = Paused" if "continue_os c (sv_os s) k = Paused" for k
      using cases [of k] that by auto
    ultimately show ?thesis
      using cluster_okD(2) [OF ok that] by (auto simp: proc_ok_def fault_ok_def)
  qed
  moreover have "\<exists>p \<in> set (sv_procs s). pc_cmd p = Some k \<and> pc_state p \<noteq> StExited" if "continue_os c (sv_os s) k \<noteq> Gone" for k
    by (rule cluster_okD(4) [OF ok]) (use cases [of k] that in auto)
  ultimately show ?thesis
    using ok by (auto simp: cluster_ok_def)
qed

lemma apply_checkD:
  assumes "apply_check r owner s = Inr (d, p)"
  shows "p \<in> set (sv_procs s)" "fr_action r \<in> {''freeze'', ''partition''} \<Longrightarrow> min_fault \<le> d \<and> d \<le> max_fault"
    "fr_action r = ''restart'' \<Longrightarrow> pc_state p = StExited"
    "fr_action r \<noteq> ''restart'' \<Longrightarrow> pc_state p = StRunning \<and> pc_cmd p \<noteq> None \<and> pc_fault p = None"
    "fr_action r \<in> set (allowed (pc_role p))"
  using assms
  by (auto simp: apply_check_def resolve_def validate_fault_def Let_def dest!: find_procD split: sum.splits option.splits if_splits)

lemma arm_simps [simp]:
  "sv_procs (arm n a d u now s) = map (\<lambda>p. if pc_name p = n
     then p\<lparr>pc_fault := Some \<lparr>af_id = sv_next_fault s, af_action = a, af_started = now, af_until = now + d\<rparr>, pc_undo := Some u\<rparr> else p) (sv_procs s)"
  "sv_os (arm n a d u now s) = sv_os s" "sv_timers (arm n a d u now s) = (n, sv_next_fault s, u) # sv_timers s"
  "sv_restarting (arm n a d u now s) = sv_restarting s" "sv_next_cmd (arm n a d u now s) = sv_next_cmd s"
  "sv_next_fault (arm n a d u now s) = Suc (sv_next_fault s)"
  by (simp_all add: arm_def Let_def)

lemma stop_os_cases: "stop_os c os k = os k \<or> (c = Some k \<and> os k = Live \<and> stop_os c os k = Paused)"
  by (auto simp: stop_os_def split: option.splits)

text \<open>Arming a timed fault on a running process, whatever it does to the process's link, state and system status.\<close>

lemma armed_ok:
  assumes ok: "cluster_ok s" and p: "p \<in> set (sv_procs s)" "pc_state p = StRunning" "pc_cmd p = Some c" "pc_fault p = None"
    and d: "a \<in> {''freeze'', ''partition''}" "min_fault \<le> d" "d \<le> max_fault"
    and s1: "sv_procs s1 = map (\<lambda>q. if pc_name q = pc_name p then h q else q) (sv_procs s)" "\<And>k. k \<noteq> c \<Longrightarrow> sv_os s1 k = sv_os s k"
      "sv_os s c = Gone \<longleftrightarrow> sv_os s1 c = Gone"
      "sv_timers s1 = sv_timers s" "sv_restarting s1 = sv_restarting s" "sv_next_cmd s1 = sv_next_cmd s" "sv_next_fault s1 = sv_next_fault s"
    and h: "\<And>q. pc_name (h q) = pc_name q" "\<And>q. pc_cmd (h q) = pc_cmd q" "pc_state (h p) \<noteq> StExited"
      "pc_state (h p) = StStopped \<longrightarrow> a = ''freeze''" "pc_link (h p) = Some True \<longrightarrow> a = ''partition'' \<or> pc_link p = Some True"
      "sv_os s1 c = Paused \<longrightarrow> a = ''freeze'' \<or> sv_os s c = Paused"
  shows "cluster_ok (arm (pc_name p) a d (undo_of a) now s1)"
proof -
  note D = cluster_okD [OF ok]
  let ?s' = "arm (pc_name p) a d (undo_of a) now s1"
  let ?f = "\<lambda>q. (h q)\<lparr>pc_fault := Some \<lparr>af_id = sv_next_fault s, af_action = a, af_started = now, af_until = now + d\<rparr>, pc_undo := Some (undo_of a)\<rparr>"
  have P: "proc_ok s p"
    by (rule D(2) [OF p(1)])
  have only: "q = p" if "q \<in> set (sv_procs s)" "pc_name q = pc_name p" for q
    by (rule same_name [OF ok that(1) p(1) that(2)])
  have "(pc_name p, sv_next_fault s, u) \<notin> set (sv_timers s)" for u
    using D(5) by blast
  then have new: "proc_ok ?s' (?f p)"
    using P p d h s1(3-7) by (auto simp: proc_ok_def fault_ok_def)
  show ?thesis
  proof (rule step_ok [OF ok, where n = "pc_name p" and f = ?f])
    show "sv_procs ?s' = map (\<lambda>q. if pc_name q = pc_name p then ?f q else q) (sv_procs s)"
      using h(1) by (simp add: s1)
    show "proc_ok ?s' (?f q)" if "q \<in> set (sv_procs s)" "pc_name q = pc_name p" for q
      unfolding only [OF that] by (rule new)
    show "sv_os ?s' k = sv_os s k \<or> sv_os ?s' k = Gone \<or>
        (\<exists>q \<in> set (sv_procs s). pc_name q = pc_name p \<and> pc_cmd (?f q) = Some k \<and> pc_state (?f q) \<noteq> StExited)" for k
      using p(1,3) h(2,3) s1(2) by (cases "k = c") (auto intro!: bexI [of _ p])
    show "i < sv_next_fault ?s'" if "(m, i, u) \<in> set (sv_timers ?s')" for m i u
      using that D(5) [of m i u] by (auto simp: s1)
    show "pc_cmd (?f q) = Some k \<and> pc_state (?f q) \<noteq> StExited"
      if "q \<in> set (sv_procs s)" "pc_name q = pc_name p" "pc_cmd q = Some k" for q k
      using only [OF that(1,2)] that(3) h(2,3) by simp
    show "pc_state (?f q) = StExited" if "q \<in> set (sv_procs s)" "pc_name q = pc_name p" "pc_name p \<in> set (sv_restarting ?s')" for q
      using D(7) [OF p(1)] p(2) that(3) by (simp add: s1)
  qed (use h(1,2) D(6) in \<open>auto simp: s1\<close>)
qed

lemma inject_ok:
  assumes ok: "cluster_ok s" and check: "apply_check r owner s = Inr (d, p)" "fr_action r \<noteq> ''restart''"
  shows "cluster_ok (snd (inject (fr_action r) d p sig_err ps now s))"
proof -
  note A = apply_checkD [OF check(1)]
  obtain c where c: "pc_cmd p = Some c"
    using A(4) check(2) by blast
  have P: "pc_state p = StRunning" "pc_fault p = None"
    using A(4) check(2) by blast+
  have link: "pc_link p \<noteq> Some True"
    using cluster_okD(2) [OF ok A(1)] P(2) by (auto simp: proc_ok_def)
  have only: "q = p" if "q \<in> set (sv_procs s)" "pc_name q = pc_name p" for q
    by (rule same_name [OF ok that(1) A(1) that(2)])
  consider "fr_action r = ''partition''" | "fr_action r = ''freeze''" | "fr_action r \<notin> {''freeze'', ''partition''}"
    by blast
  then show ?thesis
  proof cases
    case 1
    have "cluster_ok (arm (pc_name p) ''partition'' d (undo_of ''partition'') now
        (upd_proc (pc_name p) (\<lambda>p. p\<lparr>pc_link := map_option (\<lambda>_. True) (pc_link p)\<rparr>) s))"
      by (rule armed_ok [OF ok A(1) P(1) c P(2), where h = "\<lambda>p. p\<lparr>pc_link := map_option (\<lambda>_. True) (pc_link p)\<rparr>"])
        (use A(2) 1 P(1) in simp_all)
    then show ?thesis
      using ok 1 by (simp add: inject_def undo_of_def)
  next
    case 2
    let ?s1 = "s\<lparr>sv_os := stop_os (pc_cmd p) (sv_os s)\<rparr>"
    have "cluster_ok (arm (pc_name p) ''freeze'' d (undo_of ''freeze'') now ?s1)"
      by (rule armed_ok [OF ok A(1) P(1) c P(2), where h = "\<lambda>q. q"]) (use A(2) 2 P(1) c link in \<open>auto simp: stop_os_def\<close>)
    moreover have "cluster_ok (arm (pc_name p) ''freeze'' d (undo_of ''freeze'') now (upd_proc (pc_name p) (\<lambda>p. p\<lparr>pc_state := StStopped\<rparr>) ?s1))"
      by (rule armed_ok [OF ok A(1) P(1) c P(2), where h = "\<lambda>p. p\<lparr>pc_state := StStopped\<rparr>"])
        (use A(2) 2 P(1) c link in \<open>auto simp: stop_os_def\<close>)
    ultimately show ?thesis
      using ok 2 by (simp add: inject_def undo_of_def Let_def split: option.splits)
  next
    case 3
    then show ?thesis
      using ok ends_ok [OF ok] by (auto simp: inject_def kill_os_def split: option.splits)
  qed
qed

lemma restarting_ok:
  "cluster_ok s \<Longrightarrow> distinct xs \<Longrightarrow> (\<And>p. p \<in> set (sv_procs s) \<Longrightarrow> pc_name p \<in> set xs \<Longrightarrow> pc_state p = StExited) \<Longrightarrow>
   set xs \<subseteq> pc_name ` set (sv_procs s) \<Longrightarrow> cluster_ok (s\<lparr>sv_restarting := xs\<rparr>)"
  by (auto simp: cluster_ok_def proc_ok_def fault_ok_def)

lemma launch_ok:
  assumes ok: "cluster_ok s" and n: "n \<in> set (sv_restarting s)"
  shows "cluster_ok ((snd (launch n started now s))\<lparr>sv_restarting := remove1 n (sv_restarting s)\<rparr>)"
proof (cases started)
  case (Inl e)
  then show ?thesis
    using cluster_okD(6-8) [OF ok] by (auto simp: launch_def intro!: restarting_ok [OF ok] dest: subsetD)
next
  case (Inr pid)
  note D = cluster_okD [OF ok]
  let ?c = "sv_next_cmd s"
  let ?f = "\<lambda>p. p\<lparr>pc_cmd := Some ?c, pc_pid := pid, pc_state := StRunning, pc_exit := None, pc_starts := pc_starts p + 1\<rparr>"
  let ?s' = "(snd (launch n started now s))\<lparr>sv_restarting := remove1 n (sv_restarting s)\<rparr>"
  have s': "sv_procs ?s' = map (\<lambda>p. if pc_name p = n then ?f p else p) (sv_procs s)" "sv_os ?s' = (sv_os s)(?c := Live)"
    "sv_timers ?s' = sv_timers s" "sv_restarting ?s' = remove1 n (sv_restarting s)" "sv_next_cmd ?s' = Suc ?c" "sv_next_fault ?s' = sv_next_fault s"
    using Inr by (simp_all add: launch_def Let_def)
  have gone: "sv_os s ?c = Gone"
    using D(4) [of ?c] D(2) by (fastforce simp: proc_ok_def)
  obtain p where p: "p \<in> set (sv_procs s)" "pc_name p = n"
    using D(8) n by auto
  have ex: "pc_state q = StExited" if "q \<in> set (sv_procs s)" "pc_name q = n" for q
    using D(7) [OF that(1)] that(2) n by simp
  show ?thesis
  proof (rule step_ok [OF ok s'(1)])
    show "proc_ok ?s' (?f q)" if "q \<in> set (sv_procs s)" "pc_name q = n" for q
      using D(2) [OF that(1)] ex [OF that] by (auto simp: proc_ok_def fault_ok_def s')
    show "sv_os ?s' k = sv_os s k \<or> sv_os ?s' k = Gone \<or> (\<exists>q \<in> set (sv_procs s). pc_name q = n \<and> pc_cmd (?f q) = Some k \<and> pc_state (?f q) \<noteq> StExited)" for k
      using p by (auto simp: s')
    show "(m, i, u) \<in> set (sv_timers ?s') \<Longrightarrow> i < sv_next_fault ?s'" for m i u
      using D(5) by (simp add: s')
    show "n \<in> set (sv_restarting ?s') \<Longrightarrow> pc_state (?f q) = StExited" for q
      using D(6) by (simp add: s')
  qed (use D(6) ex in \<open>auto simp: s'\<close>)
qed

lemma cluster_inv: "cluster serial s \<Longrightarrow> serial \<Longrightarrow> cluster_ok s"
proof (induction rule: cluster.induct)
  case (built ps o')
  then show ?case
    by (force simp: cluster_ok_def proc_ok_def new_proc_def)
next
  case (restart_begins s r owner d p)
  then show ?case
    using apply_checkD(1,3) [OF restart_begins.hyps(2)] cluster_okD(6-8) [of s]
    by (intro restarting_ok) (auto dest: same_name)
qed (auto intro: inject_ok launch_ok ends_ok waited_ok fire_ok clear_fault_ok continued_ok stop_kill_ok)

section \<open>Every fault ends\<close>

lemma fire_ends:
  assumes ok: "cluster_ok s" and p: "p \<in> set (sv_procs s)" "pc_fault p = Some f"
  shows "sv_os (fire (pc_name p) (af_id f) u d now s) = undo_os u (pc_cmd p) (sv_os s)"
    "find_proc (pc_name p) (fire (pc_name p) (af_id f) u d now s) = Some ((undo_proc u p)\<lparr>pc_fault := None\<rparr>)"
  using find_proc_Some [OF ok p(1)] p(2)
  by (simp_all add: fire_def Let_def run_undo_def find_upd)

lemma clear_fault_forgets:
  assumes "cluster_ok s"
  shows "map pc_name (sv_procs (snd (clear_fault n s))) = map pc_name (sv_procs s)"
    "p \<in> set (sv_procs (snd (clear_fault n s))) \<Longrightarrow> pc_fault p \<noteq> None \<Longrightarrow>
      pc_name p \<noteq> n \<and> (\<exists>q \<in> set (sv_procs s). pc_name q = pc_name p \<and> pc_fault q \<noteq> None)"
proof -
  show "map pc_name (sv_procs (snd (clear_fault n s))) = map pc_name (sv_procs s)"
    by (auto simp: clear_fault_def Let_def split: option.splits)
  assume p: "p \<in> set (sv_procs (snd (clear_fault n s)))" "pc_fault p \<noteq> None"
  show "pc_name p \<noteq> n \<and> (\<exists>q \<in> set (sv_procs s). pc_name q = pc_name p \<and> pc_fault q \<noteq> None)"
  proof (cases "\<exists>q. find_proc n s = Some q \<and> pc_fault q \<noteq> None")
    case True
    then show ?thesis
      using p by (auto simp: clear_fault_def Let_def dest: find_procD split: option.splits if_splits)
  next
    case False
    then have "snd (clear_fault n s) = s"
      by (auto simp: clear_fault_def split: option.splits)
    then show ?thesis
      using p False find_proc_Some [OF assms, of p] by auto
  qed
qed

lemma snd_clear_step [simp]: "snd (clear_step x n) = snd (clear_fault n (snd x))"
  by (auto simp: clear_step_def split: prod.splits option.splits)

lemma clear_steps:
  assumes "cluster_ok (snd x)"
  shows "cluster_ok (snd (foldl clear_step x ns)) \<and>
    (\<forall>p \<in> set (sv_procs (snd (foldl clear_step x ns))). pc_fault p \<noteq> None \<longrightarrow>
      pc_name p \<notin> set ns \<and> (\<exists>q \<in> set (sv_procs (snd x)). pc_name q = pc_name p \<and> pc_fault q \<noteq> None))"
  using assms
proof (induction ns arbitrary: x)
  case (Cons n ns)
  note c = clear_fault_forgets [OF Cons.prems, where n = n]
  from Cons.IH [of "clear_step x n"] clear_fault_ok [OF Cons.prems, of n] c show ?case
    by simp (metis (no_types, lifting))
qed auto

lemma clear_all_names: "map pc_name (sv_procs (snd (foldl clear_step x ns))) = map pc_name (sv_procs (snd x))" if "cluster_ok (snd x)"
  using that by (induction ns arbitrary: x) (simp_all add: clear_fault_forgets(1) clear_fault_ok)

lemma clear_all_ends:
  assumes "cluster_ok s"
  shows "cluster_ok (snd (clear_all s))" "p \<in> set (sv_procs (snd (clear_all s))) \<Longrightarrow> pc_fault p = None"
proof -
  note c = clear_steps [of "([], s)" "map pc_name (sv_procs s)", folded clear_all_def]
  show "cluster_ok (snd (clear_all s))"
    using c assms by simp
  assume p: "p \<in> set (sv_procs (snd (clear_all s)))"
  have "pc_name p \<in> set (map pc_name (sv_procs (snd (clear_all s))))"
    using p by simp
  also have "map pc_name (sv_procs (snd (clear_all s))) = map pc_name (sv_procs s)"
    using clear_all_names [of "([], s)"] assms by (simp add: clear_all_def)
  finally show "pc_fault p = None"
    using c assms p by auto
qed


text \<open>A scheduler that is started, then frozen for five seconds.\<close>

definition demo_sup :: supervisor where
  "demo_sup = \<lparr>sv_opt = \<lparr>so_bin = [], so_redis = [], so_namespace = [], so_policy = [], so_schedulers = 1, so_workers = 1, so_concurrency = 1,
       so_ttl = 3 * second, so_renew = second, so_port = 9100\<rparr>,
     sv_procs = [(new_proc ''sched-0'' ''scheduler'' [] [] [])\<lparr>pc_link := Some False\<rparr>], sv_os = (\<lambda>_. Gone), sv_timers = [], sv_waiters = [],
     sv_restarting = [''sched-0''], sv_next_cmd = 0, sv_next_fault = 0, sv_events = []\<rparr>"

definition demo_launch :: "supervisor \<Rightarrow> supervisor" where
  "demo_launch s = (snd (launch ''sched-0'' (Inr 4242) 0 s))\<lparr>sv_restarting := remove1 ''sched-0'' (sv_restarting s)\<rparr>"

definition demo_request :: "string \<Rightarrow> int \<Rightarrow> fault_request" where
  "demo_request a ms = \<lparr>fr_action = a, fr_target = ''sched-0'', fr_duration_ms = ms\<rparr>"

definition demo_inject :: "string \<Rightarrow> int \<Rightarrow> supervisor \<Rightarrow> supervisor" where
  "demo_inject a ms s =
     (case apply_check (demo_request a ms) [] s of Inr (d, p) \<Rightarrow> snd (inject a d p None (Some ''T'') 0 s) | Inl _ \<Rightarrow> s)"

lemma demo_sup_built: "cluster serial demo_sup"
proof -
  let ?p = "(new_proc ''sched-0'' ''scheduler'' [] [] [])\<lparr>pc_link := Some False\<rparr>"
  show ?thesis
    using cluster.built [of "[?p]" serial "sv_opt demo_sup"] by (auto simp: demo_sup_def new_proc_def)
qed

lemma demo_launch_reach: "cluster serial s \<Longrightarrow> ''sched-0'' \<in> set (sv_restarting s) \<Longrightarrow> cluster serial (demo_launch s)"
  unfolding demo_launch_def by (rule cluster.restart_launches)

lemma demo_inject_reach: "cluster serial s \<Longrightarrow> a \<noteq> ''restart'' \<Longrightarrow> cluster serial (demo_inject a ms s)"
  using cluster.request [of serial s "demo_request a ms" "[]"]
  by (auto simp: demo_inject_def demo_request_def split: sum.splits)

definition demo_frozen :: supervisor where
  "demo_frozen = demo_inject ''freeze'' 5000 (demo_launch demo_sup)"


section \<open>Two restarts at once\<close>

definition demo_begin :: "supervisor \<Rightarrow> supervisor" where
  "demo_begin s = (case apply_check (demo_request ''restart'' 0) [] s of
     Inr (d, p) \<Rightarrow> s\<lparr>sv_restarting := pc_name p # sv_restarting s\<rparr> | Inl _ \<Rightarrow> s)"

lemma demo_begin_reach: "cluster False s \<Longrightarrow> cluster False (demo_begin s)"
  using cluster.restart_begins [of False s "demo_request ''restart'' 0" "[]"]
  by (auto simp: demo_begin_def demo_request_def split: sum.splits)

text \<open>The process is killed and reaped; two restarts pass their check; between the two launches it is frozen.\<close>

definition demo_dead :: supervisor where
  "demo_dead = waited ''sched-0'' 0 \<lparr>wt_code = - 1, wt_signal = Some ''killed'', wt_error = None\<rparr> 0 (demo_inject ''kill'' 0 (demo_launch demo_sup))"

definition demo_race :: supervisor where
  "demo_race = demo_launch (demo_inject ''freeze'' 5000 (demo_launch (demo_begin (demo_begin demo_dead))))"

lemma demo_race_reach: "cluster False demo_race"
proof -
  have "''sched-0'' \<in> set (sv_restarting demo_sup)"
    by (simp add: demo_sup_def)
  then have "cluster False (demo_inject ''kill'' 0 (demo_launch demo_sup))"
    by (intro demo_inject_reach demo_launch_reach demo_sup_built) simp_all
  moreover have "(''sched-0'', 0) \<in> set (sv_waiters (demo_inject ''kill'' 0 (demo_launch demo_sup)))"
    "sv_os (demo_inject ''kill'' 0 (demo_launch demo_sup)) 0 = Gone"
    by code_simp+
  ultimately have dead: "cluster False demo_dead"
    unfolding demo_dead_def by (rule cluster.reaped)
  have a: "''sched-0'' \<in> set (sv_restarting (demo_begin (demo_begin demo_dead)))"
    and b: "''sched-0'' \<in> set (sv_restarting (demo_inject ''freeze'' 5000 (demo_launch (demo_begin (demo_begin demo_dead)))))"
    by code_simp+
  show ?thesis
    unfolding demo_race_def by (rule demo_launch_reach [OF demo_inject_reach [OF demo_launch_reach [OF demo_begin_reach [OF demo_begin_reach [OF dead]] a]] b]) simp
qed


end
