(* ===== verification/ServerProps.thy ===== *)
theory ServerProps
  imports PollProps Server SubmitterProps SupervisorProps
begin

text \<open>
  The console's HTTP layer: what a request must carry before it changes anything, and that no request changes the queue.
\<close>

section \<open>Nothing changes without the token\<close>

lemma write_check_None:
  "write_check s r = None \<longleftrightarrow>
     srv_token s \<noteq> [] \<and> rq_token r = srv_token s \<and> has_prefix (rq_ctype r) ''application/json'' \<and>
     (rq_origin r = [] \<or> to_lower (rq_origin r) \<in> set (srv_origins s)) \<and>
     (rq_site r \<in> {[], ''same-origin'', ''none''} \<or> rq_origin r \<noteq> [] \<and> to_lower (rq_origin r) \<in> set (srv_extra s))"
  by (auto simp: write_check_def dev_origin_def)

lemma guarded_write_same: "guarded_write s r h a = (x, a') \<Longrightarrow> a' \<noteq> a \<Longrightarrow> write_check s r = None \<and> h a = (x, a')"
  by (auto simp: guarded_write_def split: option.splits)

lemma post_fault_same: "post_fault s e r a = (x, a') \<Longrightarrow> a' \<noteq> a \<Longrightarrow> ap_sup a \<noteq> None \<and> srv_faults s"
  by (auto simp: post_fault_def split: option.splits if_splits)

lemma post_clear_same: "post_clear s e r a = (x, a') \<Longrightarrow> a' \<noteq> a \<Longrightarrow> ap_sup a \<noteq> None \<and> srv_faults s"
  by (auto simp: post_clear_def split: option.splits if_splits)

lemma log_all_simps [simp]: "ap_sup (log_all es a) = ap_sup a" "ap_sub (log_all es a) = ap_sub a"
  by (simp_all add: log_all_def)

lemma post_workload_sup: "post_workload s e r a = (x, a') \<Longrightarrow> ap_sup a' = ap_sup a \<and> (a' \<noteq> a \<longrightarrow> ap_sub a \<noteq> None)"
  by (auto simp: post_workload_def put_sub_def split: option.splits sum.splits prod.splits)

lemma route_write:
  "route r = EFault \<Longrightarrow> rq_method r = ''POST'' \<and> rq_path r = ''/api/v1/faults''"
  "route r = EClear \<Longrightarrow> rq_method r = ''POST'' \<and> rq_path r = ''/api/v1/faults/clear''"
  "route r = EWorkload \<Longrightarrow> rq_method r = ''POST'' \<and> rq_path r = ''/api/v1/workload''"
  by (auto simp: route_def Let_def split: if_splits)

text \<open>
  C16: control needs everything the console asks for. A request that changes the console, its cluster or its submissions is a POST to a
  control endpoint under a Host the console is bound to, carries the session token of a console that has one, is JSON, and comes
  from no other origin: its Origin is absent or accepted, and it is not marked cross-site unless a developer's origin was
  configured. A request that changes the cluster needs fault injection on as well.
\<close>

theorem control_needs_token:
  assumes "handle call s e r a w = (x, a', w')" "a' \<noteq> a"
  shows "rq_method r = ''POST'' \<and> rq_path r \<in> {''/api/v1/faults'', ''/api/v1/faults/clear'', ''/api/v1/workload''} \<and>
    to_lower (rq_host r) \<in> set (srv_hosts s) \<and> srv_token s \<noteq> [] \<and> rq_token r = srv_token s \<and>
    has_prefix (rq_ctype r) ''application/json'' \<and> (rq_origin r = [] \<or> to_lower (rq_origin r) \<in> set (srv_origins s)) \<and>
    (rq_site r \<in> {[], ''same-origin'', ''none''} \<or> rq_origin r \<noteq> [] \<and> to_lower (rq_origin r) \<in> set (srv_extra s)) \<and>
    (ap_sup a' \<noteq> ap_sup a \<longrightarrow> ap_sup a \<noteq> None \<and> srv_faults s)"
proof -
  have host: "to_lower (rq_host r) \<in> set (srv_hosts s)"
    using assms by (auto simp: handle_def Let_def split: if_splits)
  consider "route r = EFault" "guarded_write s r (post_fault s e r) a = (x, a')"
    | "route r = EClear" "guarded_write s r (post_clear s e r) a = (x, a')"
    | "route r = EWorkload" "guarded_write s r (post_workload s e r) a = (x, a')"
    using assms host by (cases "route r") (auto simp: handle_def Let_def split: prod.splits)
  then show ?thesis
  proof cases
    case 1
    from guarded_write_same [OF 1(2) assms(2)] show ?thesis
      using host route_write(1) [OF 1(1)] post_fault_same [OF _ assms(2)] by (auto simp: write_check_None)
  next
    case 2
    from guarded_write_same [OF 2(2) assms(2)] show ?thesis
      using host route_write(2) [OF 2(1)] post_clear_same [OF _ assms(2)] by (auto simp: write_check_None)
  next
    case 3
    from guarded_write_same [OF 3(2) assms(2)] show ?thesis
      using host route_write(3) [OF 3(1)] post_workload_sup by (auto simp: write_check_None)
  qed
qed

text \<open>A demo console with fault injection on, one of whose schedulers is frozen by a request.\<close>

definition demo_server :: server where
  "demo_server = new_server ''demo'' True ''secret'' [''127.0.0.1:8088'', ''localhost:8088''] [] True second 0"

definition demo_post :: http_request where
  "demo_post = \<lparr>rq_method = ''POST'', rq_path = ''/api/v1/faults/clear'', rq_host = ''LOCALHOST:8088'', rq_origin = [], rq_site = ''same-origin'',
     rq_ctype = ''application/json'', rq_token = ''secret'', rq_query = (\<lambda>_. []), rq_fault = Inl [], rq_clear = Inr (), rq_preset = Inl []\<rparr>"

definition demo_env :: env where
  "demo_env = \<lparr>en_now = 0, en_sig = None, en_ps = None, en_started = Inr 4711, en_math = flat_math, en_source = (\<lambda>_. least_draws)\<rparr>"

definition demo_app :: app where
  "demo_app = \<lparr>ap_console = demo_console, ap_sup = Some demo_sup, ap_sub = None\<rparr>"

lemma demo_cleared:
  "length (el_buf (cn_events (ap_console (fst (snd (handle mem_call demo_server demo_env demo_post demo_app demo2)))))) = 1"
  unfolding demo2_val by code_simp

theorem control_needs_token_witness:
  "\<exists>x a' w'. handle mem_call demo_server demo_env demo_post demo_app demo2 = (x, a', w') \<and> a' \<noteq> demo_app \<and>
    rq_token demo_post = srv_token demo_server"
proof -
  obtain x a' w' where h: "handle mem_call demo_server demo_env demo_post demo_app demo2 = (x, a', w')"
    by (metis surj_pair)
  have "length (el_buf (cn_events (ap_console demo_app))) = 0"
    by (simp add: demo_app_def demo_console_def new_console_def new_event_log_def Let_def)
  then have "a' \<noteq> demo_app"
    using demo_cleared h by auto
  then show ?thesis
    using control_needs_token [OF h] h by blast
qed

section \<open>No request changes the queue\<close>

context queue_store
begin

lemma reads_range:
  "f \<in> {Exec, Results, DeadLetter} \<Longrightarrow> reads call view ks (rcall call (XRANGE (k_name ks f) bd n))"
  unfolding reads_def rcall_snd using typedD doc_after
  by (metis insertE redis_doc.simps singletonD)

lemma quiet_range_query:
  assumes "b_keys b = ks" "f \<in> {Exec, Results, DeadLetter}" "range_query what call (k_name ks f) bd n w = (x, w')"
  shows "quiet call view b H w w'"
  using quiet_send [OF assms(1) reads_range [OF assms(2)], of H w bd n] assms(3) by (auto simp: range_query_def split: prod.splits sum.splits reply.splits)

lemma quiet_since:
  assumes "b_keys b = ks" "f \<in> {Exec, Results, DeadLetter}" "since_query what call (k_name ks f) t n w = (x, w')"
  shows "quiet call view b H w w'"
  using assms(3) by (auto simp: since_query_def split: option.splits intro: quiet_range_query [OF assms(1,2)])

lemma quiet_handle:
  assumes "b_keys (cn_broker (ap_console a)) = ks" "handle call s e r a w = (x, a', w')"
  shows "quiet call view (cn_broker (ap_console a)) H w w'"
proof -
  let ?b = "cn_broker (ap_console a)"
  have k: "key ?b f = k_name ks f" for f by (simp add: key_def assms(1))
  have m: "Exec \<in> {Exec, Results, DeadLetter}" "Results \<in> {Exec, Results, DeadLetter}" "DeadLetter \<in> {Exec, Results, DeadLetter}"
    by simp_all
  have "quiet call view ?b H w w1" if "get_dispatches call e r ?b w = (y, w1)" for y w1
    using that by (auto simp: get_dispatches_def dispatches_since_def k Let_def split: prod.splits sum.splits option.splits
        dest!: quiet_since [OF assms(1) m(1), where H = H])
  moreover have "quiet call view ?b H w w1" if "get_tenants call e r ?b w = (y, w1)" for y w1
    using that by (auto simp: get_tenants_def results_since_def k Let_def split: prod.splits sum.splits option.splits
        dest!: quiet_since [OF assms(1) m(2), where H = H])
  moreover have "quiet call view ?b H w w1" if "get_dlq call e r ?b w = (y, w1)" for y w1
    using that by (auto simp: get_dlq_def read_dead_letters_def k split: prod.splits sum.splits option.splits
        dest!: quiet_range_query [OF assms(1) m(3), where H = H])
  ultimately show ?thesis
    using assms(2) by (auto simp: handle_def Let_def split: if_splits endpoint.splits prod.splits)
qed

end

text \<open>
  The page cannot change the queue. No request, with or without the token, changes a key of the queue: the handlers only read
  Redis, and the tasks of a submission go through the producer like any other.
\<close>

theorem requests_only_read:
  assumes "redis call view" "keys_ok (b_keys (cn_broker (ap_console a)))" "reach call view (cn_broker (ap_console a)) w H"
    and "handle call s e r a w = (x, a', w')"
  shows "view (n_db w') = view (n_db w) \<and> reach call view (cn_broker (ap_console a)) w' H"
  using queue_store.quiet_handle [OF queue_storeI [OF assms(1,2)] refl assms(4)] assms(3) by (auto simp: quiet_def)

theorem requests_only_read_witness:
  "\<exists>x a' w'. handle mem_call demo_server demo_env (demo_post\<lparr>rq_method := ''GET'', rq_path := ''/api/v1/dispatches''\<rparr>) demo_app demo2 = (x, a', w') \<and>
    mem_view (n_db w') = mem_view (n_db demo2)"
proof -
  obtain x a' w' where h: "handle mem_call demo_server demo_env (demo_post\<lparr>rq_method := ''GET'', rq_path := ''/api/v1/dispatches''\<rparr>) demo_app demo2 = (x, a', w')"
    by (metis surj_pair)
  have b: "cn_broker (ap_console demo_app) = demo_broker"
    by (simp add: demo_app_def)
  show ?thesis
    using requests_only_read [OF demo_redis _ _ h, of "{}"] demo_keys demo2_reach h by (simp add: b)
qed

end
