(* ===== verification/BenchProps.thy ===== *)
theory BenchProps
  imports BenchRun BenchCsv Progress ServerProps
begin

text \<open>
  The benchmark measures the queue: it collects every result of it, does not declare an experiment complete too early, loses no cell
  of the matrix from its record, and writes rows its headers describe.
\<close>

section \<open>Pages of an ordered stream\<close>

lemma filter_of_filter: "(\<And>e. P e \<Longrightarrow> Q e) \<Longrightarrow> filter P (filter Q es) = filter P es"
  by (induction es) auto

lemma filter_after_last:
  assumes "sorted_wrt (<) (map se_id es)" "F = filter (in_bound bd \<circ> se_id) es" "take n F \<noteq> []"
  shows "filter (in_bound (BAfter (se_id (last (take n F)))) \<circ> se_id) es = drop n F"
proof -
  define l where "l = se_id (last (take n F))"
  have "sorted_wrt (\<lambda>x y. se_id x < se_id y) (take n F @ drop n F)"
    using sorted_wrt_filter [of "\<lambda>x y. se_id x < se_id y" es] assms(1,2) by (simp add: sorted_wrt_map)
  then have split: "sorted_wrt (\<lambda>x y. se_id x < se_id y) (take n F)" "\<And>x y. x \<in> set (take n F) \<Longrightarrow> y \<in> set (drop n F) \<Longrightarrow> se_id x < se_id y"
    unfolding sorted_wrt_append by auto
  have last: "last (take n F) \<in> set (take n F)"
    using assms(3) by (rule last_in_set)
  have low: "\<not> l < se_id e" if "e \<in> set (take n F)" for e
  proof -
    obtain xs where xs: "take n F = xs @ [last (take n F)]"
      using assms(3) append_butlast_last_id by metis
    then have "sorted_wrt (\<lambda>x y. se_id x < se_id y) (xs @ [last (take n F)])" "e \<in> set (xs @ [last (take n F)])"
      using split(1) that by simp_all
    then show ?thesis
      unfolding l_def sorted_wrt_append by auto
  qed
  have high: "l < se_id e" if "e \<in> set (drop n F)" for e
    unfolding l_def by (rule split(2) [OF last that])
  have "in_bound bd l"
    using in_set_takeD [OF last] assms(2) by (simp add: l_def)
  then have up: "in_bound bd i" if "l < i" for i
    using that by (auto simp: in_bound_def split: bound.splits)
  have "filter (in_bound (BAfter l) \<circ> se_id) es = filter (\<lambda>e. l < se_id e) es"
    by (simp add: in_bound_def comp_def)
  also have "\<dots> = filter (\<lambda>e. l < se_id e) F"
    unfolding assms(2) by (rule filter_of_filter [symmetric]) (simp add: up)
  also have "\<dots> = filter (\<lambda>e. l < se_id e) (take n F) @ filter (\<lambda>e. l < se_id e) (drop n F)"
    by (metis append_take_drop_id filter_append)
  also have "filter (\<lambda>e. l < se_id e) (take n F) = []"
    using low by (simp add: filter_empty_conv)
  also have "filter (\<lambda>e. l < se_id e) (drop n F) = drop n F"
    using high by (simp add: filter_id_conv)
  finally show ?thesis by (simp add: l_def comp_def)
qed

lemma parse_results_all:
  "\<forall>e \<in> set es. entry_result e \<noteq> None \<Longrightarrow>
   \<exists>rs. parse_results es c = (rs, if es = [] then c else Some (se_id (last es)), None) \<and> map Some rs = map entry_result es"
proof (induction es arbitrary: c)
  case (Cons e es)
  then obtain r where "unmarshal_result (raw_field e ''result'') = Inr r" "entry_result e = Some r"
    by (auto simp: entry_result_def split: sum.splits)
  moreover obtain rs where "parse_results es (Some (se_id e)) = (rs, if es = [] then Some (se_id e) else Some (se_id (last es)), None)"
    "map Some rs = map entry_result es"
    using Cons by auto
  ultimately show ?case by auto
qed simp

section \<open>Collecting\<close>

context queue_store
begin

lemma reads_len: "reads call view ks (rcall call (XLEN (k_name ks Results)))"
  unfolding reads_def rcall_snd using typedD doc_after
  by (metis redis_doc.simps)

text \<open>A page is what the stream holds after the cursor, up to 1000 entries.\<close>

lemma page_answer:
  assumes "b_keys b = ks" "reach call view b w H" "inv_results (queue_at view b w)" "read_results call b c n w = (x, w')"
  defines "F \<equiv> filter (in_bound (exclusive c) \<circ> se_id) (st_entries (q_results (queue_at view b w)))"
  shows "quiet call view b H w w'" "n_faults w = [] \<Longrightarrow> snd (snd x) = None \<and> n_faults w' = []"
    "x = (page, c', None) \<Longrightarrow>
       map Some page = map entry_result (take (nat n) F) \<and> c' = (if take (nat n) F = [] then c else Some (se_id (last (take (nat n) F))))"
proof -
  have k: "key b Results = k_name ks Results" by (simp add: key_def assms(1))
  let ?c = "XRANGE (k_name ks Results) (exclusive c) n"
  have R: "reads call view ks (rcall call ?c)"
    by (rule reads_range) simp
  have reply: "fst (rcall call ?c s) = Inr (REntries (take (nat n) F))" if "typed ks (view s)" "view s = view (n_db w)" for s
    using doc_after [of ?c s] typedD(15) [OF that(1)] that rcall_reply_fst [of call ?c s]
    by (simp add: F_def qabs_sel assms(1) comp_def)
  have parse: "\<exists>rs. parse_results (take (nat n) F) c = (rs, if take (nat n) F = [] then c else Some (se_id (last (take (nat n) F))), None) \<and>
      map Some rs = map entry_result (take (nat n) F)"
    by (rule parse_results_all) (use assms(3) in \<open>auto simp: inv_results_def F_def dest!: in_set_takeD\<close>)
  have es: "es = take (nat n) F" if a: "fst (send (rcall call ?c) w) = Inr (REntries es)" for es
  proof -
    from answer [OF assms(1,2) R a] obtain s where
      "typed ks (view s)" "view s = view (n_db w)" "fst (rcall call ?c s) = Inr (REntries es)" .
    with reply show ?thesis by simp
  qed
  show "quiet call view b H w w'"
    using quiet_send [OF assms(1) R, of H w] assms(4)
    by (auto simp: read_results_def range_query_def k split: prod.splits sum.splits reply.splits)
  show "snd (snd x) = None \<and> n_faults w' = []" if "n_faults w = []"
  proof -
    have "fst (rcall call ?c (n_db w)) = Inr (REntries (take (nat n) F))"
      using reply [of "n_db w"] reach_inv [OF assms(2,1)] by blast
    then show ?thesis
      using assms(4) parse that by (auto simp: read_results_def range_query_def k calm_send)
  qed
  show "map Some page = map entry_result (take (nat n) F) \<and> c' = (if take (nat n) F = [] then c else Some (se_id (last (take (nat n) F))))"
    if "x = (page, c', None)"
    using assms(4) that parse es
    by (auto simp: read_results_def range_query_def k split: prod.splits sum.splits reply.splits)
qed

lemma collect_ends:
  assumes "b_keys b = ks" "reach call view b w H" "inv_results (queue_at view b w)"
    and "F = filter (in_bound (exclusive c) \<circ> se_id) (st_entries (q_results (queue_at view b w)))"
  shows "\<exists>r w'. collect_results call b c acc w = Some (r, w') \<and> quiet call view b H w w' \<and>
    (\<forall>rs. r = Inr rs \<longrightarrow> map Some rs = map Some acc @ map entry_result F) \<and> (n_faults w = [] \<longrightarrow> isl r = False)"
  using assms(2-4)
proof (induction "length F" arbitrary: F c acc w rule: less_induct)
  case less
  obtain page c' err w1 where read: "read_results call b c page_size w = ((page, c', err), w1)"
    by (metis surj_pair)
  let ?E = "st_entries (q_results (queue_at view b w))"
  note answers = page_answer [OF assms(1) less.prems(1,2) read, folded less.prems(3)]
  have out: "map Some page = map entry_result (take 1000 F) \<and> c' = (if take 1000 F = [] then c else Some (se_id (last (take 1000 F))))"
    if "err = None"
    using answers(3) that by (simp add: page_size_def)
  have calm: "err = None \<and> n_faults w1 = []" if "n_faults w = []"
    using answers(2) that by simp
  have quiet: "quiet call view b H w w1" by (rule answers(1))
  show ?case
  proof (cases "err = None \<and> page \<noteq> []")
    case False
    then show ?thesis
      using read quiet calm out by (subst collect_results.simps) (auto split: option.splits)
  next
    case True
    then have ne: "take 1000 F \<noteq> []" using out by fastforce
    let ?l = "last (take 1000 F)"
    have c': "c' = Some (se_id ?l)" using True out ne by simp
    have ord: "st_ordered (q_results (queue_at view b w))"
      using less.prems(2) by (simp add: inv_results_def)
    have l: "?l \<in> set F"
      using last_in_set [OF ne] by (rule in_set_takeD)
    then have "se_id ?l \<noteq> (0, 0)"
      using ord less.prems(3) by (auto simp: st_ordered_def)
    then have ex: "exclusive c' = BAfter (se_id ?l)" by (simp add: exclusive_def c')
    have view: "reach call view b w1 H" "queue_at view b w1 = queue_at view b w"
      using quiet less.prems(1) by (simp_all add: quiet_def)
    have rest: "drop 1000 F = filter (in_bound (exclusive c') \<circ> se_id) (st_entries (q_results (queue_at view b w1)))"
      unfolding ex view(2) using filter_after_last [OF _ less.prems(3) ne] ord by (simp add: st_ordered_def)
    have shorter: "length (drop 1000 F) < length F" using ne by (cases F) auto
    obtain r w' where r: "collect_results call b c' (acc @ page) w1 = Some (r, w')" "quiet call view b H w1 w'"
      "\<forall>rs. r = Inr rs \<longrightarrow> map Some rs = map Some (acc @ page) @ map entry_result (drop 1000 F)" "n_faults w1 = [] \<longrightarrow> isl r = False"
      using less.hyps [OF shorter view(1) _ rest] less.prems(2) view(2) by metis
    have "map entry_result F = map Some page @ map entry_result (drop 1000 F)"
      using True out by (metis append_take_drop_id map_append)
    then show ?thesis
      using read True r quiet_trans [OF quiet r(2)] calm by (subst collect_results.simps) auto
  qed
qed

text \<open>The two counts a waiting loop reads are those of the queue.\<close>

lemma count_answer:
  assumes "b_keys b = ks" "reach call view b w H" "result_count call b w = (Inr n, w')"
  shows "n = int (length (st_entries (q_results (queue_at view b w))))"
proof -
  have "fst (call (XLEN (k_name ks Results)) s) = RInt (int (length (st_entries (stream_at (view s) (k_name ks Results)))))"
    if "typed ks (view s)" for s
    using doc_after [of "XLEN (k_name ks Results)" s] typedD(15) [OF that] by simp
  moreover have "fst (int_query ''results length'' call (XLEN (k_name ks Results)) w) = Inr n"
    using assms(1,3) by (simp add: result_count_def key_def)
  ultimately have "n = int (length (st_entries (stream_at (view (n_db w)) (k_name ks Results))))"
    using int_answer [OF assms(1,2) _ reads_len, where f = "\<lambda>d. int (length (st_entries (stream_at d (k_name ks Results))))"] by blast
  then show ?thesis
    by (simp add: qabs_def assms(1))
qed

lemma quiet_count:
  assumes "b_keys b = ks"
  shows "quiet call view b H w (snd (result_count call b w))"
  using quiet_send [OF assms reads_len, of H w]
  by (auto simp: result_count_def int_query_def key_def assms split: prod.splits sum.splits option.splits)

lemma completion_counts:
  assumes "b_keys b = ks" "reach call view b w H" "wait_for_completion call b expected deadline turns w = (out, w')"
    and "int (length (st_entries (q_results (queue_at view b w)))) + int (length (st_entries (q_dead (queue_at view b w)))) < 2 ^ 63"
  shows "quiet call view b H w w' \<and>
    (out = Some False \<longrightarrow> expected \<le> int (length (st_entries (q_results (queue_at view b w)))) + int (length (st_entries (q_dead (queue_at view b w)))))"
  using assms(2-4)
proof (induction turns arbitrary: w)
  case (Cons t turns)
  obtain x1 w1 x2 w2 where q: "result_count call b w = (x1, w1)" "dead_letter_count call b w1 = (x2, w2)"
    by (metis surj_pair)
  have s1: "quiet call view b H w w1" using quiet_count [OF assms(1), of H w] q(1) by simp
  have s2: "quiet call view b H w1 w2" using quiet_queries(6) [OF assms(1), of H w1] q(2) by simp
  have same: "reach call view b w1 H" "queue_at view b w1 = queue_at view b w" "reach call view b w2 H" "queue_at view b w2 = queue_at view b w"
    using s1 s2 Cons.prems(1) by (simp_all add: quiet_def)
  let ?n = "int (length (st_entries (q_results (queue_at view b w))))" and ?d = "int (length (st_entries (q_dead (queue_at view b w))))"
  have n: "0 \<le> count_or_zero x1 \<and> count_or_zero x1 \<le> ?n"
    using count_answer [OF assms(1) Cons.prems(1)] q(1) by (cases x1) (auto simp: count_or_zero_def)
  have d: "0 \<le> count_or_zero x2 \<and> count_or_zero x2 \<le> ?d"
    using query_answers(2) [OF assms(1) same(1)] q(2) same(2) by (cases x2) (auto simp: count_or_zero_def)
  have "i64 (count_or_zero x1 + count_or_zero x2) = count_or_zero x1 + count_or_zero x2"
    using n d Cons.prems(3) by (intro i64_id) (simp add: in_i64_def)
  then have enough: "expected \<le> ?n + ?d" if "expected \<le> i64 (count_or_zero x1 + count_or_zero x2)"
    using that n d by linarith
  note q12 = quiet_trans [OF s1 s2]
  note IH = Cons.IH [OF same(3)]
  show ?case
    using Cons.prems(2,3) q s1 q12 enough same IH quiet_trans [OF q12]
    by (auto split: if_splits)
qed simp

end

text \<open>
  C14: an experiment measures every completed task, once. On every reachable queue the collection ends, and changes no key. When it ends
  without an error, which it does when every request is answered, it has the result of every entry of the results stream, in
  order, page after page, and no task twice.
\<close>

theorem collect_complete:
  assumes "redis call view" "keys_ok (b_keys b)" "reach call view b w H"
  shows "\<exists>r w'. collect_results call b (Some (0, 0)) [] w = Some (r, w') \<and> view (n_db w') = view (n_db w) \<and>
    (n_faults w = [] \<longrightarrow> \<not> isl r) \<and>
    (\<forall>rs. r = Inr rs \<longrightarrow> map Some rs = map entry_result (st_entries (q_results (queue_at view b w))) \<and> distinct (map r_task_id rs))"
proof -
  let ?E = "st_entries (q_results (queue_at view b w))"
  have inv: "inv_results (queue_at view b w)"
    using reach_winv [OF assms] by (simp add: winv_def world_of_def)
  have all: "?E = filter (in_bound (exclusive (Some (0, 0))) \<circ> se_id) ?E"
    by (simp add: exclusive_def in_bound_def comp_def)
  from queue_store.collect_ends [OF queue_storeI [OF assms(1,2)] refl assms(3) inv all, of "[]"] obtain r w' where
    c: "collect_results call b (Some (0, 0)) [] w = Some (r, w')" "quiet call view b H w w'"
      "\<forall>rs. r = Inr rs \<longrightarrow> map Some rs = map entry_result ?E" "n_faults w = [] \<longrightarrow> isl r = False"
    by auto
  have "distinct (map r_task_id rs)" if "map Some rs = map entry_result ?E" for rs
  proof -
    have "map r_task_id rs = map (\<lambda>x. case x of Some r \<Rightarrow> r_task_id r | None \<Rightarrow> []) (map Some rs)"
      by simp
    also have "\<dots> = result_ids (queue_at view b w)"
      unfolding that by (simp add: result_ids_def)
    finally show ?thesis
      using inv by (simp add: inv_results_def)
  qed
  then show ?thesis
    using c assms(3) by (auto simp: quiet_def)
qed

text \<open>The run of the other witnesses, its one dispatched task completed.\<close>

definition demo4 :: "mem net" where
  "demo4 = snd (complete mem_call demo_broker demo_result (Some (1, 0)) (from_unix_milli 6050) demo3)"

lemma demo4_reach: "reach mem_call mem_view demo_broker demo4 {demo_msg}"
proof -
  have "reach mem_call mem_view demo_broker (snd (complete mem_call demo_broker demo_result (Some (x_id demo_msg)) (from_unix_milli 6050) demo3)) {demo_msg}"
    by (rule reach.completion) (use demo3_reach in \<open>simp_all add: demo_result_def result_of_def Let_def\<close>)
  then show ?thesis
    by (simp add: demo4_def demo_msg_def)
qed

lemma demo4_results: "length (st_entries (q_results (queue_at mem_view demo_broker demo4))) = 1"
  unfolding demo4_def demo3_def demo3_val snd_conv qabs_def qstate.select_convs by code_simp

theorem collect_complete_witness:
  "\<exists>r w'. collect_results mem_call demo_broker (Some (0, 0)) [] demo4 = Some (r, w') \<and> (\<forall>rs. r = Inr rs \<longrightarrow> length rs = 1)"
proof -
  obtain r w' where c: "collect_results mem_call demo_broker (Some (0, 0)) [] demo4 = Some (r, w')"
    "\<forall>rs. r = Inr rs \<longrightarrow> map Some rs = map entry_result (st_entries (q_results (queue_at mem_view demo_broker demo4)))"
    using collect_complete [OF demo_redis demo_keys demo4_reach] by blast
  have "length rs = 1" if "r = Inr rs" for rs
    using c(2) that demo4_results map_eq_imp_length_eq by fastforce
  then show ?thesis
    using c(1) by blast
qed

text \<open>
  An experiment is not complete before its tasks are. Whatever queries fail on the way, while fewer than \<open>2 ^ 63\<close> results and dead
  letters are in the queue, the waiting loop reports completion only when at least as many of them as it was told to expect are.
\<close>

theorem completion_is_real:
  assumes "redis call view" "keys_ok (b_keys b)" "reach call view b w H"
    and "wait_for_completion call b expected deadline turns w = (Some False, w')"
    and "int (length (st_entries (q_results (queue_at view b w)))) + int (length (st_entries (q_dead (queue_at view b w)))) < 2 ^ 63"
  shows "expected \<le> int (length (st_entries (q_results (queue_at view b w')))) + int (length (st_entries (q_dead (queue_at view b w'))))"
  using queue_store.completion_counts [OF queue_storeI [OF assms(1,2)] refl assms(3-5)] assms(3) by (auto simp: quiet_def)

definition demo_turn :: poll_turn where
  "demo_turn = \<lparr>pt_done1 = False, pt_done2 = False, pt_now = 0, pt_cancelled = False\<rparr>"

lemma demo_waited: "fst (wait_for_completion mem_call demo_broker 1 10 [demo_turn] demo4) = Some False"
  unfolding demo4_def demo3_def demo3_val snd_conv demo_turn_def by code_simp

lemma demo4_dead: "st_entries (q_dead (queue_at mem_view demo_broker demo4)) = []"
  unfolding demo4_def demo3_def demo3_val snd_conv qabs_def qstate.select_convs by code_simp

theorem completion_is_real_witness:
  "\<exists>w'. wait_for_completion mem_call demo_broker 1 10 [demo_turn] demo4 = (Some False, w') \<and>
    1 \<le> int (length (st_entries (q_results (queue_at mem_view demo_broker w')))) + int (length (st_entries (q_dead (queue_at mem_view demo_broker w'))))"
proof -
  obtain w' where "wait_for_completion mem_call demo_broker 1 10 [demo_turn] demo4 = (Some False, w')"
    using demo_waited by (metis prod.collapse)
  then show ?thesis
    using completion_is_real [OF demo_redis demo_keys demo4_reach, of 1 10 "[demo_turn]" w'] demo4_results demo4_dead
    by (simp del: wait_for_completion.simps)
qed

section \<open>The record of a run\<close>

definition results_of :: "(run_identity \<times> cell) list \<Rightarrow> summary list" where
  "results_of xs = concat (map (\<lambda>(i, c). case ce_result c of Inr s \<Rightarrow> [s] | Inl _ \<Rightarrow> []) xs)"

definition errors_of :: "(run_identity \<times> cell) list \<Rightarrow> (run_identity \<times> bench_error) list" where
  "errors_of xs = concat (map (\<lambda>(i, c). case ce_result c of Inr _ \<Rightarrow> [] | Inl e \<Rightarrow> [(i, e)]) xs)"

text \<open>Where the loop stops, and what it has recorded there.\<close>

lemma run_cells_record:
  assumes "run_cells n all_n xs m = (out, m')"
  shows "\<exists>k \<le> length xs.
    mf_experiments m' = mf_experiments m @ results_of (take k xs) \<and> mf_failures m' = mf_failures m @ errors_of (take k xs) \<and>
    (\<exists>extra. mf_rows m' = mf_rows m @ results_of (take k xs) @ extra \<and> ((\<forall>e. out \<noteq> RunWriteFailed e) \<longrightarrow> extra = []) \<and> length extra \<le> 1) \<and>
    (out = RunComplete \<longrightarrow> k = length xs \<and> mf_finished m' = mf_finished m) \<and>
    (\<forall>d l. out = RunInterrupted d l \<longrightarrow> d = n + k \<and> l = all_n \<and> k < length xs \<and> mf_finished m' \<noteq> None)"
  using assms
proof (induction xs arbitrary: n m)
  case Nil
  then show ?case by (auto simp: results_of_def errors_of_def)
next
  case (Cons x xs)
  obtain i c where x: "x = (i, c)" by (cases x)
  consider "ce_cancelled c" | e where "\<not> ce_cancelled c" "ce_result c = Inl e"
    | s where "\<not> ce_cancelled c" "ce_result c = Inr s" by (cases "ce_result c") auto
  then show ?case
  proof cases
    case 1
    then show ?thesis
      using Cons.prems x by (intro exI [of _ 0]) (auto simp: results_of_def errors_of_def)
  next
    case 2
    then have "run_cells (Suc n) all_n xs (m\<lparr>mf_failures := mf_failures m @ [(i, e)]\<rparr>) = (out, m')"
      using Cons.prems x by simp
    from Cons.IH [OF this] obtain k where "k \<le> length xs" and k: "mf_experiments m' = mf_experiments m @ results_of (take k xs)"
      "mf_failures m' = (mf_failures m @ [(i, e)]) @ errors_of (take k xs)"
      "\<exists>extra. mf_rows m' = mf_rows m @ results_of (take k xs) @ extra \<and> ((\<forall>e. out \<noteq> RunWriteFailed e) \<longrightarrow> extra = []) \<and> length extra \<le> 1"
      "out = RunComplete \<longrightarrow> k = length xs \<and> mf_finished m' = mf_finished m"
      "\<forall>d l. out = RunInterrupted d l \<longrightarrow> d = Suc n + k \<and> l = all_n \<and> k < length xs \<and> mf_finished m' \<noteq> None"
      by auto
    then show ?thesis
      using 2 x by (intro exI [of _ "Suc k"]) (simp add: results_of_def errors_of_def)
  next
    case 3
    show ?thesis
    proof (cases "ce_append c = None \<and> ce_tenants c = None")
      case False
      then show ?thesis
        using 3 Cons.prems x by (intro exI [of _ 0]) (auto simp: Let_def results_of_def errors_of_def split: option.splits)
    next
      case True
      then have "run_cells (Suc n) all_n xs (m\<lparr>mf_rows := mf_rows m @ [s], mf_experiments := mf_experiments m @ [s]\<rparr>) = (out, m')"
        using 3 Cons.prems x by (simp add: Let_def)
      from Cons.IH [OF this] obtain k where "k \<le> length xs" and k: "mf_experiments m' = (mf_experiments m @ [s]) @ results_of (take k xs)"
        "mf_failures m' = mf_failures m @ errors_of (take k xs)"
        "\<exists>extra. mf_rows m' = (mf_rows m @ [s]) @ results_of (take k xs) @ extra \<and> ((\<forall>e. out \<noteq> RunWriteFailed e) \<longrightarrow> extra = []) \<and> length extra \<le> 1"
        "out = RunComplete \<longrightarrow> k = length xs \<and> mf_finished m' = mf_finished m"
        "\<forall>d l. out = RunInterrupted d l \<longrightarrow> d = Suc n + k \<and> l = all_n \<and> k < length xs \<and> mf_finished m' \<noteq> None"
        by auto
      then show ?thesis
        using 3 x by (intro exI [of _ "Suc k"]) (simp add: results_of_def errors_of_def)
    qed
  qed
qed

lemma record_counts: "length (results_of xs) + length (errors_of xs) = length xs"
  by (induction xs) (auto simp: results_of_def errors_of_def split: sum.splits)


text \<open>A matrix of one cell, whose experiment fails.\<close>

definition demo_cell :: cell where
  "demo_cell = \<lparr>ce_cancelled = False, ce_result = Inl (ComponentError ''worker''), ce_append = None, ce_tenants = None, ce_now = 5\<rparr>"

definition demo_options :: bench_options where
  "demo_options = \<lparr>bo_base = None, bo_redis = True, bo_logger = True, bo_run_id = ''r'', bo_results_dir = [], bo_schedulers = [''fifo''],
     bo_workloads = [''poisson''], bo_reps = 2, bo_loads = [], bo_procs = 1, bo_conc = 1, bo_max_in_flight = 0, bo_timeout = 0, bo_settle = 0\<rparr>"

lemma demo_run: "length (matrix demo_options base) = 2"
  by (simp add: matrix_def demo_options_def Let_def)


section \<open>Rows and names\<close>

text \<open>A column holds the type its name stands for; whether a missed deadline is a truth value or a count is the table's.\<close>

definition column_ok :: "string list \<Rightarrow> string \<Rightarrow> csv_field \<Rightarrow> bool" where
  "column_ok bools h f =
     (if h \<in> set bools then (case f of CBool _ \<Rightarrow> True | _ \<Rightarrow> False)
      else if h \<in> set text_columns then (case f of CText _ \<Rightarrow> True | _ \<Rightarrow> False)
      else if h \<in> set time_columns then (case f of CTime t \<Rightarrow> \<not> is_zero_time t | CText s \<Rightarrow> s = [] | _ \<Rightarrow> False)
      else if h = ''timestamp_utc'' then (case f of CStamp _ \<Rightarrow> True | _ \<Rightarrow> False)
      else if h \<in> set int_columns \<or> h = ''deadline_missed'' then (case f of CInt _ \<Rightarrow> True | _ \<Rightarrow> False)
      else (case f of CF6 _ \<Rightarrow> True | _ \<Rightarrow> False))"

lemmas columns = column_ok_def text_columns_def time_columns_def int_columns_def

lemma raw_row_fits: "list_all2 (column_ok (''deadline_missed'' # bool_columns)) raw_header (raw_row i r)"
  by (simp add: raw_header_def raw_row_def columns bool_columns_def ts_def)

lemma aggregate_row_fits: "list_all2 (column_ok bool_columns) aggregate_header (aggregate_row s)"
  by (simp add: aggregate_header_def aggregate_row_def columns bool_columns_def Let_def)

lemma tenant_row_fits: "list_all2 (column_ok bool_columns) tenant_header (tenant_row s t)"
  by (simp add: tenant_header_def tenant_row_def columns bool_columns_def Let_def)

lemma headers_distinct: "distinct raw_header" "distinct aggregate_header" "distinct tenant_header"
  by code_simp+


lemma demo_loads: "show_f2 (Fin (45 / 64)) = ''0.70''" "show_f2 (Fin (89 / 128)) = ''0.70''"
  by code_simp+

text \<open>
  Two loads can share a name. A load is written to two decimal places, so two experiments of one sweep that differ only in the load can
  have one namespace and one file of raw rows, and the later overwrites the rows of the earlier.
\<close>

theorem load_suffixes_collide:
  "\<exists>l l'. l \<noteq> l' \<and> \<not> fle l (Fin 0) \<and> \<not> fle l' (Fin 0) \<and>
    (\<forall>i. namespace_of (i\<lparr>id_load := l\<rparr>) = namespace_of (i\<lparr>id_load := l'\<rparr>) \<and> file_base (i\<lparr>id_load := l\<rparr>) = file_base (i\<lparr>id_load := l'\<rparr>))"
proof -
  have same: "load_suffix (Fin (45 / 64)) sep = load_suffix (Fin (89 / 128)) sep" for sep
    by (simp add: load_suffix_def demo_loads)
  show ?thesis
    by (intro exI [of _ "Fin (45 / 64)"] exI [of _ "Fin (89 / 128)"]) (simp add: namespace_of_def file_base_def same)
qed

end
