(* ===== verification/ConfigProps.thy ===== *)
theory ConfigProps
  imports BrokerTheorems Loops
begin

text \<open>
  What a configuration guarantees: the defaults are complete and valid, and a configuration that passes validation builds a
  policy and a lease; and what validation does not look at.
\<close>

section \<open>Defaults\<close>

lemma or_default_idem [simp]: "d \<noteq> zero \<Longrightarrow> or_default zero d (or_default zero d v) = or_default zero d v"
  by (simp add: or_default_def)

lemma or_default_keeps: "v \<noteq> zero \<Longrightarrow> or_default zero d v = v"
  by (simp add: or_default_def)

lemma or_default_f_idem [simp]: "\<not> feq d (Fin 0) \<Longrightarrow> or_default_f d (or_default_f d v) = or_default_f d v"
  by (simp add: or_default_f_def)

lemma default_nonzero:
  "\<not> zero_deadline (wl_deadline (c_workload default_config))" "\<not> zero_burst (wl_burst (c_workload default_config))"
  "\<not> zero_heavy (wl_heavy (c_workload default_config))" "\<not> feq (sc_default_weight (c_scheduler default_config)) (Fin 0)"
  "\<not> feq (wl_rate (c_workload default_config)) (Fin 0)"
  by code_simp+

text \<open>
  The built-in configuration is complete and valid: filling in defaults changes nothing of it, and it passes every check.
\<close>

lemma default_valid: "validate default_config = []"
  by code_simp

lemma or_default_same [simp]: "or_default z v v = v"
  by (simp add: or_default_def)

lemma or_default_f_same [simp]: "or_default_f v v = v"
  by (simp add: or_default_f_def)

theorem defaults_valid: "validate default_config = [] \<and> apply_defaults default_config = default_config"
  using default_valid
  by (simp add: apply_defaults_def default_redis_def default_streams_def default_scheduler_def default_election_def default_worker_def
      default_recovery_def default_workload_def default_log_def Let_def)

text \<open>What a changed section must still pass.\<close>

lemma validate_streams_update:
  "validate c = [] \<Longrightarrow> validate_streams s = [] \<Longrightarrow> validate (c\<lparr>c_streams := s\<rparr>) = []"
  by (simp add: validate_def Let_def)

lemma validate_policy_update:
  "validate c = [] \<Longrightarrow> valid_policy p \<Longrightarrow> validate (c\<lparr>c_scheduler := (c_scheduler c)\<lparr>sc_policy := p\<rparr>\<rparr>) = []"
  by (simp add: validate_def Let_def)

text \<open>
  Filling in defaults is done once and for all: doing it again changes nothing, a field the document set is kept, and
  leader election, the failure rates and recovery, whose zero values mean something, are never switched on by it.
\<close>

theorem apply_defaults_idem:
  "apply_defaults (apply_defaults c) = apply_defaults c \<and>
   le_enabled (sc_election (c_scheduler (apply_defaults c))) = le_enabled (sc_election (c_scheduler c)) \<and>
   wk_fail_rate (c_worker (apply_defaults c)) = wk_fail_rate (c_worker c) \<and>
   wk_abandon_rate (c_worker (apply_defaults c)) = wk_abandon_rate (c_worker c) \<and>
   rv_enabled (c_recovery (apply_defaults c)) = rv_enabled (c_recovery c) \<and>
   sc_max_in_flight (c_scheduler (apply_defaults c)) = sc_max_in_flight (c_scheduler c) \<and>
   (\<forall>p. sc_policy (c_scheduler c) = p \<and> p \<noteq> [] \<longrightarrow> sc_policy (c_scheduler (apply_defaults c)) = p)"
proof -
  have r: "default_redis (default_redis x) = default_redis x" for x
    by (simp add: default_redis_def default_config_def Let_def second_def)
  have s: "default_streams (default_streams x) = default_streams x" for x
    by (simp add: default_streams_def default_config_def Let_def)
  have e: "default_election (default_election x) = default_election x" for x
    by (simp add: default_election_def default_config_def Let_def second_def millisecond_def)
  have sc: "default_scheduler (default_scheduler x) = default_scheduler x" for x
    using e default_nonzero(4) by (simp add: default_scheduler_def Let_def) (simp add: default_config_def second_def millisecond_def)
  have w: "default_worker (default_worker x) = default_worker x" for x
    by (simp add: default_worker_def default_config_def Let_def second_def millisecond_def)
  have v: "default_recovery (default_recovery x) = default_recovery x" for x
    by (simp add: default_recovery_def default_config_def Let_def second_def millisecond_def)
  have l: "default_workload (default_workload x) = default_workload x" for x
    using default_nonzero by (simp add: default_workload_def Let_def) (simp add: default_config_def)
  have g: "default_log (default_log x) = default_log x" for x
    by (simp add: default_log_def default_config_def Let_def)
  show ?thesis
    unfolding apply_defaults_def config.select_convs r s sc w v l g
    by (simp add: default_scheduler_def default_election_def default_worker_def default_recovery_def Let_def or_default_def)
qed

theorem apply_defaults_idem_witness:
  "sc_policy (c_scheduler (apply_defaults (default_config\<lparr>c_scheduler := (c_scheduler default_config)\<lparr>sc_policy := ''edf''\<rparr>\<rparr>))) = ''edf''"
  using apply_defaults_idem [of "default_config\<lparr>c_scheduler := (c_scheduler default_config)\<lparr>sc_policy := ''edf''\<rparr>\<rparr>"] by simp

section \<open>A valid configuration\<close>

lemma valid_policy_cases: "valid_policy n \<longleftrightarrow> n \<in> {''fifo'', ''priority'', ''edf'', ''wfq''}"
  by (auto simp: valid_policy_def policy_names_def)

text \<open>What the checks guarantee of the policy and of the lease.\<close>

lemma policy_builds:
  assumes "validate c = []"
  shows "\<exists>p. new_policy (sc_policy (c_scheduler c)) (sc_weights (c_scheduler c)) (sc_default_weight (c_scheduler c)) = Inr p \<and>
    pol_name p = sc_policy (c_scheduler c)"
proof -
  let ?s = "c_scheduler c"
  have pol: "valid_policy (sc_policy ?s)" "\<not> fle (sc_default_weight ?s) (Fin 0)" "\<forall>(a, v) \<in> set (sc_weights ?s). \<not> fle v (Fin 0)"
    using assms by (auto simp: validate_def Let_def)
  have "\<not> feq (sc_default_weight ?s) (Fin 0)"
    using pol(2) by (auto simp: feq_def fle_def)
  then have "\<exists>p. wfq_new (sc_weights ?s) (sc_default_weight ?s) = Inr p"
    using pol(2,3) check_weights_None [of "sc_weights ?s"] by (auto simp: wfq_new_def Let_def)
  then show ?thesis
    using pol(1) by (auto simp: valid_policy_cases new_policy_def)
qed

lemma lease_builds:
  assumes "validate c = []" "le_enabled (sc_election (c_scheduler c))" "0 \<le> sn_wait (rc_sentinel (c_redis c))"
  shows "\<exists>l. new_lease host pid (lease_options c name) = Inr l \<and> 0 < ls_ttl l \<and> 0 < ls_renew l \<and> ls_renew l < ls_ttl l \<and>
    lease_on (new_keys (c_streams c)) l"
proof -
  let ?e = "sc_election (c_scheduler c)"
  have "validate_election ?e = []" "s_namespace (c_streams c) \<noteq> []"
    using assms(1) by (auto simp: validate_def validate_streams_def Let_def)
  moreover from this have "0 < le_ttl ?e" "0 < le_renew ?e" "le_renew ?e < le_ttl ?e"
    using assms(2) by (auto simp: validate_election_def split: if_splits)
  ultimately show ?thesis
    using assms(3) by (auto simp: new_lease_def lease_options_def Let_def lease_on_def k_name_suffix)
qed

text \<open>
  A configuration that passes validation starts a scheduler: its policy is known and can be built from its weights, and with
  election enabled its lease can be built on the namespace's two lease keys and renews before it expires. The number of
  replicas to wait for is validated only with Sentinel enabled, so it is assumed not to be negative.
\<close>

theorem valid_config_builds:
  assumes "validate c = []" "le_enabled (sc_election (c_scheduler c))" "0 \<le> sn_wait (rc_sentinel (c_redis c))"
  shows "(\<exists>p. new_policy (sc_policy (c_scheduler c)) (sc_weights (c_scheduler c)) (sc_default_weight (c_scheduler c)) = Inr p \<and>
      pol_name p = sc_policy (c_scheduler c)) \<and>
    (\<exists>l. new_lease host pid (lease_options c name) = Inr l \<and> 0 < ls_ttl l \<and> 0 < ls_renew l \<and> ls_renew l < ls_ttl l \<and>
      lease_on (new_keys (c_streams c)) l)"
  using policy_builds [OF assms(1)] lease_builds [OF assms] by blast

theorem valid_config_builds_witness:
  "\<exists>l. new_lease None 1 (lease_options default_config ''s1'') = Inr l \<and> ls_renew l < ls_ttl l"
  using valid_config_builds [OF default_valid, of None 1 "''s1''"] by (auto simp: default_config_def)

definition nan_config :: config where
  "nan_config = default_config\<lparr>c_scheduler := (c_scheduler default_config)\<lparr>sc_policy := ''wfq'', sc_weights := [(''A'', NaN)]\<rparr>\<rparr>"

definition shared_config :: config where
  "shared_config = default_config\<lparr>c_streams := (c_streams default_config)\<lparr>s_results := ''exec''\<rparr>\<rparr>"

text \<open>
  What validation lets through. A NaN tenant weight compares as not below zero: the configuration is valid and its policy is
  built, and every task of that tenant gets a NaN score, which no pending set accepts. Nor are stream names compared: a
  valid configuration may give the execution and the results stream one key.
\<close>

theorem validation_gaps:
  "validate nan_config = [] \<and>
   (\<exists>p. new_policy (sc_policy (c_scheduler nan_config)) (sc_weights (c_scheduler nan_config)) (sc_default_weight (c_scheduler nan_config)) = Inr p \<and>
      k_score (fst (pol_rank p (sample_task ''x'' 1 0 9))) = NaN) \<and>
   validate shared_config = [] \<and>
   k_name (new_keys (c_streams shared_config)) Exec = k_name (new_keys (c_streams shared_config)) Results"
proof -
  let ?p = "WfqP \<lparr>w_weights = [(''A'', NaN)], w_default = lit 1, w_vtime = Fin 0, w_last = []\<rparr>"
  have "new_policy (sc_policy (c_scheduler nan_config)) (sc_weights (c_scheduler nan_config)) (sc_default_weight (c_scheduler nan_config)) = Inr ?p"
    "k_score (fst (pol_rank ?p (sample_task ''x'' 1 0 9))) = NaN"
    by code_simp+
  moreover have "validate nan_config = []"
    using default_valid by (simp add: nan_config_def validate_def Let_def valid_policy_cases fle_def feq_def)
  moreover have "validate shared_config = []"
    unfolding shared_config_def
    by (rule validate_streams_update [OF default_valid]) (simp add: validate_streams_def default_config_def has_space_def)
  moreover have "k_name (new_keys (c_streams shared_config)) Exec = k_name (new_keys (c_streams shared_config)) Results"
    by code_simp
  ultimately show ?thesis by blast
qed

end
