(* ===== verification/ConsoleProps.thy ===== *)
theory ConsoleProps
  imports Console BrokerTheorems
begin

text \<open>
  What the console's views promise: the dispatch window counts every stamped entry once and finds every epoch inversion, on a
  reachable queue there is none, and the event log hands a reader every event it still holds, in order.
\<close>

section \<open>The dispatch window\<close>

text \<open>The entries the scan looks at, and where it puts them.\<close>

definition stamped :: "exec_message list \<Rightarrow> exec_message list" where
  "stamped ms = filter (\<lambda>m. \<not> is_zero_time (x_dispatched m)) ms"

definition bucket_key :: "int \<Rightarrow> int \<Rightarrow> exec_message \<Rightarrow> int \<times> int" where
  "bucket_key from bucket m = (slot_of from bucket (unix_milli (x_dispatched m)), x_epoch m)"

definition stamps :: "exec_message list \<Rightarrow> int list" where
  "stamps ms = filter (\<lambda>e. 0 < e) (map x_epoch (stamped ms))"

definition inverted_at :: "int list \<Rightarrow> nat \<Rightarrow> bool" where
  "inverted_at es j \<longleftrightarrow> (\<exists>i<j. es ! j < es ! i)"

definition scan_of :: "int \<Rightarrow> int \<Rightarrow> exec_message list \<Rightarrow> scan" where
  "scan_of from bucket ms = foldl (scan_message from bucket) empty_scan ms"

lemma scan_snoc [simp]:
  "scan_of from bucket (ms @ [m]) = scan_message from bucket (scan_of from bucket ms) m"
  "scan_of from bucket [] = empty_scan"
  by (simp_all add: scan_of_def)

lemma stamped_snoc [simp]:
  "stamped (ms @ [m]) = (if is_zero_time (x_dispatched m) then stamped ms else stamped ms @ [m])" "stamped [] = []"
  by (simp_all add: stamped_def)

text \<open>One turn of the loop, field by field.\<close>

lemma scan_fields:
  "sc_counts (scan_message from bucket s m) =
     (if is_zero_time (x_dispatched m) then sc_counts s
      else AList.update (bucket_key from bucket m) ((case map_of (sc_counts s) (bucket_key from bucket m) of Some n \<Rightarrow> n | None \<Rightarrow> 0) + 1) (sc_counts s))"
  "sc_epochs (scan_message from bucket s m) =
     (if is_zero_time (x_dispatched m) \<or> \<not> 0 < x_epoch m then sc_epochs s else List.insert (x_epoch m) (sc_epochs s))"
  "sc_unstamped (scan_message from bucket s m) =
     (if is_zero_time (x_dispatched m) \<or> 0 < x_epoch m then sc_unstamped s else sc_unstamped s + 1)"
  "sc_highest (scan_message from bucket s m) =
     (if is_zero_time (x_dispatched m) \<or> \<not> 0 < x_epoch m then sc_highest s else max (sc_highest s) (x_epoch m))"
  "sc_inversions (scan_message from bucket s m) =
     (if \<not> is_zero_time (x_dispatched m) \<and> 0 < x_epoch m \<and> x_epoch m < sc_highest s then sc_inversions s + 1 else sc_inversions s)"
  by (simp_all add: scan_message_def note_gap_def note_epoch_def count_slot_def bucket_key_def Let_def)

lemma stamps_snoc [simp]:
  "stamps (ms @ [m]) = (if is_zero_time (x_dispatched m) \<or> \<not> 0 < x_epoch m then stamps ms else stamps ms @ [x_epoch m])" "stamps [] = []"
  by (simp_all add: stamps_def)

lemma stamps_pos: "x \<in> set (stamps ms) \<Longrightarrow> 0 < x"
  by (simp add: stamps_def)

definition tally :: "'a list \<Rightarrow> 'a \<Rightarrow> int option" where
  "tally xs k = (if k \<in> set xs then Some (int (count_list xs k)) else None)"

lemma tally_snoc: "tally (xs @ [x]) = (tally xs)(x \<mapsto> (case tally xs x of Some n \<Rightarrow> n | None \<Rightarrow> 0) + 1)"
  by (rule ext) (auto simp: tally_def)

lemma scan_counts:
  "distinct (map fst (sc_counts (scan_of from bucket ms))) \<and>
   map_of (sc_counts (scan_of from bucket ms)) = tally (map (bucket_key from bucket) (stamped ms))"
proof (induction ms rule: rev_induct)
  case (snoc m ms)
  then show ?case
    by (simp add: scan_fields update_conv' distinct_update tally_snoc del: map_of_eq_Some_iff)
qed (auto simp: empty_scan_def tally_def)

lemma scan_epochs:
  "distinct (sc_epochs (scan_of from bucket ms)) \<and> set (sc_epochs (scan_of from bucket ms)) = set (stamps ms) \<and>
   sc_unstamped (scan_of from bucket ms) = int (length (stamped ms)) - int (length (stamps ms))"
  by (induction ms rule: rev_induct) (auto simp: scan_fields empty_scan_def)

lemma inverted_snoc:
  "{j. j < length (es @ [e]) \<and> inverted_at (es @ [e]) j} =
     {j. j < length es \<and> inverted_at es j} \<union> (if \<exists>x \<in> set es. e < x then {length es} else {})"
proof -
  have old: "inverted_at (es @ [e]) j \<longleftrightarrow> inverted_at es j" if "j < length es" for j
    using that by (simp add: inverted_at_def nth_append cong: conj_cong)
  have new: "inverted_at (es @ [e]) (length es) \<longleftrightarrow> (\<exists>x \<in> set es. e < x)"
    by (simp add: inverted_at_def nth_append Bex_def in_set_conv_nth cong: conj_cong) metis
  have "j < length (es @ [e]) \<and> inverted_at (es @ [e]) j \<longleftrightarrow> (j < length es \<and> inverted_at es j) \<or> (j = length es \<and> (\<exists>x \<in> set es. e < x))" for j
    by (cases "j = length es") (use old [of j] new in \<open>auto simp: less_Suc_eq\<close>)
  then show ?thesis
    by (simp only: Collect_disj_eq) auto
qed

lemma inverted_count:
  "card {j. j < length (es @ [e]) \<and> inverted_at (es @ [e]) j} =
     card {j. j < length es \<and> inverted_at es j} + (if \<exists>x \<in> set es. e < x then 1 else 0)"
  unfolding inverted_snoc by simp

lemma scan_inversions:
  "sc_highest (scan_of from bucket ms) = Max (insert 0 (set (stamps ms))) \<and>
   sc_inversions (scan_of from bucket ms) = int (card {j. j < length (stamps ms) \<and> inverted_at (stamps ms) j})"
proof (induction ms rule: rev_induct)
  case (snoc m ms)
  have "(x_epoch m < Max (insert 0 (set (stamps ms)))) \<longleftrightarrow> (\<exists>x \<in> set (stamps ms). x_epoch m < x)" if "0 < x_epoch m"
    using that by (subst Max_gr_iff) auto
  moreover have "insert 0 (set (stamps ms @ [x_epoch m])) = insert (x_epoch m) (insert 0 (set (stamps ms)))"
    by auto
  then have "Max (insert 0 (set (stamps ms @ [x_epoch m]))) = max (Max (insert 0 (set (stamps ms)))) (x_epoch m)"
    by (simp only: Max_insert finite_insert finite_set insert_not_empty not_False_eq_True max.commute)
  ultimately show ?case
    using snoc inverted_count [of "stamps ms" "x_epoch m"] by (simp add: scan_fields del: length_append)
qed (simp add: empty_scan_def)

text \<open>Nothing is inverted exactly when the epochs never decrease.\<close>

lemma no_inversion: "card {j. j < length es \<and> inverted_at es j} = 0 \<longleftrightarrow> sorted es"
proof -
  have "card {j. j < length es \<and> inverted_at es j} = 0 \<longleftrightarrow> (\<forall>j < length es. \<forall>i < j. es ! i \<le> es ! j)"
    by (simp add: inverted_at_def not_less) (meson not_less)
  then show ?thesis
    unfolding sorted_iff_nth_mono_less by blast
qed

lemma sum_count_list: "finite X \<Longrightarrow> set xs \<subseteq> X \<Longrightarrow> (\<Sum>k \<in> X. int (count_list xs k)) = int (length xs)"
  using sum_count_set [of xs X] by (simp flip: of_nat_sum)

text \<open>
  The dispatch window is exact: its buckets are the time slots and epochs that occur, in order, each with the number of its
  entries, so that they add up to the entries with a dispatch time; its epochs are those stamped on an entry, in order; and its
  inversions are the stamped entries older than one before them in the stream, so it reports none exactly when epochs never decrease.
\<close>

theorem dispatch_window_exact:
  assumes "summarise_dispatches ms from win bucket limit = Some w"
  defines "ks \<equiv> map (bucket_key (unix_milli from) (dur_millis bucket)) (stamped ms)"
  shows "sorted (map (\<lambda>b. (db_t b, db_epoch b)) (dw_buckets w)) \<and> distinct (map (\<lambda>b. (db_t b, db_epoch b)) (dw_buckets w)) \<and>
    (\<lambda>b. (db_t b, db_epoch b)) ` set (dw_buckets w) = set ks \<and>
    (\<forall>b \<in> set (dw_buckets w). db_n b = int (count_list ks (db_t b, db_epoch b))) \<and>
    (\<Sum>b \<leftarrow> dw_buckets w. db_n b) = int (length (stamped ms)) \<and>
    sorted (dw_epochs w) \<and> distinct (dw_epochs w) \<and> set (dw_epochs w) = set (stamps ms) \<and>
    dw_inversions w = int (card {j. j < length (stamps ms) \<and> inverted_at (stamps ms) j}) \<and>
    (dw_inversions w = 0 \<longleftrightarrow> sorted (stamps ms))"
proof -
  let ?s = "scan_of (unix_milli from) (dur_millis bucket) ms"
  let ?key = "\<lambda>b. (db_t b, db_epoch b)"
  have w: "dw_buckets w = bucket_list (sc_counts ?s)" "dw_epochs w = sort (sc_epochs ?s)" "dw_inversions w = sc_inversions ?s"
    using assms(1) by (auto simp: summarise_dispatches_def scan_of_def Let_def split: if_splits)
  note c = scan_counts [of "unix_milli from" "dur_millis bucket" ms, folded ks_def]
  have keys: "map ?key (dw_buckets w) = map fst (sort_key fst (sc_counts ?s))"
    by (simp add: w bucket_list_def comp_def case_prod_beta)
  have set_keys: "fst ` set (sc_counts ?s) = set ks"
    unfolding dom_map_of_conv_image_fst [symmetric] using c by (auto simp: tally_def dom_def)
  have dist: "distinct (map ?key (dw_buckets w))"
    unfolding keys using c by (simp add: distinct_map)
  have n: "db_n b = int (count_list ks (?key b))" if "b \<in> set (dw_buckets w)" for b
  proof -
    have "(?key b, db_n b) \<in> set (sc_counts ?s)"
      using that by (auto simp: w bucket_list_def)
    then have "tally ks (?key b) = Some (db_n b)"
      using c map_of_is_SomeI by metis
    then show ?thesis by (simp add: tally_def split: if_splits)
  qed
  have "(\<Sum>b \<leftarrow> dw_buckets w. db_n b) = (\<Sum>b \<leftarrow> dw_buckets w. int (count_list ks (?key b)))"
    using n by (simp cong: map_cong)
  also have "\<dots> = (\<Sum>k \<in> set (map ?key (dw_buckets w)). int (count_list ks k))"
    by (subst sum.distinct_set_conv_list [OF dist]) (simp add: comp_def)
  also have "\<dots> = int (length ks)"
    unfolding keys by (rule sum_count_list) (simp_all add: set_keys)
  finally have total: "(\<Sum>b \<leftarrow> dw_buckets w. db_n b) = int (length (stamped ms))"
    by (simp add: ks_def)
  have "?key ` set (dw_buckets w) = set ks"
    unfolding set_map [symmetric] keys by (simp add: set_keys)
  moreover have "dw_inversions w = 0 \<longleftrightarrow> sorted (stamps ms)"
    using no_inversion [of "stamps ms"] by (simp add: w scan_inversions)
  ultimately show ?thesis
    using dist n total scan_epochs [of "unix_milli from" "dur_millis bucket" ms]
    by (simp add: keys w(2,3) scan_inversions)
qed

text \<open>Two entries of one slot under epoch 7, a retry without an epoch, then one a superseded leader wrote.\<close>

definition demo_dispatches :: "exec_message list" where
  "demo_dispatches = map (\<lambda>(ms, e). \<lparr>x_id = (1, 0), x_task = demo_task ''b'' 2000, x_dispatched = from_unix_milli ms, x_epoch = e\<rparr>)
     [(5000, 7), (5100, 7), (5300, 0), (5600, 6)]"

theorem dispatch_window_exact_witness:
  "\<exists>w. summarise_dispatches demo_dispatches (from_unix_milli 4000) (60 * second) (250 * millisecond) 60000 = Some w \<and>
    map db_n (dw_buckets w) = [2, 1, 1] \<and> dw_inversions w = 1 \<and> \<not> sorted (stamps demo_dispatches)"
proof -
  obtain w where w: "summarise_dispatches demo_dispatches (from_unix_milli 4000) (60 * second) (250 * millisecond) 60000 = Some w"
    "map db_n (dw_buckets w) = [2, 1, 1]" "dw_inversions w = 1"
  proof -
    have "(case summarise_dispatches demo_dispatches (from_unix_milli 4000) (60 * second) (250 * millisecond) 60000 of
        Some w \<Rightarrow> map db_n (dw_buckets w) = [2, 1, 1] \<and> dw_inversions w = 1 | None \<Rightarrow> False)"
      by code_simp
    then show thesis using that by (auto split: option.splits)
  qed
  have "dw_inversions w = 0 \<longleftrightarrow> sorted (stamps demo_dispatches)"
    using dispatch_window_exact [OF w(1)] by (elim conjE)
  then show ?thesis using w by auto
qed

section \<open>The window of a reachable queue\<close>

definition stamp_order :: "('a \<Rightarrow> int) \<Rightarrow> 'a \<Rightarrow> 'a \<Rightarrow> bool" where
  "stamp_order f x y \<longleftrightarrow> (0 < f x \<longrightarrow> 0 < f y \<longrightarrow> f x \<le> f y)"

lemma sorted_stamps: "sorted (filter (\<lambda>n. 0 < n) (map f xs)) \<longleftrightarrow> sorted_wrt (stamp_order f) xs"
  by (induction xs) (auto simp: stamp_order_def)

definition console_epoch :: "stream_entry \<Rightarrow> int" where
  "console_epoch e = (case Option.bind (field e ''epoch'') text_int of Some n \<Rightarrow> n | None \<Rightarrow> 0)"

lemma parsed_epoch: "parse_exec_message e = Inr m \<Longrightarrow> x_epoch m = console_epoch e"
  by (auto simp: parse_exec_message_def console_epoch_def split: sum.splits)

lemma parsed_ordered:
  "sorted_wrt (stamp_order console_epoch) es \<Longrightarrow> sorted_wrt (stamp_order x_epoch) (fst (parse_exec_messages es)) \<and>
   (\<forall>m \<in> set (fst (parse_exec_messages es)). \<exists>e \<in> set es. parse_exec_message e = Inr m)"
proof (induction es)
  case (Cons e es)
  show ?case
  proof (cases "parse_exec_message e")
    case (Inr m)
    have "stamp_order x_epoch m m'" if "m' \<in> set (fst (parse_exec_messages es))" for m'
      using that Cons Inr by (auto simp: stamp_order_def parsed_epoch)
    then show ?thesis using Cons Inr by (auto split: prod.splits)
  qed simp
qed simp

text \<open>Below \<open>2 ^ 53\<close> the number Lua compares is the number the console reads.\<close>

lemma epoch_agrees:
  assumes "epoch_stamp e" "entry_epoch e < 2 ^ 53" "0 < console_epoch e"
  shows "console_epoch e = entry_epoch e"
proof -
  obtain n where n: "field e ''epoch'' = Some (TNum n)" "console_epoch e = n"
    using assms(1,3) by (auto simp: epoch_stamp_def console_epoch_def text_int_def split: option.splits rtext.splits if_splits)
  have "n < 2 ^ 53"
  proof (rule ccontr)
    assume "\<not> n < 2 ^ 53"
    then have "lua_number (2 ^ 53) \<le> lua_number n" by (intro lua_number_mono) simp
    then show False using assms(2) n(1) lua_number_exact [of "2 ^ 53"] by (simp add: entry_epoch_def)
  qed
  then show ?thesis using n assms(3) lua_number_exact [of n] by (simp add: entry_epoch_def)
qed

context queue_store
begin

lemma dispatches_read:
  assumes "typed ks (view (n_db w))" "b_keys b = ks" "dispatches_since call b since n w = ((ms, err), w')"
  shows "ms = [] \<or> (\<exists>bd. ms = fst (parse_exec_messages
    (take (nat n) (filter (\<lambda>e. in_bound bd (se_id e)) (st_entries (q_exec (queue_at view b w)))))))"
proof (cases "since_bound since")
  case (Some bd)
  let ?c = "XRANGE (key b Exec) bd n"
  let ?I = "\<lambda>s. typed ks (view s) \<and> view s = view (n_db w)"
  have k: "key b Exec = k_name ks Exec"
    by (simp add: key_def assms(2))
  have doc: "view (after call ?c s) = view s"
    "fst (call ?c s) = REntries (take (nat n) (filter (\<lambda>e. in_bound bd (se_id e)) (st_entries (stream_at (view s) (key b Exec)))))" if "?I s" for s
    using doc_after [of ?c s] typedD(14) that by (auto simp: k)
  have keep: "?I (snd (rcall call ?c s))" if "?I s" for s
    unfolding rcall_snd doc(1) [OF that] by (rule that)
  have reply: "fst (rcall call ?c s) = Inr (REntries (take (nat n) (filter (\<lambda>e. in_bound bd (se_id e)) (st_entries (q_exec (queue_at view b w))))))"
    if "?I s" for s
    using rcall_reply_fst [of call ?c s] doc(2) [OF that] that by (simp add: k assms(2) qabs_sel)
  have "fst (send (rcall call ?c) w) = Inl NoReply \<or>
    fst (send (rcall call ?c) w) = Inr (REntries (take (nat n) (filter (\<lambda>e. in_bound bd (se_id e)) (st_entries (q_exec (queue_at view b w))))))"
    using send_inv(2) [of ?I "rcall call ?c" w, OF keep] assms(1) reply by fastforce
  then show ?thesis
    using assms(3) Some
    by (auto simp: dispatches_since_def since_query_def range_query_def split: prod.splits sum.splits reply.splits) (metis fst_conv)+
qed (use assms(3) in \<open>simp add: dispatches_since_def since_query_def\<close>)

end

text \<open>However a reader takes the epoch of an entry, if it agrees with the one the scripts compare, no later entry has a smaller one.\<close>

lemma stream_epochs_ordered:
  assumes "redis call view" "keys_ok (b_keys b)" "reach call view b w H" "q_fence (queue_at view b w) < 2 ^ 53"
    and "\<And>e. epoch_stamp e \<Longrightarrow> entry_epoch e < 2 ^ 53 \<Longrightarrow> 0 < f e \<Longrightarrow> f e = entry_epoch e"
  shows "sorted_wrt (stamp_order f) (st_entries (q_exec (queue_at view b w)))"
proof -
  let ?E = "st_entries (q_exec (queue_at view b w))"
  have inv: "inv_epochs (queue_at view b w)"
    using reach_winv [OF assms(1-3)] by (simp add: winv_def world_of_def)
  have fence: "lua_number (q_fence (queue_at view b w)) \<le> 2 ^ 53 - 1"
    using lua_number_mono [of "q_fence (queue_at view b w)" "2 ^ 53 - 1"] lua_number_exact [of "2 ^ 53 - 1"] assms(4) by simp
  have agree: "f e = entry_epoch e" if "e \<in> set ?E" "0 < f e" for e
  proof (rule assms(5) [OF _ _ that(2)])
    show "epoch_stamp e" using inv that(1) by (simp add: inv_epochs_def)
    show "entry_epoch e < 2 ^ 53"
      using inv fence that(1) by (cases "0 < entry_epoch e") (auto simp: inv_epochs_def log_epochs_def dest!: bspec)
  qed
  have "sorted_wrt (stamp_order entry_epoch) ?E"
    using inv by (simp add: inv_epochs_def log_epochs_def sorted_stamps)
  moreover have "stamp_order f x y" if "stamp_order entry_epoch x y" "x \<in> set ?E" "y \<in> set ?E" for x y
    using that(1) agree [OF that(2)] agree [OF that(3)] by (auto simp: stamp_order_def)
  ultimately show ?thesis
    by (metis (mono_tags, lifting) sorted_wrt_mono_rel)
qed

text \<open>
  C20: the fence as an operator sees it. On every reachable queue whose epochs are below \<open>2 ^ 53\<close>, whatever the console reads of the
  execution stream, from whatever time and up to whatever length, the window it shows reports no epoch inversion: no superseded
  leader has dispatched after its successor.
\<close>

theorem console_sees_no_inversion:
  assumes "redis call view" "keys_ok (b_keys b)" "reach call view b w H" "q_fence (queue_at view b w) < 2 ^ 53"
    "dispatches_since call b since n w = ((ms, err), w')" "summarise_dispatches ms from win bucket limit = Some dw"
  shows "dw_inversions dw = 0"
proof -
  let ?E = "st_entries (q_exec (queue_at view b w))"
  have typed: "typed (b_keys b) (view (n_db w))"
    using queue_store.reach_inv [OF queue_storeI [OF assms(1,2)] assms(3) refl] by blast
  have "sorted_wrt (stamp_order console_epoch) ?E"
    by (rule stream_epochs_ordered [OF assms(1-4)]) (rule epoch_agrees)
  then have "sorted_wrt (stamp_order x_epoch) ms"
    using queue_store.dispatches_read [OF queue_storeI [OF assms(1,2)] typed refl assms(5)] parsed_ordered
    by (auto intro!: sorted_wrt_filter sorted_wrt_take)
  then have "sorted (stamps ms)"
    unfolding stamps_def stamped_def sorted_stamps by (rule sorted_wrt_filter)
  then show ?thesis
    using assms(6) no_inversion [of "stamps ms"]
    by (auto simp: summarise_dispatches_def Let_def scan_of_def [symmetric] scan_inversions split: if_splits)
qed

theorem console_sees_no_inversion_witness:
  "\<exists>w ms dw. fst (dispatches_since mem_call demo_broker 0 100 demo2) = (ms, None) \<and> stamps ms = [7] \<and>
    summarise_dispatches ms 0 (60 * second) (250 * millisecond) 60000 = Some dw \<and> dw_inversions dw = 0"
proof -
  have read: "fst (dispatches_since mem_call demo_broker 0 100 demo2) = ([demo_msg], None)"
    unfolding demo2_val by code_simp
  moreover have "stamps [demo_msg] = [7]"
    by code_simp
  moreover obtain dw where dw: "summarise_dispatches [demo_msg] 0 (60 * second) (250 * millisecond) 60000 = Some dw"
    by (simp add: summarise_dispatches_def Let_def dur_millis_def go_div_def millisecond_def)
  moreover have "q_fence (queue_at mem_view demo_broker demo2) < 2 ^ 53"
    unfolding demo2_val qabs_def qstate.select_convs by code_simp
  ultimately show ?thesis
    using console_sees_no_inversion [OF demo_redis demo_keys demo2_reach _ _ dw, of 0 100 None "snd (dispatches_since mem_call demo_broker 0 100 demo2)"]
    by (metis prod.collapse)
qed

section \<open>The event log\<close>

text \<open>The events with their sequence numbers, the first one's number given.\<close>

fun numbered :: "nat \<Rightarrow> event list \<Rightarrow> event list" where
  "numbered n [] = []"
| "numbered n (e # es) = e\<lparr>ev_seq := of_nat n\<rparr> # numbered (Suc n) es"

lemma length_numbered [simp]: "length (numbered n es) = length es"
  by (induction n es rule: numbered.induct) auto

lemma numbered_append: "numbered n (xs @ ys) = numbered n xs @ numbered (n + length xs) ys"
  by (induction n xs rule: numbered.induct) auto

lemma drop_numbered: "drop k (numbered n es) = numbered (n + k) (drop k es)"
proof (induction n es arbitrary: k rule: numbered.induct)
  case (2 n e es)
  then show ?case by (cases k) simp_all
qed simp

text \<open>Sequence numbers do not wrap below \<open>2 ^ 64\<close> events, so they compare as numbers.\<close>

lemma filter_numbered:
  assumes "n + length es \<le> 2 ^ 64" "k < 2 ^ 64"
  shows "filter (\<lambda>e. of_nat k < ev_seq e) (numbered n es) = drop (Suc k - n) (numbered n es)"
  using assms
proof (induction n es rule: numbered.induct)
  case (2 n e es)
  have "(of_nat k :: 64 word) < of_nat n \<longleftrightarrow> k < n"
    using 2(2,3) by (simp add: word_less_nat_alt unat_of_nat)
  then show ?case
    using 2 by (cases "k < n") (auto simp: Suc_diff_le not_less)
qed simp

lemma log_events_snoc: "log_events (es @ [e]) l = add_event e (log_events es l)" "log_events [] l = l"
  by (simp_all add: log_events_def)

lemma event_log_state:
  "log_events es (new_event_log m) =
     \<lparr>el_buf = drop (length es - m) (numbered 1 es), el_next = of_nat (length es), el_max = m\<rparr>"
proof (induction es rule: rev_induct)
  case (snoc e es)
  show ?case
  proof (cases "length es < m")
    case True
    then show ?thesis
      using snoc by (simp add: log_events_snoc add_event_def Let_def numbered_append add.commute)
  next
    case False
    have "Suc (length es) - m = Suc (length es - m)" if "0 < m"
      using False by simp
    show ?thesis
      using snoc False
      by (cases "m = 0") (simp_all add: log_events_snoc add_event_def Let_def numbered_append add.commute drop_Suc Suc_diff_le)
  qed
qed (simp add: log_events_snoc new_event_log_def)

text \<open>
  The event log loses only the oldest. After any events, asking for those after number \<open>k\<close> gives exactly the events added since
  the \<open>k\<close>-th, oldest first and numbered on from there, less those that are no longer among the newest \<open>m\<close>: a reader that asks at
  least every \<open>m\<close> events misses none and sees none twice.
\<close>

theorem event_log_since:
  assumes "length es < 2 ^ 64" "k \<le> length es"
  shows "events_since (of_nat k) (log_events es (new_event_log m)) = drop (max k (length es - m)) (numbered 1 es) \<and>
    length (el_buf (log_events es (new_event_log m))) = min m (length es) \<and>
    (length es - k \<le> m \<longrightarrow> events_since (of_nat k) (log_events es (new_event_log m)) = numbered (Suc k) (drop k es))"
proof -
  let ?j = "length es - m"
  have "events_since (of_nat k) (log_events es (new_event_log m)) =
      filter (\<lambda>e. of_nat k < ev_seq e) (numbered (1 + ?j) (drop ?j es))"
    by (simp add: events_since_def event_log_state drop_numbered)
  also have "\<dots> = drop (Suc k - (1 + ?j)) (numbered (1 + ?j) (drop ?j es))"
    by (rule filter_numbered) (use assms in simp_all)
  also have "\<dots> = drop (max k ?j) (numbered 1 es)"
    by (simp add: drop_numbered max_def add.commute)
  finally have since: "events_since (of_nat k) (log_events es (new_event_log m)) = drop (max k ?j) (numbered 1 es)" .
  moreover have "drop (max k ?j) (numbered 1 es) = numbered (Suc k) (drop k es)" if "length es - k \<le> m"
  proof -
    have "max k ?j = k" using that assms(2) by simp
    then show ?thesis by (simp add: drop_numbered)
  qed
  ultimately show ?thesis
    by (simp add: event_log_state)
qed

text \<open>Three events in a log of two, read from the second on and from the beginning.\<close>

definition demo_event :: "string \<Rightarrow> event" where
  "demo_event k = \<lparr>ev_seq = 0, ev_at = 0, ev_source = Observed, ev_kind = k, ev_subject = [], ev_format = [], ev_args = []\<rparr>"

theorem event_log_since_witness:
  "events_since 2 (log_events (map demo_event [''a'', ''b'', ''c'']) (new_event_log 2)) = [(demo_event ''c'')\<lparr>ev_seq := 3\<rparr>] \<and>
   events_since 0 (log_events (map demo_event [''a'', ''b'', ''c'']) (new_event_log 2)) =
     [(demo_event ''b'')\<lparr>ev_seq := 2\<rparr>, (demo_event ''c'')\<lparr>ev_seq := 3\<rparr>]"
proof -
  let ?es = "map demo_event [''a'', ''b'', ''c'']"
  have "length ?es < 2 ^ 64"
    by simp
  from event_log_since [OF this, of 2 2] event_log_since [OF this, of 0 2] show ?thesis
    by simp
qed

end
