(* ===== verification/Netfault.thy ===== *)
theory Netfault
  imports Domain
begin

text \<open>
  The network fault proxy (\<open>internal/netfault/proxy.go\<close>): a TCP proxy whose path can be cut. A connection is a number, fresh for each accept
  and each dial; \<open>px_open\<close> are those open on this side. Each goroutine is a state of the record, and each of its steps between two
  points where another may run is a definition; \<open>proxy_step\<close> interleaves them. Sleeping is not modelled: a delay only lets others run.
\<close>

section \<open>State\<close>

text \<open>
  A pipe is about to test \<open>cut\<close>, in \<open>Read\<close>, holding a chunk (and whether the read also ended the stream), about to write it, or has returned.
  \<open>Up\<close> copies from the client, \<open>Down\<close> to it.
\<close>

datatype way = Up | Down

datatype pipe_state = PipeTest | PipeReading | PipeHolds string bool | PipeWriting string bool | PipeDone

datatype phase = Dialling | Dialled | HalfTracked | Piping

record session =
  cx_phase :: phase
  cx_upstream :: nat
  cx_pipe :: "way \<Rightarrow> pipe_state"

text \<open>
  \<open>px_cutting\<close> counts the calls of \<open>Cut\<close> that have set the flag and not yet closed the connections. \<open>px_got\<close> and \<open>px_put\<close> record the bytes
  read from and written to each connection.
\<close>

record proxy =
  px_target :: string
  px_sessions :: "nat \<rightharpoonup> session"
  px_conns :: "nat set"
  px_open :: "nat set"
  px_next :: nat
  px_cut :: bool
  px_cutting :: nat
  px_delay :: duration
  px_accepts :: int
  px_cuts :: int
  px_closed :: bool
  px_got :: "nat \<Rightarrow> string"
  px_put :: "nat \<Rightarrow> string"

definition new_proxy :: "string \<Rightarrow> bool \<Rightarrow> string + proxy" where
  "new_proxy target bound =
     (if target = [] then Inl ''netfault: target address is required''
      else if \<not> bound then Inl ''netfault: listen''
      else Inr
        \<lparr>px_target = target, px_sessions = Map.empty, px_conns = {}, px_open = {}, px_next = 0, px_cut = False, px_cutting = 0, px_delay = 0,
         px_accepts = 0, px_cuts = 0, px_closed = False, px_got = (\<lambda>_. []), px_put = (\<lambda>_. [])\<rparr>)"

section \<open>Accepting and dialling\<close>

definition fresh_session :: session where
  "fresh_session = \<lparr>cx_phase = Dialling, cx_upstream = 0, cx_pipe = (\<lambda>_. PipeTest)\<rparr>"

definition serve_accept :: "proxy \<Rightarrow> proxy" where
  "serve_accept p =
     (if px_closed p then p
      else let c = px_next p in
        if px_cut p then p\<lparr>px_next := c + 1\<rparr>
        else p\<lparr>px_next := c + 1, px_open := insert c (px_open p), px_accepts := px_accepts p + 1,
          px_sessions := (px_sessions p)(c \<mapsto> fresh_session)\<rparr>)"

definition dial_failed :: "nat \<Rightarrow> proxy \<Rightarrow> proxy" where
  "dial_failed c p = p\<lparr>px_sessions := (px_sessions p)(c := None), px_open := px_open p - {c}\<rparr>"

definition dial_done :: "nat \<Rightarrow> session \<Rightarrow> proxy \<Rightarrow> proxy" where
  "dial_done c s p =
     p\<lparr>px_next := px_next p + 1, px_open := insert (px_next p) (px_open p),
       px_sessions := (px_sessions p)(c \<mapsto> s\<lparr>cx_phase := Dialled, cx_upstream := px_next p\<rparr>)\<rparr>"

definition track :: "nat \<Rightarrow> nat \<Rightarrow> session \<Rightarrow> phase \<Rightarrow> proxy \<Rightarrow> proxy" where
  "track x c s ph p = p\<lparr>px_conns := insert x (px_conns p), px_sessions := (px_sessions p)(c \<mapsto> s\<lparr>cx_phase := ph\<rparr>)\<rparr>"

text \<open>The deferred end of \<open>handle\<close>, when both pipes have returned.\<close>

definition end_session :: "nat \<Rightarrow> session \<Rightarrow> proxy \<Rightarrow> proxy" where
  "end_session c s p =
     p\<lparr>px_conns := px_conns p - {c, cx_upstream s}, px_open := px_open p - {c, cx_upstream s}, px_sessions := (px_sessions p)(c := None)\<rparr>"

section \<open>Piping\<close>

definition src_of :: "way \<Rightarrow> nat \<Rightarrow> session \<Rightarrow> nat" where
  "src_of d c s = (case d of Up \<Rightarrow> c | Down \<Rightarrow> cx_upstream s)"

definition dst_of :: "way \<Rightarrow> nat \<Rightarrow> session \<Rightarrow> nat" where
  "dst_of d c s = (case d of Up \<Rightarrow> cx_upstream s | Down \<Rightarrow> c)"

definition set_pipe :: "nat \<Rightarrow> session \<Rightarrow> way \<Rightarrow> pipe_state \<Rightarrow> proxy \<Rightarrow> proxy" where
  "set_pipe c s d x p = p\<lparr>px_sessions := (px_sessions p)(c \<mapsto> s\<lparr>cx_pipe := (cx_pipe s)(d := x)\<rparr>)\<rparr>"

text \<open>The two tests of the flag: before a read, and between the delay and the write.\<close>

definition pipe_test :: "nat \<Rightarrow> session \<Rightarrow> way \<Rightarrow> proxy \<Rightarrow> proxy" where
  "pipe_test c s d p = set_pipe c s d (if px_cut p then PipeDone else PipeReading) p"

definition pipe_release :: "nat \<Rightarrow> session \<Rightarrow> way \<Rightarrow> string \<Rightarrow> bool \<Rightarrow> proxy \<Rightarrow> proxy" where
  "pipe_release c s d chunk fin p = set_pipe c s d (if px_cut p then PipeDone else PipeWriting chunk fin) p"

text \<open>\<open>Read\<close> gives bytes, with or without an error after them, or only an error: a timeout, on which it is tried again, or any other.\<close>

definition pipe_read :: "nat \<Rightarrow> session \<Rightarrow> way \<Rightarrow> string \<Rightarrow> bool \<Rightarrow> proxy \<Rightarrow> proxy" where
  "pipe_read c s d chunk fin p =
     (let x = src_of d c s in
      set_pipe c s d (PipeHolds chunk fin) (p\<lparr>px_got := (px_got p)(x := px_got p x @ chunk)\<rparr>))"

definition pipe_no_read :: "nat \<Rightarrow> session \<Rightarrow> way \<Rightarrow> bool \<Rightarrow> proxy \<Rightarrow> proxy" where
  "pipe_no_read c s d timeout p = set_pipe c s d (if timeout then PipeTest else PipeDone) p"

text \<open>A write to a connection closed on this side fails and writes nothing; any other may fail after a part.\<close>

definition pipe_write :: "nat \<Rightarrow> session \<Rightarrow> way \<Rightarrow> string \<Rightarrow> bool \<Rightarrow> nat option \<Rightarrow> proxy \<Rightarrow> proxy" where
  "pipe_write c s d chunk fin failed p =
     (let x = dst_of d c s in
      if x \<notin> px_open p then set_pipe c s d PipeDone p
      else case failed of
        Some n \<Rightarrow> set_pipe c s d PipeDone (p\<lparr>px_put := (px_put p)(x := px_put p x @ take n chunk)\<rparr>)
      | None \<Rightarrow> set_pipe c s d (if fin then PipeDone else PipeTest) (p\<lparr>px_put := (px_put p)(x := px_put p x @ chunk)\<rparr>))"

section \<open>Cutting, healing, closing\<close>

definition drop_conns :: "proxy \<Rightarrow> proxy" where
  "drop_conns p = p\<lparr>px_open := px_open p - px_conns p, px_conns := {}\<rparr>"

definition cut_begin :: "proxy \<Rightarrow> proxy" where
  "cut_begin p = (if px_cut p then p else p\<lparr>px_cut := True, px_cuts := px_cuts p + 1, px_cutting := px_cutting p + 1\<rparr>)"

definition cut_close :: "proxy \<Rightarrow> proxy" where
  "cut_close p = (drop_conns p)\<lparr>px_cutting := px_cutting p - 1\<rparr>"

definition heal :: "proxy \<Rightarrow> proxy" where
  "heal p = p\<lparr>px_cut := False\<rparr>"

definition set_delay :: "duration \<Rightarrow> proxy \<Rightarrow> proxy" where
  "set_delay d p = p\<lparr>px_delay := (if d < 0 then 0 else d)\<rparr>"

definition close_proxy :: "proxy \<Rightarrow> proxy" where
  "close_proxy p = (if px_closed p then p else (drop_conns p)\<lparr>px_closed := True\<rparr>)"

definition proxy_stats :: "proxy \<Rightarrow> int \<times> int" where
  "proxy_stats p = (px_accepts p, px_cuts p)"

section \<open>Interleaving\<close>

inductive proxy_step :: "proxy \<Rightarrow> proxy \<Rightarrow> bool" where
  accepts: "proxy_step p (serve_accept p)"
| dial_fails: "\<lbrakk>px_sessions p c = Some s; cx_phase s = Dialling\<rbrakk> \<Longrightarrow> proxy_step p (dial_failed c p)"
| dials: "\<lbrakk>px_sessions p c = Some s; cx_phase s = Dialling\<rbrakk> \<Longrightarrow> proxy_step p (dial_done c s p)"
| tracks_client: "\<lbrakk>px_sessions p c = Some s; cx_phase s = Dialled\<rbrakk> \<Longrightarrow> proxy_step p (track c c s HalfTracked p)"
| tracks_upstream: "\<lbrakk>px_sessions p c = Some s; cx_phase s = HalfTracked\<rbrakk> \<Longrightarrow> proxy_step p (track (cx_upstream s) c s Piping p)"
| tests: "\<lbrakk>px_sessions p c = Some s; cx_phase s = Piping; cx_pipe s d = PipeTest\<rbrakk> \<Longrightarrow> proxy_step p (pipe_test c s d p)"
| reads: "\<lbrakk>px_sessions p c = Some s; cx_phase s = Piping; cx_pipe s d = PipeReading; src_of d c s \<in> px_open p; chunk \<noteq> []\<rbrakk> \<Longrightarrow>
    proxy_step p (pipe_read c s d chunk fin p)"
| reads_nothing: "\<lbrakk>px_sessions p c = Some s; cx_phase s = Piping; cx_pipe s d = PipeReading; timeout \<longrightarrow> src_of d c s \<in> px_open p\<rbrakk> \<Longrightarrow>
    proxy_step p (pipe_no_read c s d timeout p)"
| releases: "\<lbrakk>px_sessions p c = Some s; cx_phase s = Piping; cx_pipe s d = PipeHolds chunk fin\<rbrakk> \<Longrightarrow>
    proxy_step p (pipe_release c s d chunk fin p)"
| writes: "\<lbrakk>px_sessions p c = Some s; cx_phase s = Piping; cx_pipe s d = PipeWriting chunk fin\<rbrakk> \<Longrightarrow>
    proxy_step p (pipe_write c s d chunk fin failed p)"
| ends: "\<lbrakk>px_sessions p c = Some s; cx_phase s = Piping; \<forall>d. cx_pipe s d = PipeDone\<rbrakk> \<Longrightarrow> proxy_step p (end_session c s p)"
| cuts: "proxy_step p (cut_begin p)"
| cut_closes: "0 < px_cutting p \<Longrightarrow> proxy_step p (cut_close p)"
| heals: "proxy_step p (heal p)"
| delays: "proxy_step p (set_delay d p)"
| closes: "proxy_step p (close_proxy p)"

definition proxy_reach :: "proxy \<Rightarrow> bool" where
  "proxy_reach p \<longleftrightarrow> (\<exists>target p0. new_proxy target True = Inr p0 \<and> proxy_step\<^sup>*\<^sup>* p0 p)"

end
