(* ===== verification/NetfaultProps.thy ===== *)
theory NetfaultProps
  imports Netfault "HOL-Library.Sublist"
begin

text \<open>
  What the fault experiments rely on: once a cut is complete nothing passes the proxy until it is healed, and what passes is a prefix of what was
  read, in order. And what \<open>Close\<close> misses.
\<close>

section \<open>A cut is silent\<close>

text \<open>
  Connections are numbered below the next number; those of a session that pipes are tracked or closed; before that its pipes have not begun.
\<close>

definition held :: "proxy \<Rightarrow> nat \<Rightarrow> bool" where
  "held p x \<longleftrightarrow> (x \<in> px_open p \<longrightarrow> x \<in> px_conns p)"

definition session_ok :: "proxy \<Rightarrow> nat \<Rightarrow> session \<Rightarrow> bool" where
  "session_ok p c s \<longleftrightarrow>
     c < px_next p \<and> (cx_phase s \<noteq> Dialling \<longrightarrow> cx_upstream s < px_next p) \<and> (cx_phase s \<noteq> Piping \<longrightarrow> (\<forall>d. cx_pipe s d = PipeTest)) \<and>
     (cx_phase s = HalfTracked \<longrightarrow> held p c) \<and> (cx_phase s = Piping \<longrightarrow> held p c \<and> held p (cx_upstream s))"

definition sessions_ok :: "proxy \<Rightarrow> bool" where
  "sessions_ok p \<longleftrightarrow> (\<forall>c s. px_sessions p c = Some s \<longrightarrow> session_ok p c s)"

text \<open>After a complete cut, whatever is about to be written has nowhere to go.\<close>

definition severed :: "proxy \<Rightarrow> bool" where
  "severed p \<longleftrightarrow> px_cut p \<and> px_cutting p = 0"

definition mute :: "proxy \<Rightarrow> nat \<Rightarrow> session \<Rightarrow> bool" where
  "mute p c s \<longleftrightarrow> (\<forall>d chunk fin. cx_pipe s d = PipeWriting chunk fin \<longrightarrow> dst_of d c s \<notin> px_open p)"

definition silent :: "proxy \<Rightarrow> bool" where
  "silent p \<longleftrightarrow> (severed p \<longrightarrow> (\<forall>c s. px_sessions p c = Some s \<longrightarrow> mute p c s))"

lemmas proxy_steps = serve_accept_def dial_failed_def dial_done_def track_def end_session_def pipe_test_def pipe_release_def pipe_read_def
  pipe_no_read_def pipe_write_def drop_conns_def cut_begin_def cut_close_def heal_def set_delay_def close_proxy_def set_pipe_def Let_def

text \<open>What every step keeps of the connections there are.\<close>

definition keeps_conns :: "proxy \<Rightarrow> proxy \<Rightarrow> bool" where
  "keeps_conns p p' \<longleftrightarrow> px_next p \<le> px_next p' \<and> (\<forall>x < px_next p. (held p x \<longrightarrow> held p' x) \<and> (x \<notin> px_open p \<longrightarrow> x \<notin> px_open p'))"

lemma step_keeps_conns: "proxy_step p p' \<Longrightarrow> keeps_conns p p'"
  by (induction rule: proxy_step.induct) (auto simp: keeps_conns_def held_def proxy_steps split: option.splits)

text \<open>A step changes at most one session.\<close>

lemma step_session:
  assumes "proxy_step p p'" "px_sessions p' c = Some s'"
  shows "px_sessions p c = Some s' \<or> c = px_next p \<and> s' = fresh_session \<and> px_next p < px_next p' \<or>
    (\<exists>s. px_sessions p c = Some s \<and>
      (cx_phase s = Dialling \<and> s' = s\<lparr>cx_phase := Dialled, cx_upstream := px_next p\<rparr> \<and> px_next p < px_next p' \<or>
       cx_phase s = Dialled \<and> s' = s\<lparr>cx_phase := HalfTracked\<rparr> \<and> held p' c \<or>
       cx_phase s = HalfTracked \<and> s' = s\<lparr>cx_phase := Piping\<rparr> \<and> held p' (cx_upstream s) \<or>
       cx_phase s = Piping \<and> (\<exists>d x. s' = s\<lparr>cx_pipe := (cx_pipe s)(d := x)\<rparr> \<and> (px_cut p \<longrightarrow> (\<forall>chunk fin. x \<noteq> PipeWriting chunk fin)))))"
  using assms by (induction rule: proxy_step.induct) (auto simp: proxy_steps held_def split: if_splits option.splits)

lemma ok_step:
  assumes "proxy_step p p'" "sessions_ok p"
  shows "sessions_ok p'"
  unfolding sessions_ok_def
proof clarify
  fix c s'
  assume s': "px_sessions p' c = Some s'"
  note k = step_keeps_conns [OF assms(1)]
  have old: "session_ok p c s" if "px_sessions p c = Some s" for s
    using assms(2) that by (simp add: sessions_ok_def)
  from step_session [OF assms(1) s'] show "session_ok p' c s'"
  proof (elim disjE exE conjE)
    show "session_ok p' c s'" if "px_sessions p c = Some s'"
      using old [OF that] k by (auto simp: session_ok_def keeps_conns_def)
    show "session_ok p' c s'" if "px_sessions p c = Some s" "cx_phase s = HalfTracked" "s' = s\<lparr>cx_phase := Piping\<rparr>" "held p' (cx_upstream s)" for s
      using old [OF that(1)] k that by (auto simp: session_ok_def keeps_conns_def)
  qed (use old k in \<open>fastforce simp: session_ok_def keeps_conns_def fresh_session_def\<close>)+
qed

lemma mute_keeps:
  assumes "session_ok p c s" "mute p c s" "keeps_conns p p'"
  shows "mute p' c s"
  unfolding mute_def
proof clarify
  fix d chunk fin
  assume w: "cx_pipe s d = PipeWriting chunk fin" "dst_of d c s \<in> px_open p'"
  then have "cx_phase s = Piping"
    using assms(1) by (auto simp: session_ok_def)
  then have "dst_of d c s < px_next p"
    using assms(1) by (auto simp: session_ok_def dst_of_def split: way.splits)
  then show False
    using assms(2,3) w unfolding mute_def keeps_conns_def by blast
qed

lemma mute_upd: "mute p c s \<Longrightarrow> \<forall>chunk fin. x \<noteq> PipeWriting chunk fin \<Longrightarrow> mute p c (s\<lparr>cx_pipe := (cx_pipe s)(d := x)\<rparr>)"
  by (auto simp: mute_def dst_of_def split: way.splits if_splits)

lemma mute_new: "\<forall>d. cx_pipe s d = PipeTest \<Longrightarrow> mute p c s"
  by (simp add: mute_def)

lemma session_ok_upd: "session_ok p c s \<Longrightarrow> cx_phase s = Piping \<Longrightarrow> session_ok p c (s\<lparr>cx_pipe := f\<rparr>)"
  by (simp add: session_ok_def)

lemma silent_step:
  assumes "proxy_step p p'" "sessions_ok p" "silent p"
  shows "silent p'"
  unfolding silent_def
proof clarify
  fix c s'
  assume sev: "severed p'" and s': "px_sessions p' c = Some s'"
  show "mute p' c s'"
  proof (cases "severed p")
    case True
    then have m: "mute p c s" if "px_sessions p c = Some s" for s
      using assms(3) that by (simp add: silent_def)
    have o: "session_ok p c s" if "px_sessions p c = Some s" for s
      using assms(2) that by (simp add: sessions_ok_def)
    note k = step_keeps_conns [OF assms(1)]
    from step_session [OF assms(1) s'] show ?thesis
    proof (elim disjE exE conjE)
      show ?thesis if "px_sessions p c = Some s'"
        by (rule mute_keeps [OF o [OF that] m [OF that] k])
      show ?thesis if "px_sessions p c = Some s" "cx_phase s = Piping" "s' = s\<lparr>cx_pipe := (cx_pipe s)(d := x)\<rparr>"
        "px_cut p \<longrightarrow> (\<forall>chunk fin. x \<noteq> PipeWriting chunk fin)" for s d x
      proof (rule mute_keeps [OF _ _ k])
        show "session_ok p c s'"
          unfolding that(3) by (rule session_ok_upd [OF o [OF that(1)] that(2)])
        show "mute p c s'"
          unfolding that(3) by (rule mute_upd [OF m [OF that(1)]]) (use that(4) True in \<open>simp add: severed_def\<close>)
      qed
    qed (use o in \<open>auto simp: session_ok_def fresh_session_def intro!: mute_new\<close>)
  next
    case False
    have "p' = cut_close p"
      using assms(1) sev False by (cases rule: proxy_step.cases) (auto simp: severed_def proxy_steps split: if_splits option.splits)
    then have s: "px_sessions p c = Some s'" "px_open p' = px_open p - px_conns p"
      using s' by (simp_all add: cut_close_def drop_conns_def)
    then have "session_ok p c s'"
      using assms(2) by (simp add: sessions_ok_def)
    then have "dst_of d c s' \<notin> px_open p'" if "cx_pipe s' d = PipeWriting chunk fin" for d chunk fin
      using that s(2) unfolding session_ok_def held_def by (cases d; cases "cx_phase s'") (auto simp: dst_of_def)
    then show ?thesis
      by (simp add: mute_def)
  qed
qed

lemma reach_ok: "proxy_reach p \<Longrightarrow> sessions_ok p \<and> silent p"
proof -
  assume "proxy_reach p"
  then obtain target p0 where p0: "new_proxy target True = Inr p0" "proxy_step\<^sup>*\<^sup>* p0 p" by (auto simp: proxy_reach_def)
  from p0(2) show ?thesis
  proof (induction rule: rtranclp_induct)
    case base
    then show ?case using p0(1) by (auto simp: new_proxy_def sessions_ok_def silent_def split: if_splits)
  next
    case (step p p')
    then show ?case using ok_step silent_step by blast
  qed
qed

lemma severed_step:
  assumes "proxy_step p p'" "silent p" "severed p" "px_cut p'"
  shows "px_put p' = px_put p \<and> severed p'"
  using assms
proof (cases rule: proxy_step.cases)
  case (writes c s d chunk fin failed)
  then have "dst_of d c s \<notin> px_open p"
    using assms(2,3) unfolding silent_def mute_def by blast
  then show ?thesis
    using writes(1) assms(3) by (simp add: pipe_write_def set_pipe_def severed_def Let_def)
qed (auto simp: severed_def proxy_steps)

text \<open>
  C22: nothing passes a cut proxy. From every reachable state in which the path is cut and every call of \<open>Cut\<close> has returned, no byte is written to
  any connection until \<open>Heal\<close>, however accepts, dials, pipes in the middle of a write, further cuts and closes interleave.
\<close>

theorem cut_is_silent:
  assumes "proxy_reach p" "px_cut p" "px_cutting p = 0" "(\<lambda>x y. proxy_step x y \<and> px_cut y)\<^sup>*\<^sup>* p p'"
  shows "px_put p' = px_put p"
proof -
  from assms(4) have "px_put p' = px_put p \<and> severed p' \<and> sessions_ok p' \<and> silent p'"
  proof (induction rule: rtranclp_induct)
    case base
    then show ?case using reach_ok [OF assms(1)] assms(2,3) by (simp add: severed_def)
  next
    case (step y z)
    then show ?case using severed_step [of y z] ok_step [of y z] silent_step [of y z] by auto
  qed
  then show ?thesis by blast
qed

section \<open>The relay\<close>

text \<open>A pipe has written what it read, but for the chunk it holds; one that has returned may have dropped the end.\<close>

definition flow_ok :: "proxy \<Rightarrow> nat \<Rightarrow> session \<Rightarrow> way \<Rightarrow> bool" where
  "flow_ok p c s d \<longleftrightarrow>
     (let got = px_got p (src_of d c s); written = px_put p (dst_of d c s) in
      case cx_pipe s d of
        PipeHolds chunk _ \<Rightarrow> got = written @ chunk
      | PipeWriting chunk _ \<Rightarrow> got = written @ chunk
      | PipeDone \<Rightarrow> prefix written got
      | _ \<Rightarrow> got = written)"

definition conns_of :: "nat \<Rightarrow> session \<Rightarrow> nat set" where
  "conns_of c s = (if cx_phase s = Dialling then {c} else {c, cx_upstream s})"

text \<open>The connections of a session are its own, and one that no session reads has no bytes yet.\<close>

definition apart :: "(nat \<rightharpoonup> session) \<Rightarrow> bool" where
  "apart m \<longleftrightarrow> (\<forall>c s c' s'. m c = Some s \<longrightarrow> m c' = Some s' \<longrightarrow> c \<noteq> c' \<longrightarrow> conns_of c s \<inter> conns_of c' s' = {})"

definition relay_ok :: "proxy \<Rightarrow> nat \<Rightarrow> session \<Rightarrow> bool" where
  "relay_ok p c s \<longleftrightarrow>
     conns_of c s \<subseteq> {..<px_next p} \<and>
     (cx_phase s = Dialling \<longrightarrow> px_got p c = [] \<and> px_put p c = [] \<and> (\<forall>d. cx_pipe s d = PipeTest)) \<and>
     (cx_phase s \<noteq> Dialling \<longrightarrow> cx_upstream s \<noteq> c \<and> (\<forall>d. flow_ok p c s d))"

definition relays_ok :: "proxy \<Rightarrow> bool" where
  "relays_ok p \<longleftrightarrow>
     (\<forall>x \<ge> px_next p. px_got p x = [] \<and> px_put p x = []) \<and> (\<forall>c s. px_sessions p c = Some s \<longrightarrow> relay_ok p c s) \<and> apart (px_sessions p)"

lemma apart_upd:
  "apart m \<Longrightarrow> (\<And>c' s'. m c' = Some s' \<Longrightarrow> c' \<noteq> c \<Longrightarrow> conns_of c s \<inter> conns_of c' s' = {}) \<Longrightarrow> apart (m(c \<mapsto> s))"
  unfolding apart_def by (simp add: Int_commute)

lemma apart_del: "apart m \<Longrightarrow> apart (m(c := None))"
  unfolding apart_def by (auto split: if_splits)

lemma relay_frame:
  assumes "relay_ok p c s" "px_next p \<le> px_next p'" "\<forall>x \<in> conns_of c s. px_got p' x = px_got p x \<and> px_put p' x = px_put p x"
  shows "relay_ok p' c s"
proof -
  have "flow_ok p' c s d" if "cx_phase s \<noteq> Dialling" "flow_ok p c s d" for d
    using assms(3) that by (cases d) (auto simp: flow_ok_def src_of_def dst_of_def conns_of_def)
  then show ?thesis
    using assms unfolding relay_ok_def by (auto simp: conns_of_def split: if_splits)
qed

text \<open>A step that changes one session and bytes of its connections only.\<close>

lemma relays_upd:
  assumes "relays_ok p" "px_sessions p c = Some s" "px_next p' = px_next p"
    and "px_sessions p' = (px_sessions p)(c := x)" "\<And>y. y \<notin> conns_of c s \<Longrightarrow> px_got p' y = px_got p y \<and> px_put p' y = px_put p y"
    and "\<And>s1. x = Some s1 \<Longrightarrow> relay_ok p' c s1 \<and> conns_of c s1 = conns_of c s"
  shows "relays_ok p'"
proof -
  have P: "\<forall>y \<ge> px_next p. px_got p y = [] \<and> px_put p y = []" "\<And>c s. px_sessions p c = Some s \<Longrightarrow> relay_ok p c s" "apart (px_sessions p)"
    using assms(1) by (simp_all add: relays_ok_def)
  have low: "conns_of c s \<subseteq> {..<px_next p}" using P(2) [OF assms(2)] by (simp add: relay_ok_def)
  have others: "relay_ok p' c' s'" if "px_sessions p c' = Some s'" "c' \<noteq> c" for c' s'
  proof (rule relay_frame [OF P(2) [OF that(1)]])
    have "conns_of c s \<inter> conns_of c' s' = {}"
      using P(3) assms(2) that unfolding apart_def by blast
    then show "\<forall>y \<in> conns_of c' s'. px_got p' y = px_got p y \<and> px_put p' y = px_put p y"
      using assms(5) by blast
  qed (simp add: assms(3))
  have "apart (px_sessions p')"
  proof (cases x)
    case None
    then show ?thesis using P(3) assms(4) apart_del by simp
  next
    case (Some s1)
    have "apart ((px_sessions p)(c \<mapsto> s1))"
    proof (rule apart_upd [OF P(3)])
      fix c' s'
      assume "px_sessions p c' = Some s'" "c' \<noteq> c"
      then show "conns_of c s1 \<inter> conns_of c' s' = {}"
        using P(3) assms(2,6) Some unfolding apart_def by blast
    qed
    then show ?thesis using Some assms(4) by simp
  qed
  moreover have "\<forall>y \<ge> px_next p'. px_got p' y = [] \<and> px_put p' y = []"
    using P(1) low assms(3,5) by (metis lessThan_iff linorder_not_less subset_iff)
  moreover have "relay_ok p' c' s'" if "px_sessions p' c' = Some s'" for c' s'
    using that others assms(4,6) by (cases "c' = c") auto
  ultimately show ?thesis
    unfolding relays_ok_def by blast
qed

text \<open>A step that adds one connection, with a session or to one that dials.\<close>

lemma relays_grow:
  assumes "relays_ok p" "px_next p' = px_next p + 1" "px_got p' = px_got p" "px_put p' = px_put p"
    and "px_sessions p' = (px_sessions p)(c \<mapsto> s1)" "relay_ok p' c s1"
    and "c = px_next p \<and> conns_of c s1 = {c} \<or> (\<exists>s. px_sessions p c = Some s \<and> conns_of c s1 = insert (px_next p) (conns_of c s))"
  shows "relays_ok p'"
proof -
  have P: "\<forall>y \<ge> px_next p. px_got p y = [] \<and> px_put p y = []" "\<And>c s. px_sessions p c = Some s \<Longrightarrow> relay_ok p c s" "apart (px_sessions p)"
    using assms(1) by (simp_all add: relays_ok_def)
  have "apart ((px_sessions p)(c \<mapsto> s1))"
  proof (rule apart_upd [OF P(3)])
    fix c' s'
    assume s': "px_sessions p c' = Some s'" "c' \<noteq> c"
    then have "px_next p \<notin> conns_of c' s'"
      using P(2) [OF s'(1)] by (auto simp: relay_ok_def)
    then show "conns_of c s1 \<inter> conns_of c' s' = {}"
      using assms(7) s' P(3) unfolding apart_def by (elim disjE exE conjE) (simp, metis Int_insert_left_if0)
  qed
  moreover have "relay_ok p' c' s'" if "px_sessions p c' = Some s'" for c' s'
    using relay_frame [OF P(2) [OF that], of p'] assms(2-4) by simp
  ultimately show ?thesis
    using P(1) assms(2-6) unfolding relays_ok_def by auto
qed

lemma flow_other: "cx_pipe s' d = cx_pipe s d \<Longrightarrow> cx_upstream s' = cx_upstream s \<Longrightarrow> px_got p' (src_of d c s) = px_got p (src_of d c s) \<Longrightarrow>
    px_put p' (dst_of d c s) = px_put p (dst_of d c s) \<Longrightarrow> flow_ok p c s d \<Longrightarrow> flow_ok p' c s' d"
  by (cases d) (simp_all add: flow_ok_def src_of_def dst_of_def)

lemma ends_differ: "cx_upstream s \<noteq> c \<Longrightarrow> d \<noteq> d' \<Longrightarrow> src_of d c s \<noteq> src_of d' c s \<and> dst_of d c s \<noteq> dst_of d' c s"
  by (cases d; cases d') (auto simp: src_of_def dst_of_def)

lemma ends_in: "cx_phase s \<noteq> Dialling \<Longrightarrow> src_of d c s \<in> conns_of c s \<and> dst_of d c s \<in> conns_of c s"
  by (cases d) (auto simp: src_of_def dst_of_def conns_of_def)

text \<open>A step of one pipe.\<close>

lemma relays_pipe:
  assumes "relays_ok p" "px_sessions p c = Some s" "cx_phase s = Piping" "px_next p' = px_next p"
    and "px_sessions p' = (px_sessions p)(c \<mapsto> s\<lparr>cx_pipe := (cx_pipe s)(d := x)\<rparr>)"
    and "\<And>y. y \<noteq> src_of d c s \<Longrightarrow> px_got p' y = px_got p y" "\<And>y. y \<noteq> dst_of d c s \<Longrightarrow> px_put p' y = px_put p y"
    and "flow_ok p c s d \<Longrightarrow> flow_ok p' c (s\<lparr>cx_pipe := (cx_pipe s)(d := x)\<rparr>) d"
  shows "relays_ok p'"
proof (rule relays_upd [OF assms(1,2,4,5)])
  let ?s = "s\<lparr>cx_pipe := (cx_pipe s)(d := x)\<rparr>"
  have S: "relay_ok p c s"
    using assms(1,2) by (simp add: relays_ok_def)
  then have u: "cx_upstream s \<noteq> c" "\<And>d. flow_ok p c s d"
    using assms(3) by (simp_all add: relay_ok_def)
  show "px_got p' y = px_got p y \<and> px_put p' y = px_put p y" if "y \<notin> conns_of c s" for y
    using that ends_in [of s d c] assms(3,6,7) by (metis phase.distinct(5))
  have "flow_ok p' c ?s d'" for d'
  proof (cases "d' = d")
    case True
    then show ?thesis using assms(8) u(2) by simp
  next
    case False
    then show ?thesis
      using ends_differ [OF u(1) False] assms(6,7) u(2) by (intro flow_other [of ?s d' s p' c p]) auto
  qed
  moreover have "conns_of c ?s = conns_of c s" by (simp add: conns_of_def)
  ultimately show "relay_ok p' c s1 \<and> conns_of c s1 = conns_of c s" if "Some ?s = Some s1" for s1
    using that S assms(3,4) by (auto simp: relay_ok_def)
qed

lemma flow_new: "\<forall>d. cx_pipe s d = PipeTest \<Longrightarrow> px_got p (src_of d c s) = [] \<Longrightarrow> px_put p (dst_of d c s) = [] \<Longrightarrow> flow_ok p c s d"
  by (simp add: flow_ok_def)

lemma relays_same:
  "relays_ok p \<Longrightarrow> px_sessions p' = px_sessions p \<Longrightarrow> px_got p' = px_got p \<Longrightarrow> px_put p' = px_put p \<Longrightarrow> px_next p \<le> px_next p' \<Longrightarrow> relays_ok p'"
  unfolding relays_ok_def using relay_frame [of p _ _ p'] by simp

lemma src_dst: "src_of d c (s\<lparr>cx_pipe := f\<rparr>) = src_of d c s" "dst_of d c (s\<lparr>cx_pipe := f\<rparr>) = dst_of d c s"
  by (cases d; simp add: src_of_def dst_of_def)+

lemma relays_track:
  assumes "relays_ok p" "px_sessions p c = Some s" "cx_phase s \<noteq> Dialling" "ph \<noteq> Dialling"
  shows "relays_ok (track x c s ph p)"
proof (rule relays_upd [OF assms(1,2), of _ "Some (s\<lparr>cx_phase := ph\<rparr>)"])
  have s: "relay_ok p c s"
    using assms(1,2) by (simp add: relays_ok_def)
  have "flow_ok (track x c s ph p) c (s\<lparr>cx_phase := ph\<rparr>) d = flow_ok p c s d" for d
    by (cases d) (simp_all add: flow_ok_def track_def src_of_def dst_of_def)
  then show "relay_ok (track x c s ph p) c s1 \<and> conns_of c s1 = conns_of c s" if "Some (s\<lparr>cx_phase := ph\<rparr>) = Some s1" for s1
    using that s assms(3,4) by (auto simp: relay_ok_def conns_of_def track_def)
qed (simp_all add: track_def)

lemma relays_step: "proxy_step p p' \<Longrightarrow> relays_ok p \<Longrightarrow> relays_ok p'"
proof (induction rule: proxy_step.induct)
  case (accepts p)
  show ?case
  proof (cases "px_closed p \<or> px_cut p")
    case True
    then show ?thesis
      by (intro relays_same [OF accepts]) (auto simp: serve_accept_def Let_def)
  next
    case False
    have "px_got p (px_next p) = []" "px_put p (px_next p) = []"
      using accepts by (simp_all add: relays_ok_def)
    then show ?thesis
      using False by (intro relays_grow [OF accepts, of _ "px_next p" fresh_session])
        (simp_all add: serve_accept_def Let_def relay_ok_def conns_of_def fresh_session_def)
  qed
next
  case (dial_fails p c s)
  then show ?case
    by (intro relays_upd [OF dial_fails(3,1), of _ None]) (simp_all add: dial_failed_def)
next
  case (dials p c s)
  let ?s = "s\<lparr>cx_phase := Dialled, cx_upstream := px_next p\<rparr>"
  have s: "relay_ok p c s" and new: "px_got p (px_next p) = []" "px_put p (px_next p) = []"
    using dials by (simp_all add: relays_ok_def)
  have "flow_ok (dial_done c s p) c ?s d" for d
    using s new dials(2) by (intro flow_new) (cases d; simp add: relay_ok_def dial_done_def src_of_def dst_of_def)+
  moreover have "c < px_next p"
    using s dials(2) by (simp add: relay_ok_def conns_of_def)
  ultimately show ?case
    using dials(1,2) by (intro relays_grow [OF dials(3), of _ c ?s]) (auto simp: dial_done_def relay_ok_def conns_of_def)
next
  case (tracks_client p c s)
  then show ?case by (intro relays_track) simp_all
next
  case (tracks_upstream p c s)
  then show ?case by (intro relays_track) simp_all
next
  case (tests p c s d)
  then show ?case
    by (intro relays_pipe [OF tests(4,1,2), of _ d "if px_cut p then PipeDone else PipeReading"])
      (auto simp: pipe_test_def set_pipe_def flow_ok_def src_dst Let_def)
next
  case (reads p c s d chunk fin)
  then show ?case
    by (intro relays_pipe [OF reads(6,1,2), of _ d "PipeHolds chunk fin"]) (auto simp: pipe_read_def set_pipe_def flow_ok_def src_dst Let_def)
next
  case (reads_nothing p c s d timeout)
  then show ?case
    by (intro relays_pipe [OF reads_nothing(5,1,2), of _ d "if timeout then PipeTest else PipeDone"])
      (auto simp: pipe_no_read_def set_pipe_def flow_ok_def src_dst Let_def)
next
  case (releases p c s d chunk fin)
  then show ?case
    by (intro relays_pipe [OF releases(4,1,2), of _ d "if px_cut p then PipeDone else PipeWriting chunk fin"])
      (auto simp: pipe_release_def set_pipe_def flow_ok_def src_dst Let_def)
next
  case (writes p c s d chunk fin failed)
  let ?x = "if dst_of d c s \<notin> px_open p \<or> failed \<noteq> None \<or> fin then PipeDone else PipeTest"
  have p: "prefix (take n chunk) chunk" for n by (rule take_is_prefix)
  show ?case
    using writes(3) p by (intro relays_pipe [OF writes(4,1,2), of _ d ?x])
      (auto simp: pipe_write_def set_pipe_def flow_ok_def src_dst Let_def split: option.splits)
next
  case (ends p c s)
  then show ?case
    by (intro relays_upd [OF ends(4,1), of _ None]) (simp_all add: end_session_def)
qed (erule relays_same; simp add: cut_begin_def cut_close_def heal_def set_delay_def close_proxy_def drop_conns_def)+

text \<open>
  C23: the proxy relays in order. In every reachable state, in each direction of each session, what has been written is a prefix of what has been
  read, and until the pipe has returned only the chunk it holds is missing; the two connections of a session belong to no other.
\<close>

theorem relay_in_order:
  assumes "proxy_reach p" "px_sessions p c = Some s" "cx_phase s = Piping"
  shows "prefix (px_put p (dst_of d c s)) (px_got p (src_of d c s)) \<and>
    (cx_pipe s d \<noteq> PipeDone \<longrightarrow> px_got p (src_of d c s) =
      px_put p (dst_of d c s) @ (case cx_pipe s d of PipeHolds chunk _ \<Rightarrow> chunk | PipeWriting chunk _ \<Rightarrow> chunk | _ \<Rightarrow> [])) \<and>
    (\<forall>c' s'. px_sessions p c' = Some s' \<and> c' \<noteq> c \<longrightarrow> conns_of c s \<inter> conns_of c' s' = {})"
proof -
  obtain target p0 where p0: "new_proxy target True = Inr p0" "proxy_step\<^sup>*\<^sup>* p0 p" using assms(1) by (auto simp: proxy_reach_def)
  from p0(2) have "relays_ok p"
  proof (induction rule: rtranclp_induct)
    case base
    then show ?case using p0(1) by (auto simp: new_proxy_def relays_ok_def apart_def split: if_splits)
  qed (rule relays_step)
  then have "flow_ok p c s d" "apart (px_sessions p)"
    using assms(2,3) by (simp_all add: relays_ok_def relay_ok_def)
  then show ?thesis
    using assms(2) unfolding apart_def by (auto simp: flow_ok_def Let_def split: pipe_state.splits)
qed

lemma proxy_demo: "\<exists>p. proxy_reach p \<and> px_cut p \<and> px_cutting p = 0 \<and> px_cuts p = 1"
proof -
  obtain p0 where p0: "new_proxy ''t'' True = Inr p0" by (simp add: new_proxy_def)
  have "proxy_step p0 (cut_begin p0)" "proxy_step (cut_begin p0) (cut_close (cut_begin p0))"
    by (rule proxy_step.cuts, rule proxy_step.cut_closes) (use p0 in \<open>auto simp: new_proxy_def cut_begin_def\<close>)
  then have "proxy_reach (cut_close (cut_begin p0))"
    unfolding proxy_reach_def using p0 by (blast intro: converse_rtranclp_into_rtranclp)
  then show ?thesis
    using p0 by (intro exI [of _ "cut_close (cut_begin p0)"]) (auto simp: new_proxy_def cut_begin_def cut_close_def drop_conns_def)
qed

theorem cut_is_silent_witness: "\<exists>p. proxy_reach p \<and> px_cuts p = 1 \<and> px_put (serve_accept (close_proxy p)) = px_put p"
proof -
  obtain p where p: "proxy_reach p" "px_cut p" "px_cutting p = 0" "px_cuts p = 1" using proxy_demo by blast
  define r where "r = (\<lambda>x y. proxy_step x y \<and> px_cut y)"
  have "r p (close_proxy p)" "r (close_proxy p) (serve_accept (close_proxy p))"
    using proxy_step.closes [of p] proxy_step.accepts [of "close_proxy p"] p(2)
    by (auto simp: r_def close_proxy_def drop_conns_def serve_accept_def Let_def)
  then have "r\<^sup>*\<^sup>* p (serve_accept (close_proxy p))"
    by (meson converse_rtranclp_into_rtranclp rtranclp.rtrancl_refl)
  from cut_is_silent [OF p(1-3) this [unfolded r_def]] show ?thesis using p(1,4) by blast
qed

text \<open>A client accepted before and dialled after the close, and one byte of it.\<close>

definition demo_relay :: "proxy \<Rightarrow> proxy \<Rightarrow> bool" where
  "demo_relay p p' \<longleftrightarrow>
     proxy_reach p \<and> px_closed p \<and> px_conns p = {} \<and> px_put p = (\<lambda>_. []) \<and> proxy_step\<^sup>*\<^sup>* p p' \<and> px_closed p' \<and> {0, 1} \<subseteq> px_open p' \<and>
     px_got p' 0 = ''x'' \<and> px_put p' 1 = ''x'' \<and> px_sessions p' 0 = Some \<lparr>cx_phase = Piping, cx_upstream = 1, cx_pipe = (\<lambda>_. PipeTest)\<rparr>"

lemma demo_relays: "\<exists>p p'. demo_relay p p'"
proof -
  let ?s = "\<lambda>ph f. \<lparr>cx_phase = ph, cx_upstream = 1, cx_pipe = f\<rparr>" and ?f = "\<lambda>_. PipeTest"
  obtain p0 where p0: "new_proxy ''t'' True = Inr p0" by (simp add: new_proxy_def)
  note empty = p0 [unfolded new_proxy_def, simplified, symmetric]
  let ?p1 = "close_proxy (serve_accept p0)"
  let ?p2 = "dial_done 0 fresh_session ?p1"
  let ?p3 = "track 0 0 (?s Dialled ?f) HalfTracked ?p2"
  let ?p4 = "track 1 0 (?s HalfTracked ?f) Piping ?p3"
  let ?p5 = "pipe_test 0 (?s Piping ?f) Up ?p4"
  let ?p6 = "pipe_read 0 (?s Piping (?f(Up := PipeReading))) Up ''x'' False ?p5"
  let ?p7 = "pipe_release 0 (?s Piping (?f(Up := PipeHolds ''x'' False))) Up ''x'' False ?p6"
  let ?p8 = "pipe_write 0 (?s Piping (?f(Up := PipeWriting ''x'' False))) Up ''x'' False None ?p7"
  note compute = empty proxy_steps fresh_session_def src_of_def dst_of_def
  have s1: "proxy_step p0 (serve_accept p0)" "proxy_step (serve_accept p0) ?p1"
    by (rule proxy_step.accepts proxy_step.closes)+
  have s2: "proxy_step ?p1 ?p2"
    by (rule proxy_step.dials) (simp_all add: compute)
  have s3: "proxy_step ?p2 ?p3"
    by (rule proxy_step.tracks_client) (simp_all add: compute)
  have s4: "proxy_step ?p3 ?p4"
    using proxy_step.tracks_upstream [of ?p3 0 "?s HalfTracked ?f"] by (simp add: compute)
  have s5: "proxy_step ?p4 ?p5"
    by (rule proxy_step.tests) (simp_all add: compute)
  have s6: "proxy_step ?p5 ?p6"
    by (rule proxy_step.reads) (simp_all add: compute)
  have s7: "proxy_step ?p6 ?p7"
    by (rule proxy_step.releases) (simp_all add: compute)
  have s8: "proxy_step ?p7 ?p8"
    by (rule proxy_step.writes) (simp_all add: compute)
  have "proxy_reach ?p1"
    unfolding proxy_reach_def using p0 s1 by (blast intro: converse_rtranclp_into_rtranclp)
  moreover have "proxy_step\<^sup>*\<^sup>* ?p1 ?p8"
    using s2 s3 s4 s5 s6 s7 s8 by (meson converse_rtranclp_into_rtranclp rtranclp.rtrancl_refl)
  moreover have "px_closed ?p1" "px_conns ?p1 = {}" "px_put ?p1 = (\<lambda>_. [])"
    by (simp_all add: compute)
  moreover have "px_closed ?p8" "{0, 1} \<subseteq> px_open ?p8" "px_got ?p8 0 = ''x''" "px_put ?p8 1 = ''x''"
    "px_sessions ?p8 0 = Some (?s Piping ?f)"
    by (auto simp: compute)
  ultimately show ?thesis
    unfolding demo_relay_def by (intro exI [of _ ?p1] exI [of _ ?p8]) simp
qed

theorem relay_in_order_witness: "\<exists>p. proxy_reach p \<and> px_got p 0 = ''x'' \<and> prefix (px_put p 1) (px_got p 0)"
proof -
  let ?s = "\<lparr>cx_phase = Piping, cx_upstream = 1, cx_pipe = (\<lambda>_. PipeTest)\<rparr>"
  obtain p p' where d: "demo_relay p p'" using demo_relays by blast
  then have r: "proxy_reach p'"
    unfolding demo_relay_def proxy_reach_def by (meson rtranclp_trans)
  have "prefix (px_put p' (dst_of Up 0 ?s)) (px_got p' (src_of Up 0 ?s))"
    using relay_in_order [OF r, of 0 ?s Up] d unfolding demo_relay_def by simp
  then show ?thesis
    using r d by (auto simp: demo_relay_def dst_of_def src_of_def)
qed

section \<open>Close\<close>

text \<open>
  C35: \<open>Close\<close> does not drop every connection. One that is being dialled when the proxy is closed is tracked afterwards, and forwards: there is a
  reachable state of a closed proxy, with nothing tracked and nothing forwarded, from which bytes of a client reach the target.
\<close>

theorem close_misses_dialling:
  "\<exists>p p' c u. proxy_reach p \<and> px_closed p \<and> px_conns p = {} \<and> px_put p = (\<lambda>_. []) \<and> proxy_step\<^sup>*\<^sup>* p p' \<and> px_closed p' \<and>
    {c, u} \<subseteq> px_open p' \<and> px_got p' c = ''x'' \<and> px_put p' u = ''x''"
  using demo_relays unfolding demo_relay_def by blast

end
