(* ===== verification/GoText.thy ===== *)
theory GoText
  imports Float64
begin

text \<open>
  Functions of Go's \<open>strings\<close> and \<open>strconv\<close> on ASCII text that the command lines and benchmarks use.
\<close>

definition is_space :: "char \<Rightarrow> bool" where
  "is_space c \<longleftrightarrow> c \<in> {CHR '' '', CHR 0x09, CHR 0x0A, CHR 0x0B, CHR 0x0C, CHR 0x0D}"

definition trim_space :: "string \<Rightarrow> string" where
  "trim_space s = rev (dropWhile is_space (rev (dropWhile is_space s)))"

text \<open>\<open>strings.Split\<close>: splitting the empty text gives one empty part.\<close>

fun split_on :: "char \<Rightarrow> string \<Rightarrow> string list" where
  "split_on c [] = [[]]"
| "split_on c (x # xs) = (if x = c then [] # split_on c xs else (case split_on c xs of p # ps \<Rightarrow> (x # p) # ps | [] \<Rightarrow> [[x]]))"

text \<open>\<open>strings.Fields\<close>\<close>

fun go_fields :: "string \<Rightarrow> string list" where
  "go_fields [] = []"
| "go_fields (x # xs) =
     (if is_space x then go_fields xs
      else case xs of
        [] \<Rightarrow> [[x]]
      | y # ys \<Rightarrow> if is_space y then [x] # go_fields xs else (case go_fields xs of p # ps \<Rightarrow> (x # p) # ps | [] \<Rightarrow> [[x]]))"

text \<open>\<open>strings.Cut\<close>: the parts before and after the first separator.\<close>

fun go_cut :: "char \<Rightarrow> string \<Rightarrow> (string \<times> string) option" where
  "go_cut c [] = None"
| "go_cut c (x # xs) = (if x = c then Some ([], xs) else map_option (\<lambda>(p, q). (x # p, q)) (go_cut c xs))"

definition trim_suffix :: "string \<Rightarrow> string \<Rightarrow> string" where
  "trim_suffix s p = rev (trim_prefix (rev s) (rev p))"

definition lower_text :: "string \<Rightarrow> string" where
  "lower_text s = map (\<lambda>c. if CHR ''A'' \<le> c \<and> c \<le> CHR ''Z'' then char_of (of_char c + 32 :: nat) else c) s"

text \<open>
  \<open>strconv.ParseFloat\<close> for decimal notation, the infinities and NaN; a number out of range is an error. Hexadecimal notation is left out.
\<close>

definition split_sign :: "string \<Rightarrow> bool \<times> string" where
  "split_sign s = (case s of c # cs \<Rightarrow> if c = CHR ''-'' then (True, cs) else if c = CHR ''+'' then (False, cs) else (False, s) | [] \<Rightarrow> (False, []))"

definition parse_exponent :: "string \<Rightarrow> int option" where
  "parse_exponent s =
     (case s of
        [] \<Rightarrow> Some 0
      | c # cs \<Rightarrow>
          (case split_sign cs of
             (neg, ds) \<Rightarrow>
               if (c = CHR ''e'' \<or> c = CHR ''E'') \<and> ds \<noteq> [] \<and> list_all is_digit ds
               then Some (if neg then - int (digits_val ds) else int (digits_val ds)) else None))"

definition parse_decimal :: "string \<Rightarrow> rat option" where
  "parse_decimal s =
     (let whole = takeWhile is_digit s; r = dropWhile is_digit s;
          (frac, r') = (case r of c # cs \<Rightarrow> if c = CHR ''.'' then (takeWhile is_digit cs, dropWhile is_digit cs) else ([], r) | [] \<Rightarrow> ([], [])) in
      if whole @ frac = [] then None
      else case parse_exponent r' of
        None \<Rightarrow> None
      | Some e \<Rightarrow>
          (let m = of_int (int (digits_val (whole @ frac))); k = e - int (length frac) in
           Some (if 0 \<le> k then m * 10 ^ nat k else m / 10 ^ nat (- k))))"

definition parse_float_text :: "string \<Rightarrow> f64 option" where
  "parse_float_text s =
     (if lower_text s = ''nan'' then Some NaN
      else case split_sign s of
        (neg, r) \<Rightarrow>
          if lower_text r = ''inf'' \<or> lower_text r = ''infinity'' then Some (if neg then NInf else PInf)
          else case parse_decimal r of
            None \<Rightarrow> None
          | Some x \<Rightarrow> (case f64_round (if neg then - x else x) of Fin y \<Rightarrow> Some (Fin y) | _ \<Rightarrow> None))"

lemma split_on_notin: "c \<notin> set s \<Longrightarrow> split_on c s = [s]"
  by (induction s) auto

end
