(* ===== verification/FaultBench.thy ===== *)
theory FaultBench
  imports BenchCsv BenchRun GoText Lease
begin

text \<open>
  The failover benchmark (\<open>cmd/failoverbench/main.go\<close>): which fault a trial injects, the plan it submits, its waiting loops, and above
  all how it reads the execution stream back: the dispatch record, its gaps, the outage around the kill and the epoch inversions.
  Starting, signalling and stopping the processes is left out; what a trial measures of them is an argument.
\<close>

section \<open>Arms\<close>

datatype kill_signal = NoSignal | SigTerm | SigKill | SigStop

record kill_arm =
  ar_name :: string
  ar_replicas :: int
  ar_signal :: kill_signal
  ar_resume :: bool

definition arms :: "kill_arm list" where
  "arms =
     [\<lparr>ar_name = ''none'', ar_replicas = 2, ar_signal = NoSignal, ar_resume = False\<rparr>,
      \<lparr>ar_name = ''graceful'', ar_replicas = 2, ar_signal = SigTerm, ar_resume = False\<rparr>,
      \<lparr>ar_name = ''crash'', ar_replicas = 2, ar_signal = SigKill, ar_resume = False\<rparr>,
      \<lparr>ar_name = ''single'', ar_replicas = 1, ar_signal = SigKill, ar_resume = False\<rparr>,
      \<lparr>ar_name = ''pause'', ar_replicas = 2, ar_signal = SigStop, ar_resume = True\<rparr>]"

datatype arms_error = UnknownArm string | NoArms

text \<open>
  \<open>selectArms\<close>, which the three benchmarks have for their own arms. The first unknown name is reported here; the code reports any of them.
\<close>

definition select_named :: "('a \<Rightarrow> string) \<Rightarrow> 'a list \<Rightarrow> string \<Rightarrow> arms_error + 'a list" where
  "select_named name_of all names =
     (if trim_space names = [] then Inr all
      else let want = map trim_space (split_on (CHR '','') names); out = filter (\<lambda>a. name_of a \<in> set want) all in
        case filter (\<lambda>n. n \<notin> name_of ` set all) want of
          n # _ \<Rightarrow> Inl (UnknownArm n)
        | [] \<Rightarrow> if out = [] then Inl NoArms else Inr out)"

definition select_arms :: "string \<Rightarrow> arms_error + kill_arm list" where
  "select_arms names = select_named ar_name arms names"

section \<open>The plan\<close>

text \<open>\<open>pfx\<close> is the prefix of the ids: \<open>f-\<close>, or \<open>p-\<close> and \<open>s-\<close> in the other two benchmarks.\<close>

definition steady_specs :: "string \<Rightarrow> int \<Rightarrow> f64 \<Rightarrow> int \<Rightarrow> spec list" where
  "steady_specs pfx n r exec_ms =
     (let r = (if fle r (Fin 0) then Fin 1 else r); gap = f64_to_i64 (fdiv (f64_of_int second) r) in
      map (\<lambda>i. \<lparr>sp_id = pfx @ show_pad 6 (int i), sp_tenant = [''A'', ''B'', ''C''] ! (i mod 3), sp_offset = i64 (int i * gap),
          sp_exec_ms = exec_ms, sp_priority = 1, sp_slack_ms = 60000, sp_max_retries = 3\<rparr>) [0..<nat n])"

section \<open>Waiting\<close>

text \<open>
  \<open>waitForLeader\<close>: each turn is the clock, whether the context has ended, and what the holder key reads. \<open>leaseOwner\<close> takes the text before
  the last bar.
\<close>

datatype leader_end = Led | LeaderCancelled | NoLeader

fun wait_for_leader :: "time \<Rightarrow> (time \<times> bool \<times> string option) list \<Rightarrow> leader_end option" where
  "wait_for_leader deadline [] = None"
| "wait_for_leader deadline ((now, ended, v) # turns) =
     (if deadline \<le> now then Some NoLeader
      else if ended then Some LeaderCancelled
      else case v of
        Some x \<Rightarrow> if x \<noteq> [] then Some Led else wait_for_leader deadline turns
      | None \<Rightarrow> wait_for_leader deadline turns)"

definition lease_owner_of :: "string \<Rightarrow> string" where
  "lease_owner_of v = (case split_last (CHR ''|'') v of Some (owner, _) \<Rightarrow> owner | None \<Rightarrow> v)"

definition read_lease_owner :: "(cmd \<Rightarrow> 's \<Rightarrow> reply \<times> 's) \<Rightarrow> rkey \<Rightarrow> ('s, berr, string) go" where
  "read_lease_owner call k w =
     (case send (rcall call (GET k)) w of
        (Inl e, w') \<Rightarrow> (Inl (ErrRedis ''read the lease holder'' e), w')
      | (Inr RNil, w') \<Rightarrow> (Inr [], w')
      | (Inr (RText (TStr v)), w') \<Rightarrow> (Inr (lease_owner_of v), w')
      | (Inr (RText (TNum n)), w') \<Rightarrow> (Inr (show_int n), w')
      | (Inr _, w') \<Rightarrow> (Inl (ErrText ''read the lease holder''), w'))"

datatype leader_error = HolderUnread berr | NotOurs string

definition leader_process :: "(cmd \<Rightarrow> 's \<Rightarrow> reply \<times> 's) \<Rightarrow> rkey \<Rightarrow> string list \<Rightarrow> ('s, leader_error, string) go" where
  "leader_process call k owners w =
     (case read_lease_owner call k w of
        (Inl e, w') \<Rightarrow> (Inl (HolderUnread e), w')
      | (Inr owner, w') \<Rightarrow> (if owner \<in> set owners then Inr owner else Inl (NotOurs owner), w'))"

text \<open>
  \<open>scrapeGauge\<close> on the body of a reply, and the sum of the leader gauges over the replicas that answered. A line is taken by the prefix of its
  name.
\<close>

fun scrape_gauge :: "string \<Rightarrow> string list \<Rightarrow> f64 option" where
  "scrape_gauge name [] = None"
| "scrape_gauge name (line # rest) =
     (if \<not> has_prefix line name \<or> has_prefix line ''#'' \<or> length (go_fields line) < 2 then scrape_gauge name rest
      else parse_float_text (last (go_fields line)))"

definition gauge_of :: "string \<Rightarrow> string option \<Rightarrow> f64 option" where
  "gauge_of name body = Option.bind body (\<lambda>x. scrape_gauge name (split_on (CHR 0x0A) x))"

definition leader_gauges :: "string option list \<Rightarrow> f64" where
  "leader_gauges bodies =
     foldl (\<lambda>s body. case gauge_of ''tq_scheduler_is_leader'' body of Some v \<Rightarrow> fadd s v | None \<Rightarrow> s) (Fin 0) bodies"

text \<open>
  \<open>waitForDrain\<close>: a turn is \<open>None\<close> once the context has ended, or what \<open>Stats\<close> returned. \<open>idle\<close> counts the turns without progress; more
  than \<open>limit\<close> of them end the loop.
\<close>

fun drain_loop :: "nat \<Rightarrow> int \<Rightarrow> nat \<Rightarrow> int \<Rightarrow> (berr + int go_map) option list \<Rightarrow> bool option" where
  "drain_loop limit want idle prev [] = None"
| "drain_loop limit want idle prev (None # turns) = Some False"
| "drain_loop limit want idle prev (Some (Inl e) # turns) = Some False"
| "drain_loop limit want idle prev (Some (Inr st) # turns) =
     (let finished = i64 (map_get 0 st ''completed'' + map_get 0 st ''dead_lettered'') in
      if want \<le> finished then Some True
      else if finished = prev then (if limit < Suc idle then Some False else drain_loop limit want (Suc idle) prev turns)
      else drain_loop limit want 0 finished turns)"

definition wait_for_drain :: "int \<Rightarrow> (berr + int go_map) option list \<Rightarrow> bool option" where
  "wait_for_drain want turns = drain_loop 150 want 0 (- 1) turns"

section \<open>The dispatch record\<close>

record dispatch_entry =
  di_at :: time
  di_epoch :: int

text \<open>\<open>ParseInt\<close> with its error ignored: an integer outside 64 bits reads as the nearest one inside.\<close>

definition text_int_sat :: "rtext \<Rightarrow> int" where
  "text_int_sat t =
     (case t of
        TNum n \<Rightarrow> if n < - (2 ^ 63) then - (2 ^ 63) else if 2 ^ 63 \<le> n then 2 ^ 63 - 1 else n
      | TStr s \<Rightarrow> fst (go_parse_int s)
      | _ \<Rightarrow> 0)"

definition entry_of :: "stream_entry \<Rightarrow> dispatch_entry option" where
  "entry_of e =
     (case Option.bind (field e ''dispatched_at_ms'') text_int of
        None \<Rightarrow> None
      | Some ms \<Rightarrow> Some \<lparr>di_at = from_unix_milli ms, di_epoch = (case field e ''epoch'' of Some t \<Rightarrow> text_int_sat t | None \<Rightarrow> 0)\<rparr>)"

partial_function (option) dispatch_record ::
  "(cmd \<Rightarrow> 's \<Rightarrow> reply \<times> 's) \<Rightarrow> rkey \<Rightarrow> bound \<Rightarrow> dispatch_entry list \<Rightarrow> 's net \<Rightarrow> ((berr + dispatch_entry list) \<times> 's net) option" where
  "dispatch_record call k from acc w =
     (case range_query ''read'' call k from 5000 w of
        (Inl e, w') \<Rightarrow> Some (Inl e, w')
      | (Inr es, w') \<Rightarrow>
          (if es = [] then Some (Inr acc, w')
           else let acc' = acc @ List.map_filter entry_of es in
             if int (length es) < 5000 then Some (Inr acc', w')
             else dispatch_record call k (BAfter (se_id (last es))) acc' w'))"

definition dispatch_stamps :: "dispatch_entry list \<Rightarrow> time list" where
  "dispatch_stamps es = sort (map di_at es)"

definition count_inversion :: "int \<times> int \<Rightarrow> dispatch_entry \<Rightarrow> int \<times> int" where
  "count_inversion x e =
     (case x of (high, n) \<Rightarrow> if di_epoch e \<le> 0 then (high, n) else if di_epoch e < high then (high, n + 1) else (di_epoch e, n))"

definition epoch_inversions :: "dispatch_entry list \<Rightarrow> int" where
  "epoch_inversions es = snd (foldl count_inversion (0, 0) es)"

definition gap_ms :: "time \<Rightarrow> time \<Rightarrow> f64" where
  "gap_ms a b = fmul (dur_seconds (time_sub b a)) (f64_of_int 1000)"

fun max_gap_from :: "f64 \<Rightarrow> time list \<Rightarrow> f64" where
  "max_gap_from worst (a # b # rest) = max_gap_from (if fgt (gap_ms a b) worst then gap_ms a b else worst) (b # rest)"
| "max_gap_from worst _ = worst"

definition max_gap_ms :: "time list \<Rightarrow> f64" where
  "max_gap_ms stamps = max_gap_from (Fin 0) stamps"

fun outage_scan :: "time \<Rightarrow> time \<Rightarrow> time list \<Rightarrow> time \<times> time" where
  "outage_scan kill before [] = (before, zero_time)"
| "outage_scan kill before (s # rest) = (if s \<le> kill then outage_scan kill s rest else (before, s))"

definition outage_around :: "time list \<Rightarrow> time \<Rightarrow> f64 option" where
  "outage_around stamps kill =
     (case outage_scan kill zero_time stamps of
        (before, next_at) \<Rightarrow>
          if is_zero_time next_at then None
          else Some (gap_ms (if is_zero_time before then kill else before) next_at))"

section \<open>A trial\<close>

record trial =
  tr_arm :: string
  tr_rep :: int
  tr_policy :: string
  tr_replicas :: int
  tr_ttl :: duration
  tr_renew :: duration
  tr_tasks :: int
  tr_submitted :: int
  tr_completed :: int
  tr_dispatched :: int
  tr_duplicates :: int
  tr_dead :: int
  tr_outage :: f64
  tr_max_gap :: f64
  tr_recovered :: bool
  tr_transitions :: int
  tr_wall :: f64
  tr_suspect :: bool
  tr_leaders :: f64
  tr_pause :: f64
  tr_leaders_after :: f64
  tr_fenced :: f64
  tr_inversions :: int

text \<open>The check before any task is submitted: exactly one replica leads.\<close>

definition check_leaders :: "string option list \<Rightarrow> trial \<Rightarrow> trial \<times> f64 option" where
  "check_leaders bodies row =
     (let s = leader_gauges bodies in (row\<lparr>tr_leaders := s\<rparr>, if feq s (Fin 1) then None else Some s))"

text \<open>
  \<open>pauseAndResume\<close>: the victim has been stopped. What it observes is an argument: whether the context ends during each of the three waits, the
  state \<open>ps\<close> prints, whether the continue signal is sent, how long the victim was stopped, and what the replicas answer afterwards.
\<close>

datatype pause_error = PauseCancelled | NotStopped string | HolderError berr | StillHolds string | NobodyHolds | ResumeFailed | LeadersAfter f64

record pause_seen =
  pa_ended :: "bool \<times> bool \<times> bool"
  pa_state :: "string option"
  pa_continued :: bool
  pa_paused :: duration
  pa_victim_body :: "string option"
  pa_bodies :: "string option list"

definition after_resume :: "pause_seen \<Rightarrow> trial \<Rightarrow> trial \<times> pause_error option" where
  "after_resume saw row =
     (let row1 = (case gauge_of ''tq_scheduler_fenced_operations_total'' (pa_victim_body saw) of
                    Some v \<Rightarrow> row\<lparr>tr_fenced := v\<rparr> | None \<Rightarrow> row);
          s = leader_gauges (pa_bodies saw) in
      (row1\<lparr>tr_leaders_after := s\<rparr>, if feq s (Fin 1) then None else Some (LeadersAfter s)))"

definition pause_and_resume ::
  "(cmd \<Rightarrow> 's \<Rightarrow> reply \<times> 's) \<Rightarrow> rkey \<Rightarrow> string \<Rightarrow> pause_seen \<Rightarrow> trial \<Rightarrow> 's net \<Rightarrow> (trial \<times> pause_error option) \<times> 's net" where
  "pause_and_resume call k victim saw row w =
     (case pa_ended saw of (ended1, ended2, ended3) \<Rightarrow>
        if ended1 then ((row, Some PauseCancelled), w)
        else if (case pa_state saw of Some s \<Rightarrow> \<not> has_prefix s ''T'' | None \<Rightarrow> False)
        then ((row, Some (NotStopped (the (pa_state saw)))), w)
        else if ended2 then ((row, Some PauseCancelled), w)
        else
          (case read_lease_owner call k w of
             (Inl e, w') \<Rightarrow> ((row, Some (HolderError e)), w')
           | (Inr successor, w') \<Rightarrow>
               if successor = victim then ((row, Some (StillHolds victim)), w')
               else if successor = [] then ((row, Some NobodyHolds), w')
               else if \<not> pa_continued saw then ((row, Some ResumeFailed), w')
               else
                 (let row1 = row\<lparr>tr_pause := fmul (dur_seconds (pa_paused saw)) (f64_of_int 1000)\<rparr> in
                  if ended3 then ((row1, Some PauseCancelled), w') else (after_resume saw row1, w'))))"

text \<open>
  The end of \<open>runTrial\<close>: the counters, the epoch counter (0 when it cannot be read), the dispatch record, the time of the kill and how
  long the host slept. The trial is an error when the record shows an inversion.
\<close>

text \<open>The watch on the host's two clocks: the readings at its start, and those now.\<close>

record clock_watch =
  cw_mono :: time
  cw_wall :: time

definition elapsed :: "clock_watch \<Rightarrow> time \<Rightarrow> time \<Rightarrow> duration \<times> duration" where
  "elapsed cw m_now w_now = (time_sub m_now (cw_mono cw), time_sub w_now (cw_wall cw))"

definition suspended :: "clock_watch \<Rightarrow> time \<Rightarrow> time \<Rightarrow> duration" where
  "suspended cw m_now w_now = (case elapsed cw m_now w_now of (m, wl) \<Rightarrow> let d = i64 (wl - m) in if 0 < d then d else 0)"

definition sleep_threshold :: duration where
  "sleep_threshold = 2 * second"

definition suspected :: "clock_watch \<Rightarrow> time \<Rightarrow> time \<Rightarrow> bool" where
  "suspected cw m_now w_now \<longleftrightarrow> sleep_threshold < suspended cw m_now w_now"

definition outage_of :: "bool \<Rightarrow> time list \<Rightarrow> time \<Rightarrow> f64 \<times> bool" where
  "outage_of undisturbed stamps kill =
     (if undisturbed then (Fin 0, True)
      else case outage_around stamps kill of Some g \<Rightarrow> (g, True) | None \<Rightarrow> (Fin (- 1), False))"

definition analyse_trial ::
  "kill_arm \<Rightarrow> trial \<Rightarrow> int go_map \<Rightarrow> int \<Rightarrow> dispatch_entry list \<Rightarrow> time \<Rightarrow> duration \<Rightarrow> trial \<times> int option" where
  "analyse_trial a row st epoch entries kill slept =
     (let stamps = dispatch_stamps entries;
          row1 = row\<lparr>tr_completed := map_get 0 st ''completed'', tr_dispatched := map_get 0 st ''dispatched'',
            tr_duplicates := map_get 0 st ''duplicate_completions'', tr_dead := map_get 0 st ''dead_lettered'', tr_transitions := epoch,
            tr_max_gap := max_gap_ms stamps, tr_inversions := epoch_inversions entries\<rparr> in
      if epoch_inversions entries \<noteq> 0 then (row1, Some (epoch_inversions entries))
      else
        let (outage, recovered) = outage_of (ar_signal a = NoSignal) stamps kill in
        (row1\<lparr>tr_outage := outage, tr_recovered := recovered,
          tr_suspect := tr_suspect row1 \<or> recovered \<and> fgt outage (fmul (Fin 5) (f64_of_int (dur_millis (tr_ttl row1)))) \<or> sleep_threshold < slept\<rparr>, None))"

definition epoch_counter :: "(cmd \<Rightarrow> 's \<Rightarrow> reply \<times> 's) \<Rightarrow> rkey \<Rightarrow> 's net \<Rightarrow> int \<times> 's net" where
  "epoch_counter call k w =
     (case send (rcall call (GET k)) w of (Inr (RText t), w') \<Rightarrow> (text_int_sat t, w') | (_, w') \<Rightarrow> (0, w'))"

definition read_trial ::
  "(cmd \<Rightarrow> 's \<Rightarrow> reply \<times> 's) \<Rightarrow> broker \<Rightarrow> 's net \<Rightarrow> ((berr + int go_map \<times> int \<times> dispatch_entry list) \<times> 's net) option" where
  "read_trial call b w =
     (case stats call b w of
        (Inl e, w1) \<Rightarrow> Some (Inl e, w1)
      | (Inr st, w1) \<Rightarrow>
          (case epoch_counter call (key b LeaderEpoch) w1 of
             (epoch, w2) \<Rightarrow>
               (case dispatch_record call (key b Exec) BMin [] w2 of
                  None \<Rightarrow> None
                | Some (Inl e, w3) \<Rightarrow> Some (Inl e, w3)
                | Some (Inr es, w3) \<Rightarrow> Some (Inr (st, epoch, es), w3))))"

definition finish_trial ::
  "(cmd \<Rightarrow> 's \<Rightarrow> reply \<times> 's) \<Rightarrow> broker \<Rightarrow> kill_arm \<Rightarrow> trial \<Rightarrow> time \<Rightarrow> duration \<Rightarrow> 's net \<Rightarrow> ((berr + trial \<times> int option) \<times> 's net) option" where
  "finish_trial call b a row kill slept w =
     map_option (apfst (map_sum id (\<lambda>(st, epoch, es). analyse_trial a row st epoch es kill slept))) (read_trial call b w)"

text \<open>The table of the trials; a number is kept with the digits it is printed to.\<close>

datatype out_cell = Cell csv_field | Fixed nat f64

definition failover_header :: "string list" where
  "failover_header =
     [''arm'', ''rep'', ''policy'', ''replicas'', ''lease_ttl_ms'', ''lease_renew_ms'', ''tasks'', ''submitted'',
      ''dispatched'', ''completed'', ''duplicate_completions'', ''dead_lettered'',
      ''outage_ms'', ''max_gap_ms'', ''recovered'', ''leader_epochs'', ''leaders_before_kill'',
      ''wall_seconds'', ''suspect'',
      ''pause_ms'', ''leaders_after_resume'', ''fenced_operations'', ''epoch_inversions'']"

definition failover_row :: "trial \<Rightarrow> out_cell list" where
  "failover_row r =
     [Cell (CText (tr_arm r)), Cell (CInt (tr_rep r)), Cell (CText (tr_policy r)), Cell (CInt (tr_replicas r)),
      Cell (CInt (dur_millis (tr_ttl r))), Cell (CInt (dur_millis (tr_renew r))), Cell (CInt (tr_tasks r)), Cell (CInt (tr_submitted r)),
      Cell (CInt (tr_dispatched r)), Cell (CInt (tr_completed r)), Cell (CInt (tr_duplicates r)), Cell (CInt (tr_dead r)),
      Fixed 1 (tr_outage r), Fixed 1 (tr_max_gap r), Cell (CBool (tr_recovered r)), Cell (CInt (tr_transitions r)), Fixed 0 (tr_leaders r),
      Fixed 1 (tr_wall r), Cell (CBool (tr_suspect r)),
      Fixed 1 (tr_pause r), Fixed 0 (tr_leaders_after r), Fixed 0 (tr_fenced r), Cell (CInt (tr_inversions r))]"

section \<open>The summary\<close>

definition quantile_of :: "f64 list \<Rightarrow> f64 \<Rightarrow> f64" where
  "quantile_of xs q =
     (if xs = [] then Fin (- 1)
      else let s = sort_floats xs in
        if fle (Fin 1) q then last s else s ! nat (f64_to_i64 (fmul q (f64_of_int (int (length s) - 1)))))"

record arm_summary =
  as_arm :: string
  as_total :: nat
  as_median :: f64
  as_p95 :: f64
  as_max :: f64
  as_gap :: f64
  as_recovered :: nat
  as_lost :: int
  as_suspect :: nat
  as_fenced :: "nat option"
  as_inversions :: int

definition summarise_arm :: "trial list \<Rightarrow> kill_arm \<Rightarrow> arm_summary option" where
  "summarise_arm rows a =
     (let own = filter (\<lambda>r. tr_arm r = ar_name a) rows; good = filter (\<lambda>r. \<not> tr_suspect r) own;
          outages = map tr_outage (filter tr_recovered good) in
      if own = [] then None
      else Some
        \<lparr>as_arm = ar_name a, as_total = length own, as_median = quantile_of outages (lit (1 / 2)), as_p95 = quantile_of outages (lit (95 / 100)),
         as_max = quantile_of outages (Fin 1), as_gap = quantile_of (map tr_max_gap good) (lit (1 / 2)),
         as_recovered = length (filter tr_recovered good), as_lost = sum_list (map (\<lambda>r. tr_tasks r - tr_completed r - tr_dead r) good),
         as_suspect = length (filter tr_suspect own),
         as_fenced = (if ar_resume a then Some (length (filter (\<lambda>r. fgt (tr_fenced r) (Fin 0)) own)) else None),
         as_inversions = sum_list (map tr_inversions own)\<rparr>)"

definition summarise_trials :: "trial list \<Rightarrow> arm_summary list" where
  "summarise_trials rows = List.map_filter (summarise_arm rows) arms"

end
