(* ===== verification/FaultProps.thy ===== *)
theory FaultProps
  imports FaultBench BenchProps ConsoleProps
begin

text \<open>
  The failover benchmark reads the truth: its record is the whole execution stream, which never shows an inversion; an outage is a gap
  of the record; the wait for the queue to drain ends.
\<close>

section \<open>The record is the stream\<close>

lemma map_filter_append: "List.map_filter f (xs @ ys) = List.map_filter f xs @ List.map_filter f ys"
  by (simp add: List.map_filter_def)

lemma text_int_sat_exact: "in_i64 n \<Longrightarrow> text_int_sat (TNum n) = n"
  by (simp add: text_int_sat_def in_i64_def)

context queue_store
begin

lemma range_answer:
  assumes "b_keys b = ks" "reach call view b w H" "range_query what call (k_name ks Exec) bd n w = (x, w')"
  defines "F \<equiv> filter (in_bound bd \<circ> se_id) (st_entries (q_exec (queue_at view b w)))"
  shows "quiet call view b H w w'" "x = Inr es \<Longrightarrow> es = take (nat n) F"
    "n_faults w = [] \<Longrightarrow> x = Inr (take (nat n) F) \<and> n_faults w' = []"
proof -
  let ?c = "XRANGE (k_name ks Exec) bd n"
  have R: "reads call view ks (rcall call ?c)"
    by (rule reads_range) simp
  have reply: "fst (rcall call ?c s) = Inr (REntries (take (nat n) F))" if "typed ks (view s)" "view s = view (n_db w)" for s
    using doc_after [of ?c s] typedD(14) [OF that(1)] that rcall_reply_fst [of call ?c s]
    by (simp add: F_def qabs_sel assms(1) comp_def)
  show "quiet call view b H w w'"
    using quiet_send [OF assms(1) R, of H w] assms(3) by (auto simp: range_query_def split: prod.splits sum.splits reply.splits)
  show "es = take (nat n) F" if "x = Inr es"
  proof -
    have a: "fst (send (rcall call ?c) w) = Inr (REntries es)"
      using assms(3) that by (auto simp: range_query_def split: prod.splits sum.splits reply.splits)
    from answer [OF assms(1,2) R a] obtain s where "typed ks (view s)" "view s = view (n_db w)" "fst (rcall call ?c s) = Inr (REntries es)" .
    with reply show ?thesis by simp
  qed
  show "x = Inr (take (nat n) F) \<and> n_faults w' = []" if "n_faults w = []"
  proof -
    have "fst (rcall call ?c (n_db w)) = Inr (REntries (take (nat n) F))"
      using reply [of "n_db w"] reach_inv [OF assms(2,1)] by blast
    then show ?thesis
      using assms(3) that by (auto simp: range_query_def calm_send)
  qed
qed

lemma record_ends:
  assumes "b_keys b = ks" "reach call view b w H"
    and "F = filter (in_bound from \<circ> se_id) (st_entries (q_exec (queue_at view b w)))"
  shows "\<exists>r w'. dispatch_record call (k_name ks Exec) from acc w = Some (r, w') \<and> quiet call view b H w w' \<and>
    (\<forall>es. r = Inr es \<longrightarrow> es = acc @ List.map_filter entry_of F) \<and> (n_faults w = [] \<longrightarrow> \<not> isl r)"
  using assms(2,3)
proof (induction "length F" arbitrary: F "from" acc w rule: less_induct)
  case less
  obtain x w1 where read: "range_query ''read'' call (k_name ks Exec) from 5000 w = (x, w1)"
    by (metis surj_pair)
  let ?E = "st_entries (q_exec (queue_at view b w))"
  note ans = range_answer [OF assms(1) less.prems(1) read, folded less.prems(2)]
  have quiet: "quiet call view b H w w1" by (rule ans(1))
  have calm: "x = Inr (take 5000 F) \<and> n_faults w1 = []" if "n_faults w = []" using ans(3) [OF that] by simp
  show ?case
  proof (cases x)
    case (Inl e)
    then show ?thesis
      using read quiet calm by (subst dispatch_record.simps) auto
  next
    case (Inr es)
    then have es: "es = take 5000 F" using ans(2) by simp
    show ?thesis
    proof (cases "length es < 5000")
      case True
      then have "es = F" using es by (simp add: min_def split: if_splits)
      then show ?thesis
        using read quiet Inr True by (subst dispatch_record.simps) (auto simp: Let_def map_filter_simps)
    next
      case False
      then have ne: "take 5000 F \<noteq> []" using es by auto
      let ?from = "BAfter (se_id (last es))"
      have view: "reach call view b w1 H" "queue_at view b w1 = queue_at view b w"
        using quiet less.prems(1) by (simp_all add: quiet_def)
      have "sorted_wrt (<) (map se_id ?E)"
        using reach_inv [OF less.prems(1) assms(1)] by (simp add: winv_def world_of_def inv_exec_def assms(1))
      then have rest: "drop 5000 F = filter (in_bound ?from \<circ> se_id) (st_entries (q_exec (queue_at view b w1)))"
        unfolding view(2) es using filter_after_last [OF _ less.prems(2) ne] by simp
      have shorter: "length (drop 5000 F) < length F" using ne by (cases F) auto
      obtain r w' where r: "dispatch_record call (k_name ks Exec) ?from (acc @ List.map_filter entry_of es) w1 = Some (r, w')"
        "quiet call view b H w1 w'" "\<forall>es'. r = Inr es' \<longrightarrow> es' = (acc @ List.map_filter entry_of es) @ List.map_filter entry_of (drop 5000 F)"
        "n_faults w1 = [] \<longrightarrow> \<not> isl r"
        using less.hyps [OF shorter view(1) rest] by metis
      have "List.map_filter entry_of F = List.map_filter entry_of es @ List.map_filter entry_of (drop 5000 F)"
        unfolding es by (metis append_take_drop_id map_filter_append)
      then show ?thesis
        using read Inr False r quiet_trans [OF quiet r(2)] calm by (subst dispatch_record.simps) (auto simp: Let_def)
    qed
  qed
qed

end

definition bench_epoch :: "stream_entry \<Rightarrow> int" where
  "bench_epoch e = (case field e ''epoch'' of Some t \<Rightarrow> text_int_sat t | None \<Rightarrow> 0)"

lemma entry_of_epoch: "entry_of e = Some d \<Longrightarrow> di_epoch d = bench_epoch e"
  by (auto simp: entry_of_def bench_epoch_def split: option.splits)

lemma bench_epoch_agrees:
  assumes "epoch_stamp e" "entry_epoch e < 2 ^ 53" "0 < bench_epoch e"
  shows "bench_epoch e = entry_epoch e"
proof -
  obtain n where n: "field e ''epoch'' = Some (TNum n)" "0 < n"
    using assms(1,3) by (auto simp: epoch_stamp_def bench_epoch_def text_int_sat_def split: option.splits rtext.splits if_splits)
  have "n < 2 ^ 53"
  proof (rule ccontr)
    assume "\<not> n < 2 ^ 53"
    then have "lua_number (2 ^ 53) \<le> lua_number n" by (intro lua_number_mono) simp
    then show False using assms(2) n(1) lua_number_exact [of "2 ^ 53"] by (simp add: entry_epoch_def)
  qed
  then show ?thesis using n lua_number_exact [of n] by (simp add: bench_epoch_def text_int_sat_def entry_epoch_def)
qed

lemma no_inversions:
  "sorted_wrt (stamp_order di_epoch) es \<Longrightarrow> \<forall>e \<in> set es. 0 < di_epoch e \<longrightarrow> h \<le> di_epoch e \<Longrightarrow> snd (foldl count_inversion (h, n) es) = n"
proof (induction es arbitrary: h)
  case (Cons e es)
  show ?case
  proof (cases "di_epoch e \<le> 0")
    case False
    then have "\<forall>e' \<in> set es. 0 < di_epoch e' \<longrightarrow> di_epoch e \<le> di_epoch e'"
      using Cons.prems(1) by (auto simp: stamp_order_def)
    then show ?thesis using Cons False by (auto simp: count_inversion_def)
  qed (use Cons in \<open>auto simp: count_inversion_def\<close>)
qed simp

lemma record_ordered:
  assumes "sorted_wrt (stamp_order bench_epoch) es"
  shows "sorted_wrt (stamp_order di_epoch) (List.map_filter entry_of es)"
  unfolding List.map_filter_def sorted_wrt_map comp_def
  by (rule sorted_wrt_mono_rel [OF _ sorted_wrt_filter [OF assms]]) (auto simp: stamp_order_def entry_of_epoch)

text \<open>The record is that of the whole stream, page after page, and shows no dispatch under a superseded epoch.\<close>

lemma record_honest:
  assumes "redis call view" "keys_ok (b_keys b)" "reach call view b w H" "q_fence (queue_at view b w) < 2 ^ 53"
  shows "\<exists>r w'. dispatch_record call (key b Exec) BMin [] w = Some (r, w') \<and> view (n_db w') = view (n_db w) \<and>
    (n_faults w = [] \<longrightarrow> \<not> isl r) \<and>
    (\<forall>es. r = Inr es \<longrightarrow> es = List.map_filter entry_of (st_entries (q_exec (queue_at view b w))) \<and> epoch_inversions es = 0)"
proof -
  let ?E = "st_entries (q_exec (queue_at view b w))"
  have all: "?E = filter (in_bound BMin \<circ> se_id) ?E"
    by (simp add: in_bound_def comp_def)
  from queue_store.record_ends [OF queue_storeI [OF assms(1,2)] refl assms(3) all, of "[]"] obtain r w' where
    r: "dispatch_record call (key b Exec) BMin [] w = Some (r, w')" "quiet call view b H w w'"
      "\<forall>es. r = Inr es \<longrightarrow> es = List.map_filter entry_of ?E" "n_faults w = [] \<longrightarrow> \<not> isl r"
    by (auto simp: key_def)
  have "sorted_wrt (stamp_order di_epoch) (List.map_filter entry_of ?E)"
    by (rule record_ordered [OF stream_epochs_ordered [OF assms bench_epoch_agrees]])
  then have "epoch_inversions (List.map_filter entry_of ?E) = 0"
    unfolding epoch_inversions_def by (rule no_inversions) auto
  then show ?thesis
    using r assms(3) by (auto simp: quiet_def)
qed

lemma demo2_fence: "q_fence (queue_at mem_view demo_broker demo2) < 2 ^ 53"
  unfolding demo2_val qabs_def qstate.select_convs by code_simp

lemma parse_counts_ok: "\<forall>(k, v) \<in> set xs. text_int v \<noteq> None \<Longrightarrow> \<not> isl (parse_counts what xs)"
  by (induction xs) (auto split: option.splits sum.splits)

lemma calm_epoch_counter: "n_faults w = [] \<Longrightarrow> epoch_counter call k w = (n, w') \<Longrightarrow> n_faults w' = []"
  by (auto simp: epoch_counter_def calm_send split: sum.splits reply.splits)

context queue_store
begin

lemma quiet_epoch_counter:
  assumes "b_keys b = ks" "epoch_counter call (k_name ks LeaderEpoch) w = (n, w')"
  shows "quiet call view b H w w'"
  using quiet_send [OF assms(1) reads_more(12), of H w] assms(2)
  by (auto simp: epoch_counter_def split: prod.splits sum.splits reply.splits)

lemma quiet_stats: "b_keys b = ks \<Longrightarrow> stats call b w = (r, w') \<Longrightarrow> quiet call view b H w w'"
  using quiet_queries(2) [of b H w] by simp

lemma calm_stats:
  assumes "b_keys b = ks" "reach call view b w H" "n_faults w = []" "\<forall>f. in_i64 (q_stats (queue_at view b w) f)" "stats call b w = (r, w')"
  shows "\<not> isl r \<and> n_faults w' = []"
proof -
  have T: "typed ks (view (n_db w))"
    using reach_inv [OF assms(2,1)] by blast
  obtain xs where xs: "fst (call (HGETALL (k_name ks Stats)) (n_db w)) = RFields xs" "distinct (map fst xs)"
    "map_of xs = hash_at (view (n_db w)) (k_name ks Stats)"
    using doc_after [of "HGETALL (k_name ks Stats)" "n_db w"] typedD(6) [OF T] by auto
  then have r: "stats call b w = (parse_counts ''stats field'' xs, \<lparr>n_faults = [], n_db = snd (rcall call (HGETALL (k_name ks Stats)) (n_db w))\<rparr>)"
    using assms(1,3) rcall_reply_fst [of call "HGETALL (k_name ks Stats)" "n_db w"]
    by (simp add: stats_def get_all_def key_def calm_send)
  have "text_int v \<noteq> None" if "(k, v) \<in> set xs" for k v
  proof -
    have "hash_at (view (n_db w)) (k_name ks Stats) k = Some v"
      using xs(2,3) that by (metis map_of_is_SomeI)
    moreover have "int_text (hash_at (view (n_db w)) (k_name ks Stats) k) \<noteq> None"
      using typedD(17) [OF T] by (simp add: nums_def)
    moreover have "in_i64 (num_text (hash_at (view (n_db w)) (k_name ks Stats) k))"
      using assms(4) by (simp add: qabs_def assms(1))
    ultimately show ?thesis
      by (auto simp: int_text_def num_text_def text_int_def split: rtext.splits if_splits)
  qed
  then have "\<not> isl (parse_counts ''stats field'' xs)"
    by (intro parse_counts_ok) blast
  then show ?thesis
    using r assms(5) by simp
qed

end

text \<open>What is read of a reachable queue at the end of a trial.\<close>

lemma read_trial_true:
  assumes "redis call view" "keys_ok (b_keys b)" "reach call view b w H" "q_fence (queue_at view b w) < 2 ^ 53"
  shows "\<exists>r w'. read_trial call b w = Some (r, w') \<and> view (n_db w') = view (n_db w) \<and>
    (n_faults w = [] \<and> (\<forall>f. in_i64 (q_stats (queue_at view b w) f)) \<longrightarrow> \<not> isl r) \<and>
    (\<forall>m n es. r = Inr (m, n, es) \<longrightarrow> (\<forall>f. map_get 0 m f = q_stats (queue_at view b w) f) \<and>
      es = List.map_filter entry_of (st_entries (q_exec (queue_at view b w))) \<and> epoch_inversions es = 0)"
proof -
  note Q = queue_storeI [OF assms(1,2)]
  let ?q = "queue_at view b w"
  obtain st w1 where st: "stats call b w = (st, w1)" by (metis surj_pair)
  note q1 = queue_store.quiet_stats [OF Q refl st] and calm1 = queue_store.calm_stats [OF Q refl assms(3) _ _ st]
  show ?thesis
  proof (cases st)
    case (Inl e)
    then show ?thesis
      using st q1 calm1 assms(3) by (auto simp: read_trial_def quiet_def)
  next
    case (Inr m)
    have counters: "map_get 0 m f = q_stats ?q f" for f
      using queue_store.stats_answer [OF Q refl assms(3)] st Inr by simp
    obtain n w2 where n: "epoch_counter call (key b LeaderEpoch) w1 = (n, w2)" by (metis surj_pair)
    have q2: "quiet call view b H w w2"
      using quiet_trans [OF q1 queue_store.quiet_epoch_counter [OF Q refl n [unfolded key_def]]] .
    then have r2: "reach call view b w2 H" "queue_at view b w2 = ?q" "view (n_db w2) = view (n_db w)"
      using assms(3) by (simp_all add: quiet_def)
    obtain r w3 where r: "dispatch_record call (key b Exec) BMin [] w2 = Some (r, w3)" "view (n_db w3) = view (n_db w)"
      "n_faults w2 = [] \<longrightarrow> \<not> isl r" "\<forall>es. r = Inr es \<longrightarrow> es = List.map_filter entry_of (st_entries (q_exec ?q)) \<and> epoch_inversions es = 0"
      using record_honest [OF assms(1,2) r2(1)] assms(4) unfolding r2(2,3) by blast
    show ?thesis
    proof (cases r)
      case (Inl e)
      then show ?thesis
        using st \<open>st = Inr m\<close> n r(1-3) calm1 calm_epoch_counter [OF _ n] by (auto simp: read_trial_def)
    next
      case (Inr es)
      then have es: "es = List.map_filter entry_of (st_entries (q_exec ?q))" "epoch_inversions es = 0" using r(4) by blast+
      have "read_trial call b w = Some (Inr (m, n, es), w3)"
        using st \<open>st = Inr m\<close> n r(1) Inr by (simp add: read_trial_def)
      then show ?thesis
        using r(2) counters es by (intro exI [of _ "Inr (m, n, es)"] exI [of _ w3]) simp
    qed
  qed
qed

section \<open>Gaps and the outage\<close>

lemma go_div_abs: "0 < k \<Longrightarrow> \<bar>go_div d k\<bar> = \<bar>d\<bar> div k"
  by (cases "d = 0") (simp_all add: go_div_def abs_mult pos_imp_zdiv_nonneg_iff)

lemma small_in_i64: "\<bar>x\<bar> \<le> 1000000000000 \<Longrightarrow> in_i64 x"
  by (simp add: in_i64_def abs_le_iff)

lemma go_mod_sgn: "0 < k \<Longrightarrow> go_mod d k = sgn d * (\<bar>d\<bar> mod k)"
  by (cases d "0 :: int" rule: linorder_cases) (simp_all add: go_mod_def go_div_def minus_mult_div_eq_mod [symmetric])

lemma go_div_in_i64: "in_i64 d \<Longrightarrow> in_i64 (go_div d (10 ^ 9))"
proof -
  assume d: "in_i64 d"
  have "\<bar>d\<bar> div 1000000000 \<le> 2 ^ 63 div 1000000000"
    using d by (intro zdiv_mono1) (auto simp: in_i64_def)
  then have "\<bar>go_div d (10 ^ 9)\<bar> \<le> 2 ^ 63 div 1000000000"
    by (simp add: go_div_abs)
  then show ?thesis
    by (intro small_in_i64) simp
qed

lemma go_mod_in_i64: "in_i64 (go_mod d (10 ^ 9))"
proof -
  have "\<bar>go_mod d (10 ^ 9)\<bar> \<le> \<bar>d\<bar> mod 1000000000"
    by (simp add: go_mod_sgn abs_mult sgn_if)
  also have "\<dots> < 1000000000" by simp
  finally show ?thesis
    by (intro small_in_i64) simp
qed

lemma gap_not_NaN: "gap_ms a b \<noteq> NaN"
proof -
  have s: "dur_seconds d \<noteq> NaN" if d: "in_i64 d" for d
  proof -
    obtain x y where "f64_of_int (go_div d (10 ^ 9)) = Fin x" "f64_of_int (go_mod d (10 ^ 9)) = Fin y"
      using f64_of_int_finite [OF go_div_in_i64 [OF d]] f64_of_int_finite [OF go_mod_in_i64] by metis
  moreover have "f64_of_int (10 ^ 9) = Fin (10 ^ 9)" by (simp add: f64_of_int_exact)
    ultimately show ?thesis
      by (simp add: dur_seconds_def) (cases "f64_round (y / 1000000000)"; simp)
  qed
  have "in_i64 (time_sub b a)" by (simp add: time_sub_def in_i64_def)
  from s [OF this] show ?thesis
    by (cases "dur_seconds (time_sub b a)") (auto simp: gap_ms_def f64_of_int_exact)
qed

lemma max_gap_grows: "w \<noteq> NaN \<Longrightarrow> fle w (max_gap_from w xs) \<and> max_gap_from w xs \<noteq> NaN"
proof (induction w xs rule: max_gap_from.induct)
  case (1 w a b xs)
  let ?w = "if fgt (gap_ms a b) w then gap_ms a b else w"
  have "fle w ?w" "?w \<noteq> NaN"
    using 1(2) gap_not_NaN [of a b] by (auto simp: fle_def)
  then show ?case
    using 1(1) fle_trans unfolding max_gap_from.simps by blast
qed auto

lemma max_gap_bounds: "w \<noteq> NaN \<Longrightarrow> fle (gap_ms a b) (max_gap_from w (xs @ a # b # ys))"
proof (induction xs arbitrary: w)
  case Nil
  have "fle (gap_ms a b) (if fgt (gap_ms a b) w then gap_ms a b else w)"
    using Nil gap_not_NaN [of a b] flt_total [of w "gap_ms a b"] by (auto simp: fle_def feq_def)
  moreover have "fle (if fgt (gap_ms a b) w then gap_ms a b else w) (max_gap_from (if fgt (gap_ms a b) w then gap_ms a b else w) (b # ys))"
    using Nil gap_not_NaN by (intro conjunct1 [OF max_gap_grows]) simp
  ultimately show ?case
    unfolding append_Nil max_gap_from.simps by (rule fle_trans)
next
  case (Cons x xs)
  obtain y zs where y: "xs @ a # b # ys = y # zs" by (cases xs) auto
  have "(if fgt (gap_ms x y) w then gap_ms x y else w) \<noteq> NaN"
    using Cons.prems gap_not_NaN by simp
  from Cons.IH [OF this] show ?case
    unfolding append_Cons y max_gap_from.simps .
qed

lemma outage_scan_split:
  "outage_scan kill b (s # xs) = (p, q) \<Longrightarrow> s \<le> kill \<Longrightarrow> \<not> is_zero_time q \<Longrightarrow> \<exists>ys zs. s # xs = ys @ p # q # zs \<and> p \<le> kill \<and> kill < q"
proof (induction xs arbitrary: b s)
  case Nil
  then show ?case by (simp add: is_zero_time_def)
next
  case (Cons x xs)
  show ?case
  proof (cases "x \<le> kill")
    case True
    then have "outage_scan kill s (x # xs) = (p, q)" using Cons.prems by simp
    from Cons.IH [OF this True Cons.prems(3)] show ?thesis by (metis append_Cons)
  next
    case False
    then show ?thesis
      using Cons.prems by (intro exI [of _ "[]"] exI [of _ xs]) auto
  qed
qed

text \<open>
  An outage is a gap of the record. When something was dispatched by the time of the kill, the outage reported for it is the gap between
  two consecutive dispatches, one not after the kill and one after it, and never more than the largest gap of the trial.
\<close>

theorem outage_is_gap:
  assumes "outage_around tms kill = Some g" "tms \<noteq> []" "hd tms \<le> kill" "\<forall>s \<in> set tms. \<not> is_zero_time s"
  shows "\<exists>xs p q ys. tms = xs @ p # q # ys \<and> p \<le> kill \<and> kill < q \<and> g = gap_ms p q \<and> fle g (max_gap_ms tms)"
proof -
  obtain p q where s: "outage_scan kill zero_time tms = (p, q)" by (metis surj_pair)
  then have q: "\<not> is_zero_time q" "g = gap_ms (if is_zero_time p then kill else p) q"
    using assms(1) by (auto simp: outage_around_def split: if_splits)
  obtain xs ys where split: "tms = xs @ p # q # ys" "p \<le> kill" "kill < q"
    using outage_scan_split [of kill zero_time "hd tms" "tl tms" p q] s assms(2,3) q(1) by auto
  have "g = gap_ms p q"
    using q(2) assms(4) split(1) by simp
  then show ?thesis
    using split max_gap_bounds [of "Fin 0" p q xs ys] by (auto simp: max_gap_ms_def)
qed

theorem outage_is_gap_witness:
  "\<exists>g. outage_around [1000000, 2000000, 5000000] 3000000 = Some g \<and> fle g (max_gap_ms [1000000, 2000000, 5000000])"
proof -
  obtain g where g: "outage_around [1000000, 2000000, 5000000] 3000000 = Some g"
    by (simp add: outage_around_def is_zero_time_def zero_time_def)
  have "\<exists>xs p q ys. [1000000, 2000000, 5000000] = xs @ p # q # ys \<and> p \<le> 3000000 \<and> 3000000 < q \<and> g = gap_ms p q \<and>
      fle g (max_gap_ms [1000000, 2000000, 5000000])"
    by (rule outage_is_gap [OF g]) (simp_all add: is_zero_time_def zero_time_def)
  then show ?thesis
    using g by blast
qed

section \<open>Draining\<close>

definition finished_of :: "(berr + int go_map) option \<Rightarrow> int" where
  "finished_of x = (case x of Some (Inr st) \<Rightarrow> i64 (map_get 0 st ''completed'' + map_get 0 st ''dead_lettered'') | _ \<Rightarrow> 0)"

lemma drain_bound:
  "drain_loop limit want idle prev turns = None \<Longrightarrow> sorted (prev # map finished_of turns) \<Longrightarrow> prev < want \<Longrightarrow> idle \<le> limit \<Longrightarrow>
   int (length turns) \<le> (int limit + 1) * (want - prev - 1) + (int limit - int idle)"
proof (induction limit want idle prev turns rule: drain_loop.induct)
  case (4 limit want idle prev st turns)
  let ?f = "i64 (map_get 0 st ''completed'' + map_get 0 st ''dead_lettered'')"
  have f: "finished_of (Some (Inr st)) = ?f" by (simp add: finished_of_def)
  have lt: "?f < want" using 4(3) by (auto simp: Let_def split: if_splits)
  have ge: "prev \<le> ?f" "sorted (?f # map finished_of turns)" using 4(4) f by simp_all
  show ?case
  proof (cases "?f = prev")
    case True
    have "Suc idle \<le> limit" "drain_loop limit want (Suc idle) prev turns = None"
      using 4(3) True lt by (auto simp: Let_def split: if_splits)
    then show ?thesis
      using 4(1) [OF refl] True lt ge 4(5) by (auto simp: Let_def not_le)
  next
    case False
    have "drain_loop limit want 0 ?f turns = None"
      using 4(3) False lt by (auto simp: Let_def split: if_splits)
    then have "int (length turns) \<le> (int limit + 1) * (want - ?f - 1) + int limit"
      using 4(2) [OF refl] False lt ge by (auto simp: Let_def not_le)
    moreover have "(int limit + 1) * (want - ?f - 1) \<le> (int limit + 1) * (want - prev - 2)"
      using ge(1) False by (intro mult_left_mono) simp_all
    ultimately show ?thesis using 4(6) by (simp add: algebra_simps)
  qed
qed auto

text \<open>
  The wait for the queue to drain ends. Whatever it reads, while the counters do not go back, it returns within one turn more than its limit
  (150 idle turns in the failover benchmark) for each task it waits for, and once more.
\<close>

theorem drain_wait_ends:
  assumes "0 \<le> want" "sorted (map finished_of turns)" "\<forall>x \<in> set turns. 0 \<le> finished_of x" "(int limit + 1) * (want + 1) < int (length turns)"
  shows "drain_loop limit want 0 (- 1) turns \<noteq> None \<and> (limit = 150 \<longrightarrow> wait_for_drain want turns \<noteq> None)"
proof -
  have "\<forall>x \<in> set turns. - 1 \<le> finished_of x"
    using assms(3) by force
  then have "drain_loop limit want 0 (- 1) turns \<noteq> None"
    using drain_bound [of limit want 0 "- 1" turns] assms(1,2,4) by (auto simp: algebra_simps)
  then show ?thesis
    by (auto simp: wait_for_drain_def)
qed

theorem drain_wait_ends_witness:
  "wait_for_drain 0 (replicate 152 (Some (Inr [(''completed'', 0)]))) \<noteq> None"
proof -
  let ?turns = "replicate 152 (Some (Inr [(''completed'', 0 :: int)])) :: (berr + int go_map) option list"
  have "drain_loop 150 0 0 (- 1) ?turns \<noteq> None \<and> ((150 :: nat) = 150 \<longrightarrow> wait_for_drain 0 ?turns \<noteq> None)"
    by (rule drain_wait_ends) (simp_all add: finished_of_def map_get_def i64_id in_i64_def)
  then show ?thesis by simp
qed

end
