(* ===== verification/PartitionBench.thy ===== *)
theory PartitionBench
  imports FaultBench Netfault
begin

text \<open>
  The partition benchmark (\<open>cmd/partitionbench/main.go\<close>): its arms and the sweep, the repeated cuts, what it reads once the path is repaired, the
  end of a trial and the summary. Its copies of the waiting loops and of the reading of the stream are those of \<open>FaultBench\<close>.
\<close>

section \<open>Arms\<close>

record part_arm =
  pm_name :: string
  pm_cut :: "duration \<Rightarrow> duration"
  pm_flap :: bool
  pm_expect :: bool

definition part_arms :: "part_arm list" where
  "part_arms =
     [\<lparr>pm_name = ''none'', pm_cut = (\<lambda>ttl. 0), pm_flap = False, pm_expect = False\<rparr>,
      \<lparr>pm_name = ''brief'', pm_cut = (\<lambda>ttl. go_div ttl 2), pm_flap = False, pm_expect = False\<rparr>,
      \<lparr>pm_name = ''long'', pm_cut = (\<lambda>ttl. i64 (2 * ttl)), pm_flap = False, pm_expect = True\<rparr>,
      \<lparr>pm_name = ''flapping'', pm_cut = (\<lambda>ttl. i64 (3 * ttl)), pm_flap = True, pm_expect = False\<rparr>]"

definition select_part_arms :: "string \<Rightarrow> arms_error + part_arm list" where
  "select_part_arms names = select_named pm_name part_arms names"

text \<open>\<open>sweepArms\<close>: one arm for each multiple of the lease. The name drops one trailing zero, then one trailing dot.\<close>

datatype sweep_error = NotANumber string | NotPositive f64 | NoLengths

definition sweep_name :: "string \<Rightarrow> string" where
  "sweep_name part = trim_suffix (trim_suffix part ''0'') ''.'' @ ''x''"

definition sweep_arm :: "string \<Rightarrow> f64 \<Rightarrow> part_arm" where
  "sweep_arm part m =
     \<lparr>pm_name = sweep_name part, pm_cut = (\<lambda>ttl. f64_to_i64 (fmul m (f64_of_int ttl))), pm_flap = False, pm_expect = fgt m (Fin 1)\<rparr>"

fun sweep_parts :: "string list \<Rightarrow> sweep_error + part_arm list" where
  "sweep_parts [] = Inr []"
| "sweep_parts (raw # rest) =
     (let part = trim_space raw in
      if part = [] then sweep_parts rest
      else case parse_float_text part of
        None \<Rightarrow> Inl (NotANumber part)
      | Some m \<Rightarrow>
          if fle m (Fin 0) then Inl (NotPositive m)
          else case sweep_parts rest of Inl e \<Rightarrow> Inl e | Inr tail \<Rightarrow> Inr (sweep_arm part m # tail))"

definition sweep_arms :: "string \<Rightarrow> sweep_error + part_arm list" where
  "sweep_arms names =
     (case sweep_parts (split_on (CHR '','') names) of Inl e \<Rightarrow> Inl e | Inr as \<Rightarrow> if as = [] then Inl NoLengths else Inr as)"

section \<open>The partition\<close>

text \<open>
  \<open>flap\<close>: a turn is whether the deadline is still ahead, and whether the context ends during the first and the second pause. It gives the
  number of cuts and what it did to the link; the caller heals the link after it.
\<close>

datatype link_op = DoCut | DoHeal

text \<open>The calls on the proxy; each \<open>Cut\<close> has returned before the next, and does nothing when the path is already cut.\<close>

definition run_link_op :: "link_op \<Rightarrow> proxy \<Rightarrow> proxy" where
  "run_link_op x p = (case x of DoCut \<Rightarrow> if px_cut p then p else cut_close (cut_begin p) | DoHeal \<Rightarrow> heal p)"

fun flap :: "(bool \<times> bool \<times> bool) list \<Rightarrow> int \<times> link_op list" where
  "flap [] = (0, [])"
| "flap ((ahead, ended1, ended2) # turns) =
     (if \<not> ahead then (0, [])
      else if ended1 then (1, [DoCut])
      else if ended2 then (1, [DoCut, DoHeal])
      else case flap turns of (n, ops) \<Rightarrow> (n + 1, DoCut # DoHeal # ops))"

text \<open>
  \<open>leaderProcess\<close> waits for a holder: a turn is what the holder key says, whether the deadline has passed and whether the context has ended.
\<close>

datatype part_leader_error = PartHolderUnread berr | PartCancelled | NeverHeld | PartNotOurs string

fun part_leader_process ::
  "string list \<Rightarrow> ((berr + string) \<times> bool \<times> bool) list \<Rightarrow> (part_leader_error + string) option" where
  "part_leader_process owners [] = None"
| "part_leader_process owners ((Inl e, late, ended) # turns) = Some (Inl (PartHolderUnread e))"
| "part_leader_process owners ((Inr owner, late, ended) # turns) =
     (if owner \<in> set owners then Some (Inr owner)
      else if late then Some (Inl (if owner = [] then NeverHeld else PartNotOurs owner))
      else if ended then Some (Inl PartCancelled)
      else part_leader_process owners turns)"

definition part_wait_for_drain :: "int \<Rightarrow> (berr + int go_map) option list \<Rightarrow> bool option" where
  "part_wait_for_drain want turns = drain_loop 200 want 0 (- 1) turns"

section \<open>A trial\<close>

record part_trial =
  pt_arm :: string
  pt_rep :: int
  pt_policy :: string
  pt_replicas :: int
  pt_ttl :: duration
  pt_renew :: duration
  pt_tasks :: int
  pt_submitted :: int
  pt_completed :: int
  pt_dispatched :: int
  pt_duplicates :: int
  pt_dead :: int
  pt_partition :: f64
  pt_cuts :: int
  pt_before :: string
  pt_after :: string
  pt_failover :: bool
  pt_unexpected :: bool
  pt_transitions :: int
  pt_fenced :: f64
  pt_leaders :: f64
  pt_inversions :: int
  pt_outage :: f64
  pt_max_gap :: f64
  pt_recovered :: bool
  pt_wall :: f64
  pt_suspect :: bool
  pt_suspended :: f64

definition ms_of :: "duration \<Rightarrow> f64" where
  "ms_of d = fmul (dur_seconds d) (f64_of_int 1000)"

text \<open>
  After the path is repaired and the pause: who holds the lease, what the victim's counter and the leader gauges say. The trial goes on, ends
  without an error because the host slept, or fails with the number of leaders.
\<close>

datatype heal_end = GoesOn | Discarded | TooManyLeaders f64 | HealUnread berr

definition after_heal ::
  "(cmd \<Rightarrow> 's \<Rightarrow> reply \<times> 's) \<Rightarrow> rkey \<Rightarrow> part_arm \<Rightarrow> string option \<Rightarrow> string option list \<Rightarrow> duration \<Rightarrow> part_trial \<Rightarrow> 's net \<Rightarrow>
   (part_trial \<times> heal_end) \<times> 's net" where
  "after_heal call k a victim_body bodies slept row w =
     (case read_lease_owner call k w of
        (Inl e, w') \<Rightarrow> ((row, HealUnread e), w')
      | (Inr owner, w') \<Rightarrow>
          (let failover = (owner \<noteq> [] \<and> owner \<noteq> pt_before row);
               row1 = row\<lparr>pt_after := owner, pt_failover := failover,
                 pt_unexpected := (if \<not> pm_flap a \<and> failover \<noteq> pm_expect a then True else pt_unexpected row)\<rparr>;
               row2 = (case gauge_of ''tq_scheduler_fenced_operations_total'' victim_body of Some v \<Rightarrow> row1\<lparr>pt_fenced := v\<rparr> | None \<Rightarrow> row1);
               s = leader_gauges bodies;
               row3 = row2\<lparr>pt_leaders := s\<rparr> in
           if feq s (Fin 1) then ((row3, GoesOn), w')
           else if sleep_threshold < slept then ((row3\<lparr>pt_suspect := True, pt_suspended := ms_of slept\<rparr>, Discarded), w')
           else ((row3, TooManyLeaders s), w')))"

definition analyse_partition ::
  "part_arm \<Rightarrow> part_trial \<Rightarrow> int go_map \<Rightarrow> int \<Rightarrow> dispatch_entry list \<Rightarrow> time \<Rightarrow> duration \<Rightarrow> part_trial \<times> int option" where
  "analyse_partition a row st epoch entries cut_at slept =
     (let stamps = dispatch_stamps entries;
          row1 = row\<lparr>pt_completed := map_get 0 st ''completed'', pt_dispatched := map_get 0 st ''dispatched'',
            pt_duplicates := map_get 0 st ''duplicate_completions'', pt_dead := map_get 0 st ''dead_lettered'', pt_transitions := epoch,
            pt_max_gap := max_gap_ms stamps, pt_inversions := epoch_inversions entries\<rparr> in
      if epoch_inversions entries \<noteq> 0 then (row1, Some (epoch_inversions entries))
      else
        let (outage, recovered) = outage_of (pm_cut a (pt_ttl row) = 0) stamps cut_at;
            limit = fadd (pt_partition row1) (fmul (Fin 5) (f64_of_int (dur_millis (pt_ttl row1))));
            asleep = (sleep_threshold < slept) in
        (row1\<lparr>pt_outage := outage, pt_recovered := recovered, pt_suspect := pt_suspect row1 \<or> recovered \<and> fgt outage limit \<or> asleep,
          pt_suspended := (if asleep then ms_of slept else pt_suspended row1)\<rparr>, None))"

definition finish_partition ::
  "(cmd \<Rightarrow> 's \<Rightarrow> reply \<times> 's) \<Rightarrow> broker \<Rightarrow> part_arm \<Rightarrow> part_trial \<Rightarrow> time \<Rightarrow> duration \<Rightarrow> 's net \<Rightarrow>
   ((berr + part_trial \<times> int option) \<times> 's net) option" where
  "finish_partition call b a row cut_at slept w =
     map_option (apfst (map_sum id (\<lambda>(st, epoch, es). analyse_partition a row st epoch es cut_at slept))) (read_trial call b w)"

definition partition_header :: "string list" where
  "partition_header =
     [''arm'', ''rep'', ''policy'', ''replicas'', ''lease_ttl_ms'', ''lease_renew_ms'', ''tasks'',
      ''submitted'', ''dispatched'', ''completed'', ''duplicate_completions'', ''dead_lettered'',
      ''partition_ms'', ''cut_count'', ''leader_before'', ''leader_after'', ''failover'',
      ''unexpected_failover'', ''leader_epochs'', ''fenced_on_heal'', ''leaders_after_heal'',
      ''epoch_inversions'', ''outage_ms'', ''max_gap_ms'', ''recovered'', ''wall_seconds'',
      ''suspect'', ''host_suspended_ms'']"

definition partition_row :: "part_trial \<Rightarrow> out_cell list" where
  "partition_row r =
     [Cell (CText (pt_arm r)), Cell (CInt (pt_rep r)), Cell (CText (pt_policy r)), Cell (CInt (pt_replicas r)),
      Cell (CInt (dur_millis (pt_ttl r))), Cell (CInt (dur_millis (pt_renew r))), Cell (CInt (pt_tasks r)), Cell (CInt (pt_submitted r)),
      Cell (CInt (pt_dispatched r)), Cell (CInt (pt_completed r)), Cell (CInt (pt_duplicates r)), Cell (CInt (pt_dead r)),
      Fixed 1 (pt_partition r), Cell (CInt (pt_cuts r)), Cell (CText (pt_before r)), Cell (CText (pt_after r)), Cell (CBool (pt_failover r)),
      Cell (CBool (pt_unexpected r)), Cell (CInt (pt_transitions r)), Fixed 0 (pt_fenced r), Fixed 0 (pt_leaders r),
      Cell (CInt (pt_inversions r)), Fixed 1 (pt_outage r), Fixed 1 (pt_max_gap r), Cell (CBool (pt_recovered r)), Fixed 1 (pt_wall r),
      Cell (CBool (pt_suspect r)), Fixed 0 (pt_suspended r)]"

section \<open>The summary\<close>

record part_summary =
  ps_arm :: string
  ps_count :: nat
  ps_partition :: "f64 option"
  ps_gap :: f64
  ps_failovers :: nat
  ps_fenced :: nat
  ps_inversions :: int
  ps_unfinished :: int
  ps_suspect :: nat

definition summarise_part_arm :: "part_trial list \<Rightarrow> string \<Rightarrow> part_summary" where
  "summarise_part_arm rows name =
     (let own = filter (\<lambda>r. pt_arm r = name) rows; good = filter (\<lambda>r. \<not> pt_suspect r) own;
          parts = filter (\<lambda>x. fgt x (Fin 0)) (map pt_partition good);
          gaps = (if name = ''none'' then map pt_max_gap good else map pt_outage (filter pt_recovered good)) in
      \<lparr>ps_arm = name, ps_count = length own, ps_partition = (if parts = [] then None else Some (quantile_of parts (lit (1 / 2)))),
       ps_gap = quantile_of gaps (lit (1 / 2)), ps_failovers = length (filter pt_failover good),
       ps_fenced = length (filter (\<lambda>r. fgt (pt_fenced r) (Fin 0)) good), ps_inversions = sum_list (map pt_inversions good),
       ps_unfinished = sum_list (map (\<lambda>r. pt_tasks r - pt_completed r - pt_dead r) good), ps_suspect = length (filter pt_suspect own)\<rparr>)"

text \<open>Arms in the order they first appear among the rows.\<close>

definition summarise_partitions :: "part_trial list \<Rightarrow> part_summary list" where
  "summarise_partitions rows = map (summarise_part_arm rows) (rev (remdups (rev (map pt_arm rows))))"

end
