(* ===== verification/PartitionProps.thy ===== *)
theory PartitionProps
  imports FaultProps PartitionBench
begin

text \<open>
  The two benchmarks report the truth about the queue; repeated cuts are counted and end with the path restored; what a sweep can confuse.
\<close>

section \<open>The end of a trial\<close>

definition true_report :: "qstate \<Rightarrow> int \<times> int \<times> int \<times> int \<Rightarrow> int \<Rightarrow> f64 \<Rightarrow> bool" where
  "true_report q counters inversions gap \<longleftrightarrow>
     counters = (q_stats q ''completed'', q_stats q ''dispatched'', q_stats q ''duplicate_completions'', q_stats q ''dead_lettered'') \<and>
     inversions = 0 \<and> gap = max_gap_ms (dispatch_stamps (List.map_filter entry_of (st_entries (q_exec q))))"

lemma analyse_true:
  assumes "\<And>f. map_get 0 st f = q_stats q f" "es = List.map_filter entry_of (st_entries (q_exec q))" "epoch_inversions es = 0"
  shows "analyse_trial a row st n es kill slept = (row', bad) \<Longrightarrow>
      bad = None \<and> true_report q (tr_completed row', tr_dispatched row', tr_duplicates row', tr_dead row') (tr_inversions row') (tr_max_gap row')"
    "analyse_partition pa prow st n es kill slept = (prow', bad) \<Longrightarrow>
      bad = None \<and> true_report q (pt_completed prow', pt_dispatched prow', pt_duplicates prow', pt_dead prow') (pt_inversions prow') (pt_max_gap prow')"
  using assms(3) unfolding analyse_trial_def analyse_partition_def Let_def
  by (auto simp: true_report_def assms(1) assms(2) [symmetric] split: prod.splits)

text \<open>
  C21: the benchmarks report the truth. On every reachable queue the end of a failover trial and that of a partition trial end and change no key.
  When they end without an error, which they do when every request is answered, the counters of the row are those of the queue, its largest gap
  is that of the whole execution stream, page after page, and while epochs are below \<open>2 ^ 53\<close> they find no dispatch under a superseded
  epoch.
\<close>

theorem trial_report_true:
  assumes "redis call view" "keys_ok (b_keys b)" "reach call view b w H" "q_fence (queue_at view b w) < 2 ^ 53"
  shows "\<exists>r pr w'. finish_trial call b a row kill slept w = Some (r, w') \<and> finish_partition call b pa prow kill slept w = Some (pr, w') \<and>
    view (n_db w') = view (n_db w) \<and> (n_faults w = [] \<and> (\<forall>f. in_i64 (q_stats (queue_at view b w) f)) \<longrightarrow> \<not> isl r \<and> \<not> isl pr) \<and>
    (\<forall>t bad. r = Inr (t, bad) \<longrightarrow> bad = None \<and>
      true_report (queue_at view b w) (tr_completed t, tr_dispatched t, tr_duplicates t, tr_dead t) (tr_inversions t) (tr_max_gap t)) \<and>
    (\<forall>t bad. pr = Inr (t, bad) \<longrightarrow> bad = None \<and>
      true_report (queue_at view b w) (pt_completed t, pt_dispatched t, pt_duplicates t, pt_dead t) (pt_inversions t) (pt_max_gap t))"
proof -
  obtain r w' where r: "read_trial call b w = Some (r, w')" "view (n_db w') = view (n_db w)"
    "n_faults w = [] \<and> (\<forall>f. in_i64 (q_stats (queue_at view b w) f)) \<longrightarrow> \<not> isl r"
    "\<forall>m n es. r = Inr (m, n, es) \<longrightarrow> (\<forall>f. map_get 0 m f = q_stats (queue_at view b w) f) \<and>
      es = List.map_filter entry_of (st_entries (q_exec (queue_at view b w))) \<and> epoch_inversions es = 0"
    using read_trial_true [OF assms] by blast
  show ?thesis
  proof (cases r)
    case (Inl e)
    then show ?thesis using r by (simp add: finish_trial_def finish_partition_def)
  next
    case (Inr x)
    obtain m n es where x: "x = (m, n, es)" by (cases x)
    note truth = r(4) [rule_format, OF Inr [unfolded x]]
    note t = analyse_true [of m, OF conjunct1 [OF truth, rule_format] conjunct1 [OF conjunct2 [OF truth]] conjunct2 [OF conjunct2 [OF truth]]]
    show ?thesis
      using r(1-3) t(1) [of a row n kill slept] t(2) [of pa prow n kill slept] unfolding Inr x
      by (simp add: finish_trial_def finish_partition_def)
  qed
qed

theorem trial_report_true_witness:
  "\<exists>a row kill slept r w'. finish_trial mem_call demo_broker a row kill slept demo2 = Some (r, w') \<and> (\<forall>t bad. r = Inr (t, bad) \<longrightarrow> bad = None \<and> tr_inversions t = 0)"
  using trial_report_true [OF demo_redis demo_keys demo2_reach demo2_fence, of undefined undefined undefined undefined undefined undefined] unfolding true_report_def by blast

section \<open>Repeated cuts\<close>

text \<open>
  Flapping is counted and undone. However the pauses end, the number \<open>flap\<close> reports is the number of times the proxy was cut, and after the
  heal that follows it the path is whole.
\<close>

theorem flap_restores_path:
  assumes "flap turns = (n, ops)" "\<not> px_cut p" "p' = heal (fold run_link_op ops p)"
  shows "px_cuts p' = px_cuts p + n \<and> \<not> px_cut p' \<and> n = int (count_list ops DoCut) \<and> px_accepts p' = px_accepts p"
  using assms
proof (induction turns arbitrary: n ops p rule: flap.induct)
  case (2 ahead ended1 ended2 turns)
  obtain m rest where m: "flap turns = (m, rest)" by (cases "flap turns")
  let ?q = "heal (cut_close (cut_begin p))"
  have q: "px_cuts ?q = px_cuts p + 1" "\<not> px_cut ?q" "px_accepts ?q = px_accepts p"
    using 2(3) by (simp_all add: heal_def cut_close_def cut_begin_def drop_conns_def)
  show ?case
  proof (cases "ahead \<and> \<not> ended1 \<and> \<not> ended2")
    case True
    then have ops: "n = m + 1" "ops = DoCut # DoHeal # rest"
      using 2(2) m by simp_all
    then have "p' = heal (fold run_link_op rest ?q)"
      using 2(3,4) by (simp add: run_link_op_def [of DoCut] run_link_op_def [of DoHeal])
    from 2(1) [OF _ _ _ m q(2) this] show ?thesis
      using True q ops by simp
  next
    case False
    then show ?thesis
      using 2(2-4) q by (auto simp: run_link_op_def heal_def split: if_splits)
  qed
qed (simp add: heal_def)

theorem flap_restores_path_witness:
  "\<exists>p p'. proxy_reach p \<and> p' = heal (fold run_link_op (snd (flap [(True, False, False), (True, True, False)])) p) \<and> px_cuts p' = px_cuts p + 2"
proof -
  obtain p where p: "new_proxy ''t'' True = Inr p" by (simp add: new_proxy_def)
  then have "proxy_reach p" "\<not> px_cut p"
    unfolding proxy_reach_def by (auto simp: new_proxy_def)
  moreover have "flap [(True, False, False), (True, True, False)] = (2, [DoCut, DoHeal, DoCut])"
    by simp
  ultimately show ?thesis
    using flap_restores_path [of "[(True, False, False), (True, True, False)]" 2 "[DoCut, DoHeal, DoCut]" p] by fastforce
qed

section \<open>A sweep\<close>

text \<open>
  Two lengths of one sweep can have one name. The sweep \<open>1,10\<close> gives two arms, one cutting the path for one lease and one for ten, both
  named \<open>1x\<close>, and the summary reports their trials as one arm.
\<close>

theorem sweep_names_collide:
  "\<exists>x y. sweep_arms ''1,10'' = Inr [x, y] \<and> pm_name x = ''1x'' \<and> pm_name y = ''1x'' \<and>
    pm_cut x (10 * second) = 10 * second \<and> pm_cut y (10 * second) = 100 * second \<and>
    length (summarise_partitions [r\<lparr>pt_arm := pm_name x\<rparr>, s\<lparr>pt_arm := pm_name y\<rparr>]) = 1"
proof -
  have "parse_float_text ''1'' = Some (Fin 1)" "parse_float_text ''10'' = Some (Fin 10)"
    by code_simp+
  moreover have "sweep_name ''1'' = ''1x''" "sweep_name ''10'' = ''1x''" "split_on (CHR '','') ''1,10'' = [''1'', ''10'']"
    "trim_space ''1'' = ''1''" "trim_space ''10'' = ''10''"
    by code_simp+
  ultimately have "sweep_arms ''1,10'' = Inr [sweep_arm ''1'' (Fin 1), sweep_arm ''10'' (Fin 10)]"
    by (simp add: sweep_arms_def Let_def)
  moreover have "f64_to_i64 (fmul (Fin 1) (f64_of_int (10 * second))) = 10 * second" "f64_to_i64 (fmul (Fin 10) (f64_of_int (10 * second))) = 100 * second"
    by code_simp+
  ultimately show ?thesis
    using \<open>sweep_name ''1'' = ''1x''\<close> \<open>sweep_name ''10'' = ''1x''\<close>
    by (intro exI [of _ "sweep_arm ''1'' (Fin 1)"] exI [of _ "sweep_arm ''10'' (Fin 10)"]) (simp add: sweep_arm_def summarise_partitions_def)
qed

end
