(* ===== verification/StoreBench.thy ===== *)
theory StoreBench
  imports FaultBench
begin

text \<open>
  The store-failure benchmark (\<open>cmd/storefaultbench\<close>): its arms, the watch on the leadership tokens, what it reads of one Redis node, its waiting
  loop and dispatch record, and how a trial is read after the store has failed over. Starting Redis, Sentinel and the schedulers is
  left out.
\<close>

section \<open>Arms\<close>

record fault_arm =
  fa_name :: string
  fa_stall :: bool
  fa_churn :: bool
  fa_min :: int
  fa_wait :: int

definition fault_arms :: "fault_arm list" where
  "fault_arms =
     [\<lparr>fa_name = ''clean'', fa_stall = False, fa_churn = True, fa_min = 0, fa_wait = 0\<rparr>,
      \<lparr>fa_name = ''lagging'', fa_stall = True, fa_churn = True, fa_min = 0, fa_wait = 0\<rparr>,
      \<lparr>fa_name = ''epochwait'', fa_stall = True, fa_churn = True, fa_min = 0, fa_wait = 1\<rparr>,
      \<lparr>fa_name = ''guarded'', fa_stall = True, fa_churn = True, fa_min = 1, fa_wait = 1\<rparr>]"

definition select_fault_arms :: "string \<Rightarrow> arms_error + fault_arm list" where
  "select_fault_arms names = select_named fa_name fault_arms names"

section \<open>The watch on the tokens\<close>

definition split_holder :: "string \<Rightarrow> string \<times> int" where
  "split_holder v = (case split_last (CHR ''|'') v of None \<Rightarrow> (v, 0) | Some (p, q) \<Rightarrow> (p, fst (go_parse_int q)))"

record epoch_watch =
  ew_seen :: "int \<rightharpoonup> string"
  ew_max :: int
  ew_issued :: int

definition new_epoch_watch :: epoch_watch where
  "new_epoch_watch = \<lparr>ew_seen = Map.empty, ew_max = 0, ew_issued = 0\<rparr>"

definition observe :: "string \<Rightarrow> int \<Rightarrow> epoch_watch \<Rightarrow> string option \<times> epoch_watch" where
  "observe owner epoch wa =
     (if epoch \<le> 0 then (None, wa)
      else case ew_seen wa epoch of
        Some had \<Rightarrow> (Some had, wa)
      | None \<Rightarrow> (None, wa\<lparr>ew_seen := (ew_seen wa)(epoch \<mapsto> owner), ew_issued := ew_issued wa + 1,
          ew_max := (if ew_max wa < epoch then epoch else ew_max wa)\<rparr>))"

definition watch_snapshot :: "epoch_watch \<Rightarrow> int \<times> int" where
  "watch_snapshot wa = (ew_max wa, ew_issued wa)"

text \<open>
  \<open>watchEpochs\<close> on what the holder key reads at each tick (\<open>None\<close> when it is absent or cannot be read): the reports of a reuse, as epoch, first and
  present owner, and the watch.
\<close>

fun watch_epochs :: "string option list \<Rightarrow> string \<Rightarrow> epoch_watch \<Rightarrow> (int \<times> string \<times> string) list \<times> epoch_watch" where
  "watch_epochs [] prev wa = ([], wa)"
| "watch_epochs (None # vs) prev wa = watch_epochs vs prev wa"
| "watch_epochs (Some v # vs) prev wa =
     (if v = [] \<or> v = prev then watch_epochs vs prev wa
      else case split_holder v of
        (owner, epoch) \<Rightarrow>
          (case observe owner epoch wa of
             (reused, wa') \<Rightarrow>
               (case watch_epochs vs v wa' of
                  (reports, wa'') \<Rightarrow>
                    ((case reused of Some had \<Rightarrow> [(epoch, had, owner)] | None \<Rightarrow> []) @ reports, wa''))))"

section \<open>One node\<close>

text \<open>
  \<open>snapshotNode\<close> and \<open>readFence\<close>: a value that cannot be read is 0. The size of the database and the text of \<open>INFO replication\<close> are
  arguments.
\<close>

record store_snapshot =
  nd_dbsize :: int
  nd_ingress :: int
  nd_exec :: int
  nd_epoch :: int
  nd_fence :: int
  nd_offset :: int

definition node_int :: "(cmd \<Rightarrow> 's \<Rightarrow> reply \<times> 's) \<Rightarrow> cmd \<Rightarrow> 's net \<Rightarrow> int \<times> 's net" where
  "node_int call c w =
     (case send (rcall call c) w of
        (Inr (RInt n), w') \<Rightarrow> (n, w')
      | (Inr (RText t), w') \<Rightarrow> (text_int_sat t, w')
      | (_, w') \<Rightarrow> (0, w'))"

definition read_fence :: "(cmd \<Rightarrow> 's \<Rightarrow> reply \<times> 's) \<Rightarrow> broker \<Rightarrow> 's net \<Rightarrow> (int \<times> int) \<times> 's net" where
  "read_fence call b w =
     (let (e, w1) = node_int call (GET (key b LeaderEpoch)) w; (f, w2) = node_int call (GET (key b Fence)) w1 in ((e, f), w2))"

definition offset_of :: "int \<Rightarrow> string \<Rightarrow> string \<Rightarrow> int" where
  "offset_of best line pfx =
     (if has_prefix line pfx
      then (case go_parse_int (trim_prefix line pfx) of (v, ok) \<Rightarrow> if ok \<and> best < v then v else best)
      else best)"

definition repl_offset :: "string option \<Rightarrow> int" where
  "repl_offset info =
     (case info of
        None \<Rightarrow> 0
      | Some s \<Rightarrow>
          foldl (\<lambda>best line. foldl (\<lambda>best pfx. offset_of best (trim_space line) pfx) best [''master_repl_offset:'', ''slave_repl_offset:'']) 0
            (split_on (CHR 0x0A) s))"

definition snapshot_node ::
  "(cmd \<Rightarrow> 's \<Rightarrow> reply \<times> 's) \<Rightarrow> broker \<Rightarrow> int \<Rightarrow> string option \<Rightarrow> 's net \<Rightarrow> store_snapshot \<times> 's net" where
  "snapshot_node call b dbsize info w =
     (let (i, w1) = node_int call (XLEN (key b Ingress)) w;
          (x, w2) = node_int call (XLEN (key b Exec)) w1;
          (ef, w3) = read_fence call b w2 in
      (\<lparr>nd_dbsize = dbsize, nd_ingress = i, nd_exec = x, nd_epoch = fst ef, nd_fence = snd ef, nd_offset = repl_offset info\<rparr>, w3))"

text \<open>\<open>killLeaseHolder\<close>: the process to kill. The holder must be readable, and one of the schedulers started.\<close>

datatype kill_error = KillUnread rerr | KillNotOurs string

definition kill_lease_holder :: "(rerr + string) \<Rightarrow> string list \<Rightarrow> kill_error + string" where
  "kill_lease_holder v owners =
     (case v of
        Inl e \<Rightarrow> Inl (KillUnread e)
      | Inr x \<Rightarrow> (let owner = fst (split_holder x) in if owner \<in> set owners then Inr owner else Inl (KillNotOurs owner)))"

section \<open>Waiting and the record\<close>

text \<open>
  \<open>waitForDrain\<close>: a turn is \<open>None\<close> once the context has ended, or what \<open>Stats\<close> returned and the clock after it.
\<close>

fun store_drain :: "int \<Rightarrow> duration \<Rightarrow> int \<Rightarrow> time \<Rightarrow> ((berr + int go_map) \<times> time) option list \<Rightarrow> bool option" where
  "store_drain want idle prev changed [] = None"
| "store_drain want idle prev changed (None # turns) = Some False"
| "store_drain want idle prev changed (Some (st, now) # turns) =
     (let (finished, prev', changed') =
            (case st of
               Inl _ \<Rightarrow> (False, prev, changed)
             | Inr m \<Rightarrow>
                 (let n = i64 (map_get 0 m ''completed'' + map_get 0 m ''dead_lettered'') in
                  if want \<le> n then (True, prev, changed) else if n \<noteq> prev then (False, n, now) else (False, prev, changed))) in
      if finished then Some True
      else if idle < time_sub now changed' then Some False
      else store_drain want idle prev' changed' turns)"

text \<open>The record keeps an entry whose time it cannot read, at the zero time, and an error ends it.\<close>

definition store_entry_of :: "stream_entry \<Rightarrow> dispatch_entry" where
  "store_entry_of e =
     \<lparr>di_at = (case Option.bind (field e ''dispatched_at_ms'') text_int of Some ms \<Rightarrow> from_unix_milli ms | None \<Rightarrow> zero_time),
      di_epoch = (case field e ''epoch'' of Some t \<Rightarrow> text_int_sat t | None \<Rightarrow> 0)\<rparr>"

partial_function (option) store_record ::
  "(cmd \<Rightarrow> 's \<Rightarrow> reply \<times> 's) \<Rightarrow> rkey \<Rightarrow> bound \<Rightarrow> dispatch_entry list \<Rightarrow> 's net \<Rightarrow> (dispatch_entry list \<times> 's net) option" where
  "store_record call k from acc w =
     (case range_query ''read'' call k from 5000 w of
        (Inl e, w') \<Rightarrow> Some (acc, w')
      | (Inr es, w') \<Rightarrow>
          (if es = [] then Some (acc, w')
           else if int (length es) < 5000 then Some (acc @ map store_entry_of es, w')
           else store_record call k (BAfter (se_id (last es))) (acc @ map store_entry_of es) w'))"

definition dispatched_after :: "dispatch_entry list \<Rightarrow> time \<Rightarrow> bool" where
  "dispatched_after es t \<longleftrightarrow> list_ex (\<lambda>e. t < di_at e) es"

section \<open>A trial\<close>

record store_trial =
  sx_arm :: string
  sx_rep :: int
  sx_seed :: int
  sx_failover :: f64
  sx_old :: string
  sx_new :: string
  sx_epoch_before :: int
  sx_epoch_after :: int
  sx_fence_before :: int
  sx_fence_after :: int
  sx_regressed :: bool
  sx_lost_epochs :: int
  sx_max_epoch :: int
  sx_reused :: bool
  sx_reused_epoch :: int
  sx_issued :: int
  sx_submitted :: int
  sx_completed :: int
  sx_dispatched :: int
  sx_duplicates :: int
  sx_dead :: int
  sx_unfinished :: int
  sx_inversions :: int
  sx_write_errors :: int
  sx_pending :: int
  sx_tasks_lost :: int
  sx_wedged :: bool
  sx_ingress_lost :: int
  sx_exec_lost :: int
  sx_offset_lost :: int
  sx_recovered :: bool
  sx_outage :: f64
  sx_wall :: f64
  sx_notes :: string

text \<open>The callback of the watch: only the first reuse is kept.\<close>

definition note_reuse :: "store_trial \<Rightarrow> int \<times> string \<times> string \<Rightarrow> store_trial" where
  "note_reuse row x = (if sx_reused row then row else row\<lparr>sx_reused := True, sx_reused_epoch := fst x\<rparr>)"

text \<open>After the failover: what the promoted node lacks, and whether the epoch counter went back.\<close>

definition above_zero :: "int \<Rightarrow> int" where
  "above_zero d = (if 0 < d then d else 0)"

definition compare_nodes :: "store_snapshot \<Rightarrow> store_snapshot \<Rightarrow> int \<times> int \<Rightarrow> epoch_watch \<Rightarrow> store_trial \<Rightarrow> store_trial" where
  "compare_nodes before_s after_s ef wa row =
     (let row1 = row\<lparr>sx_ingress_lost := above_zero (i64 (nd_ingress before_s - nd_ingress after_s)),
            sx_exec_lost := above_zero (i64 (nd_exec before_s - nd_exec after_s)),
            sx_offset_lost := above_zero (i64 (nd_offset before_s - nd_offset after_s)),
            sx_epoch_after := fst ef, sx_fence_after := snd ef, sx_max_epoch := ew_max wa, sx_issued := ew_issued wa\<rparr>;
          row2 = (if sx_epoch_before row1 < ew_max wa then row1\<lparr>sx_epoch_before := ew_max wa\<rparr> else row1) in
      if sx_epoch_after row2 < sx_epoch_before row2
      then row2\<lparr>sx_regressed := True, sx_lost_epochs := i64 (sx_epoch_before row2 - sx_epoch_after row2)\<rparr>
      else row2)"

text \<open>
  What became of the tasks: those not finished, of these the ones still pending, and the rest. An unread counter keeps its value.
\<close>

definition count_tasks :: "(berr + int go_map) \<Rightarrow> (berr + int) \<Rightarrow> bool \<Rightarrow> store_trial \<Rightarrow> store_trial" where
  "count_tasks st pending drained row =
     (let row1 = (case st of
                    Inr m \<Rightarrow> row\<lparr>sx_completed := map_get 0 m ''completed'', sx_dispatched := map_get 0 m ''dispatched'',
                      sx_duplicates := map_get 0 m ''duplicate_completions'', sx_dead := map_get 0 m ''dead_lettered''\<rparr>
                  | Inl _ \<Rightarrow> row);
          row2 = row1\<lparr>sx_unfinished := i64 (i64 (sx_submitted row1 - sx_completed row1) - sx_dead row1)\<rparr>;
          row3 = (case pending of Inr n \<Rightarrow> row2\<lparr>sx_pending := n\<rparr> | Inl _ \<Rightarrow> row2);
          row4 = (if sx_pending row3 < sx_unfinished row3 then row3\<lparr>sx_tasks_lost := i64 (sx_unfinished row3 - sx_pending row3)\<rparr> else row3) in
      row4\<lparr>sx_wedged := (\<not> drained \<and> 0 < sx_pending row4)\<rparr>)"

definition finish_store ::
  "(cmd \<Rightarrow> 's \<Rightarrow> reply \<times> 's) \<Rightarrow> broker \<Rightarrow> bool \<Rightarrow> store_trial \<Rightarrow> 's net \<Rightarrow> store_trial \<times> 's net" where
  "finish_store call b drained row w =
     (let (st, w1) = stats call b w; (n, w2) = pending_count call b w1 in (count_tasks st n drained row, w2))"

definition store_header :: "string list" where
  "store_header =
     [''arm'', ''rep'', ''old_master'', ''new_master'', ''failover_ms'',
      ''epoch_before'', ''epoch_after'', ''fence_before'', ''fence_after'',
      ''epoch_regressed'', ''lost_epochs'', ''max_epoch_seen'', ''epochs_issued'',
      ''epoch_reused'', ''reused_epoch'',
      ''submitted'', ''dispatched'', ''completed'', ''duplicate_completions'',
      ''dead_lettered'', ''unfinished'', ''pending_at_end'', ''tasks_lost'',
      ''ingress_lost_entries'', ''exec_lost_entries'', ''repl_offset_lost'',
      ''epoch_inversions'', ''wedged'',
      ''recovered_dispatch'', ''wall_seconds'', ''notes'']"

definition store_row :: "store_trial \<Rightarrow> out_cell list" where
  "store_row r =
     [Cell (CText (sx_arm r)), Cell (CInt (sx_rep r)), Cell (CText (sx_old r)), Cell (CText (sx_new r)), Fixed 1 (sx_failover r),
      Cell (CInt (sx_epoch_before r)), Cell (CInt (sx_epoch_after r)), Cell (CInt (sx_fence_before r)), Cell (CInt (sx_fence_after r)),
      Cell (CBool (sx_regressed r)), Cell (CInt (sx_lost_epochs r)), Cell (CInt (sx_max_epoch r)), Cell (CInt (sx_issued r)),
      Cell (CBool (sx_reused r)), Cell (CInt (sx_reused_epoch r)),
      Cell (CInt (sx_submitted r)), Cell (CInt (sx_dispatched r)), Cell (CInt (sx_completed r)), Cell (CInt (sx_duplicates r)),
      Cell (CInt (sx_dead r)), Cell (CInt (sx_unfinished r)), Cell (CInt (sx_pending r)), Cell (CInt (sx_tasks_lost r)),
      Cell (CInt (sx_ingress_lost r)), Cell (CInt (sx_exec_lost r)), Cell (CInt (sx_offset_lost r)),
      Cell (CInt (sx_inversions r)), Cell (CBool (sx_wedged r)), Cell (CBool (sx_recovered r)), Fixed 1 (sx_wall r), Cell (CText (sx_notes r))]"

section \<open>The summary\<close>

definition median_of :: "f64 list \<Rightarrow> f64" where
  "median_of xs = (if xs = [] then Fin 0 else sort_floats xs ! (length xs div 2))"

record store_summary =
  sy_arm :: string
  sy_count :: nat
  sy_failover :: f64
  sy_regressed :: nat
  sy_lost_epochs :: int
  sy_reused :: nat
  sy_inversions :: int
  sy_wedged :: nat
  sy_lost :: int
  sy_queued :: int

definition summarise_store_arm :: "store_trial list \<Rightarrow> fault_arm \<Rightarrow> store_summary option" where
  "summarise_store_arm rows a =
     (let own = filter (\<lambda>r. sx_arm r = fa_name a) rows in
      if own = [] then None
      else Some
        \<lparr>sy_arm = fa_name a, sy_count = length own, sy_failover = median_of (map sx_failover own), sy_regressed = length (filter sx_regressed own),
         sy_lost_epochs = sum_list (map sx_lost_epochs own), sy_reused = length (filter sx_reused own),
         sy_inversions = sum_list (map sx_inversions own), sy_wedged = length (filter sx_wedged own),
         sy_lost = sum_list (map sx_tasks_lost own), sy_queued = sum_list (map sx_pending own)\<rparr>)"

definition summarise_stores :: "store_trial list \<Rightarrow> store_summary list" where
  "summarise_stores rows = List.map_filter (summarise_store_arm rows) fault_arms"

end
