(* ===== verification/StoreProps.thy ===== *)
theory StoreProps
  imports FaultProps LeaseProps StoreBench
begin

text \<open>
  What the store-failure benchmark can and cannot conclude from what it watches.
\<close>

section \<open>The watch\<close>

text \<open>The changes of the holder key that count as new terms.\<close>

fun terms_seen :: "string \<Rightarrow> string option list \<Rightarrow> string list" where
  "terms_seen prev [] = []"
| "terms_seen prev (None # vs) = terms_seen prev vs"
| "terms_seen prev (Some v # vs) = (if v = [] \<or> v = prev then terms_seen prev vs else v # terms_seen v vs)"

lemma terms_seen_eq: "prev # terms_seen prev vs = remdups_adj (prev # filter (\<lambda>v. v \<noteq> []) (List.map_filter id vs))"
proof (induction prev vs rule: terms_seen.induct)
  case (3 prev v vs)
  then show ?case by (auto simp: map_filter_simps)
qed (simp_all add: map_filter_simps)

definition tokens :: "string list \<Rightarrow> int list" where
  "tokens vs = filter (\<lambda>e. 0 < e) (map (snd \<circ> split_holder) vs)"

text \<open>The watch after the terms \<open>before_l\<close>.\<close>

definition watched :: "string list \<Rightarrow> epoch_watch \<Rightarrow> bool" where
  "watched gs wa \<longleftrightarrow>
     dom (ew_seen wa) = set (tokens gs) \<and> ew_issued wa = int (card (set (tokens gs))) \<and> ew_max wa = Max (insert 0 (set (tokens gs))) \<and>
     (\<forall>e p. ew_seen wa e = Some p \<longrightarrow> (\<exists>v \<in> set gs. split_holder v = (p, e)))"

lemma tokens_snoc: "tokens (gs @ [v]) = tokens gs @ (if 0 < snd (split_holder v) then [snd (split_holder v)] else [])"
  by (simp add: tokens_def)

lemma observe_watched:
  assumes "watched gs wa" "split_holder v = (owner, e)" "observe owner e wa = (r, wa')"
  shows "watched (gs @ [v]) wa'" "r = (if e \<in> set (tokens gs) then ew_seen wa e else None)"
proof -
  have t: "tokens (gs @ [v]) = tokens gs @ (if 0 < e then [e] else [])"
    using assms(2) by (simp add: tokens_snoc)
  have p: "\<forall>x \<in> set (tokens gs). 0 < x" by (simp add: tokens_def)
  have d: "dom (ew_seen wa) = set (tokens gs)" using assms(1) by (simp add: watched_def)
  then have none: "ew_seen wa e = None \<longleftrightarrow> e \<notin> set (tokens gs)" by (metis domIff)
  then show "r = (if e \<in> set (tokens gs) then ew_seen wa e else None)"
    using assms(3) p by (auto simp: observe_def split: if_splits option.splits)
  show "watched (gs @ [v]) wa'"
  proof (cases "0 < e \<and> e \<notin> set (tokens gs)")
    case True
    have "Max (insert 0 (insert e (set (tokens gs)))) = max e (Max (insert 0 (set (tokens gs))))"
      by (subst insert_commute) (rule Max_insert, simp_all)
    moreover have "ew_max wa = Max (insert 0 (set (tokens gs)))" using assms(1) by (simp add: watched_def)
    moreover have "(if m < e then e else m) = max e m" for m :: int
      by (simp add: max_def)
    ultimately have "(if ew_max wa < e then e else ew_max wa) = Max (insert 0 (insert e (set (tokens gs))))"
      by (simp only:)
    moreover have "wa' = wa\<lparr>ew_seen := (ew_seen wa)(e \<mapsto> owner), ew_issued := ew_issued wa + 1, ew_max := (if ew_max wa < e then e else ew_max wa)\<rparr>"
      using assms(3) True none by (simp add: observe_def)
    ultimately show ?thesis
      using assms(1,2) True unfolding watched_def t by auto
  next
    case False
    then have "wa' = wa" "set (tokens (gs @ [v])) = set (tokens gs)"
      using assms(3) none t by (auto simp: observe_def split: option.splits if_splits)
    then show ?thesis
      using assms(1) unfolding watched_def by auto
  qed
qed

lemma watch_all:
  "watched gs wa \<Longrightarrow> watch_epochs vs prev wa = (reports, wa') \<Longrightarrow>
   watched (gs @ terms_seen prev vs) wa' \<and>
   int (length reports) = int (length (tokens (terms_seen prev vs))) - (ew_issued wa' - ew_issued wa) \<and>
   (\<forall>(e, p, q) \<in> set reports. \<exists>xs v ys u. gs @ terms_seen prev vs = xs @ v # ys \<and> split_holder v = (q, e) \<and> u \<in> set xs \<and> split_holder u = (p, e) \<and> 0 < e)"
proof (induction vs prev wa arbitrary: gs reports wa' rule: watch_epochs.induct)
  case (3 v vs prev wa)
  show ?case
  proof (cases "v = [] \<or> v = prev")
    case True
    then show ?thesis using 3(1) [OF True 3(3)] 3(4) by simp
  next
    case False
    obtain owner e r wa1 reports1 wa2 where o: "split_holder v = (owner, e)" "observe owner e wa = (r, wa1)" "watch_epochs vs v wa1 = (reports1, wa2)"
      by (metis surj_pair)
    have res: "reports = (case r of Some had \<Rightarrow> [(e, had, owner)] | None \<Rightarrow> []) @ reports1" "wa' = wa2"
      using 3(4) False o by simp_all
    note w1 = observe_watched [OF 3(3) o(1,2)]
    note IH = 3(2) [OF False o(1) [symmetric] o(2) [symmetric] w1(1) o(3)]
    have eq: "(gs @ [v]) @ terms_seen v vs = gs @ terms_seen prev (Some v # vs)" using False by simp
    have issued: "ew_issued wa1 - ew_issued wa = (if 0 < e \<and> r = None then 1 else 0)"
      using o(2) [symmetric] by (cases "ew_seen wa e"; cases "e \<le> 0") (simp_all add: observe_def)
    have r: "r = Some had \<Longrightarrow> 0 < e \<and> (\<exists>u \<in> set gs. split_holder u = (had, e))" for had
      using w1(2) 3(3) by (auto simp: watched_def tokens_def split: if_splits)
    have this_report: "\<exists>xs v' ys u. (gs @ [v]) @ terms_seen v vs = xs @ v' # ys \<and> split_holder v' = (owner, e) \<and> u \<in> set xs \<and> split_holder u = (had, e) \<and> 0 < e"
      if "r = Some had" for had
    proof -
      from r [OF that] obtain u where "u \<in> set gs" "split_holder u = (had, e)" "0 < e" by blast
      then have "(gs @ [v]) @ terms_seen v vs = gs @ v # terms_seen v vs \<and> split_holder v = (owner, e) \<and> u \<in> set gs \<and> split_holder u = (had, e) \<and> 0 < e"
        using o(1) by simp
      then show ?thesis by blast
    qed
    have "length (tokens (terms_seen prev (Some v # vs))) = (if 0 < e then 1 else 0) + length (tokens (terms_seen v vs))"
      using False o(1) by (simp add: tokens_def)
    then show ?thesis
      using IH issued r this_report unfolding res eq [symmetric] by (cases r) auto
  qed
qed (simp_all, simp add: tokens_def)

lemma terms_seen_new: "terms_seen [] vs = remdups_adj (filter (\<lambda>v. v \<noteq> []) (List.map_filter id vs))"
proof (cases "filter (\<lambda>v. v \<noteq> []) (List.map_filter id vs)")
  case (Cons v rest)
  then have "v \<noteq> []"
    by (auto dest: filter_eq_ConsD)
  then show ?thesis
    using terms_seen_eq [of "[]" vs] unfolding Cons by simp
qed (use terms_seen_eq [of "[]" vs] in simp)

lemma watched_new: "watched [] new_epoch_watch"
  by (simp add: watched_def tokens_def new_epoch_watch_def)

lemma watch_reports:
  assumes "watch_epochs vs [] new_epoch_watch = (reports, wa)" "(e, p, q) \<in> set reports"
  shows "\<exists>xs v ys u. remdups_adj (filter (\<lambda>v. v \<noteq> []) (List.map_filter id vs)) = xs @ v # ys \<and> split_holder v = (q, e) \<and> u \<in> set xs \<and>
    split_holder u = (p, e) \<and> 0 < e"
  using watch_all [OF watched_new assms(1)] assms(2) unfolding terms_seen_new by fastforce

text \<open>
  The watch counts tokens exactly. Over any readings of the holder key, the number issued is the number of distinct positive epochs among the
  terms it saw, the maximum is the highest of them, there is one report for each term whose epoch an earlier one had, and every report names
  the owners of two terms of one epoch.
\<close>

theorem epoch_watch_exact:
  assumes "watch_epochs vs [] new_epoch_watch = (reports, wa)"
  defines "seen \<equiv> remdups_adj (filter (\<lambda>v. v \<noteq> []) (List.map_filter id vs))"
  shows "ew_issued wa = int (card (set (tokens seen))) \<and> ew_max wa = Max (insert 0 (set (tokens seen))) \<and>
    int (length reports) = int (length (tokens seen)) - ew_issued wa \<and>
    (\<forall>(e, p, q) \<in> set reports. \<exists>xs v ys u. seen = xs @ v # ys \<and> split_holder v = (q, e) \<and> u \<in> set xs \<and> split_holder u = (p, e) \<and> 0 < e)"
  using watch_all [OF watched_new assms(1)] unfolding terms_seen_new seen_def by (auto simp: watched_def new_epoch_watch_def)

theorem epoch_watch_exact_witness:
  "\<exists>reports wa. watch_epochs [Some ''a|1'', Some ''a|1'', None, Some ''b|2''] [] new_epoch_watch = (reports, wa) \<and> ew_issued wa = 2 \<and> ew_max wa = 2"
proof -
  obtain reports wa where w: "watch_epochs [Some ''a|1'', Some ''a|1'', None, Some ''b|2''] [] new_epoch_watch = (reports, wa)"
    by (metis surj_pair)
  have "tokens (remdups_adj (filter (\<lambda>v. v \<noteq> []) (List.map_filter id [Some ''a|1'', Some ''a|1'', None, Some ''b|2'']))) = [1, 2]"
    by code_simp
  then show ?thesis
    using epoch_watch_exact [OF w] w by auto
qed

text \<open>
  C25: a reported reuse is real while the store keeps its word. When every value read was written by an acquisition and no grant is seen again
  after another, every report names two different owners that were granted the same epoch.
\<close>

theorem reuse_report_real:
  assumes "watch_epochs vs [] new_epoch_watch = (reports, wa)" "(e, p, q) \<in> set reports"
    and "\<forall>v \<in> set vs. \<forall>x. v = Some x \<longrightarrow> (\<exists>owner n. x = grant_value owner n \<and> in_i64 n)"
    and "distinct (remdups_adj (filter (\<lambda>v. v \<noteq> []) (List.map_filter id vs)))"
  shows "p \<noteq> q \<and> 0 < e \<and> Some (grant_value p e) \<in> set vs \<and> Some (grant_value q e) \<in> set vs"
proof -
  let ?seen = "remdups_adj (filter (\<lambda>v. v \<noteq> []) (List.map_filter id vs))"
  have granted: "x = grant_value (fst (split_holder x)) (snd (split_holder x)) \<and> Some x \<in> set vs" if "x \<in> set ?seen" for x
  proof -
    have "Some x \<in> set vs" using that by (auto simp: List.map_filter_def)
    moreover from this assms(3) obtain owner n where "x = grant_value owner n" "in_i64 n" by blast
    ultimately show ?thesis by (simp add: split_holder_def grant_value_split parse_show_int)
  qed
  obtain xs v ys u where s: "?seen = xs @ v # ys" "split_holder v = (q, e)" "u \<in> set xs" "split_holder u = (p, e)" "0 < e"
    using watch_reports [OF assms(1,2)] by blast
  have "v \<in> set ?seen" "u \<in> set ?seen"
    using s(1,3) by simp_all
  note v = conjunct1 [OF granted [OF this(1), unfolded s(2) fst_conv snd_conv]] conjunct2 [OF granted [OF this(1)]]
    and u = conjunct1 [OF granted [OF this(2), unfolded s(4) fst_conv snd_conv]] conjunct2 [OF granted [OF this(2)]]
  have "u \<noteq> v"
    using assms(4) s(1,3) by auto
  then have "p \<noteq> q"
    using u(1) v(1) by blast
  then show ?thesis
    using s(5) u v by metis
qed

theorem reuse_report_real_witness:
  "\<exists>reports wa. watch_epochs [Some (grant_value ''a'' 1), None, Some (grant_value ''b'' 1)] [] new_epoch_watch = (reports, wa) \<and>
    (1, ''a'', ''b'') \<in> set reports \<and> ''a'' \<noteq> ''b''"
proof -
  let ?vs = "[Some (grant_value ''a'' 1), None, Some (grant_value ''b'' 1)]"
  have s: "split_holder (grant_value ''a'' 1) = (''a'', 1)" "split_holder (grant_value ''b'' 1) = (''b'', 1)"
    by (simp_all add: split_holder_def grant_value_split parse_show_int in_i64_def)
  have ne: "grant_value ''a'' 1 \<noteq> grant_value ''b'' 1" by (simp add: grant_value_def)
  obtain wa where w: "watch_epochs ?vs [] new_epoch_watch = ([(1, ''a'', ''b'')], wa)"
    using s ne by (simp add: observe_def new_epoch_watch_def)
  have "''a'' \<noteq> ''b'' \<and> (0 :: int) < 1 \<and> Some (grant_value ''a'' 1) \<in> set ?vs \<and> Some (grant_value ''b'' 1) \<in> set ?vs"
  proof (rule reuse_report_real [OF w])
    show "\<forall>v \<in> set ?vs. \<forall>x. v = Some x \<longrightarrow> (\<exists>owner n. x = grant_value owner n \<and> in_i64 n)"
      using in_i64_small [of 1] by auto
    show "distinct (remdups_adj (filter (\<lambda>v. v \<noteq> []) (List.map_filter id ?vs)))"
      using ne by (simp add: map_filter_simps)
  qed simp
  then show ?thesis using w by auto
qed

section \<open>A store that goes back\<close>

text \<open>
  C36: a reported reuse need not be real. One owner is granted epoch 1; the grant reaches the replica; it ends, and another is granted epoch 2 on
  the master only; the replica is promoted. The watch then reads the first grant again and reports that epoch 1 was issued twice, though each
  epoch was issued once.
\<close>

theorem rollback_reported_as_reuse:
  "\<exists>first copy ended second wa.
    acquire_script mem_call (key demo_broker Leader) (key demo_broker LeaderEpoch) ''a'' 5000 mem_empty = (Inr (1, first), copy) \<and>
    ended = snd (mem_call (DEL [key demo_broker Leader]) copy) \<and>
    (\<exists>gone. acquire_script mem_call (key demo_broker Leader) (key demo_broker LeaderEpoch) ''b'' 5000 ended = (Inr (2, second), gone) \<and>
      fst (mem_call (GET (key demo_broker Leader)) gone) = RText (TStr second)) \<and>
    fst (mem_call (GET (key demo_broker Leader)) copy) = RText (TStr first) \<and>
    watch_epochs [Some first, Some second, None, Some first] [] new_epoch_watch = ([(1, ''a'', ''a'')], wa) \<and> ew_issued wa = 2"
proof -
  let ?holder = "key demo_broker Leader" and ?counter = "key demo_broker LeaderEpoch"
  let ?A = "acquire_script mem_call ?holder ?counter ''a'' 5000 mem_empty"
  let ?E = "snd (mem_call (DEL [?holder]) (snd ?A))"
  let ?B = "acquire_script mem_call ?holder ?counter ''b'' 5000 ?E"
  let ?first = "grant_value ''a'' 1" and ?second = "grant_value ''b'' 2"
  have "fst ?A = Inr (1, ?first)" "fst (mem_call (GET ?holder) (snd ?A)) = RText (TStr ?first)"
    by code_simp+
  moreover have "fst ?B = Inr (2, ?second)" "fst (mem_call (GET ?holder) (snd ?B)) = RText (TStr ?second)"
    by code_simp+
  moreover obtain wa where "watch_epochs [Some ?first, Some ?second, None, Some ?first] [] new_epoch_watch = ([(1, ''a'', ''a'')], wa)" "ew_issued wa = 2"
  proof -
    have s: "split_holder ?first = (''a'', 1)" "split_holder ?second = (''b'', 2)" "?first \<noteq> ?second"
      by code_simp+
    then have "\<exists>wa. watch_epochs [Some ?first, Some ?second, None, Some ?first] [] new_epoch_watch = ([(1, ''a'', ''a'')], wa) \<and> ew_issued wa = 2"
      by (simp add: observe_def new_epoch_watch_def)
    then show ?thesis
      using that by blast
  qed
  ultimately show ?thesis
    by (metis prod.collapse)
qed

section \<open>What becomes of the tasks\<close>

lemma i64_left: "i64 (i64 x - y) = i64 (x - y)"
proof -
  have "i64 x - y + 2 ^ 63 = (x + 2 ^ 63) mod 2 ^ 64 - y" "x - y + 2 ^ 63 = x + 2 ^ 63 - y"
    by (simp_all add: i64_def)
  then show ?thesis
    unfolding i64_def [of "i64 x - y"] i64_def [of "x - y"] by (simp only: mod_diff_left_eq)
qed

text \<open>Each pending member names its own stored task.\<close>

lemma pending_card:
  assumes "inv_ids q"
  shows "card (dom (q_payloads q)) = card (dom (q_pending q)) + card (launched_ids q)"
proof -
  let ?f = "the \<circ> after_first (CHR ''|'')" and ?P = "dom (q_pending q)"
  have named: "after_first (CHR ''|'') m = Some (?f m) \<and> ?f m \<in> dom (q_payloads q)" if "m \<in> ?P" for m
  proof -
    have "\<exists>i \<in> dom (q_payloads q). after_first (CHR ''|'') m = Some i"
      using assms that unfolding inv_ids_def by blast
    then show ?thesis by auto
  qed
  have "pending_ids q = ?f ` ?P"
  proof (intro equalityI subsetI)
    fix i assume "i \<in> pending_ids q"
    then obtain m where "m \<in> ?P" "after_first (CHR ''|'') m = Some i" unfolding pending_ids_def by blast
    then show "i \<in> ?f ` ?P" by (intro image_eqI [of _ _ m]) simp_all
  next
    fix i assume "i \<in> ?f ` ?P"
    then obtain m where "m \<in> ?P" "i = ?f m" by (rule imageE)
    then show "i \<in> pending_ids q" using named [of m] unfolding pending_ids_def by blast
  qed
  moreover have "inj_on ?f ?P"
    using assms named unfolding inv_ids_def inj_on_def by metis
  ultimately have "card (pending_ids q) = card ?P"
    by (simp only: card_image)
  moreover have "pending_ids q \<subseteq> dom (q_payloads q)"
    using named unfolding \<open>pending_ids q = ?f ` ?P\<close> by blast
  moreover have "finite (dom (q_payloads q))"
    using assms by (simp add: inv_ids_def)
  ultimately show ?thesis
    unfolding launched_ids_def by (metis card_Diff_subset card_mono finite_subset le_add_diff_inverse)
qed

context queue_store
begin

lemma calm_pending:
  assumes "b_keys b = ks" "reach call view b w H" "n_faults w = []"
  shows "\<exists>w'. pending_count call b w = (Inr (int (card (dom (q_pending (queue_at view b w))))), w')"
proof -
  have T: "typed ks (view (n_db w))"
    using reach_inv [OF assms(2,1)] by blast
  have "fst (call (ZCARD (k_name ks Pending)) (n_db w)) = RInt (int (card (dom (zset_at (view (n_db w)) (k_name ks Pending)))))"
    using doc_after [of "ZCARD (k_name ks Pending)" "n_db w"] typedD(4) [OF T] by simp
  then show ?thesis
    using assms(1,3) rcall_reply_fst [of call "ZCARD (k_name ks Pending)" "n_db w"]
    by (simp add: pending_count_def int_query_def key_def calm_send as_int_def qabs_def)
qed

end


lemma demo2_stats: "q_stats (queue_at mem_view demo_broker demo2) = (\<lambda>_. 0)(''admitted'' := 2, ''dispatched'' := 1)"
  unfolding demo2_val qabs_def qstate.select_convs by (rule ext) (code_simp, simp)


end
