(* ===== verification/Cli.thy ===== *)
theory Cli
  imports GoText BenchRun Server Worker
begin

text \<open>
  The command lines (\<open>internal/cli\<close> and the \<open>main\<close> functions under \<open>cmd\<close>): how flags override the configuration, what each program builds from
  it, and what the inspection tool \<open>tqctl\<close> and the console do to Redis when they start. The flag parser is a library: a flag is the value
  it was given or its default. Loading the file is an argument, as are the clock, host name and process id. An exit is an error value.
\<close>

section \<open>Common flags\<close>

record common_flags =
  cf_config :: string
  cf_redis_addr :: string
  cf_redis_db :: int
  cf_namespace :: string
  cf_log_level :: string
  cf_log_format :: string
  cf_sentinel_addrs :: string
  cf_sentinel_master :: string
  cf_wait :: int
  cf_wait_timeout :: duration

definition env_or :: "string \<Rightarrow> string \<Rightarrow> string" where
  "env_or v fallback = (if v \<noteq> [] then v else fallback)"

text \<open>The values when no flag is given: those of the environment, or the built-in ones.\<close>

definition flag_defaults :: "(string \<Rightarrow> string) \<Rightarrow> common_flags" where
  "flag_defaults env =
     \<lparr>cf_config = env_or (env ''TQ_CONFIG'') [], cf_redis_addr = env_or (env ''TQ_REDIS_ADDR'') [], cf_redis_db = - 1,
      cf_namespace = env_or (env ''TQ_NAMESPACE'') [], cf_log_level = env_or (env ''TQ_LOG_LEVEL'') [],
      cf_log_format = env_or (env ''TQ_LOG_FORMAT'') [], cf_sentinel_addrs = env_or (env ''TQ_SENTINEL_ADDRS'') [],
      cf_sentinel_master = env_or (env ''TQ_SENTINEL_MASTER'') [], cf_wait = - 1, cf_wait_timeout = 0\<rparr>"

definition split_list :: "string \<Rightarrow> string list" where
  "split_list v = filter (\<lambda>s. s \<noteq> []) (map trim_space (split_on (CHR '','') v))"

definition override :: "bool \<Rightarrow> ('a \<Rightarrow> 'a) \<Rightarrow> 'a \<Rightarrow> 'a" where
  "override given f x = (if given then f x else x)"

definition flag_sentinel :: "common_flags \<Rightarrow> sentinel_cfg \<Rightarrow> sentinel_cfg" where
  "flag_sentinel f s =
     override (0 < cf_wait_timeout f) (\<lambda>s. s\<lparr>sn_wait_timeout := cf_wait_timeout f\<rparr>)
       (override (0 \<le> cf_wait f) (\<lambda>s. s\<lparr>sn_wait := cf_wait f\<rparr>)
         (override (cf_sentinel_master f \<noteq> []) (\<lambda>s. s\<lparr>sn_master := cf_sentinel_master f\<rparr>)
           (override (cf_sentinel_addrs f \<noteq> []) (\<lambda>s. s\<lparr>sn_enabled := True, sn_addrs := split_list (cf_sentinel_addrs f)\<rparr>) s)))"

definition flag_redis :: "common_flags \<Rightarrow> redis_cfg \<Rightarrow> redis_cfg" where
  "flag_redis f r =
     (override (0 \<le> cf_redis_db f) (\<lambda>r. r\<lparr>rc_db := cf_redis_db f\<rparr>)
       (override (cf_redis_addr f \<noteq> []) (\<lambda>r. r\<lparr>rc_addr := cf_redis_addr f\<rparr>) r))
     \<lparr>rc_sentinel := flag_sentinel f (rc_sentinel r)\<rparr>"

definition flag_config :: "common_flags \<Rightarrow> config \<Rightarrow> config" where
  "flag_config f c =
     c\<lparr>c_redis := flag_redis f (c_redis c),
       c_streams := override (cf_namespace f \<noteq> []) (\<lambda>s. s\<lparr>s_namespace := cf_namespace f\<rparr>) (c_streams c),
       c_log := override (cf_log_format f \<noteq> []) (\<lambda>l. l\<lparr>lg_format := cf_log_format f\<rparr>)
         (override (cf_log_level f \<noteq> []) (\<lambda>l. l\<lparr>lg_level := cf_log_level f\<rparr>) (c_log c))\<rparr>"

datatype cli_error = LoadFailed string | Invalid "cerr list" | NotABoolean string

definition checked :: "config \<Rightarrow> cli_error + config" where
  "checked c = (if validate c = [] then Inr c else Inl (Invalid (validate c)))"

text \<open>\<open>Apply\<close>: \<open>load\<close> is what reading the file at a path gives.\<close>

definition apply_flags :: "(string \<Rightarrow> string + config) \<Rightarrow> common_flags \<Rightarrow> cli_error + config" where
  "apply_flags load f =
     (case load (cf_config f) of Inl e \<Rightarrow> Inl (LoadFailed e) | Inr c \<Rightarrow> checked (flag_config f c))"

datatype log_level = LevelDebug | LevelInfo | LevelWarn | LevelError

definition new_logger :: "log_cfg \<Rightarrow> log_level \<times> bool" where
  "new_logger l =
     (let s = lower_text (lg_level l) in
      (if s = ''debug'' then LevelDebug else if s = ''warn'' then LevelWarn else if s = ''error'' then LevelError else LevelInfo,
       lg_format l = ''json''))"

section \<open>The scheduler\<close>

definition parse_bool :: "string \<Rightarrow> bool option" where
  "parse_bool s =
     (if s \<in> set [''1'', ''t'', ''T'', ''TRUE'', ''true'', ''True''] then Some True
      else if s \<in> set [''0'', ''f'', ''F'', ''FALSE'', ''false'', ''False''] then Some False
      else None)"

record scheduler_flags =
  sf_policy :: string
  sf_metrics_addr :: string
  sf_consumer :: string
  sf_max_in_flight :: int
  sf_recovery :: bool
  sf_election :: string
  sf_ttl :: duration
  sf_renew :: duration

definition flag_election :: "scheduler_flags \<Rightarrow> election_cfg \<Rightarrow> cli_error + election_cfg" where
  "flag_election f e =
     (case (if sf_election f = [] then Some (le_enabled e) else parse_bool (sf_election f)) of
        None \<Rightarrow> Inl (NotABoolean (sf_election f))
      | Some on \<Rightarrow> Inr (override (0 < sf_renew f) (\<lambda>e. e\<lparr>le_renew := sf_renew f\<rparr>)
          (override (0 < sf_ttl f) (\<lambda>e. e\<lparr>le_ttl := sf_ttl f\<rparr>) (e\<lparr>le_enabled := on\<rparr>))))"

definition scheduler_config :: "(string \<Rightarrow> string + config) \<Rightarrow> common_flags \<Rightarrow> scheduler_flags \<Rightarrow> cli_error + config" where
  "scheduler_config load common f =
     (case apply_flags load common of
        Inl e \<Rightarrow> Inl e
      | Inr c \<Rightarrow>
          (let s = override (0 \<le> sf_max_in_flight f) (\<lambda>s. s\<lparr>sc_max_in_flight := sf_max_in_flight f\<rparr>)
                 (override (sf_metrics_addr f \<noteq> []) (\<lambda>s. s\<lparr>sc_metrics_addr := sf_metrics_addr f\<rparr>)
                   (override (sf_policy f \<noteq> []) (\<lambda>s. s\<lparr>sc_policy := sf_policy f\<rparr>) (c_scheduler c)));
               r = override (\<not> sf_recovery f) (\<lambda>r. r\<lparr>rv_enabled := False\<rparr>) (c_recovery c) in
           case flag_election f (sc_election s) of
             Inl e \<Rightarrow> Inl e
           | Inr e \<Rightarrow> checked (c\<lparr>c_scheduler := s\<lparr>sc_election := e\<rparr>, c_recovery := r\<rparr>)))"

text \<open>What \<open>main\<close> builds: the policy, the lease when election is on, the engine and the recovery loop.\<close>

datatype build_error = NoPolicy new_policy_error | NoLease lease_error | NoEngine string | NoRecovery string

record scheduler_parts =
  sp_policy :: policy
  sp_lease :: "lease option"
  sp_engine :: engine
  sp_recovery :: recovery

definition build_scheduler :: "string option \<Rightarrow> int \<Rightarrow> scheduler_flags \<Rightarrow> config \<Rightarrow> build_error + scheduler_parts" where
  "build_scheduler host pid f c =
     (let s = c_scheduler c; b = new_broker (c_streams c); name = (if sf_consumer f = [] then default_owner host pid else sf_consumer f) in
      case new_policy (sc_policy s) (sc_weights s) (sc_default_weight s) of
        Inl e \<Rightarrow> Inl (NoPolicy e)
      | Inr pol \<Rightarrow>
          (case (if le_enabled (sc_election s) then map_sum id Some (new_lease host pid (lease_options c name)) else Inr None) of
             Inl e \<Rightarrow> Inl (NoLease e)
           | Inr l \<Rightarrow>
               (case new_engine \<lparr>eo_broker = Some b, eo_pol = Some pol, eo_cfg = s, eo_logger = True, eo_metrics = True, eo_consumer = name\<rparr> of
                  Inl e \<Rightarrow> Inl (NoEngine e)
                | Inr en \<Rightarrow>
                    (case new_recovery (Some b) True True (c_recovery c) (name @ ''-recovery'') of
                       Inl e \<Rightarrow> Inl (NoRecovery e)
                     | Inr re \<Rightarrow> Inr \<lparr>sp_policy = pol, sp_lease = l, sp_engine = en, sp_recovery = re\<rparr>))))"

section \<open>The worker, the producer and the benchmark\<close>

record worker_flags =
  wf_name :: string
  wf_concurrency :: int
  wf_metrics_addr :: string
  wf_exec_mode :: string
  wf_fail_rate :: f64
  wf_abandon_rate :: f64

definition flag_rates :: "string \<Rightarrow> f64 \<Rightarrow> f64 \<Rightarrow> worker_cfg \<Rightarrow> worker_cfg" where
  "flag_rates mode fail abandon w =
     override (fle (Fin 0) abandon) (\<lambda>w. w\<lparr>wk_abandon_rate := abandon\<rparr>)
       (override (fle (Fin 0) fail) (\<lambda>w. w\<lparr>wk_fail_rate := fail\<rparr>) (override (mode \<noteq> []) (\<lambda>w. w\<lparr>wk_exec_mode := mode\<rparr>) w))"

definition worker_config :: "(string \<Rightarrow> string + config) \<Rightarrow> common_flags \<Rightarrow> worker_flags \<Rightarrow> cli_error + config" where
  "worker_config load common f =
     (case apply_flags load common of
        Inl e \<Rightarrow> Inl e
      | Inr c \<Rightarrow>
          (let w1 = override (0 < wf_concurrency f) (\<lambda>w. w\<lparr>wk_concurrency := wf_concurrency f\<rparr>)
                 (override (wf_name f \<noteq> []) (\<lambda>w. w\<lparr>wk_name := wf_name f\<rparr>) (c_worker c));
               w2 = override (wf_metrics_addr f \<noteq> []) (\<lambda>w. w\<lparr>wk_metrics_addr := wf_metrics_addr f\<rparr>) w1 in
           checked (c\<lparr>c_worker := flag_rates (wf_exec_mode f) (wf_fail_rate f) (wf_abandon_rate f) w2\<rparr>)))"

record plan_flags =
  pf_kind :: string
  pf_count :: int
  pf_seed :: int
  pf_rate :: f64
  pf_prefix :: string

definition flag_plan :: "plan_flags \<Rightarrow> workload_cfg \<Rightarrow> workload_cfg" where
  "flag_plan f w =
     override (pf_prefix f \<noteq> []) (\<lambda>w. w\<lparr>wl_prefix := pf_prefix f\<rparr>)
       (override (fgt (pf_rate f) (Fin 0)) (\<lambda>w. w\<lparr>wl_rate := pf_rate f\<rparr>)
         (override (0 \<le> pf_seed f) (\<lambda>w. w\<lparr>wl_seed := pf_seed f\<rparr>)
           (override (0 < pf_count f) (\<lambda>w. w\<lparr>wl_count := pf_count f\<rparr>)
             (override (pf_kind f \<noteq> []) (\<lambda>w. w\<lparr>wl_type := pf_kind f\<rparr>) w))))"

definition producer_config :: "(string \<Rightarrow> string + config) \<Rightarrow> common_flags \<Rightarrow> plan_flags \<Rightarrow> cli_error + config" where
  "producer_config load common f =
     (case apply_flags load common of Inl e \<Rightarrow> Inl e | Inr c \<Rightarrow> checked (c\<lparr>c_workload := flag_plan f (c_workload c)\<rparr>))"

text \<open>The benchmark has the flags of the plan but no kind and no prefix.\<close>

definition benchmark_config ::
  "(string \<Rightarrow> string + config) \<Rightarrow> common_flags \<Rightarrow> plan_flags \<Rightarrow> string \<Rightarrow> f64 \<Rightarrow> f64 \<Rightarrow> cli_error + config" where
  "benchmark_config load common f mode fail abandon =
     (case apply_flags load common of
        Inl e \<Rightarrow> Inl e
      | Inr c \<Rightarrow> checked (c\<lparr>c_workload := flag_plan (f\<lparr>pf_kind := [], pf_prefix := []\<rparr>) (c_workload c),
          c_worker := flag_rates mode fail abandon (c_worker c)\<rparr>))"

fun parse_loads :: "string list \<Rightarrow> string + f64 list" where
  "parse_loads [] = Inr []"
| "parse_loads (v # vs) =
     (case parse_float_text v of
        None \<Rightarrow> Inl v
      | Some x \<Rightarrow> (case parse_loads vs of Inl e \<Rightarrow> Inl e | Inr xs \<Rightarrow> Inr (x # xs)))"

definition max_int :: "int \<Rightarrow> int \<Rightarrow> int" where
  "max_int a b = (if b < a then a else b)"

definition redis_version :: "string \<Rightarrow> string" where
  "redis_version reply =
     (case filter (\<lambda>line. has_prefix line ''redis_version:'') (split_on (CHR 0x0A) reply) of
        line # _ \<Rightarrow> trim_space (trim_prefix line ''redis_version:'')
      | [] \<Rightarrow> ''unknown'')"

text \<open>
  The producer after its configuration: plan, dry run, connection, streams, collision check, submission. \<open>ready\<close> is what waiting for Redis
  gives, and the arrivals are those of the plan's tasks.
\<close>

datatype produce_end =
    NoPlan plan_error | DryRun plan_summary | NoRedis | NoStreams berr | SubmissionFailed submit_error submit_stats | Submitted submit_stats

definition produce ::
  "(cmd \<Rightarrow> 's \<Rightarrow> reply \<times> 's) \<Rightarrow> mathlib \<Rightarrow> (int \<Rightarrow> rng) \<Rightarrow> config \<Rightarrow> bool \<Rightarrow> ('s net \<Rightarrow> wait_end \<times> 's net) \<Rightarrow>
   (spec list \<Rightarrow> (spec \<times> arrival) list) \<Rightarrow> time \<Rightarrow> time \<Rightarrow> 's net \<Rightarrow> produce_end \<times> 's net" where
  "produce call ml source c dry ready arrivals start fin w =
     (case generate ml source (c_workload c) of
        Inl e \<Rightarrow> (NoPlan e, w)
      | Inr specs \<Rightarrow>
          if dry then (DryRun (summarise_plan specs), w)
          else
            (case ready w of
               (Reachable, w1) \<Rightarrow>
                 (let b = new_broker (c_streams c) in
                  case ensure_streams call b w1 of
                    (Inl e, w2) \<Rightarrow> (NoStreams e, w2)
                  | (Inr _, w2) \<Rightarrow>
                      (case warn_on_collisions call b specs w2 of
                         (_, w3) \<Rightarrow>
                           (case submit_plan call (new_producer b 128) (arrivals specs) start fin w3 of
                              (Some e, st, w4) \<Rightarrow> (SubmissionFailed e st, w4)
                            | (None, st, w4) \<Rightarrow> (Submitted st, w4))))
             | (_, w1) \<Rightarrow> (NoRedis, w1)))"

end
