(* ===== verification/Tools.thy ===== *)
theory Tools
  imports Cli
begin

text \<open>
  The two programs that look at a queue: \<open>tqctl\<close> (\<open>cmd/tqctl\<close>), which also resets a namespace, and the start of the console (\<open>cmd/console\<close>), which
  resets one in demo mode. The texts they print are their values.
\<close>

section \<open>tqctl\<close>

definition and_then :: "('s, 'e, 'a) go \<Rightarrow> ('a \<Rightarrow> ('s, 'e, 'b) go) \<Rightarrow> ('s, 'e, 'b) go" where
  "and_then m f w = (case m w of (Inl e, w') \<Rightarrow> (Inl e, w') | (Inr a, w') \<Rightarrow> f a w')"

record status_report =
  rp_namespace :: string
  rp_leader :: string
  rp_epoch :: int
  rp_expires_s :: f64
  rp_pending :: int
  rp_in_flight :: int
  rp_unacked :: int
  rp_dead :: int
  rp_oldest_s :: f64
  rp_counters :: "int go_map"
  rp_service :: "int go_map"
  rp_completed :: "int go_map"
  rp_held :: bool

text \<open>\<open>now\<close> is the clock when the waiting time of the oldest task is taken.\<close>

definition queue_report :: "(cmd \<Rightarrow> 's \<Rightarrow> reply \<times> 's) \<Rightarrow> broker \<Rightarrow> time \<Rightarrow> ('s, berr, status_report) go" where
  "queue_report call b now =
     and_then (stats call b) (\<lambda>counters.
     and_then (pending_count call b) (\<lambda>pending.
     and_then (in_flight call b) (\<lambda>flight.
     and_then (exec_pending call b) (\<lambda>unacked.
     and_then (dead_letter_count call b) (\<lambda>dead.
     and_then (tenant_service call b) (\<lambda>(service, counts).
     and_then (oldest_pending_submit call b) (\<lambda>oldest.
     and_then (leadership call b) (\<lambda>lead w.
       (Inr
         \<lparr>rp_namespace = k_namespace (b_keys b), rp_leader = (case lead of Some l \<Rightarrow> l_owner l | None \<Rightarrow> []),
          rp_epoch = (case lead of Some l \<Rightarrow> l_epoch l | None \<Rightarrow> 0),
          rp_expires_s = (case lead of Some l \<Rightarrow> dur_seconds (l_ttl_ms l * millisecond) | None \<Rightarrow> Fin 0),
          rp_pending = pending, rp_in_flight = flight, rp_unacked = unacked, rp_dead = dead,
          rp_oldest_s = (case oldest of Some t \<Rightarrow> dur_seconds (time_sub now t) | None \<Rightarrow> Fin 0),
          rp_counters = counters, rp_service = service, rp_completed = counts, rp_held = (lead \<noteq> None)\<rparr>, w)))))))))"

text \<open>The tables: counters by name, and one row for every tenant of either map, by name.\<close>

definition counter_rows :: "int go_map \<Rightarrow> (string \<times> int) list" where
  "counter_rows m = map (\<lambda>k. (k, map_get 0 m k)) (sort (remdups (map fst m)))"

definition tenant_lines :: "int go_map \<Rightarrow> int go_map \<Rightarrow> (string \<times> int \<times> int) list" where
  "tenant_lines service counts =
     map (\<lambda>t. (t, map_get 0 counts t, map_get 0 service t)) (sort (remdups (map fst service @ map fst counts)))"

definition list_dead :: "(cmd \<Rightarrow> 's \<Rightarrow> reply \<times> 's) \<Rightarrow> broker \<Rightarrow> int \<Rightarrow> ('s, berr, dead_letter list) go" where
  "list_dead call b n w =
     (case read_dead_letters call b n w of ((_, Some e), w') \<Rightarrow> (Inl e, w') | ((ds, None), w') \<Rightarrow> (Inr ds, w'))"

definition dead_row :: "dead_letter \<Rightarrow> string \<times> string \<times> int \<times> string \<times> time \<times> string" where
  "dead_row d = (t_id (d_task d), t_tenant (d_task d), d_attempts d, d_last_attempt d, d_failed_at d, d_reason d)"

text \<open>\<open>main\<close>: a subcommand, the flags, and the end of the program. Only the three subcommands parse flags.\<close>

datatype tqctl_end =
    BadUsage | Help | ConfigRejected cli_error | Unreached berr | StatusFailed berr | Status status_report | DeadFailed berr
  | DeadList "dead_letter list" | ResetRefused string | ResetFailed berr | Cleared string

definition run_sub ::
  "(cmd \<Rightarrow> 's \<Rightarrow> reply \<times> 's) \<Rightarrow> broker \<Rightarrow> string \<Rightarrow> int \<Rightarrow> bool \<Rightarrow> time \<Rightarrow> 's net \<Rightarrow> tqctl_end \<times> 's net" where
  "run_sub call b sub limit confirmed now w =
     (if sub = ''status'' then
        (case queue_report call b now w of (Inl e, w') \<Rightarrow> (StatusFailed e, w') | (Inr r, w') \<Rightarrow> (Status r, w'))
      else if sub = ''dlq'' then
        (case list_dead call b limit w of (Inl e, w') \<Rightarrow> (DeadFailed e, w') | (Inr ds, w') \<Rightarrow> (DeadList ds, w'))
      else if \<not> confirmed then (ResetRefused (k_namespace (b_keys b)), w)
      else (case reset_ns call b w of (Inl e, w') \<Rightarrow> (ResetFailed e, w') | (Inr _, w') \<Rightarrow> (Cleared (k_namespace (b_keys b)), w')))"

definition tqctl ::
  "(cmd \<Rightarrow> 's \<Rightarrow> reply \<times> 's) \<Rightarrow> (string \<Rightarrow> string + config) \<Rightarrow> string option \<Rightarrow> common_flags \<Rightarrow> int \<Rightarrow> bool \<Rightarrow> time \<Rightarrow> 's net \<Rightarrow>
   tqctl_end \<times> 's net" where
  "tqctl call load sub f limit confirmed now w =
     (case sub of
        None \<Rightarrow> (BadUsage, w)
      | Some s \<Rightarrow>
          if s \<in> set [''-h'', ''--help'', ''help''] then (Help, w)
          else if s \<notin> set [''status'', ''dlq'', ''reset''] then (BadUsage, w)
          else
            (case apply_flags load f of
               Inl e \<Rightarrow> (ConfigRejected e, w)
             | Inr c \<Rightarrow>
                 (case ping call w of
                    (Inl e, w1) \<Rightarrow> (Unreached e, w1)
                  | (Inr _, w1) \<Rightarrow> run_sub call (new_broker (c_streams c)) s limit confirmed now w1)))"

section \<open>The console\<close>

definition demo_prefix :: string where
  "demo_prefix = ''tq-console''"

definition parse_target :: "string \<Rightarrow> string + target" where
  "parse_target part =
     (case go_cut (CHR ''='') (trim_space part) of
        None \<Rightarrow> Inl part
      | Some (name, url) \<Rightarrow>
          if name = [] \<or> \<not> has_prefix url ''http://'' then Inl part
          else Inr \<lparr>tg_name = name, tg_role = (if has_prefix name ''sched'' then ''scheduler'' else ''worker''), tg_url = trim_right (CHR ''/'') url\<rparr>)"

fun parse_parts :: "string list \<Rightarrow> string + target list" where
  "parse_parts [] = Inr []"
| "parse_parts (part # rest) =
     (case parse_target part of
        Inl e \<Rightarrow> Inl e
      | Inr t \<Rightarrow> (case parse_parts rest of Inl e \<Rightarrow> Inl e | Inr ts' \<Rightarrow> Inr (t # ts')))"

definition parse_targets :: "string \<Rightarrow> string + target list" where
  "parse_targets s =
     (if s = []
      then Inr [\<lparr>tg_name = ''scheduler'', tg_role = ''scheduler'', tg_url = ''http://127.0.0.1:9101''\<rparr>,
                \<lparr>tg_name = ''scheduler-standby'', tg_role = ''scheduler'', tg_url = ''http://127.0.0.1:9103''\<rparr>]
      else parse_parts (split_on (CHR '','') s))"

record console_flags =
  kf_listen :: string
  kf_poll :: duration
  kf_targets :: string
  kf_origins :: string
  kf_demo :: bool
  kf_faults :: bool
  kf_cluster :: sup_options

datatype console_error =
    FaultsNeedDemo | NotLocal listen_error | NotDemoNamespace string | ConsoleConfig cli_error | RedisUnreached wait_end
  | ListenFailed | ResetDemo berr | CreateStreams berr | NoCluster sup_error | StartFailed sup_error | BadTarget string

text \<open>The checks before anything is contacted: the loopback hosts and the configuration.\<close>

definition console_config ::
  "(string \<Rightarrow> string + string \<times> string) \<Rightarrow> (string \<Rightarrow> bool) \<Rightarrow> (string \<Rightarrow> string + config) \<Rightarrow> common_flags \<Rightarrow> console_flags \<Rightarrow>
   console_error + string list \<times> config" where
  "console_config split loop load common f =
     (if kf_faults f \<and> \<not> kf_demo f then Inl FaultsNeedDemo
      else case loopback_hosts split loop (kf_listen f) of
        Inl e \<Rightarrow> Inl (NotLocal e)
      | Inr hosts \<Rightarrow>
          (let common1 = (if kf_demo f \<and> cf_namespace common = [] then common\<lparr>cf_namespace := demo_prefix @ ''-demo''\<rparr> else common) in
           if kf_demo f \<and> \<not> has_prefix (cf_namespace common1) demo_prefix then Inl (NotDemoNamespace (cf_namespace common1))
           else case apply_flags load common1 of Inl e \<Rightarrow> Inl (ConsoleConfig e) | Inr c \<Rightarrow> Inr (hosts, c)))"

text \<open>
  What is started: in demo mode the namespace is reset and the cluster built. \<open>launches\<close> is how the processes start, given the supervisor.
\<close>

definition start_demo ::
  "(cmd \<Rightarrow> 's \<Rightarrow> reply \<times> 's) \<Rightarrow> (string \<Rightarrow> string \<Rightarrow> sup_error + string) \<Rightarrow> (supervisor \<Rightarrow> (string \<times> sup_error option \<times> (string + int)) list) \<Rightarrow>
   broker \<Rightarrow> config \<Rightarrow> sup_options \<Rightarrow> time \<Rightarrow> ('s, console_error, supervisor \<times> submitter) go" where
  "start_demo call resolve_bin launches b c cluster now w =
     (case reset_ns call b w of
        (Inl e, w1) \<Rightarrow> (Inl (ResetDemo e), w1)
      | (Inr _, w1) \<Rightarrow>
          (case ensure_streams call b w1 of
             (Inl e, w2) \<Rightarrow> (Inl (CreateStreams e), w2)
           | (Inr _, w2) \<Rightarrow>
               (case new_supervisor resolve_bin (cluster\<lparr>so_redis := rc_addr (c_redis c), so_namespace := s_namespace (c_streams c)\<rparr>) of
                  Inl e \<Rightarrow> (Inl (NoCluster e), w2)
                | Inr s \<Rightarrow>
                    (case start_all (launches s) now s of
                       (Some e, _) \<Rightarrow> (Inl (StartFailed e), w2)
                     | (None, s1) \<Rightarrow> (Inr (s1, new_submitter (slots s1)), w2)))))"

record console_app =
  ka_console :: console
  ka_server :: server
  ka_supervisor :: "supervisor option"
  ka_submitter :: "submitter option"

text \<open>\<open>WaitReady\<close> without the list of its waits.\<close>

definition wait_redis ::
  "(cmd \<Rightarrow> 's \<Rightarrow> reply \<times> 's) \<Rightarrow> nat \<Rightarrow> duration \<Rightarrow> time \<Rightarrow> (nat \<Rightarrow> time) \<Rightarrow> (nat \<Rightarrow> bool) \<Rightarrow> (nat \<Rightarrow> bool) \<Rightarrow>
   's net \<Rightarrow> wait_end \<times> 's net" where
  "wait_redis call fuel timeout start clock ended ended_waiting w =
     (case wait_ready call fuel timeout start clock ended ended_waiting w of (r, _, w') \<Rightarrow> (r, w'))"

text \<open>\<open>token\<close> is a fresh random text, \<open>bound\<close> whether the address could be bound, \<open>has_page\<close> whether a built frontend was found.\<close>

definition start_console ::
  "(cmd \<Rightarrow> 's \<Rightarrow> reply \<times> 's) \<Rightarrow> (string \<Rightarrow> string + string \<times> string) \<Rightarrow> (string \<Rightarrow> bool) \<Rightarrow> (string \<Rightarrow> string + config) \<Rightarrow>
   (string \<Rightarrow> string \<Rightarrow> sup_error + string) \<Rightarrow> (supervisor \<Rightarrow> (string \<times> sup_error option \<times> (string + int)) list) \<Rightarrow>
   common_flags \<Rightarrow> console_flags \<Rightarrow> ('s net \<Rightarrow> wait_end \<times> 's net) \<Rightarrow> bool \<Rightarrow> string \<Rightarrow> bool \<Rightarrow> time \<Rightarrow> ('s, console_error, console_app) go" where
  "start_console call split loop load resolve_bin launches common f ready bound token has_page now w =
     (case console_config split loop load common f of
        Inl e \<Rightarrow> (Inl e, w)
      | Inr (hosts, c) \<Rightarrow>
          (case ready w of
             (Reachable, w1) \<Rightarrow>
               if \<not> bound then (Inl ListenFailed, w1)
               else
                 (let b = new_broker (c_streams c);
                      extra = (if kf_origins f = [] then [] else split_on (CHR '','') (kf_origins f));
                      app = (\<lambda>mode tok tgs sup sub.
                        \<lparr>ka_console = new_console b tgs (kf_poll f) 0 (Some (new_event_log 300)),
                         ka_server = new_server mode (kf_faults f) tok hosts extra has_page (kf_poll f) now,
                         ka_supervisor = sup, ka_submitter = sub\<rparr>) in
                  if kf_demo f
                  then
                    (case start_demo call resolve_bin launches b c (kf_cluster f) now w1 of
                       (Inl e, w2) \<Rightarrow> (Inl e, w2)
                     | (Inr (s, sub), w2) \<Rightarrow> (Inr (app ''demo'' token (targets s) (Some s) (Some sub)), w2))
                  else
                    (case parse_targets (kf_targets f) of
                       Inl e \<Rightarrow> (Inl (BadTarget e), w1)
                     | Inr tgs \<Rightarrow> (Inr (app ''monitor'' [] tgs None None), w1)))
           | (r, w1) \<Rightarrow> (Inl (RedisUnreached r), w1)))"

end
