(* ===== verification/ToolsProps.thy ===== *)
theory ToolsProps
  imports ConfigProps ServerProps Tools
begin

text \<open>
  What the programs do before and besides their work: a configuration is checked after every flag, what is checked can be built, and only
  what was asked for is reset.
\<close>

section \<open>Flags\<close>

lemma checked_ok: "checked c = Inr c' \<longleftrightarrow> c' = c \<and> validate c = []"
  by (auto simp: checked_def)

lemma apply_flags_ok: "apply_flags load f = Inr c \<longleftrightarrow> (\<exists>c0. load (cf_config f) = Inr c0 \<and> c = flag_config f c0 \<and> validate c = [])"
  by (auto simp: apply_flags_def checked_ok split: sum.splits)

lemma scheduler_config_ok: "scheduler_config load common f = Inr c \<Longrightarrow> validate c = []"
  by (auto simp: scheduler_config_def checked_ok Let_def split: sum.splits)

definition namespace_flag :: "common_flags \<Rightarrow> config \<Rightarrow> bool" where
  "namespace_flag f c \<longleftrightarrow> (cf_namespace f \<noteq> [] \<longrightarrow> s_namespace (c_streams c) = cf_namespace f)"

lemma apply_flags_namespace: "apply_flags load f = Inr c \<Longrightarrow> namespace_flag f c"
  by (auto simp: apply_flags_ok flag_config_def override_def namespace_flag_def)

text \<open>
  What passes the check can be built. Whatever the file and the flags say, once the scheduler's command line is accepted its policy, its
  engine and its recovery loop can be built, and its lease when election is on, on the two lease keys of the namespace, renewing before it
  expires; the name of the namespace is the flag's. Only the replicas to wait for are checked no further than Sentinel is enabled.
\<close>

theorem accepted_scheduler_builds:
  assumes "scheduler_config load common f = Inr c" "0 \<le> sn_wait (rc_sentinel (c_redis c))"
  shows "namespace_flag common c \<and> (\<exists>p. build_scheduler host pid f c = Inr p \<and> pol_name (sp_policy p) = sc_policy (c_scheduler c) \<and>
    en_broker (sp_engine p) = new_broker (c_streams c) \<and>
    (case sp_lease p of
       None \<Rightarrow> \<not> le_enabled (sc_election (c_scheduler c))
     | Some l \<Rightarrow> 0 < ls_renew l \<and> ls_renew l < ls_ttl l \<and> lease_on (new_keys (c_streams c)) l))"
proof -
  have v: "validate c = []" using scheduler_config_ok [OF assms(1)] .
  have n: "namespace_flag common c"
    using assms(1) apply_flags_namespace by (force simp: scheduler_config_def checked_ok Let_def namespace_flag_def split: sum.splits)
  obtain p where p: "new_policy (sc_policy (c_scheduler c)) (sc_weights (c_scheduler c)) (sc_default_weight (c_scheduler c)) = Inr p"
    "pol_name p = sc_policy (c_scheduler c)"
    using policy_builds [OF v] by blast
  let ?name = "if sf_consumer f = [] then default_owner host pid else sf_consumer f"
  have name: "?name \<noteq> []"
    by (simp add: default_owner_def)
  show ?thesis
  proof (cases "le_enabled (sc_election (c_scheduler c))")
    case True
    obtain l where "new_lease host pid (lease_options c ?name) = Inr l" "0 < ls_renew l" "ls_renew l < ls_ttl l" "lease_on (new_keys (c_streams c)) l"
      using lease_builds [OF v True assms(2)] by blast
    then show ?thesis
      using n p name True by (simp add: build_scheduler_def Let_def new_engine_def new_recovery_def)
  next
    case False
    then show ?thesis
      using n p name by (simp add: build_scheduler_def Let_def new_engine_def new_recovery_def)
  qed
qed

text \<open>The default flags, with the policy given.\<close>

definition demo_scheduler_flags :: scheduler_flags where
  "demo_scheduler_flags =
     \<lparr>sf_policy = ''wfq'', sf_metrics_addr = [], sf_consumer = [], sf_max_in_flight = - 1, sf_recovery = True, sf_election = [], sf_ttl = 0, sf_renew = 0\<rparr>"

theorem accepted_scheduler_builds_witness:
  "\<exists>c p. scheduler_config (\<lambda>_. Inr default_config) (flag_defaults (\<lambda>_. [])) demo_scheduler_flags = Inr c \<and> sc_policy (c_scheduler c) = ''wfq'' \<and>
    build_scheduler None 1 demo_scheduler_flags c = Inr p \<and> pol_name (sp_policy p) = ''wfq''"
proof -
  let ?c = "default_config\<lparr>c_scheduler := (c_scheduler default_config)\<lparr>sc_policy := ''wfq''\<rparr>\<rparr>"
  have "validate ?c = []"
    by (rule validate_policy_update [OF default_valid]) (simp add: valid_policy_cases)
  then have c: "scheduler_config (\<lambda>_. Inr default_config) (flag_defaults (\<lambda>_. [])) demo_scheduler_flags = Inr ?c"
    using default_valid
    by (simp add: scheduler_config_def apply_flags_def checked_def flag_defaults_def env_or_def demo_scheduler_flags_def flag_config_def flag_redis_def
        flag_sentinel_def flag_election_def override_def Let_def)
  show ?thesis
    using accepted_scheduler_builds [OF c, of None 1] c by (auto simp: default_config_def)
qed

section \<open>What a program does to the keys\<close>

context redis
begin

lemma send_frame:
  assumes "\<And>s. P (view s) \<Longrightarrow> P (view (after call c s))" "P (view (n_db w))"
  shows "P (view (n_db (snd (send (rcall call c) w))))"
  using send_inv(1) [of "\<lambda>s. P (view s)" "rcall call c" w] assms by (simp add: rcall_snd)

lemma ping_frame: "view (n_db (snd (send (rcall call PING) w))) = view (n_db w)"
  by (rule send_frame) (use doc_after [of PING] in auto)

lemma ping_keeps: "ping call w = (r, w') \<Longrightarrow> view (n_db w') = view (n_db w)"
  using ping_frame [of w] by (auto simp: ping_def split: prod.splits sum.splits)

lemma wait_loop_keeps: "wait_loop call fuel deadline clock ended ended_waiting k b w = (r, ds, w') \<Longrightarrow> view (n_db w') = view (n_db w)"
proof (induction fuel arbitrary: k b w r ds w')
  case (Suc fuel)
  obtain x w1 where x: "send (rcall call PING) w = (x, w1)" by (metis surj_pair)
  then have "view (n_db w1) = view (n_db w)" using ping_frame [of w] by simp
  then show ?case
    using Suc x by (auto split: sum.splits if_splits prod.splits)
qed simp

lemma wait_redis_keeps: "wait_redis call fuel timeout start clock ended ended_waiting w = (r, w') \<Longrightarrow> view (n_db w') = view (n_db w)"
  using wait_loop_keeps ping_frame [of w] by (auto simp: wait_redis_def wait_ready_def split: prod.splits sum.splits if_splits)

lemma reset_frame:
  assumes "reset_ns call b w = (r, w')"
  shows "\<forall>k. k \<notin> set (all_keys (b_keys b)) \<longrightarrow> view (n_db w') k = view (n_db w) k"
    "r = Inr () \<Longrightarrow> \<forall>k \<in> set (all_keys (b_keys b)). view (n_db w') k = None"
proof -
  let ?c = "DEL (all_keys (b_keys b))"
  have "\<forall>k. k \<notin> set (all_keys (b_keys b)) \<longrightarrow> view (n_db (snd (send (rcall call ?c) w))) k = view (n_db w) k"
    by (rule send_frame) (simp_all add: run_DEL(2))
  then show "\<forall>k. k \<notin> set (all_keys (b_keys b)) \<longrightarrow> view (n_db w') k = view (n_db w) k"
    using assms by (auto simp: reset_ns_def split: prod.splits sum.splits)
  assume "r = Inr ()"
  then obtain x where "send (rcall call ?c) w = (Inr x, w')"
    using assms by (auto simp: reset_ns_def split: prod.splits sum.splits)
  then obtain s where "rcall call ?c s = (Inr x, n_db w')"
    by (auto simp: send_def split: prod.splits delivery.splits sum.splits)
  then have "n_db w' = after call ?c s"
    using rcall_snd [of call ?c s] by simp
  then show "\<forall>k \<in> set (all_keys (b_keys b)). view (n_db w') k = None"
    by (simp add: run_DEL(2))
qed

lemma reset_answered: "n_faults w = [] \<Longrightarrow> \<exists>w'. reset_ns call b w = (Inr (), w')"
  using run_DEL(1) [of "all_keys (b_keys b)" "n_db w"] by (auto simp: reset_ns_def send_def next_fault_def)

lemma groups_frame:
  "ensure_groups call gs w = (r, w') \<Longrightarrow> \<forall>k \<in> fst ` set gs. is_stream (view (n_db w)) k \<Longrightarrow>
   \<forall>k. k \<notin> fst ` set gs \<longrightarrow> view (n_db w') k = view (n_db w) k"
proof (induction gs arbitrary: w)
  case (Cons g gs)
  obtain k n where g: "g = (k, n)" by (cases g)
  define P where "P d \<longleftrightarrow> (\<forall>j. j \<noteq> k \<longrightarrow> d j = view (n_db w) j) \<and> is_stream d k" for d
  have "P (view (after call (XGROUP_CREATE k n) s))" if "P (view s)" for s
    using doc_after [of "XGROUP_CREATE k n" s] that by (auto simp: P_def put_stream_def is_stream_def split: if_splits)
  moreover have "P (view (n_db w))"
    using Cons.prems(2) g by (simp add: P_def)
  ultimately have "P (view (n_db (snd (send (rcall call (XGROUP_CREATE k n)) w))))"
    by (rule send_frame)
  then obtain x w1 where x: "send (rcall call (XGROUP_CREATE k n)) w = (x, w1)" "\<forall>j. j \<noteq> k \<longrightarrow> view (n_db w1) j = view (n_db w) j"
    "is_stream (view (n_db w1)) k"
    unfolding P_def by (cases "send (rcall call (XGROUP_CREATE k n)) w") auto
  have streams: "\<forall>j \<in> fst ` set gs. is_stream (view (n_db w1)) j"
  proof
    fix j assume "j \<in> fst ` set gs"
    then have "is_stream (view (n_db w)) j" using Cons.prems(2) by auto
    then show "is_stream (view (n_db w1)) j" using x(2,3) by (cases "j = k") (simp_all add: is_stream_def)
  qed
  have "w' = w1 \<or> ensure_groups call gs w1 = (r, w')"
    using Cons.prems(1) x(1) g by (auto split: sum.splits if_splits)
  then show ?case
  proof
    assume "w' = w1"
    then show ?thesis using x(2) g by simp
  next
    assume "ensure_groups call gs w1 = (r, w')"
    from Cons.IH [OF this streams] show ?thesis using x(2) g by simp
  qed
qed simp

end

context queue_store
begin

lemma quiet_and_then:
  assumes "\<And>w. quiet call view b H w (snd (m w))" "\<And>a w. quiet call view b H w (snd (f a w))"
  shows "quiet call view b H w (snd (and_then m f w))"
proof (cases "m w")
  case (Pair r w1)
  then have "quiet call view b H w w1" using assms(1) [of w] by simp
  then show ?thesis
    using Pair quiet_trans [OF _ assms(2)] by (cases r) (simp_all add: and_then_def)
qed

lemma quiet_report:
  assumes "b_keys b = ks"
  shows "quiet call view b H w (snd (queue_report call b now w))"
  unfolding queue_report_def
  by (intro quiet_and_then quiet_queries [OF assms] quiet_tenant_service [OF assms])
    (auto intro!: quiet_and_then quiet_queries [OF assms] quiet_leadership [OF assms] split: prod.splits)

lemma quiet_dead:
  assumes "b_keys b = ks"
  shows "quiet call view b H w (snd (list_dead call b n w))"
proof -
  have k: "key b f = k_name ks f" for f by (simp add: key_def assms)
  have m: "DeadLetter \<in> {Exec, Results, DeadLetter}" by simp
  show ?thesis
    by (auto simp: list_dead_def read_dead_letters_def k split: prod.splits sum.splits option.splits
        dest!: quiet_range_query [OF assms m, where H = H])
qed

end

text \<open>
  C17: \<open>tqctl\<close> changes only what it is told to. Whatever its arguments and whatever happens to its requests, on a reachable queue no key changes
  unless the subcommand is \<open>reset\<close> and was confirmed, and then no key but those of the namespace, and of these neither the fence nor the
  epoch counter.
\<close>

theorem tqctl_only_resets:
  assumes "redis call view" "\<forall>c. apply_flags load f = Inr c \<longrightarrow> keys_ok (new_keys (c_streams c)) \<and> reach call view (new_broker (c_streams c)) w H"
    and "tqctl call load sub f limit confirmed now w = (r, w')" "view (n_db w') k \<noteq> view (n_db w) k"
  shows "sub = Some ''reset'' \<and> confirmed \<and>
    (\<exists>c g. apply_flags load f = Inr c \<and> k = k_name (new_keys (c_streams c)) g \<and> g \<noteq> Fence \<and> g \<noteq> LeaderEpoch)"
proof -
  have "w' \<noteq> w" using assms(4) by blast
  then obtain s c x w1 where s: "sub = Some s" "s \<in> {''status'', ''dlq'', ''reset''}" "apply_flags load f = Inr c" "ping call w = (x, w1)"
    "w' = w1 \<or> run_sub call (new_broker (c_streams c)) s limit confirmed now w1 = (r, w')"
    using assms(3) by (auto simp: tqctl_def split: option.splits if_splits sum.splits prod.splits)
  let ?b = "new_broker (c_streams c)"
  have b: "b_keys ?b = new_keys (c_streams c)" by (simp add: new_broker_def)
  have q: "keys_ok (new_keys (c_streams c))" "reach call view ?b w H" using assms(2) s(3) by simp_all
  note Q = queue_storeI [OF assms(1) q(1)]
  have "quiet call view ?b H w w1"
    using queue_store.quiet_queries(1) [OF Q b, of H w] s(4) by simp
  then have w1: "reach call view ?b w1 H" "view (n_db w1) = view (n_db w)"
    using q(2) by (simp_all add: quiet_def)
  then have run: "run_sub call ?b s limit confirmed now w1 = (r, w')"
    using s(5) assms(4) by auto
  have same: "view (n_db w') = view (n_db w)" if "quiet call view ?b H w1 w'"
    using that w1 by (simp add: quiet_def)
  have "s \<noteq> ''status''"
    using run same queue_store.quiet_report [OF Q b, of H w1 now] assms(4) by (auto simp: run_sub_def split: prod.splits sum.splits)
  moreover have "s \<noteq> ''dlq''"
    using run same queue_store.quiet_dead [OF Q b, of H w1 limit] assms(4) by (auto simp: run_sub_def split: prod.splits sum.splits)
  ultimately have "s = ''reset''" using s(2) by simp
  moreover from this run w1 assms(4) have confirmed by (auto simp: run_sub_def split: if_splits)
  moreover from calculation run obtain y where "reset_ns call ?b w1 = (y, w')" by (auto simp: run_sub_def split: prod.splits sum.splits)
  then have "k \<in> set (all_keys (new_keys (c_streams c)))"
    using redis.reset_frame(1) [OF assms(1)] w1(2) assms(4) b by metis
  ultimately show ?thesis
    using s(1,3) by (auto simp: all_keys_def reset_fields_spec)
qed

theorem tqctl_only_resets_witness:
  "\<exists>r w'. tqctl mem_call (\<lambda>_. Inr (default_config\<lparr>c_streams := demo_streams\<rparr>)) (Some ''reset'') (flag_defaults (\<lambda>_. [])) 50 True 0 demo2 = (r, w') \<and>
    mem_view (n_db w') ''tq:payloads'' \<noteq> mem_view (n_db demo2) ''tq:payloads'' \<and> mem_view (n_db w') ''tq:fence'' = mem_view (n_db demo2) ''tq:fence''"
proof -
  let ?load = "\<lambda>_. Inr (default_config\<lparr>c_streams := demo_streams\<rparr>) :: string + config" and ?f = "flag_defaults (\<lambda>_. [])"
  obtain r w' where run: "tqctl mem_call ?load (Some ''reset'') ?f 50 True 0 demo2 = (r, w')" by (metis surj_pair)
  have "validate (default_config\<lparr>c_streams := demo_streams\<rparr>) = []"
    by (rule validate_streams_update [OF default_valid]) (simp add: validate_streams_def demo_streams_def has_space_def)
  then have flags: "apply_flags ?load ?f = Inr (default_config\<lparr>c_streams := demo_streams\<rparr>)"
    by (simp add: apply_flags_def checked_def flag_defaults_def env_or_def flag_config_def flag_redis_def flag_sentinel_def override_def)
  then have ok: "\<forall>c. apply_flags ?load ?f = Inr c \<longrightarrow>
      keys_ok (new_keys (c_streams c)) \<and> reach mem_call mem_view (new_broker (c_streams c)) demo2 {}"
    using demo_keys demo2_reach by (simp add: demo_broker_def new_broker_def)
  have "''tq:fence'' = k_name (new_keys demo_streams) Fence"
    by code_simp
  then have "g = Fence" if "''tq:fence'' = k_name (new_keys demo_streams) g" for g
    using that demo_keys by (simp add: demo_broker_def new_broker_def k_name_eq)
  then have "mem_view (n_db w') ''tq:fence'' = mem_view (n_db demo2) ''tq:fence''"
    using tqctl_only_resets [OF demo_redis ok run, of "''tq:fence''"] flags by fastforce
  moreover have "mem_view (n_db w') ''tq:payloads'' \<noteq> mem_view (n_db demo2) ''tq:payloads''"
  proof -
    have ping: "ping mem_call demo2 = (Inr (), demo2)"
      unfolding demo2_val by code_simp
    have b: "new_broker demo_streams = demo_broker" by (simp add: demo_broker_def)
    obtain w1 where reset: "reset_ns mem_call demo_broker demo2 = (Inr (), w1)"
      using redis.reset_answered [OF demo_redis, of demo2 demo_broker] by (auto simp: demo2_val demo_mem_def)
    then have w1: "w' = w1"
      using run by (simp add: tqctl_def flags ping run_sub_def b)
    have "''tq:payloads'' \<in> set (all_keys (b_keys demo_broker))"
      by code_simp
    from bspec [OF redis.reset_frame(2) [OF demo_redis reset refl] this] have "mem_view (n_db w') ''tq:payloads'' = None"
      by (simp only: w1)
    moreover have "mem_view (n_db demo2) ''tq:payloads'' \<noteq> None"
      by (simp add: demo2_val demo_mem_def demo_payloads_def)
    ultimately show ?thesis by metis
  qed
  ultimately show ?thesis using run by blast
qed

text \<open>
  C18: the console resets only a demo namespace. Whatever the flags, the environment and the configuration file say and whatever happens to the
  requests, starting the console in monitor mode changes no key, and in demo mode only keys that begin with \<open>tq-console\<close>; asked to
  demo any other namespace it sends nothing.
\<close>

theorem console_resets_only_demo:
  assumes "redis call view" "start_console call split loop load resolve_bin launches common f
      (wait_redis call fuel timeout start clock ended ended_waiting) bound token has_page now w = (r, w')"
  shows "(\<not> kf_demo f \<longrightarrow> view (n_db w') = view (n_db w)) \<and> (\<forall>k. view (n_db w') k \<noteq> view (n_db w) k \<longrightarrow> has_prefix k demo_prefix) \<and>
    (kf_demo f \<and> cf_namespace common \<noteq> [] \<and> \<not> has_prefix (cf_namespace common) demo_prefix \<longrightarrow> w' = w)"
proof (cases "console_config split loop load common f")
  case (Inl e)
  then show ?thesis using assms(2) by (simp add: start_console_def)
next
  case (Inr x)
  obtain hosts c where x: "x = (hosts, c)" by (cases x)
  let ?b = "new_broker (c_streams c)"
  have named: "has_prefix (s_namespace (c_streams c)) demo_prefix \<and> (cf_namespace common = [] \<or> has_prefix (cf_namespace common) demo_prefix)"
    if "kf_demo f"
    using Inr that apply_flags_namespace unfolding x
    by (fastforce simp: console_config_def namespace_flag_def demo_prefix_def Let_def split: sum.splits if_splits)
  obtain y w1 where y: "wait_redis call fuel timeout start clock ended ended_waiting w = (y, w1)" by (metis surj_pair)
  note w1 = redis.wait_redis_keeps [OF assms(1) y]
  have "w' = w1 \<or> kf_demo f \<and> (\<exists>z. start_demo call resolve_bin launches ?b c (kf_cluster f) now w1 = (z, w'))"
    using assms(2) Inr y unfolding x
    by (auto simp: start_console_def Let_def split: wait_end.splits if_splits sum.splits prod.splits)
  then show ?thesis
  proof
    assume "w' = w1"
    then show ?thesis using w1 named by auto
  next
    assume d: "kf_demo f \<and> (\<exists>z. start_demo call resolve_bin launches ?b c (kf_cluster f) now w1 = (z, w'))"
    then obtain v w2 where v: "reset_ns call ?b w1 = (v, w2)" "w' = w2 \<or> v = Inr () \<and> (\<exists>u. ensure_streams call ?b w2 = (u, w'))"
      by (auto simp: start_demo_def split: sum.splits prod.splits option.splits)
    have pre: "has_prefix (key ?b g) demo_prefix" for g
      using named d by (auto simp: key_def new_broker_def k_name_suffix has_prefix_iff)
    have own: "k \<in> set (all_keys (b_keys ?b)) \<Longrightarrow> has_prefix k demo_prefix" for k
      using pre by (auto simp: all_keys_def key_def)
    have w2: "\<forall>k. \<not> has_prefix k demo_prefix \<longrightarrow> view (n_db w2) k = view (n_db w1) k"
      using redis.reset_frame(1) [OF assms(1) v(1)] own by blast
    have "\<forall>k. \<not> has_prefix k demo_prefix \<longrightarrow> view (n_db w') k = view (n_db w2) k"
      using v(2)
    proof
      assume "v = Inr () \<and> (\<exists>u. ensure_streams call ?b w2 = (u, w'))"
      then obtain u where u: "v = Inr ()" "ensure_streams call ?b w2 = (u, w')" by blast
      have "view (n_db w2) (key ?b g) = None" if "g \<in> {Ingress, Exec}" for g
        using redis.reset_frame(2) [OF assms(1) v(1) u(1)] that by (auto simp: all_keys_def reset_fields_def key_def)
      then have "\<forall>k \<in> fst ` set [(key ?b Ingress, k_sched_group (b_keys ?b)), (key ?b Exec, k_worker_group (b_keys ?b))]. is_stream (view (n_db w2)) k"
        by (simp add: is_stream_def)
      from redis.groups_frame [OF assms(1) u(2) [unfolded ensure_streams_def] this] show ?thesis
        using pre by simp metis
    qed simp
    then show ?thesis
      using w1 w2 named d by metis
  qed
qed

definition demo_console_flags :: console_flags where
  "demo_console_flags =
     \<lparr>kf_listen = ''127.0.0.1:8088'', kf_poll = second, kf_targets = [], kf_origins = [], kf_demo = True, kf_faults = True,
      kf_cluster = \<lparr>so_bin = ''bin'', so_redis = [], so_namespace = [], so_policy = ''wfq'', so_schedulers = 2, so_workers = 2, so_concurrency = 4,
        so_ttl = 5 * second, so_renew = 1500 * millisecond, so_port = 19501\<rparr>\<rparr>"

theorem console_resets_only_demo_witness:
  "\<exists>r w'. start_console mem_call (\<lambda>_. Inr (''127.0.0.1'', ''8088'')) (\<lambda>_. True) (\<lambda>_. Inr default_config) (\<lambda>_ _. Inr []) (\<lambda>_. [])
      (flag_defaults (\<lambda>_. [])) demo_console_flags (wait_redis mem_call 1 0 0 (\<lambda>_. 0) (\<lambda>_. False) (\<lambda>_. False)) True ''t'' False 0 demo2 = (r, w') \<and>
    mem_view (n_db w') ''tq:payloads'' = mem_view (n_db demo2) ''tq:payloads'' \<and> kf_demo demo_console_flags"
proof -
  let ?c = "start_console mem_call (\<lambda>_. Inr (''127.0.0.1'', ''8088'')) (\<lambda>_. True) (\<lambda>_. Inr default_config) (\<lambda>_ _. Inr []) (\<lambda>_. [])
      (flag_defaults (\<lambda>_. [])) demo_console_flags (wait_redis mem_call 1 0 0 (\<lambda>_. 0) (\<lambda>_. False) (\<lambda>_. False)) True ''t'' False 0 demo2"
  obtain r w' where run: "?c = (r, w')" by (metis surj_pair)
  have "mem_view (n_db w') ''tq:payloads'' = mem_view (n_db demo2) ''tq:payloads''"
    using console_resets_only_demo [OF demo_redis run] by (fastforce simp: demo_prefix_def)
  moreover have "kf_demo demo_console_flags"
    by (simp add: demo_console_flags_def)
  ultimately show ?thesis using run by auto
qed

end
