(* ===== verification/WorkerProps.thy ===== *)
theory WorkerProps
  imports Worker
begin

text \<open>
  Bounds and termination of the loops around the broker: the work of a task is cut into chunks that add up to it, and waiting
  for Redis ends, with waits that double up to a bound.
\<close>

lemma burn_chunks_sum: "sum_list (burn_chunks n d) = max 0 (n - d)"
  by (induction n d rule: burn_chunks.induct) (subst burn_chunks.simps, auto)

lemma burn_chunks_size: "c \<in> set (burn_chunks n d) \<Longrightarrow> 1 \<le> c \<and> c \<le> 2000"
  by (induction n d rule: burn_chunks.induct) (subst (asm) (2) burn_chunks.simps, auto split: if_splits)

text \<open>
  Simulated CPU work is neither lost nor unbounded between two looks at the context: the chunks add up to the calibrated
  number of iterations, each of at least 1 and at most 2000.
\<close>

theorem burn_chunks_cover:
  "sum_list (burn_chunks n 0) = max 0 n \<and> list_all (\<lambda>c. 1 \<le> c \<and> c \<le> 2000) (burn_chunks n 0)"
  using burn_chunks_sum [of n 0] burn_chunks_size [of _ n 0] by (auto simp: list_all_iff)

definition backoff_ok :: "duration \<Rightarrow> bool" where
  "backoff_ok d \<longleftrightarrow> 100 * millisecond \<le> d \<and> d \<le> max_backoff"

lemma next_backoff_ok: "backoff_ok d \<Longrightarrow> backoff_ok (next_backoff d) \<and> d \<le> next_backoff d"
  by (auto simp: backoff_ok_def next_backoff_def max_backoff_def millisecond_def second_def)

lemma wait_loop_ends:
  assumes "attempt \<le> n" "n < attempt + fuel" "deadline < clock n" "backoff_ok d"
  shows "case wait_loop call fuel deadline clock ended ended_waiting attempt d w of
    (r, ds, _) \<Rightarrow> r \<noteq> OutOfFuel \<and> list_all backoff_ok ds \<and> sorted (d # ds) \<and> length ds \<le> n - attempt"
  using assms
proof (induction fuel arbitrary: attempt d w)
  case (Suc fuel)
  show ?case
  proof (cases "attempt = n")
    case True
    then show ?thesis using Suc.prems(3) by (auto split: prod.splits sum.splits)
  next
    case False
    then have n: "Suc attempt \<le> n" "n < Suc attempt + fuel"
      using Suc.prems(1,2) by simp_all
    note b = next_backoff_ok [OF Suc.prems(4)]
    obtain x w1 where s: "send (rcall call PING) w = (x, w1)"
      by (metis surj_pair)
    obtain r ds w2 where l: "wait_loop call fuel deadline clock ended ended_waiting (Suc attempt) (next_backoff d) w1 = (r, ds, w2)"
      by (metis surj_pair)
    have "r \<noteq> OutOfFuel" "list_all backoff_ok ds" "sorted (next_backoff d # ds)" "length ds \<le> n - Suc attempt"
      using Suc.IH [OF n Suc.prems(3) conjunct1 [OF b], of w1] l by simp_all
    then show ?thesis
      using s l b Suc.prems(4) n by (cases x) auto
  qed
qed simp

text \<open>
  Waiting for Redis ends. Once the clock passes the deadline at some attempt, the wait returns by then (reachable, timed
  out or interrupted), never earlier by running out of attempts; every pause is between 100 ms and 3 s, and none is shorter
  than the one before.
\<close>

theorem wait_ready_ends:
  assumes "0 < timeout" "1 \<le> n" "n \<le> fuel" "start + timeout < clock n"
  shows "case wait_ready call fuel timeout start clock ended ended_waiting w of
    (r, ds, _) \<Rightarrow> r \<noteq> OutOfFuel \<and> list_all backoff_ok ds \<and> sorted ds \<and> length ds < n"
proof -
  have "backoff_ok (100 * millisecond)"
    by (simp add: backoff_ok_def max_backoff_def millisecond_def second_def)
  from wait_loop_ends [where attempt = 1 and n = n and fuel = fuel and deadline = "start + timeout" and clock = clock and d = "100 * millisecond", OF _ _ assms(4) this, of call ended ended_waiting w]
  show ?thesis using assms by (auto simp: wait_ready_def split: prod.splits)
qed

theorem wait_ready_ends_witness:
  "case wait_ready (\<lambda>c s. (RErr ''down'', s)) 5 (2 * second) 0 (\<lambda>n. int n * second) (\<lambda>n. False) (\<lambda>n. False) \<lparr>n_faults = [], n_db = ()\<rparr> of
    (r, ds, _) \<Rightarrow> r \<noteq> OutOfFuel \<and> list_all backoff_ok ds \<and> sorted ds \<and> length ds < 3"
  by (rule wait_ready_ends [where n = 3]) (simp_all add: second_def)

end
