(* ===== verification/Spec2Isabelle.thy ===== *)
theory Spec2Isabelle
  imports BenchProps BrokerTheorems ConfigProps ConsoleProps Loops NetfaultProps PartitionProps PolicyProps PollProps Progress ServerProps StoreProps SubmitterProps SupervisorProps ToolsProps WorkerProps WorkloadProps
begin

text \<open>
  A model in higher-order logic of the distributed task queue scheduler, a Go program (\<open>src/\<close>), with the properties that
  make it correct.

  \<^bold>\<open>The program.\<close> Producers append tasks to an ingress stream in Redis. One elected scheduler reads the ingress, ranks every
  task with a policy (fifo, priority, edf or weighted fair queuing), admits it to a pending sorted set, and dispatches from
  that set to an execution stream, never with more than \<open>max_inflight\<close> tasks out. Workers read the execution stream through a
  consumer group, run the task, and report completion or failure; a recovery loop claims the deliveries of dead workers.
  All state is in Redis and changes through five Lua scripts; a lease elects the scheduler, and its epoch is a fence that
  the scripts check.

  \<^bold>\<open>The theories\<close>, in the order of the code they model:

    \<^item> \<open>Prelude\<close>: shared types and lemmas; \<open>error + 'a\<close> results, maps, decimal text of integers, saturating 64-bit integers.
    \<^item> \<open>Float64\<close>: Go's \<open>float64\<close>, as far as the policies use it: rationals rounded to 53 bits to nearest even, infinities, NaN.
    \<^item> \<open>Domain\<close> (\<open>internal/domain\<close>): tasks, results, dead letters, \<open>Validate\<close>, derived times, their JSON text. A JSON text is the value
      it serialises; what the encoder does with a value outside the range of \<open>time.Time\<close> is not modelled.
    \<^item> \<open>GoHeap\<close>: \<open>container/heap\<close> of the standard library (\<open>up\<close>, \<open>down\<close>, \<open>Push\<close>, \<open>Pop\<close>), with the heap property for any strict weak order.
    \<^item> \<open>Policy\<close>, \<open>Wfq\<close>, \<open>Queue\<close>, \<open>PolicyProps\<close> (\<open>internal/scheduler/{policy,fifo,priority,edf,wfq}\<close>): keys and their order, the four policies,
      the in-memory queue. The locale \<open>ranking\<close> in \<open>Queue\<close> is what the queue asks of a policy.
    \<^item> \<open>Redis\<close>: the vocabulary of the Redis the program talks to: commands, replies, values. The server itself is not under \<open>src/\<close>: it is
      a parameter \<open>call\<close> of every definition that talks to it, with a \<open>view\<close> of its contents, and the predicate \<open>redis call view\<close> states
      the documented meaning of the commands the program uses. \<open>MemRedis\<close> is one server that meets it; the witnesses run on it.
      \<open>RedisRules\<close> turns the predicate into rewrite rules.
    \<^item> \<open>Keys\<close> (\<open>internal/broker/keys.go\<close>), \<open>Scripts\<close> (\<open>internal/broker/scripts.go\<close>): the key names, the five Lua scripts command by command.
    \<^item> \<open>QueueSpec\<close>: the abstract queue, a record of payloads, pending set, stream, counters and fence, with one operation per script.
      \<open>QueueStore\<close>: the locale \<open>queue_store\<close>, and the refinement of every operation by its script over any Redis that keeps its laws.
    \<^item> \<open>Broker\<close>, \<open>BrokerQueries\<close> (\<open>internal/broker/broker.go\<close>): the client side. A request goes over a network that may lose it before the
      server or lose the reply (\<open>fate\<close>), and the client may send it again; a result distinguishes the two from an error reply.
    \<^item> \<open>QueueInv\<close>: the invariants of the abstract queue. \<open>BrokerSteps\<close>, \<open>BrokerProps\<close>, \<open>BrokerTheorems\<close>: what each request of the client does to it.
    \<^item> \<open>Progress\<close>: the queue is never stuck, by a sequence of requests that brings each task to its end.
    \<^item> \<open>Loops\<close>, \<open>WorkerProps\<close>, \<open>ConfigProps\<close>: the loops stay inside the reachable states; chunks and waits are bounded; configurations.
    \<^item> \<open>Lease\<close>, \<open>LeaseProps\<close> (\<open>internal/lease\<close>): acquire, renew, release, a term, the campaign. \<open>Config\<close> (\<open>internal/config\<close>): defaults and validation.
    \<^item> \<open>Engine\<close> (\<open>internal/scheduler/engine.go\<close>), \<open>Worker\<close> (\<open>internal/worker\<close>, \<open>internal/recovery\<close>): the passes of the loops.
    \<^item> \<open>Workload\<close>, \<open>WorkloadProps\<close> (\<open>internal/workload\<close>): plans drawn from a seed, offered load, the collision check, the producer.
    \<^item> \<open>BenchStats\<close> (\<open>internal/bench/{stats,tenant,summary}.go\<close>): percentiles, fairness, the tenant table, the summary of a run. \<open>BenchRun\<close>
      (\<open>runner.go\<close>): options, the matrix, one experiment, the loops that wait and collect; \<open>BenchCsv\<close> (\<open>csv.go\<close>): the rows; \<open>BenchProps\<close>: collecting
      ends and is complete, the record of a run, the types of the columns.
    \<^item> \<open>FaultBench\<close>, \<open>FaultProps\<close> (\<open>cmd/failoverbench\<close>): what the failover benchmark waits for and how it reads a trial back from the queue.
      \<open>GoText\<close> holds the functions of Go's \<open>strings\<close> and \<open>strconv\<close> they use. \<open>PartitionBench\<close>, \<open>PartitionProps\<close> (\<open>cmd/partitionbench\<close>): sweeps, repeated
      cuts, the end of a trial. \<open>StoreBench\<close>, \<open>StoreProps\<close> (\<open>cmd/storefaultbench/main.go\<close>): the watch on the epochs, what it counts as lost.
    \<^item> \<open>Netfault\<close>, \<open>NetfaultProps\<close> (\<open>internal/netfault/proxy.go\<close>): the proxy whose path is cut, its goroutines interleaved step by step
      (\<open>proxy_step\<close>); a cut path is silent, and bytes are relayed in order. The host clock (\<open>internal/hostclock\<close>) is in \<open>FaultBench\<close>.
    \<^item> \<open>Console\<close>, \<open>ConsoleProps\<close> (\<open>internal/console/{dispatch,tenants,telemetry,events}.go\<close>): the dispatch and tenant windows, probes, the
      event log. \<open>ConsolePoll\<close>, \<open>PollProps\<close> (\<open>console.go\<close>, \<open>events.go\<close>): a poll, its snapshot, history and events.
    \<^item> \<open>Supervisor\<close>, \<open>SupervisorProps\<close> (\<open>internal/console/supervisor.go\<close>): the demo cluster's processes, the faults injected into them and
      how they end, as the step relation \<open>cluster\<close>.
    \<^item> \<open>Submitter\<close>, \<open>SubmitterProps\<close> (\<open>internal/console/workload.go\<close>): the preset submissions, each critical section a step, so that requests
      interleave (\<open>submitting\<close>). \<open>Server\<close>, \<open>ServerProps\<close> (\<open>server.go\<close>): the checks and handlers of the HTTP layer over the console, the
      supervisor and the submitter.
    \<^item> \<open>Cli\<close> (\<open>internal/cli\<close>, \<open>cmd/{scheduler,worker,producer,benchmark}\<close>): how flags override the configuration and what each program builds
      from it. \<open>Tools\<close>, \<open>ToolsProps\<close> (\<open>cmd/tqctl\<close>, \<open>cmd/console\<close>): the inspection tool and the start of the console; what is accepted can be
      built, and only what was asked for is reset.
    \<^item> \<open>System\<close>: the step relation of the whole, \<open>wstep\<close>, in which producers, schedulers of any epoch, workers, recovery loops and lease
      holders send requests in any order, and the invariant of every reachable state. \<open>Demo\<close> is a small concrete run.

  \<^bold>\<open>The properties\<close> span these parts: in every reachable state no accepted task is lost, the accounting is exact, a task has at most
  one result and the dispatch epochs never go back; then the broker's requests one by one under every fate of the network, the
  lease, the order each policy serves in, the loops, construction and validation, the generator and the producer, and what the
  console shows of the queue and does to its cluster; last, whether the benchmarks that inject faults report what is true of the queue.

  \<^bold>\<open>Numbers.\<close> Go's \<open>int64\<close> are integers cut back to their range where the code can overflow (\<open>i64\<close>). Lua numbers are \<open>float64\<close>; counters are
  exact to \<open>2 ^ 53\<close>, and the properties that compare them say so.

  \<^bold>\<open>Loops.\<close> The loops of a batch recurse on the batch. \<open>WaitReady\<close>, a term and the campaign run until an event stops them: they take the
  sequence of events their \<open>select\<close> receives, and recurse on it. The benchmark's collecting loop has no bound of its own: it is a partial
  function, proved to end on every reachable queue. The dispatch script's loop recurses on its bound \<open>max\<close>.

  \<^bold>\<open>Not modelled\<close>: Redis and its client library beyond the documented meaning of the commands; goroutines (loops are passes in an arbitrary
  order, a superset of the schedules); metrics registration, the reading of Prometheus text, HTTP parsing and routing below the router's
  patterns, JSON decoding of requests, YAML reading, the flag parser, the quoting of CSV fields and writing of files, the sockets below the
  proxy's reads and writes, and the starting and signalling of the processes a benchmark measures. What the components of a benchmark experiment do to the queue while it runs is
  any function of its state.
\<close>

section \<open>Every reachable state\<close>





text \<open>
  C4: at most one result per task. In every reachable state the results stream holds no two results of one task,
  and every result's task is recorded terminal, however often workers and the recovery loop report it.
\<close>

theorem results_once:
  assumes "redis call view" "keys_ok (b_keys b)" "reach call view b w H"
  shows "distinct (result_ids (queue_at view b w)) \<and> set (result_ids (queue_at view b w)) \<subseteq> dom (q_done (queue_at view b w))"
  using reach_winv [OF assms] by (simp add: winv_def world_of_def inv_results_def)

theorem results_once_witness:
  "\<exists>w H. reach mem_call mem_view demo_broker w H \<and> H \<noteq> {} \<and> distinct (result_ids (queue_at mem_view demo_broker w))"
  using results_once [OF demo_redis demo_keys demo3_reach] demo3_reach by force

text \<open>
  C2: one dispatcher at a time. In every reachable state the epochs stamped on the execution stream never decrease along the
  stream, and none exceeds the fence: once an epoch has written, no smaller one appends.
\<close>

theorem dispatch_epochs_sorted:
  assumes "redis call view" "keys_ok (b_keys b)" "reach call view b w H"
  shows "sorted (log_epochs (queue_at view b w)) \<and>
    (\<forall>n \<in> set (log_epochs (queue_at view b w)). n \<le> lua_number (q_fence (queue_at view b w)))"
  using reach_winv [OF assms] by (simp add: winv_def world_of_def inv_epochs_def)

theorem dispatch_epochs_sorted_witness:
  "\<exists>w H. reach mem_call mem_view demo_broker w H \<and> H \<noteq> {} \<and> sorted (log_epochs (queue_at mem_view demo_broker w))"
  using dispatch_epochs_sorted [OF demo_redis demo_keys demo3_reach] demo3_reach by force

end
